(* ===== verification/Prelude.thy ===== *)
theory Prelude
  imports Main "HOL-Library.Word" "HOL-Library.Sublist"
begin

text \<open>
  Shared ground of the development: the collections of simplification rules, the machine
  integer types, and the functions of the Rust standard library the sources use on strings.
  A Rust \<open>str\<close> or \<open>[u8]\<close> is a \<open>string\<close>, one \<open>char\<close> per byte of its UTF-8 encoding, so
  \<open>length\<close> is \<open>str::len\<close>. Rust's \<open>char::is_whitespace\<close> is the Unicode property
  \<open>White_Space\<close>; its code points are listed by their UTF-8 encodings.
\<close>

named_theorems rust_str "characteristic equations of the Rust string functions"

type_synonym u8 = "8 word"
type_synonym u32 = "32 word"
type_synonym u64 = "64 word"

section \<open>Options and results\<close>

text \<open>\<open>Result<T, E>\<close> is \<open>'e + 'a\<close> with \<open>Inl\<close> the error. \<open>collect\<close> is
  \<open>collect::<Result<Vec<_>, _>>()\<close>: the first error, or every value in order.\<close>

fun result_collect :: "('e + 'a) list \<Rightarrow> 'e + 'a list" where
  "result_collect [] = Inr []"
| "result_collect (Inl e # rs) = Inl e"
| "result_collect (Inr x # rs) = (case result_collect rs of Inl e \<Rightarrow> Inl e | Inr xs \<Rightarrow> Inr (x # xs))"

lemma result_collect_Inr [simp]: "result_collect (map Inr xs) = Inr xs"
  by (induction xs) auto

lemma result_collect_Inr_iff: "result_collect rs = Inr xs \<longleftrightarrow> rs = map Inr xs"
proof (induction rs arbitrary: xs)
  case Nil
  then show ?case by auto
next
  case (Cons r rs)
  then show ?case
    by (cases r) (auto split: sum.splits)
qed

lemma result_collect_Inl_mem: "result_collect rs = Inl e \<Longrightarrow> Inl e \<in> set rs"
proof (induction rs)
  case (Cons r rs)
  then show ?case by (cases r) (auto split: sum.splits)
qed simp

lemma map_filter_append [simp]: "List.map_filter f (xs @ ys) = List.map_filter f xs @ List.map_filter f ys"
  by (simp add: List.map_filter_def)

section \<open>Decimal numbers\<close>

definition is_ascii_digit :: "char \<Rightarrow> bool" where
  "is_ascii_digit c \<longleftrightarrow> c \<in> set ''0123456789''"

definition digit_val :: "char \<Rightarrow> nat" where
  "digit_val c = of_char c - 48"

definition digit_char :: "nat \<Rightarrow> char" where
  "digit_char d = ''0123456789'' ! d"

lemma less_10_cases:
  fixes d :: nat
  assumes "d < 10"
  obtains "d = 0" | "d = 1" | "d = 2" | "d = 3" | "d = 4" | "d = 5" | "d = 6" | "d = 7" | "d = 8" | "d = 9"
proof -
  have "d = 0 \<or> d = 1 \<or> d = 2 \<or> d = 3 \<or> d = 4 \<or> d = 5 \<or> d = 6 \<or> d = 7 \<or> d = 8 \<or> d = 9"
    using assms by arith
  with that show ?thesis by blast
qed

lemma digit_char_digit [simp]: "d < 10 \<Longrightarrow> is_ascii_digit (digit_char d)"
  by (erule less_10_cases) (simp_all add: digit_char_def is_ascii_digit_def)

lemma digit_val_char [simp]: "d < 10 \<Longrightarrow> digit_val (digit_char d) = d"
  by (erule less_10_cases) (simp_all add: digit_char_def digit_val_def)

lemma digit_char_eq_0 [simp]: "d < 10 \<Longrightarrow> digit_char d = CHR ''0'' \<longleftrightarrow> d = 0"
  by (erule less_10_cases) (simp_all add: digit_char_def)

lemma is_ascii_digit_not_sign [simp]: "\<not> is_ascii_digit (CHR ''-'')" "\<not> is_ascii_digit (CHR ''+'')"
  by (simp_all add: is_ascii_digit_def)

fun show_nat :: "nat \<Rightarrow> string" where
  "show_nat n = (if n < 10 then [digit_char n] else show_nat (n div 10) @ [digit_char (n mod 10)])"

declare show_nat.simps [simp del]

definition show_int :: "int \<Rightarrow> string" where
  "show_int i = (if i < 0 then CHR ''-'' # show_nat (nat (- i)) else show_nat (nat i))"

definition digits_val :: "string \<Rightarrow> nat" where
  "digits_val s = foldl (\<lambda>n c. 10 * n + digit_val c) 0 s"

lemma digits_val_append [simp]: "digits_val (s @ [c]) = 10 * digits_val s + digit_val c"
  by (simp add: digits_val_def)

lemma show_nat_not_Nil [simp]: "show_nat n \<noteq> []"
  by (subst show_nat.simps) simp

lemma show_nat_digits: "\<forall>c \<in> set (show_nat n). is_ascii_digit c"
proof (induction n rule: show_nat.induct)
  case (1 n)
  show ?case
  proof (cases "n < 10")
    case False
    with 1 show ?thesis by (subst show_nat.simps) auto
  qed (subst show_nat.simps, simp)
qed

lemma digits_val_show_nat [simp]: "digits_val (show_nat n) = n"
proof (induction n rule: show_nat.induct)
  case (1 n)
  show ?case
  proof (cases "n < 10")
    case True
    then show ?thesis by (subst show_nat.simps) (simp add: digits_val_def)
  next
    case False
    with 1 show ?thesis by (subst show_nat.simps) simp
  qed
qed

lemma show_nat_hd: "hd (show_nat n) = CHR ''0'' \<longleftrightarrow> n = 0"
proof (induction n rule: show_nat.induct)
  case (1 n)
  show ?case
  proof (cases "n < 10")
    case True
    then show ?thesis by (subst show_nat.simps) simp
  next
    case False
    with 1 show ?thesis by (subst show_nat.simps) (simp add: div_eq_0_iff)
  qed
qed

lemma show_nat_inj [simp]: "show_nat m = show_nat n \<longleftrightarrow> m = n"
  by (metis digits_val_show_nat)

lemma show_nat_hd_digit: "is_ascii_digit (hd (show_nat n))"
  using show_nat_digits [of n] by (cases "show_nat n") auto

lemma show_nat_not_sign: "show_nat n \<noteq> CHR ''-'' # s" "show_nat n \<noteq> CHR ''+'' # s"
  using show_nat_hd_digit [of n] by auto

lemma show_int_inj [simp]: "show_int i = show_int j \<longleftrightarrow> i = j"
  using show_nat_not_sign(1) show_nat_not_sign(1) [symmetric]
  by (cases "i < 0"; cases "j < 0") (auto simp: show_int_def)

definition i64_min :: int where "i64_min = - (2 ^ 63)"
definition i64_max :: int where "i64_max = 2 ^ 63 - 1"

definition in_i64 :: "int \<Rightarrow> bool" where
  "in_i64 i \<longleftrightarrow> i64_min \<le> i \<and> i \<le> i64_max"

lemmas i64_defs = i64_min_def i64_max_def in_i64_def

text \<open>\<open>i64::from_str\<close>: an optional sign, then at least one digit and nothing else; \<open>None\<close>
  stands for every \<open>ParseIntError\<close> (empty, invalid digit, overflow).\<close>

definition i64_from_str :: "string \<Rightarrow> int option" where
  "i64_from_str s =
     (let (neg, ds) = (case s of
          [] \<Rightarrow> (False, [])
        | c # cs \<Rightarrow> if c = CHR ''-'' then (True, cs) else if c = CHR ''+'' then (False, cs) else (False, s))
      in if ds = [] \<or> \<not> list_all is_ascii_digit ds then None
         else let n = (if neg then - int (digits_val ds) else int (digits_val ds))
              in if in_i64 n then Some n else None)"

lemma i64_from_str_show_int: "i64_from_str (show_int i) = (if in_i64 i then Some i else None)"
proof (cases "i < 0")
  case True
  then show ?thesis
    using show_nat_digits [of "nat (- i)"]
    by (auto simp: i64_from_str_def show_int_def list_all_iff)
next
  case False
  obtain c cs where s: "show_nat (nat i) = c # cs"
    by (cases "show_nat (nat i)") auto
  with show_nat_not_sign [of "nat i"] have "c \<noteq> CHR ''-''" "c \<noteq> CHR ''+''" by auto
  with False s show ?thesis
    using show_nat_digits [of "nat i"] digits_val_show_nat [of "nat i"]
    by (auto simp: i64_from_str_def show_int_def list_all_iff)
qed

lemma i64_from_str_range: "i64_from_str s = Some n \<Longrightarrow> in_i64 n"
  by (auto simp: i64_from_str_def Let_def split: if_splits prod.splits)

section \<open>Rust string functions\<close>

text \<open>\<open>str::strip_prefix\<close>, \<open>str::starts_with\<close>, \<open>str::contains\<close>.\<close>

definition strip_prefix :: "string \<Rightarrow> string \<Rightarrow> string option" where
  "strip_prefix p s = (if prefix p s then Some (drop (length p) s) else None)"

lemma strip_prefix_append [simp, rust_str]: "strip_prefix p (p @ s) = Some s"
  by (simp add: strip_prefix_def)

lemma strip_prefix_Some_iff [rust_str]: "strip_prefix p s = Some r \<longleftrightarrow> s = p @ r"
  by (auto simp: strip_prefix_def prefix_def)

lemma strip_prefix_None_iff [rust_str]: "strip_prefix p s = None \<longleftrightarrow> \<not> prefix p s"
  by (simp add: strip_prefix_def)

definition str_contains :: "string \<Rightarrow> string \<Rightarrow> bool" where
  "str_contains s p \<longleftrightarrow> sublist p s"

text \<open>\<open>str::find\<close> with a one-byte character and with a string, and \<open>str::rfind\<close>: byte offsets.\<close>

fun find_char :: "char \<Rightarrow> string \<Rightarrow> nat option" where
  "find_char c [] = None"
| "find_char c (x # xs) = (if x = c then Some 0 else map_option Suc (find_char c xs))"

fun find_str :: "string \<Rightarrow> string \<Rightarrow> nat option" where
  "find_str p [] = (if p = [] then Some 0 else None)"
| "find_str p (x # xs) = (if prefix p (x # xs) then Some 0 else map_option Suc (find_str p xs))"

definition rfind_char :: "char \<Rightarrow> string \<Rightarrow> nat option" where
  "rfind_char c s = map_option (\<lambda>i. length s - Suc i) (find_char c (rev s))"

lemma find_char_None_iff [rust_str]: "find_char c s = None \<longleftrightarrow> c \<notin> set s"
  by (induction s) auto

lemma find_char_Some_iff [rust_str]:
  "find_char c s = Some i \<longleftrightarrow> i < length s \<and> s ! i = c \<and> c \<notin> set (take i s)"
proof (induction s arbitrary: i)
  case (Cons x xs)
  then show ?case by (cases i) auto
qed simp

lemma find_char_append [rust_str]: "c \<notin> set p \<Longrightarrow> find_char c (p @ c # s) = Some (length p)"
  by (induction p) auto

lemma find_str_Some_split [rust_str]:
  "find_str p s = Some i \<Longrightarrow> s = take i s @ p @ drop (i + length p) s"
proof (induction s arbitrary: i)
  case (Cons x xs)
  show ?case
  proof (cases "prefix p (x # xs)")
    case True
    with Cons.prems show ?thesis by (auto simp: prefix_def)
  next
    case False
    with Cons.prems obtain j where "i = Suc j" "find_str p xs = Some j" by auto
    with Cons.IH [of j] show ?thesis by simp
  qed
qed (auto split: if_splits)

lemma rfind_char_None_iff [rust_str]: "rfind_char c s = None \<longleftrightarrow> c \<notin> set s"
  by (simp add: rfind_char_def find_char_None_iff)

lemma rfind_char_append [rust_str]: "c \<notin> set s \<Longrightarrow> rfind_char c (p @ c # s) = Some (length p)"
  using find_char_append [of c "rev s" "rev p"] by (simp add: rfind_char_def)

text \<open>\<open>str::split\<close> on a one-byte character and on a non-empty string; \<open>join\<close>.\<close>

fun split_char :: "char \<Rightarrow> string \<Rightarrow> string list" where
  "split_char c [] = [[]]"
| "split_char c (x # xs) =
     (if x = c then [] # split_char c xs
      else case split_char c xs of [] \<Rightarrow> [[x]] | w # ws \<Rightarrow> (x # w) # ws)"

fun join :: "string \<Rightarrow> string list \<Rightarrow> string" where
  "join sep [] = []"
| "join sep [w] = w"
| "join sep (w # ws) = w @ sep @ join sep ws"

lemma join_Cons [rust_str]: "ws \<noteq> [] \<Longrightarrow> join sep (w # ws) = w @ sep @ join sep ws"
  by (cases ws) auto

lemma join_Cons_char [simp]: "join sep ((x # w) # ws) = x # join sep (w # ws)"
  by (cases ws) auto

lemma split_char_not_Nil [simp]: "split_char c s \<noteq> []"
  by (cases s) (auto split: list.splits)

lemma join_split_char [simp, rust_str]: "join [c] (split_char c s) = s"
proof (induction s)
  case (Cons x xs)
  then show ?case
    by (cases "split_char c xs") (auto simp: join_Cons neq_Nil_conv)
qed simp

lemma split_char_no_sep: "\<forall>w \<in> set (split_char c s). c \<notin> set w"
  by (induction s) (auto split: list.splits)

lemma split_char_append [rust_str]: "c \<notin> set w \<Longrightarrow> split_char c (w @ c # s) = w # split_char c s"
  by (induction w) auto

lemma split_char_single [rust_str]: "c \<notin> set w \<Longrightarrow> split_char c w = [w]"
  by (induction w) auto

lemma split_char_join [rust_str]:
  "ws \<noteq> [] \<Longrightarrow> \<forall>w \<in> set ws. c \<notin> set w \<Longrightarrow> split_char c (join [c] ws) = ws"
proof (induction ws)
  case (Cons w ws)
  then show ?case
    by (cases "ws = []") (auto simp: join_Cons split_char_append split_char_single)
qed simp

text \<open>\<open>str::lines\<close> and \<open>BufRead::lines\<close>: split at \<open>\\n\<close>, without the empty piece after a final one, a
  trailing \<open>\\r\<close> removed from each line that \<open>\\n\<close> ends.\<close>

definition strip_cr :: "string \<Rightarrow> string" where
  "strip_cr l = (if l \<noteq> [] \<and> last l = CHR 0x0D then butlast l else l)"

definition str_lines :: "string \<Rightarrow> string list" where
  "str_lines s = (let ps = split_char (CHR 0x0A) s
                  in map strip_cr (butlast ps) @ (if last ps = [] then [] else [last ps]))"

text \<open>\<open>str::replace\<close> of a one-byte character.\<close>

definition replace_char :: "char \<Rightarrow> string \<Rightarrow> string \<Rightarrow> string" where
  "replace_char c r s = concat (map (\<lambda>x. if x = c then r else [x]) s)"

lemma replace_char_append [rust_str]:
  "replace_char c r (s @ t) = replace_char c r s @ replace_char c r t"
  by (simp add: replace_char_def)

lemma replace_char_simps [rust_str]:
  "replace_char c r [] = []"
  "replace_char c r (x # s) = (if x = c then r else [x]) @ replace_char c r s"
  by (simp_all add: replace_char_def)

lemma replace_char_id [rust_str]: "c \<notin> set s \<Longrightarrow> replace_char c r s = s"
  by (induction s) (auto simp: replace_char_simps)

text \<open>\<open>str::trim_end_matches\<close> of a one-byte character.\<close>

definition trim_end_matches :: "char \<Rightarrow> string \<Rightarrow> string" where
  "trim_end_matches c s = rev (dropWhile (\<lambda>x. x = c) (rev s))"

lemma trim_end_matches_snoc [rust_str]:
  "trim_end_matches c (s @ [x]) = (if x = c then trim_end_matches c s else s @ [x])"
  by (simp add: trim_end_matches_def)

lemma trim_end_matches_Nil [simp]: "trim_end_matches c [] = []"
  by (simp add: trim_end_matches_def)

subsection \<open>Whitespace\<close>

definition ws_codes :: "string list" where
  "ws_codes =
     [[CHR 0x20], [CHR 0x0A], [CHR 0x09], [CHR 0x0B], [CHR 0x0C], [CHR 0x0D],
      [CHR 0xC2, CHR 0x85], [CHR 0xC2, CHR 0xA0], [CHR 0xE1, CHR 0x9A, CHR 0x80],
      [CHR 0xE2, CHR 0x80, CHR 0x80], [CHR 0xE2, CHR 0x80, CHR 0x81], [CHR 0xE2, CHR 0x80, CHR 0x82],
      [CHR 0xE2, CHR 0x80, CHR 0x83], [CHR 0xE2, CHR 0x80, CHR 0x84], [CHR 0xE2, CHR 0x80, CHR 0x85],
      [CHR 0xE2, CHR 0x80, CHR 0x86], [CHR 0xE2, CHR 0x80, CHR 0x87], [CHR 0xE2, CHR 0x80, CHR 0x88],
      [CHR 0xE2, CHR 0x80, CHR 0x89], [CHR 0xE2, CHR 0x80, CHR 0x8A], [CHR 0xE2, CHR 0x80, CHR 0xA8],
      [CHR 0xE2, CHR 0x80, CHR 0xA9], [CHR 0xE2, CHR 0x80, CHR 0xAF], [CHR 0xE2, CHR 0x81, CHR 0x9F],
      [CHR 0xE3, CHR 0x80, CHR 0x80]]"

definition ws_head :: "string \<Rightarrow> string option" where
  "ws_head s = find (\<lambda>w. prefix w s) ws_codes"

definition ws_last :: "string \<Rightarrow> string option" where
  "ws_last s = find (\<lambda>w. suffix w s) ws_codes"

lemma ws_codes_not_Nil: "w \<in> set ws_codes \<Longrightarrow> w \<noteq> []"
  by (auto simp: ws_codes_def)

lemma ws_head_Some: "ws_head s = Some w \<Longrightarrow> w \<in> set ws_codes \<and> prefix w s"
  by (auto simp: ws_head_def find_Some_iff in_set_conv_nth)

lemma ws_last_Some: "ws_last s = Some w \<Longrightarrow> w \<in> set ws_codes \<and> suffix w s"
  by (auto simp: ws_last_def find_Some_iff in_set_conv_nth)

lemma ws_head_shorter: "ws_head s = Some w \<Longrightarrow> length s - length w < length s"
  using ws_head_Some [of s w] ws_codes_not_Nil [of w] by (auto simp: prefix_def)

lemma ws_last_shorter: "ws_last s = Some w \<Longrightarrow> length s - length w < length s"
  using ws_last_Some [of s w] ws_codes_not_Nil [of w] by (auto simp: suffix_def)

function trim_start :: "string \<Rightarrow> string" where
  "trim_start s = (case ws_head s of None \<Rightarrow> s | Some w \<Rightarrow> trim_start (drop (length w) s))"
  by pat_completeness auto
termination
  by (relation "measure length") (auto dest: ws_head_shorter)

function trim_end :: "string \<Rightarrow> string" where
  "trim_end s = (case ws_last s of None \<Rightarrow> s | Some w \<Rightarrow> trim_end (take (length s - length w) s))"
  by pat_completeness auto
termination
  by (relation "measure length") (auto dest: ws_last_shorter)

declare trim_start.simps [simp del] trim_end.simps [simp del]

definition trim :: "string \<Rightarrow> string" where
  "trim s = trim_end (trim_start s)"

definition all_whitespace :: "string \<Rightarrow> bool" where
  "all_whitespace s \<longleftrightarrow> trim_start s = []"

lemma trim_start_suffix: "suffix (trim_start s) s"
proof (induction s rule: trim_start.induct)
  case (1 s)
  show ?case
  proof (cases "ws_head s")
    case None
    then show ?thesis by (simp add: trim_start.simps [of s])
  next
    case (Some w)
    with 1 have "suffix (trim_start (drop (length w) s)) (drop (length w) s)" by simp
    then show ?thesis
      using Some suffix_drop suffix_order.trans by (fastforce simp: trim_start.simps [of s])
  qed
qed

lemma trim_end_prefix: "prefix (trim_end s) s"
proof (induction s rule: trim_end.induct)
  case (1 s)
  show ?case
  proof (cases "ws_last s")
    case None
    then show ?thesis by (simp add: trim_end.simps [of s])
  next
    case (Some w)
    with 1 have "prefix (trim_end (take (length s - length w) s)) (take (length s - length w) s)" by simp
    then show ?thesis
      using Some take_is_prefix prefix_order.trans by (fastforce simp: trim_end.simps [of s])
  qed
qed

lemma trim_start_stops: "ws_head (trim_start s) = None"
proof (induction s rule: trim_start.induct)
  case (1 s)
  then show ?case
    by (cases "ws_head s") (simp_all add: trim_start.simps [of s])
qed

lemma trim_start_id [rust_str]: "ws_head s = None \<Longrightarrow> trim_start s = s"
  by (simp add: trim_start.simps [of s])

lemma trim_end_id [rust_str]: "ws_last s = None \<Longrightarrow> trim_end s = s"
  by (simp add: trim_end.simps [of s])

lemma trim_start_idem [simp]: "trim_start (trim_start s) = trim_start s"
  by (rule trim_start_id) (rule trim_start_stops)

lemma ws_head_Nil [simp]: "ws_head [] = None"
  by (auto simp: ws_head_def find_None_iff ws_codes_def)

lemma trim_Nil [simp]: "trim_start [] = []" "trim_end [] = []" "trim [] = []"
proof -
  show s: "trim_start [] = []" by (simp add: trim_start_id)
  show e: "trim_end [] = []" using trim_end_prefix [of "[]"] by simp
  from s e show "trim [] = []" by (simp add: trim_def)
qed

lemma trim_start_space [simp]: "trim_start (CHR '' '' # s) = trim_start s"
proof -
  have "ws_head (CHR '' '' # s) = Some [CHR '' '']"
    by (simp add: ws_head_def ws_codes_def)
  then show ?thesis by (simp add: trim_start.simps [of "CHR '' '' # s"])
qed

text \<open>\<open>str::split_whitespace().next()\<close>: the longest prefix of \<open>trim_start s\<close> with no
  whitespace in it.\<close>

fun take_non_ws :: "string \<Rightarrow> string" where
  "take_non_ws [] = []"
| "take_non_ws (x # xs) = (if ws_head (x # xs) = None then x # take_non_ws xs else [])"

definition first_word :: "string \<Rightarrow> string option" where
  "first_word s = (let t = trim_start s in if t = [] then None else Some (take_non_ws t))"

text \<open>\<open>u8::to_ascii_lowercase\<close>, \<open>to_ascii_uppercase\<close> and \<open>is_ascii_whitespace\<close>.\<close>

definition ascii_lower :: "char \<Rightarrow> char" where
  "ascii_lower c = (if 65 \<le> (of_char c :: nat) \<and> (of_char c :: nat) \<le> 90 then char_of ((of_char c :: nat) + 32) else c)"

definition ascii_upper :: "char \<Rightarrow> char" where
  "ascii_upper c = (if 97 \<le> (of_char c :: nat) \<and> (of_char c :: nat) \<le> 122 then char_of ((of_char c :: nat) - 32) else c)"

definition is_ascii_whitespace :: "char \<Rightarrow> bool" where
  "is_ascii_whitespace c \<longleftrightarrow> c \<in> {CHR 0x20, CHR 0x09, CHR 0x0A, CHR 0x0C, CHR 0x0D}"

end
