(* ===== verification/ZendConst.thy ===== *)
theory ZendConst
  imports Prelude
begin

text \<open>
  The Zend engine constants the library imports through its bindings, with the values of the
  checked-in bindings \<open>docsrs_bindings.rs\<close> (PHP 8.5, debug). Type tags and flag masks are
  \<open>u32\<close> words; the constants used only as shift amounts are \<open>nat\<close>. A leading underscore of
  the C name is dropped. \<open>flags_contain\<close> is \<open>contains\<close> of the \<open>bitflags\<close> types.
\<close>

unbundle bit_operations_syntax

definition IS_UNDEF :: u32 where "IS_UNDEF = 0"
definition IS_NULL :: u32 where "IS_NULL = 1"
definition IS_FALSE :: u32 where "IS_FALSE = 2"
definition IS_TRUE :: u32 where "IS_TRUE = 3"
definition IS_LONG :: u32 where "IS_LONG = 4"
definition IS_DOUBLE :: u32 where "IS_DOUBLE = 5"
definition IS_STRING :: u32 where "IS_STRING = 6"
definition IS_ARRAY :: u32 where "IS_ARRAY = 7"
definition IS_OBJECT :: u32 where "IS_OBJECT = 8"
definition IS_RESOURCE :: u32 where "IS_RESOURCE = 9"
definition IS_REFERENCE :: u32 where "IS_REFERENCE = 10"
definition IS_CONSTANT_AST :: u32 where "IS_CONSTANT_AST = 11"
definition IS_CALLABLE :: u32 where "IS_CALLABLE = 12"
definition IS_ITERABLE :: u32 where "IS_ITERABLE = 13"
definition IS_VOID :: u32 where "IS_VOID = 14"
definition IS_MIXED :: u32 where "IS_MIXED = 16"
definition IS_INDIRECT :: u32 where "IS_INDIRECT = 12"
definition IS_PTR :: u32 where "IS_PTR = 13"
definition IS_BOOL :: u32 where "IS_BOOL = 18"
definition Z_TYPE_FLAGS_SHIFT :: nat where "Z_TYPE_FLAGS_SHIFT = 8"
definition GC_FLAGS_MASK :: u32 where "GC_FLAGS_MASK = 1008"
definition GC_FLAGS_SHIFT :: nat where "GC_FLAGS_SHIFT = 0"
definition GC_IMMUTABLE :: u32 where "GC_IMMUTABLE = 64"
definition IS_TYPE_REFCOUNTED :: u32 where "IS_TYPE_REFCOUNTED = 1"
definition IS_TYPE_COLLECTABLE :: u32 where "IS_TYPE_COLLECTABLE = 2"
definition ZEND_TYPE_NAME_BIT :: u32 where "ZEND_TYPE_NAME_BIT = 16777216"
definition ZEND_TYPE_LITERAL_NAME_BIT :: u32 where "ZEND_TYPE_LITERAL_NAME_BIT = 8388608"
definition ZEND_TYPE_NULLABLE_BIT :: u32 where "ZEND_TYPE_NULLABLE_BIT = 2"
definition ZEND_SEND_MODE_SHIFT :: nat where "ZEND_SEND_MODE_SHIFT = 25"
definition ZEND_IS_VARIADIC_BIT :: u32 where "ZEND_IS_VARIADIC_BIT = 134217728"
definition MAY_BE_BOOL :: u32 where "MAY_BE_BOOL = 12"
definition MAY_BE_ANY :: u32 where "MAY_BE_ANY = 1022"
definition ZEND_ACC_PUBLIC :: u32 where "ZEND_ACC_PUBLIC = 1"
definition ZEND_ACC_PROTECTED :: u32 where "ZEND_ACC_PROTECTED = 2"
definition ZEND_ACC_PRIVATE :: u32 where "ZEND_ACC_PRIVATE = 4"
definition ZEND_ACC_STATIC :: u32 where "ZEND_ACC_STATIC = 16"
definition ZEND_ACC_FINAL :: u32 where "ZEND_ACC_FINAL = 32"
definition ZEND_ACC_ABSTRACT :: u32 where "ZEND_ACC_ABSTRACT = 64"
definition ZEND_ACC_CTOR :: u32 where "ZEND_ACC_CTOR = 2097152"
definition ZEND_ACC_VARIADIC :: u32 where "ZEND_ACC_VARIADIC = 16384"
definition ZEND_ACC_INTERFACE :: u32 where "ZEND_ACC_INTERFACE = 1"
definition ZEND_ACC_NOT_SERIALIZABLE :: u32 where "ZEND_ACC_NOT_SERIALIZABLE = 536870912"
definition ZEND_ACC_ENUM :: u32 where "ZEND_ACC_ENUM = 268435456"
definition ZEND_INTERNAL_FUNCTION :: u32 where "ZEND_INTERNAL_FUNCTION = 1"
definition ZEND_USER_FUNCTION :: u32 where "ZEND_USER_FUNCTION = 2"
definition ZEND_EVAL_CODE :: u32 where "ZEND_EVAL_CODE = 4"
definition HT_MIN_SIZE :: u32 where "HT_MIN_SIZE = 8"

lemmas zend_consts =
  IS_UNDEF_def IS_NULL_def IS_FALSE_def IS_TRUE_def
  IS_LONG_def IS_DOUBLE_def IS_STRING_def IS_ARRAY_def
  IS_OBJECT_def IS_RESOURCE_def IS_REFERENCE_def IS_CONSTANT_AST_def
  IS_CALLABLE_def IS_ITERABLE_def IS_VOID_def IS_MIXED_def
  IS_INDIRECT_def IS_PTR_def IS_BOOL_def Z_TYPE_FLAGS_SHIFT_def
  GC_FLAGS_MASK_def GC_FLAGS_SHIFT_def GC_IMMUTABLE_def IS_TYPE_REFCOUNTED_def
  IS_TYPE_COLLECTABLE_def ZEND_TYPE_NAME_BIT_def ZEND_TYPE_LITERAL_NAME_BIT_def ZEND_TYPE_NULLABLE_BIT_def
  ZEND_SEND_MODE_SHIFT_def ZEND_IS_VARIADIC_BIT_def MAY_BE_BOOL_def MAY_BE_ANY_def
  ZEND_ACC_PUBLIC_def ZEND_ACC_PROTECTED_def ZEND_ACC_PRIVATE_def ZEND_ACC_STATIC_def
  ZEND_ACC_FINAL_def ZEND_ACC_ABSTRACT_def ZEND_ACC_CTOR_def ZEND_ACC_VARIADIC_def
  ZEND_ACC_INTERFACE_def ZEND_ACC_NOT_SERIALIZABLE_def ZEND_ACC_ENUM_def ZEND_INTERNAL_FUNCTION_def ZEND_USER_FUNCTION_def
  ZEND_EVAL_CODE_def HT_MIN_SIZE_def

definition flags_contain :: "u32 \<Rightarrow> u32 \<Rightarrow> bool" where
  "flags_contain a b \<longleftrightarrow> a AND b = b"

lemma flags_contain_refl [simp]: "flags_contain a a"
  by (simp add: flags_contain_def)

lemma flags_contain_0 [simp]: "flags_contain a 0"
  by (simp add: flags_contain_def)

lemma flags_contain_or: "flags_contain a b \<Longrightarrow> flags_contain (a OR c) b"
  by (auto simp: flags_contain_def bit_eq_iff bit_simps)

end
