(* ===== verification/Flags.thy ===== *)
theory Flags
  imports ZendConst
begin

text \<open>
  \<open>src/flags.rs\<close>: the PHP data types, their integer representation, the conversion of a zval
  type tag back to a data type, the type-flag constants of a zval, and the method and property
  flags read by the describers. \<open>src/error.rs\<close>: the error type of the library.
\<close>

unbundle bit_operations_syntax

section \<open>Data types\<close>

datatype data_type =
    DtUndef | DtNull | DtFalse | DtTrue | DtLong | DtDouble | DtString | DtArray | DtIterable
  | DtObject "string option" | DtResource | DtReference | DtCallable | DtConstantExpression
  | DtVoid | DtMixed | DtBool | DtPtr | DtIndirect

fun as_u32 :: "data_type \<Rightarrow> u32" where
  "as_u32 DtUndef = IS_UNDEF"
| "as_u32 DtNull = IS_NULL"
| "as_u32 DtFalse = IS_FALSE"
| "as_u32 DtTrue = IS_TRUE"
| "as_u32 DtLong = IS_LONG"
| "as_u32 DtDouble = IS_DOUBLE"
| "as_u32 DtString = IS_STRING"
| "as_u32 DtArray = IS_ARRAY"
| "as_u32 (DtObject _) = IS_OBJECT"
| "as_u32 DtResource = IS_RESOURCE"
| "as_u32 DtReference = IS_RESOURCE"
| "as_u32 DtIndirect = IS_INDIRECT"
| "as_u32 DtCallable = IS_CALLABLE"
| "as_u32 DtConstantExpression = IS_CONSTANT_AST"
| "as_u32 DtVoid = IS_VOID"
| "as_u32 DtMixed = IS_MIXED"
| "as_u32 DtBool = IS_BOOL"
| "as_u32 DtPtr = IS_PTR"
| "as_u32 DtIterable = IS_ITERABLE"

text \<open>\<open>impl From<u32> for DataType\<close>: the masks are tried in the source's order.\<close>

definition datatype_from_u32 :: "u32 \<Rightarrow> data_type" where
  "datatype_from_u32 v =
     (if v AND IS_VOID = IS_VOID then DtVoid
      else if v AND IS_PTR = IS_PTR then DtPtr
      else if v AND IS_INDIRECT = IS_INDIRECT then DtIndirect
      else if v AND IS_CALLABLE = IS_CALLABLE then DtCallable
      else if v AND IS_CONSTANT_AST = IS_CONSTANT_AST then DtConstantExpression
      else if v AND IS_REFERENCE = IS_REFERENCE then DtReference
      else if v AND IS_RESOURCE = IS_RESOURCE then DtResource
      else if v AND IS_ARRAY = IS_ARRAY then DtArray
      else if v AND IS_STRING = IS_STRING then DtString
      else if v AND IS_DOUBLE = IS_DOUBLE then DtDouble
      else if v AND IS_LONG = IS_LONG then DtLong
      else if v AND IS_TRUE = IS_TRUE then DtTrue
      else if v AND IS_FALSE = IS_FALSE then DtFalse
      else if v AND IS_NULL = IS_NULL then DtNull
      else if v AND IS_OBJECT = IS_OBJECT then DtObject None
      else if v AND IS_UNDEF = IS_UNDEF then DtUndef
      else DtMixed)"

definition datatype_display :: "data_type \<Rightarrow> string" where
  "datatype_display d = (case d of
       DtUndef \<Rightarrow> ''Undefined'' | DtNull \<Rightarrow> ''Null'' | DtFalse \<Rightarrow> ''False'' | DtTrue \<Rightarrow> ''True''
     | DtLong \<Rightarrow> ''Long'' | DtDouble \<Rightarrow> ''Double'' | DtString \<Rightarrow> ''String'' | DtArray \<Rightarrow> ''Array''
     | DtObject obj \<Rightarrow> (case obj of None \<Rightarrow> ''Object'' | Some n \<Rightarrow> n)
     | DtResource \<Rightarrow> ''Resource'' | DtReference \<Rightarrow> ''Reference'' | DtCallable \<Rightarrow> ''Callable''
     | DtConstantExpression \<Rightarrow> ''Constant Expression'' | DtVoid \<Rightarrow> ''Void'' | DtBool \<Rightarrow> ''Bool''
     | DtMixed \<Rightarrow> ''Mixed'' | DtPtr \<Rightarrow> ''Pointer'' | DtIndirect \<Rightarrow> ''Indirect'' | DtIterable \<Rightarrow> ''Iterable'')"

section \<open>Zval type flags\<close>

definition ZF_RefCounted :: u32 where "ZF_RefCounted = push_bit Z_TYPE_FLAGS_SHIFT IS_TYPE_REFCOUNTED"
definition ZF_Collectable :: u32 where "ZF_Collectable = push_bit Z_TYPE_FLAGS_SHIFT IS_TYPE_COLLECTABLE"
definition ZF_InternedStringEx :: u32 where "ZF_InternedStringEx = IS_STRING"
definition ZF_StringEx :: u32 where "ZF_StringEx = IS_STRING OR ZF_RefCounted"
definition ZF_ArrayEx :: u32 where "ZF_ArrayEx = IS_ARRAY OR ZF_RefCounted OR ZF_Collectable"
definition ZF_ObjectEx :: u32 where "ZF_ObjectEx = IS_OBJECT OR ZF_RefCounted OR ZF_Collectable"
definition ZF_ResourceEx :: u32 where "ZF_ResourceEx = IS_RESOURCE OR ZF_RefCounted"
definition ZF_ReferenceEx :: u32 where "ZF_ReferenceEx = IS_REFERENCE OR ZF_RefCounted"
definition ZF_ConstantAstEx :: u32 where "ZF_ConstantAstEx = IS_CONSTANT_AST OR ZF_RefCounted"

lemmas zval_flags =
  ZF_RefCounted_def ZF_Collectable_def ZF_InternedStringEx_def ZF_StringEx_def ZF_ArrayEx_def
  ZF_ObjectEx_def ZF_ResourceEx_def ZF_ReferenceEx_def ZF_ConstantAstEx_def

section \<open>Errors\<close>

text \<open>\<open>Error\<close> of \<open>src/error.rs\<close>. The payload of \<open>Exception\<close>, a PHP object, is the
  address of that object.\<close>

datatype error =
    IncorrectArguments nat nat | ZvalConversion data_type | UnknownDatatype u32
  | InvalidTypeToDatatype u32 | InvalidScope | InvalidPointer | InvalidProperty | InvalidCString
  | InvalidUtf8 | ErrCallable | ErrObject | InvalidException u32 | IntegerOverflow
  | ErrException nat | StreamWrapperRegistrationFailure | StreamWrapperUnregistrationFailure
  | SapiWriteUnavailable | LazyObjectFailed

text \<open>\<open>impl TryFrom<ZvalTypeFlags> for DataType\<close>.\<close>

definition datatype_try_from :: "u32 \<Rightarrow> error + data_type" where
  "datatype_try_from v =
     (if flags_contain v IS_UNDEF then Inr DtUndef
      else if flags_contain v IS_NULL then Inr DtNull
      else if flags_contain v IS_FALSE then Inr DtFalse
      else if flags_contain v IS_TRUE then Inr DtTrue
      else if flags_contain v IS_FALSE then Inr DtFalse
      else if flags_contain v IS_LONG then Inr DtLong
      else if flags_contain v IS_DOUBLE then Inr DtDouble
      else if flags_contain v IS_STRING then Inr DtString
      else if flags_contain v IS_ARRAY then Inr DtArray
      else if flags_contain v IS_RESOURCE then Inr DtResource
      else if flags_contain v IS_CALLABLE then Inr DtCallable
      else if flags_contain v IS_CONSTANT_AST then Inr DtConstantExpression
      else if flags_contain v IS_VOID then Inr DtVoid
      else if flags_contain v IS_OBJECT then Inr (DtObject None)
      else Inl (UnknownDatatype 0))"

text \<open>\<open>impl Display for Error\<close>. The \<open>Debug\<close> renderings of the flag sets (from the
  \<open>bitflags\<close> crate) and of the exception object are arguments.\<close>

definition error_display ::
    "(u32 \<Rightarrow> string) \<Rightarrow> (u32 \<Rightarrow> string) \<Rightarrow> (nat \<Rightarrow> string) \<Rightarrow> error \<Rightarrow> string" where
  "error_display zflags cflags obj e = (case e of
       IncorrectArguments n expected \<Rightarrow>
         ''Expected at least '' @ show_nat expected @ '' arguments, got '' @ show_nat n @ '' arguments.''
     | ZvalConversion ty \<Rightarrow> ''Could not convert Zval from type '' @ datatype_display ty @ '' into primitive type.''
     | UnknownDatatype dt \<Rightarrow> ''Unknown datatype '' @ show_nat (unat dt) @ ''.''
     | InvalidTypeToDatatype dt \<Rightarrow> ''Type flags did not contain a datatype: '' @ zflags dt
     | InvalidScope \<Rightarrow> ''Invalid scope.''
     | InvalidPointer \<Rightarrow> ''Invalid pointer.''
     | InvalidProperty \<Rightarrow> ''Property does not exist on object.''
     | InvalidCString \<Rightarrow> ''String given contains NUL-bytes which cannot be present in a C string.''
     | InvalidUtf8 \<Rightarrow> ''Invalid Utf8 byte sequence.''
     | ErrCallable \<Rightarrow> ''Could not call given function.''
     | ErrObject \<Rightarrow> ''An object was expected.''
     | InvalidException flags \<Rightarrow> ''Invalid exception type was thrown: '' @ cflags flags
     | IntegerOverflow \<Rightarrow> ''Converting integer arguments resulted in an overflow.''
     | ErrException ex \<Rightarrow> ''Exception was thrown: '' @ obj ex
     | StreamWrapperRegistrationFailure \<Rightarrow> ''A failure occurred while registering the stream wrapper''
     | StreamWrapperUnregistrationFailure \<Rightarrow> ''A failure occurred while unregistering the stream wrapper''
     | SapiWriteUnavailable \<Rightarrow> ''The SAPI write function is not available''
     | LazyObjectFailed \<Rightarrow> ''Failed to make the object lazy'')"

section \<open>Function types\<close>

datatype function_type = FtInternal | FtUser | FtEval

text \<open>\<open>impl From<u8> for FunctionType\<close>: \<open>None\<close> is the panic of the last arm.\<close>

definition function_type_from_u8 :: "u8 \<Rightarrow> function_type option" where
  "function_type_from_u8 value =
     (let v = ucast value :: u32 in
      if v = ZEND_INTERNAL_FUNCTION then Some FtInternal
      else if v = ZEND_USER_FUNCTION then Some FtUser
      else if v = ZEND_EVAL_CODE then Some FtEval
      else None)"

section \<open>Type tags\<close>

lemma and_low_nibble: "c = 15 AND c \<Longrightarrow> (v :: u32) AND c = (v AND 15) AND c"
  by (metis and.assoc)

lemma low_nibble_cases: "unat ((v :: u32) AND 15) \<in> {0..<16}"
proof -
  have "v AND 15 \<le> 15" by (rule word_and_le1)
  then have "unat (v AND 15) \<le> unat (15 :: u32)" by (rule word_le_nat_alt [THEN iffD1])
  then show ?thesis by simp
qed

text \<open>Every mask of the conversion lies in the low four bits, so the refcount, collectable and
  garbage-collector flags above them never influence the data type.\<close>

lemma datatype_from_u32_low: "datatype_from_u32 v = datatype_from_u32 (v AND 15)"
  unfolding datatype_from_u32_def zend_consts
  by (simp add: and.assoc)

definition nibble_type :: "nat \<Rightarrow> data_type" where
  "nibble_type n = [DtUndef, DtNull, DtFalse, DtTrue, DtLong, DtDouble, DtString, DtArray,
     DtObject None, DtResource, DtReference, DtConstantExpression, DtIndirect, DtPtr, DtVoid, DtVoid] ! n"

lemma datatype_from_u32_nibble:
  assumes "n < 16"
  shows "datatype_from_u32 (word_of_nat n) = nibble_type n"
proof -
  have "\<forall>n \<in> set [0..<16]. datatype_from_u32 (word_of_nat n) = nibble_type n"
    by code_simp
  with assms show ?thesis by simp
qed

lemma datatype_from_u32_table: "datatype_from_u32 v = nibble_type (unat (v AND 15))"
proof -
  have "datatype_from_u32 v = datatype_from_u32 (word_of_nat (unat (v AND 15)))"
    by (subst datatype_from_u32_low) simp
  also have "\<dots> = nibble_type (unat (v AND 15))"
    using low_nibble_cases [of v] by (intro datatype_from_u32_nibble) simp
  finally show ?thesis .
qed

section \<open>Properties\<close>

text \<open>\<open>DataType::from(u32)\<close> depends on the low four bits of its argument only (whatever flag
  bits a zval carries above them), sends each PHP type tag 0..13 to its own data type, tags 14 and
  15 to \<open>Void\<close>, and never returns \<open>Mixed\<close>, \<open>Callable\<close>, \<open>Iterable\<close>, \<open>Bool\<close> or a named class.\<close>

theorem datatype_from_u32_exact:
  "datatype_from_u32 v = nibble_type (unat (v AND 15)) \<and>
   datatype_from_u32 v \<notin> {DtMixed, DtCallable, DtIterable, DtBool} \<and>
   datatype_from_u32 v \<noteq> DtObject (Some cls)"
proof -
  have "\<forall>n \<in> set [0..<16]. nibble_type n \<notin> {DtMixed, DtCallable, DtIterable, DtBool}"
    by code_simp
  moreover have "\<forall>n \<in> set [0..<16]. case nibble_type n of DtObject (Some c) \<Rightarrow> False | _ \<Rightarrow> True"
    by code_simp
  ultimately show ?thesis
    using low_nibble_cases [of v] unfolding datatype_from_u32_table by force
qed

text \<open>Converting a data type to its integer and back gives the data type again except for
  \<open>Reference\<close> (whose integer is that of \<open>Resource\<close>), \<open>Callable\<close>, \<open>Iterable\<close>, \<open>Mixed\<close>,
  \<open>Bool\<close> and an object type with a class name.\<close>

theorem datatype_u32_roundtrip:
  "datatype_from_u32 (as_u32 d) = d \<longleftrightarrow>
   d \<notin> {DtReference, DtCallable, DtIterable, DtMixed, DtBool} \<and> (\<forall>c. d \<noteq> DtObject (Some c))"
proof -
  have "datatype_from_u32 (as_u32 d) =
     (case d of DtReference \<Rightarrow> DtResource | DtCallable \<Rightarrow> DtIndirect | DtIterable \<Rightarrow> DtPtr
        | DtMixed \<Rightarrow> DtUndef | DtBool \<Rightarrow> DtFalse | DtObject _ \<Rightarrow> DtObject None | _ \<Rightarrow> d)"
    by (cases d) (simp_all add: datatype_from_u32_def zend_consts)
  then show ?thesis
    by (cases d) (auto simp: split: option.splits)
qed

text \<open>\<open>DataType::try_from(ZvalTypeFlags)\<close> returns \<open>Ok(Undef)\<close> for every flag set: its first
  test, for the empty mask of \<open>Undef\<close>, always succeeds.\<close>

theorem datatype_try_from_undef: "datatype_try_from flags = Inr DtUndef"
  by (simp add: datatype_try_from_def IS_UNDEF_def)

end
