(* ===== verification/Args.thy ===== *)
theory Args
  imports Flags
begin

text \<open>
  \<open>src/zend/_type.rs\<close>: the encoding of a parameter or return type as a Zend type mask.
  \<open>src/args.rs\<close>: a declared argument and the argument parser that distributes the zvals of a
  call over the declared arguments. \<open>src/builders/function.rs\<close>: the function builder that
  produces the entry PHP registers. The type \<open>'z\<close> is that of the zval references handed in by
  the engine. A \<open>CString\<close> is its bytes without the terminator.
\<close>

unbundle bit_operations_syntax

section \<open>Zend types\<close>

definition cstring_new :: "string \<Rightarrow> string option" where
  "cstring_new s = (if CHR 0x00 \<in> set s then None else Some s)"

record zend_type =
  zt_ptr :: "string option"
  zt_mask :: u32

definition arg_info_flags :: "bool \<Rightarrow> bool \<Rightarrow> u32" where
  "arg_info_flags pass_by_ref is_variadic =
     push_bit ZEND_SEND_MODE_SHIFT (if pass_by_ref then 1 else 0) OR
     (if is_variadic then ZEND_IS_VARIADIC_BIT else 0)"

definition type_init_code :: "data_type \<Rightarrow> bool \<Rightarrow> bool \<Rightarrow> bool \<Rightarrow> u32" where
  "type_init_code ty pass_by_ref is_variadic allow_null =
     (let t = as_u32 ty in
      (if t = IS_BOOL then MAY_BE_BOOL
       else if t = IS_MIXED then MAY_BE_ANY
       else push_bit (unat t) 1) OR
      (if allow_null then ZEND_TYPE_NULLABLE_BIT else 0) OR
      arg_info_flags pass_by_ref is_variadic)"

definition zt_empty :: "bool \<Rightarrow> bool \<Rightarrow> zend_type" where
  "zt_empty pass_by_ref is_variadic = \<lparr>zt_ptr = None, zt_mask = arg_info_flags pass_by_ref is_variadic\<rparr>"

text \<open>The flag \<open>php83\<close> is the build's \<open>cfg(php83)\<close>.\<close>

definition empty_from_class_type :: "bool \<Rightarrow> string \<Rightarrow> bool \<Rightarrow> bool \<Rightarrow> bool \<Rightarrow> zend_type option" where
  "empty_from_class_type php83 class_name pass_by_ref is_variadic allow_null =
     (let flags = arg_info_flags pass_by_ref is_variadic;
          flags = (if allow_null then flags OR ZEND_TYPE_NULLABLE_BIT else flags);
          flags = flags OR (if php83 then ZEND_TYPE_LITERAL_NAME_BIT else ZEND_TYPE_NAME_BIT)
      in case cstring_new class_name of
           None \<Rightarrow> None
         | Some p \<Rightarrow> Some \<lparr>zt_ptr = Some p, zt_mask = flags\<rparr>)"

text \<open>The assertion of \<open>empty_from_primitive_type\<close> is the \<open>None\<close> branch (a panic).\<close>

definition empty_from_primitive_type :: "data_type \<Rightarrow> bool \<Rightarrow> bool \<Rightarrow> bool \<Rightarrow> zend_type option" where
  "empty_from_primitive_type ty pass_by_ref is_variadic allow_null =
     (case ty of DtObject (Some _) \<Rightarrow> None
      | _ \<Rightarrow> Some \<lparr>zt_ptr = None, zt_mask = type_init_code ty pass_by_ref is_variadic allow_null\<rparr>)"

definition empty_from_type :: "bool \<Rightarrow> data_type \<Rightarrow> bool \<Rightarrow> bool \<Rightarrow> bool \<Rightarrow> zend_type option" where
  "empty_from_type php83 ty pass_by_ref is_variadic allow_null =
     (case ty of
        DtObject (Some class) \<Rightarrow> empty_from_class_type php83 class pass_by_ref is_variadic allow_null
      | _ \<Rightarrow> empty_from_primitive_type ty pass_by_ref is_variadic allow_null)"

section \<open>Arguments\<close>

record 'z arg =
  a_name :: string
  a_type :: data_type
  a_as_ref :: bool
  a_allow_null :: bool
  a_variadic :: bool
  a_default :: "string option"
  a_zval :: "'z option"
  a_variadic_zvals :: "'z option list"

definition arg_new :: "string \<Rightarrow> data_type \<Rightarrow> 'z arg" where
  "arg_new n ty = \<lparr>a_name = n, a_type = ty, a_as_ref = False, a_allow_null = False,
     a_variadic = False, a_default = None, a_zval = None, a_variadic_zvals = []\<rparr>"

definition arg_as_ref :: "'z arg \<Rightarrow> 'z arg" where "arg_as_ref a = a\<lparr>a_as_ref := True\<rparr>"
definition arg_is_variadic :: "'z arg \<Rightarrow> 'z arg" where "arg_is_variadic a = a\<lparr>a_variadic := True\<rparr>"
definition arg_set_allow_null :: "'z arg \<Rightarrow> 'z arg" where "arg_set_allow_null a = a\<lparr>a_allow_null := True\<rparr>"
definition arg_set_default :: "string \<Rightarrow> 'z arg \<Rightarrow> 'z arg" where
  "arg_set_default d a = a\<lparr>a_default := Some d\<rparr>"

text \<open>\<open>Arg::val\<close>, \<open>Arg::consume\<close> and \<open>Arg::variadic_vals\<close>; \<open>conv\<close> is
  \<open>T::from_zval_mut\<close> after \<open>dereference_mut\<close>.\<close>

definition arg_val :: "('z \<Rightarrow> 't option) \<Rightarrow> 'z arg \<Rightarrow> 't option" where
  "arg_val conv a = Option.bind (a_zval a) conv"

definition arg_consume :: "('z \<Rightarrow> 't option) \<Rightarrow> 'z arg \<Rightarrow> 'z arg + 't" where
  "arg_consume conv a = (case arg_val conv a of None \<Rightarrow> Inl a | Some v \<Rightarrow> Inr v)"

definition variadic_vals :: "('z \<Rightarrow> 't option) \<Rightarrow> 'z arg \<Rightarrow> 't list" where
  "variadic_vals conv a = List.map_filter conv (List.map_filter id (a_variadic_zvals a))"

text \<open>\<open>Arg::as_arg_info\<close>. The \<open>name\<close> field of the first \<open>ArgInfo\<close> of a function holds the
  number of required arguments in place of a pointer.\<close>

datatype ai_name = RequiredArgs nat | ArgName string

record arg_info =
  ai_name :: ai_name
  ai_type :: zend_type
  ai_default :: "string option"

definition as_arg_info :: "bool \<Rightarrow> 'z arg \<Rightarrow> error + arg_info" where
  "as_arg_info php83 a =
     (case cstring_new (a_name a) of None \<Rightarrow> Inl InvalidCString
      | Some n \<Rightarrow>
        (case empty_from_type php83 (a_type a) (a_as_ref a) (a_variadic a) (a_allow_null a) of
           None \<Rightarrow> Inl InvalidCString
         | Some t \<Rightarrow>
           (case a_default a of
              None \<Rightarrow> Inr \<lparr>ai_name = ArgName n, ai_type = t, ai_default = None\<rparr>
            | Some d \<Rightarrow>
              (case cstring_new (if d = ''None'' then ''null'' else d) of
                 None \<Rightarrow> Inl InvalidCString
               | Some d' \<Rightarrow> Inr \<lparr>ai_name = ArgName n, ai_type = t, ai_default = Some d'\<rparr>))))"

section \<open>The argument parser\<close>

record 'z arg_parser =
  ap_args :: "'z arg list"
  ap_min_num_args :: "nat option"
  ap_zvals :: "'z option list"

definition parser_new :: "'z option list \<Rightarrow> 'z arg_parser" where
  "parser_new zs = \<lparr>ap_args = [], ap_min_num_args = None, ap_zvals = zs\<rparr>"

definition parser_arg :: "'z arg \<Rightarrow> 'z arg_parser \<Rightarrow> 'z arg_parser" where
  "parser_arg a p = p\<lparr>ap_args := ap_args p @ [a]\<rparr>"

definition parser_not_required :: "'z arg_parser \<Rightarrow> 'z arg_parser" where
  "parser_not_required p = p\<lparr>ap_min_num_args := Some (length (ap_args p))\<rparr>"

definition has_variadic :: "'z arg list \<Rightarrow> bool" where
  "has_variadic as \<longleftrightarrow> as \<noteq> [] \<and> a_variadic (last as)"

text \<open>One round of the loop of \<open>parse\<close>: the slot of argument \<open>i\<close>, or the last slot when that
  one is variadic, takes the zval.\<close>

definition take_zval :: "'z option \<Rightarrow> 'z arg \<Rightarrow> 'z arg" where
  "take_zval z a = (if a_variadic a then a\<lparr>a_variadic_zvals := a_variadic_zvals a @ [z]\<rparr>
                    else a\<lparr>a_zval := z\<rparr>)"

fun distribute :: "nat \<Rightarrow> 'z option list \<Rightarrow> 'z arg list \<Rightarrow> 'z arg list" where
  "distribute i [] as = as"
| "distribute i (z # zs) as =
     distribute (Suc i) zs
       (if i < length as then as[i := take_zval z (as ! i)]
        else if has_variadic as then as[length as - 1 := take_zval z (last as)]
        else as)"

definition u32_try_into :: "nat \<Rightarrow> error + nat" where
  "u32_try_into n = (if n < 2 ^ 32 then Inr n else Inl IntegerOverflow)"

text \<open>\<open>ArgParser::parse\<close>: the pair reported to \<open>zend_wrong_parameters_count_error\<close>, if it is
  called, and the result with the arguments as they are left.\<close>

definition parser_min :: "'z arg_parser \<Rightarrow> nat" where
  "parser_min p = (let m = (case ap_min_num_args p of None \<Rightarrow> length (ap_args p) | Some m \<Rightarrow> m)
                   in if has_variadic (ap_args p) then m - 1 else m)"

definition parse :: "'z arg_parser \<Rightarrow> (nat \<times> nat) option \<times> (error + 'z arg list)" where
  "parse p =
     (let max_num_args = length (ap_args p);
          min_num_args = parser_min p;
          num_args = length (ap_zvals p)
      in if num_args < min_num_args \<or> (\<not> has_variadic (ap_args p) \<and> num_args > max_num_args)
         then (case u32_try_into min_num_args of
                 Inl e \<Rightarrow> (None, Inl e)
               | Inr mn \<Rightarrow>
                 (case u32_try_into max_num_args of
                    Inl e \<Rightarrow> (None, Inl e)
                  | Inr mx \<Rightarrow> (Some (mn, mx), Inl (IncorrectArguments num_args min_num_args))))
         else (None, Inr (distribute 0 (ap_zvals p) (ap_args p))))"

section \<open>The function builder\<close>

record function_entry =
  fe_fname :: "string option"
  fe_handler :: "nat option"
  fe_arg_info :: "arg_info list"
  fe_num_args :: nat
  fe_flags :: u32

text \<open>A handler is the address of the exported function. \<open>docs\<close> are the documentation lines.\<close>

record 'z function_builder =
  fb_name :: string
  fb_function :: function_entry
  fb_args :: "'z arg list"
  fb_n_req :: "nat option"
  fb_retval :: "data_type option"
  fb_ret_as_ref :: bool
  fb_ret_as_null :: bool
  fb_docs :: "string list"

definition fb_with :: "string \<Rightarrow> nat option \<Rightarrow> u32 \<Rightarrow> 'z function_builder" where
  "fb_with n h fl = \<lparr>fb_name = n,
     fb_function = \<lparr>fe_fname = None, fe_handler = h, fe_arg_info = [], fe_num_args = 0, fe_flags = fl\<rparr>,
     fb_args = [], fb_n_req = None, fb_retval = None, fb_ret_as_ref = False, fb_ret_as_null = False,
     fb_docs = []\<rparr>"

definition fb_new :: "string \<Rightarrow> nat \<Rightarrow> 'z function_builder" where
  "fb_new n handler = fb_with n (Some handler) 0"

definition fb_new_abstract :: "string \<Rightarrow> 'z function_builder" where
  "fb_new_abstract n = fb_with n None ZEND_ACC_ABSTRACT"

definition fb_constructor :: "nat \<Rightarrow> 'z function_builder" where
  "fb_constructor handler = fb_new ''__construct'' handler"

definition fb_arg :: "'z arg \<Rightarrow> 'z function_builder \<Rightarrow> 'z function_builder" where
  "fb_arg a b = b\<lparr>fb_args := fb_args b @ [a]\<rparr>"

definition fb_not_required :: "'z function_builder \<Rightarrow> 'z function_builder" where
  "fb_not_required b = b\<lparr>fb_n_req := Some (length (fb_args b))\<rparr>"

definition fb_returns :: "data_type \<Rightarrow> bool \<Rightarrow> bool \<Rightarrow> 'z function_builder \<Rightarrow> 'z function_builder" where
  "fb_returns ty as_ref allow_null b =
     b\<lparr>fb_retval := Some ty, fb_ret_as_ref := as_ref,
       fb_ret_as_null := (allow_null \<and> ty \<noteq> DtVoid \<and> ty \<noteq> DtMixed)\<rparr>"

definition fb_set_docs :: "string list \<Rightarrow> 'z function_builder \<Rightarrow> 'z function_builder" where
  "fb_set_docs d b = b\<lparr>fb_docs := d\<rparr>"

definition fb_required :: "'z function_builder \<Rightarrow> nat" where
  "fb_required b = (let n = (case fb_n_req b of None \<Rightarrow> length (fb_args b) | Some n \<Rightarrow> n)
                    in if has_variadic (fb_args b) then n - 1 else n)"

definition fb_build :: "bool \<Rightarrow> 'z function_builder \<Rightarrow> error + function_entry" where
  "fb_build php83 b =
     (let f = fb_function b;
          flags = (if has_variadic (fb_args b) then fe_flags f OR ZEND_ACC_VARIADIC else fe_flags f);
          ret = (case fb_retval b of
                   None \<Rightarrow> Some (zt_empty False False)
                 | Some r \<Rightarrow> empty_from_type php83 r (fb_ret_as_ref b) False (fb_ret_as_null b))
      in case ret of
           None \<Rightarrow> Inl InvalidCString
         | Some t \<Rightarrow>
           (case result_collect (map (as_arg_info php83) (fb_args b)) of
              Inl e \<Rightarrow> Inl e
            | Inr infos \<Rightarrow>
              (case cstring_new (fb_name b) of
                 None \<Rightarrow> Inl InvalidCString
               | Some fname \<Rightarrow>
                 (case u32_try_into (length infos) of
                    Inl e \<Rightarrow> Inl e
                  | Inr n \<Rightarrow> Inr (f\<lparr>fe_fname := Some fname, fe_num_args := n,
                      fe_arg_info := \<lparr>ai_name = RequiredArgs (fb_required b), ai_type = t,
                                      ai_default = None\<rparr> # infos,
                      fe_flags := flags\<rparr>)))))"

section \<open>How the parser distributes a call\<close>

lemma take_zval_simps [simp]:
  "a_variadic (take_zval z a) = a_variadic a" "a_name (take_zval z a) = a_name a"
  by (simp_all add: take_zval_def)

lemma has_variadic_update [simp]:
  "i < length as \<Longrightarrow> has_variadic (as[i := take_zval z (as ! i)]) = has_variadic as"
  by (cases "i = length as - 1") (auto simp: has_variadic_def last_conv_nth nth_list_update)

lemma has_variadic_last [simp]:
  "has_variadic (as[length as - Suc 0 := take_zval z (last as)]) = has_variadic as"
  by (auto simp: has_variadic_def last_conv_nth nth_list_update)

lemma length_distribute [simp]: "length (distribute i zs as) = length as"
  by (induction i zs as rule: distribute.induct) auto

text \<open>What each slot holds after the loop started at index \<open>i\<close>: a variadic last slot collects
  everything from its own position on, every other slot takes the zval of its position.\<close>

lemma distribute_nth:
  assumes "j < length as"
  shows "distribute i zs as ! j =
     (if has_variadic as \<and> j = length as - 1
      then (as ! j)\<lparr>a_variadic_zvals := a_variadic_zvals (as ! j) @ drop (j - i) zs\<rparr>
      else if i \<le> j \<and> j - i < length zs then take_zval (zs ! (j - i)) (as ! j) else as ! j)"
  using assms
proof (induction i zs as rule: distribute.induct)
  case (2 i z zs as)
  have va: "has_variadic as \<Longrightarrow> a_variadic (as ! (length as - 1))"
    by (auto simp: has_variadic_def last_conv_nth)
  consider (own) "i < length as" | (last) "\<not> i < length as" "has_variadic as"
    | (none) "\<not> i < length as" "\<not> has_variadic as" by blast
  then show ?case
  proof cases
    case own
    let ?bs = "as[i := take_zval z (as ! i)]"
    have step: "distribute i (z # zs) as ! j = distribute (Suc i) zs ?bs ! j"
      using own by simp
    have ih: "distribute (Suc i) zs ?bs ! j =
       (if has_variadic as \<and> j = length as - 1
        then (?bs ! j)\<lparr>a_variadic_zvals := a_variadic_zvals (?bs ! j) @ drop (j - Suc i) zs\<rparr>
        else if Suc i \<le> j \<and> j - Suc i < length zs then take_zval (zs ! (j - Suc i)) (?bs ! j) else ?bs ! j)"
      using 2 own by simp
    consider "j < i" | "j = i" | k where "j = Suc (i + k)"
      by (metis less_imp_Suc_add linorder_neqE_nat)
    then show ?thesis
    proof cases
      case 1
      with own have "j \<noteq> length as - 1" "?bs ! j = as ! j" by simp_all
      with 1 show ?thesis unfolding step ih by simp
    next
      case 2
      show ?thesis
        using own va unfolding step ih unfolding 2 by (simp add: take_zval_def)
    next
      case 3
      have "?bs ! j = as ! j" "drop (j - i) (z # zs) = drop (j - Suc i) zs"
        "(z # zs) ! (j - i) = zs ! (j - Suc i)"
        "(i \<le> j \<and> j - i < length (z # zs)) = (Suc i \<le> j \<and> j - Suc i < length zs)"
        unfolding 3 by simp_all
      then show ?thesis unfolding step ih by (simp only:)
    qed
  next
    case last
    let ?bs = "as[length as - 1 := take_zval z (last as)]"
    have ne: "as \<noteq> []" using last by (simp add: has_variadic_def)
    have step: "distribute i (z # zs) as ! j = distribute (Suc i) zs ?bs ! j"
      using last by simp
    have ih: "distribute (Suc i) zs ?bs ! j =
       (if j = length as - 1 then (?bs ! j)\<lparr>a_variadic_zvals := a_variadic_zvals (?bs ! j) @ zs\<rparr> else ?bs ! j)"
      using 2 last by simp
    have tz: "take_zval z (last as) = (as ! (length as - 1))
        \<lparr>a_variadic_zvals := a_variadic_zvals (as ! (length as - 1)) @ [z]\<rparr>"
      using va last ne by (simp add: take_zval_def last_conv_nth)
    show ?thesis
      unfolding step ih using last ne "2.prems" by (cases "j = length as - 1") (simp_all add: tz)
  next
    case none
    with 2 show ?thesis by auto
  qed
qed simp

section \<open>Declaring a function\<close>

text \<open>The generated code declares the required arguments, marks the rest optional and declares
  those, once for the parser of a call and once for the function entry.\<close>

definition parser_of :: "'z arg list \<Rightarrow> 'z arg list \<Rightarrow> 'z option list \<Rightarrow> 'z arg_parser" where
  "parser_of req opt zs = fold parser_arg opt (parser_not_required (fold parser_arg req (parser_new zs)))"

definition builder_of :: "string \<Rightarrow> nat \<Rightarrow> 'z arg list \<Rightarrow> 'z arg list \<Rightarrow> 'z function_builder" where
  "builder_of n h req opt = fold fb_arg opt (fb_not_required (fold fb_arg req (fb_new n h)))"

text \<open>The two declaration interfaces, \<open>ArgParser::arg\<close>/\<open>not_required\<close> and
  \<open>FunctionBuilder::arg\<close>/\<open>not_required\<close>, share one contract: declaring appends, marking records how
  many are declared so far, and nothing else of the state (\<open>frame\<close>) changes.\<close>

locale arg_sink =
  fixes declare_arg :: "'a \<Rightarrow> 's \<Rightarrow> 's" and mark :: "'s \<Rightarrow> 's"
    and declared :: "'s \<Rightarrow> 'a list" and required :: "'s \<Rightarrow> nat option" and frame :: "'s \<Rightarrow> 'f"
  assumes declared_arg [simp]: "declared (declare_arg a s) = declared s @ [a]"
    and required_arg [simp]: "required (declare_arg a s) = required s"
    and frame_arg [simp]: "frame (declare_arg a s) = frame s"
    and declared_mark [simp]: "declared (mark s) = declared s"
    and required_mark [simp]: "required (mark s) = Some (length (declared s))"
    and frame_mark [simp]: "frame (mark s) = frame s"
begin

lemma fold_arg [simp]:
  "declared (fold declare_arg xs s) = declared s @ xs"
  "required (fold declare_arg xs s) = required s"
  "frame (fold declare_arg xs s) = frame s"
  by (induction xs arbitrary: s) simp_all

lemma declare_all:
  "declared (fold declare_arg opt (mark (fold declare_arg req s))) = declared s @ req @ opt"
  "required (fold declare_arg opt (mark (fold declare_arg req s))) = Some (length (declared s) + length req)"
  "frame (fold declare_arg opt (mark (fold declare_arg req s))) = frame s"
  by simp_all

end

interpretation parser_sink: arg_sink parser_arg parser_not_required ap_args ap_min_num_args ap_zvals
  by unfold_locales (simp_all add: parser_arg_def parser_not_required_def)

interpretation builder_sink: arg_sink fb_arg fb_not_required fb_args fb_n_req
    "\<lambda>b. (fb_name b, fb_function b, fb_retval b, fb_ret_as_ref b, fb_ret_as_null b, fb_docs b)"
  by unfold_locales (simp_all add: fb_arg_def fb_not_required_def)

lemma parser_of_eq [simp]:
  "parser_of req opt zs = \<lparr>ap_args = req @ opt, ap_min_num_args = Some (length req), ap_zvals = zs\<rparr>"
  unfolding parser_of_def by (rule arg_parser.equality) (simp_all add: parser_new_def)

lemma builder_of_eq:
  "builder_of n h req opt = (fb_new n h)\<lparr>fb_args := req @ opt, fb_n_req := Some (length req)\<rparr>"
  unfolding builder_of_def
  using builder_sink.declare_all(3) [of opt req "fb_new n h", unfolded prod.inject]
  by (intro function_builder.equality) (simp_all add: fb_new_def fb_with_def)

lemma fb_required_builder_of: "fb_required (builder_of n h req opt) = parser_min (parser_of req opt zs)"
  by (simp add: fb_required_def parser_min_def builder_of_eq)

lemma parse_Inr_iff:
  "parse p = (r, Inr as) \<longleftrightarrow>
     r = None \<and> as = distribute 0 (ap_zvals p) (ap_args p) \<and> parser_min p \<le> length (ap_zvals p) \<and>
     (has_variadic (ap_args p) \<or> length (ap_zvals p) \<le> length (ap_args p))"
  by (auto simp: parse_def Let_def split: sum.splits)

lemma parse_reports_iff:
  assumes "length (ap_args p) < 2 ^ 32" and "parser_min p < 2 ^ 32"
  shows "fst (parse p) = Some (lo, hi) \<longleftrightarrow>
    lo = parser_min p \<and> hi = length (ap_args p) \<and>
    (length (ap_zvals p) < lo \<or> \<not> has_variadic (ap_args p) \<and> hi < length (ap_zvals p))"
  using assms by (auto simp: parse_def Let_def u32_try_into_def)

lemma fb_build_Inr:
  assumes "fb_build php83 b = Inr fe"
  obtains t infos where "result_collect (map (as_arg_info php83) (fb_args b)) = Inr infos"
    "fe_arg_info fe = \<lparr>ai_name = RequiredArgs (fb_required b), ai_type = t, ai_default = None\<rparr> # infos"
    "fe_num_args fe = length infos" "fe_fname fe = Some (fb_name b)"
    "fe_flags fe = (if has_variadic (fb_args b) then fe_flags (fb_function b) OR ZEND_ACC_VARIADIC
                    else fe_flags (fb_function b))"
  using assms
  by (auto simp: fb_build_def Let_def u32_try_into_def cstring_new_def split: option.splits sum.splits if_splits)

lemma as_arg_info_name: "as_arg_info php83 a = Inr info \<Longrightarrow> ai_name info = ArgName (a_name a)"
  by (auto simp: as_arg_info_def cstring_new_def split: option.splits if_splits)

section \<open>Properties\<close>

text \<open>C4. A call the parser accepts had at least the required number of arguments, and no argument
  is lost: with freshly declared arguments, the zval of each position is found in the slot of that
  position (its value, or its only variadic value), and the zvals from a variadic last slot on are
  found in that slot in call order.\<close>

theorem parse_delivers:
  assumes "parse p = (r, Inr as)"
    and "\<forall>a \<in> set (ap_args p). a_zval a = None \<and> a_variadic_zvals a = []"
    and "i < length (ap_zvals p)"
  shows "parser_min p \<le> length (ap_zvals p) \<and> length as = length (ap_args p) \<and>
    (if has_variadic (ap_args p) \<and> length as - 1 \<le> i
     then a_variadic_zvals (last as) ! (i - (length as - 1)) = ap_zvals p ! i \<and>
          length (a_variadic_zvals (last as)) = length (ap_zvals p) - (length as - 1)
     else i < length as \<and>
          (if a_variadic (as ! i) then a_variadic_zvals (as ! i) = [ap_zvals p ! i]
           else a_zval (as ! i) = ap_zvals p ! i))"
proof -
  from assms(1) have as: "as = distribute 0 (ap_zvals p) (ap_args p)"
    and min: "parser_min p \<le> length (ap_zvals p)"
    and cnt: "has_variadic (ap_args p) \<or> length (ap_zvals p) \<le> length (ap_args p)"
    by (simp_all add: parse_Inr_iff)
  have len: "length as = length (ap_args p)" by (simp add: as)
  show ?thesis
  proof (cases "has_variadic (ap_args p) \<and> length as - 1 \<le> i")
    case True
    then have ne: "ap_args p \<noteq> []" by (simp add: has_variadic_def)
    with len have "as \<noteq> []" by auto
    then have "last as = as ! (length as - 1)" by (rule last_conv_nth)
    also have "\<dots> = (last (ap_args p))\<lparr>a_variadic_zvals := drop (length as - 1) (ap_zvals p)\<rparr>"
      using True ne assms(2) unfolding len unfolding as by (simp add: distribute_nth last_conv_nth)
    finally show ?thesis using True min len assms(3) by simp
  next
    case False
    then have i: "i < length (ap_args p)" and nl: "\<not> (has_variadic (ap_args p) \<and> i = length (ap_args p) - 1)"
      using cnt len assms(3) by auto
    with assms(3) have slot: "as ! i = take_zval (ap_zvals p ! i) (ap_args p ! i)"
      unfolding as by (auto simp: distribute_nth)
    from i assms(2) have "a_variadic_zvals (ap_args p ! i) = []" by simp
    with False i slot min len show ?thesis by (auto simp: take_zval_def)
  qed
qed

theorem parse_delivers_witness:
  "let p = parser_of [arg_new ''a'' DtLong] [arg_is_variadic (arg_new ''rest'' DtMixed)] [Some (7::nat), Some 8, Some 9]
   in \<exists>as. parse p = (None, Inr as) \<and> a_zval (as ! 0) = Some 7 \<and> a_variadic_zvals (last as) ! 1 = Some 9"
proof -
  let ?p = "parser_of [arg_new ''a'' DtLong] [arg_is_variadic (arg_new ''rest'' DtMixed)] [Some (7::nat), Some 8, Some 9]"
  let ?as = "distribute 0 [Some 7, Some 8, Some 9] [arg_new ''a'' DtLong, arg_is_variadic (arg_new ''rest'' DtMixed)]"
  have p: "parse ?p = (None, Inr ?as)"
    by (simp add: parse_Inr_iff parser_min_def has_variadic_def arg_new_def arg_is_variadic_def)
  have "\<forall>a \<in> set (ap_args ?p). a_zval a = None \<and> a_variadic_zvals a = []"
    by (simp add: arg_new_def arg_is_variadic_def)
  note d = parse_delivers [OF p this]
  from d [of 0] d [of 2] have "a_zval (?as ! 0) = Some 7 \<and> a_variadic_zvals (last ?as) ! 1 = Some 9"
    by (simp add: has_variadic_def arg_new_def arg_is_variadic_def take_zval_def)
  with p show ?thesis by (auto simp: Let_def)
qed

text \<open>The parser rejects exactly the calls with too few arguments, or with too many when the last
  declared argument is not variadic; it then reports the minimum and maximum to the engine, returns
  \<open>IncorrectArguments\<close> with the number given first and the minimum second, and touches no argument.\<close>

theorem parse_rejects:
  assumes "length (req @ opt) < 2 ^ 32"
  shows "let p = parser_of req opt zs; n = length zs; lo = parser_min p; va = has_variadic (req @ opt)
         in (n < lo \<or> (\<not> va \<and> length req + length opt < n) \<longrightarrow>
               parse p = (Some (lo, length req + length opt), Inl (IncorrectArguments n lo))) \<and>
            (\<not> (n < lo \<or> (\<not> va \<and> length req + length opt < n)) \<longrightarrow> (\<exists>as. parse p = (None, Inr as))) \<and>
            lo = (if va then length req - 1 else length req)"
  using assms by (auto simp: parse_def parser_min_def Let_def u32_try_into_def)

theorem parse_rejects_witness:
  "parse (parser_of [arg_new ''a'' DtLong] [arg_new ''b'' DtLong] ([] :: nat option list)) =
     (Some (1, 2), Inl (IncorrectArguments 0 1))"
  using parse_rejects [of "[arg_new ''a'' DtLong]" "[arg_new ''b'' DtLong]" "[] :: nat option list"]
  by (simp add: Let_def has_variadic_def arg_new_def parser_min_def)

text \<open>C6. The function entry PHP registers and the parser of its handler agree: the required count in
  the entry's header is the minimum the parser enforces, the entry has one argument record per
  declared argument after that header, and the variadic flag is set exactly for a variadic last
  argument.\<close>

theorem build_agrees_with_parser:
  assumes "fb_build php83 (builder_of n h req opt) = Inr fe"
  shows "ai_name (hd (fe_arg_info fe)) = RequiredArgs (parser_min (parser_of req opt zs)) \<and>
    fe_num_args fe = length req + length opt \<and> length (fe_arg_info fe) = Suc (fe_num_args fe) \<and>
    (flags_contain (fe_flags fe) ZEND_ACC_VARIADIC \<longleftrightarrow> has_variadic (req @ opt)) \<and>
    map ai_name (tl (fe_arg_info fe)) = map (\<lambda>a. ArgName (a_name a)) (req @ opt)"
proof -
  from assms obtain t infos where
    c: "result_collect (map (as_arg_info php83) (req @ opt)) = Inr infos"
    and fe: "fe_arg_info fe = \<lparr>ai_name = RequiredArgs (fb_required (builder_of n h req opt)), ai_type = t,
               ai_default = None\<rparr> # infos" "fe_num_args fe = length infos"
    and fl: "fe_flags fe = (if has_variadic (req @ opt) then ZEND_ACC_VARIADIC else 0)"
    by (rule fb_build_Inr) (simp add: builder_of_eq fb_new_def fb_with_def)
  from c have m: "map (as_arg_info php83) (req @ opt) = map Inr infos"
    by (simp only: result_collect_Inr_iff)
  then have len: "length infos = length req + length opt"
    by (metis length_append length_map)
  have "map ai_name infos = map (\<lambda>a. ArgName (a_name a)) (req @ opt)"
  proof (rule nth_equalityI)
    fix i assume "i < length (map ai_name infos)"
    with len have i: "i < length infos" "i < length (req @ opt)" by auto
    then have "as_arg_info php83 ((req @ opt) ! i) = Inr (infos ! i)"
      using m by (metis nth_map)
    then have "ai_name (infos ! i) = ArgName (a_name ((req @ opt) ! i))"
      by (rule as_arg_info_name)
    with i show "map ai_name infos ! i = map (\<lambda>a. ArgName (a_name a)) (req @ opt) ! i"
      by (simp del: map_append)
  qed (simp add: len)
  with fe fl len show ?thesis
    by (simp add: fb_required_builder_of [where zs = zs] flags_contain_def ZEND_ACC_VARIADIC_def)
qed

theorem build_agrees_with_parser_witness:
  "\<exists>fe. fb_build True (builder_of ''f'' 1 [arg_new ''a'' DtLong :: nat arg] [arg_set_allow_null (arg_new ''b'' (DtObject (Some ''Foo'')))]) = Inr fe \<and>
     fe_num_args fe = 2 \<and> ai_name (hd (fe_arg_info fe)) = RequiredArgs 1"
proof -
  let ?b = "builder_of ''f'' 1 [arg_new ''a'' DtLong :: nat arg] [arg_set_allow_null (arg_new ''b'' (DtObject (Some ''Foo'')))]"
  obtain fe where fe: "fb_build True ?b = Inr fe"
    by (simp add: fb_build_def builder_of_eq fb_new_def fb_with_def Let_def as_arg_info_def cstring_new_def
        arg_new_def arg_set_allow_null_def empty_from_type_def empty_from_class_type_def
        empty_from_primitive_type_def u32_try_into_def)
  from build_agrees_with_parser [OF fe, of "[]"] fe show ?thesis
    by (auto simp: parser_min_def has_variadic_def arg_new_def arg_set_allow_null_def)
qed

text \<open>The mask of a Zend type tells the engine exactly what was declared: bit 25 is
  pass-by-reference, bit 27 variadic, bit 1 that null is accepted (declared nullable, or the type is
  \<open>null\<close> or \<open>mixed\<close>), and the class name pointer is set exactly for a named class.\<close>

theorem zend_type_mask_decodes:
  assumes "empty_from_type php83 d by_ref variadic nullable = Some t"
  shows "bit (zt_mask t) 25 = by_ref \<and> bit (zt_mask t) 27 = variadic \<and>
     bit (zt_mask t) 1 = (nullable \<or> d = DtNull \<or> d = DtMixed) \<and>
     (\<forall>c. zt_ptr t = Some c \<longleftrightarrow> d = DtObject (Some c))"
proof (cases "\<exists>c. d = DtObject (Some c)")
  case True
  with assms show ?thesis
    by (auto simp: empty_from_type_def empty_from_class_type_def cstring_new_def Let_def arg_info_flags_def
      zend_consts bit_simps split: if_splits)
next
  case False
  with assms have t: "t = \<lparr>zt_ptr = None, zt_mask = type_init_code d by_ref variadic nullable\<rparr>"
    by (auto simp: empty_from_type_def empty_from_primitive_type_def split: data_type.splits option.splits)
  have "bit (type_init_code d by_ref variadic nullable) 25 = by_ref \<and>
    bit (type_init_code d by_ref variadic nullable) 27 = variadic \<and>
    bit (type_init_code d by_ref variadic nullable) 1 = (nullable \<or> d = DtNull \<or> d = DtMixed)"
    by (cases d) (auto simp: type_init_code_def arg_info_flags_def zend_consts Let_def bit_simps)
  with t False show ?thesis by auto
qed

theorem zend_type_mask_decodes_witness:
  "\<exists>t. empty_from_type True (DtObject (Some ''Foo'')) True False True = Some t \<and>
     bit (zt_mask t) 25 \<and> bit (zt_mask t) 1 \<and> \<not> bit (zt_mask t) 27 \<and> zt_ptr t = Some ''Foo''"
proof -
  obtain t where "empty_from_type True (DtObject (Some ''Foo'')) True False True = Some t"
    by (simp add: empty_from_type_def empty_from_class_type_def cstring_new_def Let_def)
  with zend_type_mask_decodes [OF this] show ?thesis by auto
qed

end
