(* ===== verification/MacroArgs.thy ===== *)
theory MacroArgs
  imports Args
begin

text \<open>
  \<open>crates/macros/src/function.rs\<close>: how the function macro reads the parameters of a Rust
  function, splits them into required and optional ones, and the behaviour of the two kinds of
  handler body it generates. The fast body reads the zvals of the call frame directly; the slow
  body, used for constructors and variadic functions, goes through the argument parser of theory
  \<open>Args\<close>. The conversion of a zval to the parameter's Rust type, the null test and the value of
  a default expression are arguments of the definitions, since they belong to the user's types.
\<close>

section \<open>Rust types and parameters\<close>

text \<open>The parts of \<open>syn::Type\<close> the macro looks at: a path with its segments (identifier and angle
  bracketed arguments), a reference (lifetime, mutability), a slice, and anything else. A generic
  argument is a lifetime, a type, an associated type or a constant.\<close>

datatype rtype =
    RPath "(string \<times> garg list option) list"
  | RRef "string option" bool rtype
  | RSlice rtype
  | ROther string
and garg = GLifetime string | GType rtype | GAssoc string rtype | GConst string

fun path_ident :: "rtype \<Rightarrow> string option" where
  "path_ident (RPath segs) = (if segs = [] then None else Some (fst (last segs)))"
| "path_ident _ = None"

definition returns_self_ref :: "rtype option \<Rightarrow> bool" where
  "returns_self_ref output =
     (case output of
        Some (RRef _ _ (RPath segs)) \<Rightarrow> length segs = 1 \<and> fst (last segs) = ''Self''
      | _ \<Rightarrow> False)"

definition returns_self :: "rtype option \<Rightarrow> bool" where
  "returns_self output =
     (case output of
        Some (RPath segs) \<Rightarrow> length segs = 1 \<and> fst (last segs) = ''Self''
      | _ \<Rightarrow> False)"

text \<open>\<open>None\<close> is the error \<open>Unsupported argument type\<close>.\<close>

definition type_is_nullable :: "rtype \<Rightarrow> bool option" where
  "type_is_nullable ty =
     (case ty of
        RPath segs \<Rightarrow> Some (path_ident ty = Some ''Option'')
      | RRef _ _ _ \<Rightarrow> Some False
      | _ \<Rightarrow> None)"

fun first_type_arg :: "garg list \<Rightarrow> rtype option" where
  "first_type_arg [] = None"
| "first_type_arg (GType t # gs) = Some t"
| "first_type_arg (_ # gs) = first_type_arg gs"

text \<open>\<open>Args::parse_typed\<close>: (variadic, by reference, type with \<open>Option\<close> unwrapped).\<close>

definition parse_typed :: "rtype \<Rightarrow> bool \<times> bool \<times> rtype" where
  "parse_typed ty =
     (case ty of
        RRef _ mut elem \<Rightarrow>
          (case elem of
             RSlice t \<Rightarrow> (t = RRef None False (RPath [(''Zval'', None)]), mut, ty)
           | _ \<Rightarrow> (False, mut, ty))
      | RPath segs \<Rightarrow>
          (let as_ref = (path_ident ty = Some ''PhpRef'');
               inner = (if path_ident ty = Some ''Option''
                        then Option.bind (snd (last segs)) first_type_arg else None)
           in case inner of
                None \<Rightarrow> (False, as_ref, ty)
              | Some (RRef l mut t) \<Rightarrow> (False, mut, RRef l False t)
              | Some t \<Rightarrow> (False, as_ref, t))
      | _ \<Rightarrow> (False, False, ty))"

datatype fn_arg = FnReceiver bool bool | FnTyped "string option" rtype

record 'e typed_arg =
  ta_name :: string
  ta_ty :: rtype
  ta_nullable :: bool
  ta_default :: "'e option"
  ta_as_ref :: bool
  ta_variadic :: bool

record 'e fn_args =
  fa_receiver :: "bool option"
  fa_typed :: "'e typed_arg list"

datatype macro_error =
    ReceiverByValue | TooManyReceivers | UnsupportedArgument | UnsupportedArgumentType

text \<open>\<open>Args::parse_from_fnargs\<close>: \<open>FnReceiver by_reference mutable\<close> is a \<open>self\<close> parameter,
  \<open>FnTyped None\<close> a parameter whose pattern is not an identifier. A default is taken out of the
  map by the first parameter of its name.\<close>

fun parse_fnargs :: "fn_arg list \<Rightarrow> (string \<rightharpoonup> 'e) \<Rightarrow> 'e fn_args \<Rightarrow> macro_error + 'e fn_args" where
  "parse_fnargs [] defaults r = Inr r"
| "parse_fnargs (FnReceiver by_ref mut # as) defaults r =
     (if \<not> by_ref then Inl ReceiverByValue
      else if fa_receiver r \<noteq> None then Inl TooManyReceivers
      else parse_fnargs as defaults (r\<lparr>fa_receiver := Some mut\<rparr>))"
| "parse_fnargs (FnTyped pat ty # as) defaults r =
     (case pat of
        None \<Rightarrow> Inl UnsupportedArgument
      | Some ident \<Rightarrow>
        (case type_is_nullable ty of
           None \<Rightarrow> Inl UnsupportedArgumentType
         | Some nullable \<Rightarrow>
           (let (variadic, as_ref, ty') = parse_typed ty in
            parse_fnargs as (defaults(ident := None))
              (r\<lparr>fa_typed := fa_typed r @ [\<lparr>ta_name = ident, ta_ty = ty', ta_nullable = nullable,
                 ta_default = defaults ident, ta_as_ref = as_ref, ta_variadic = variadic\<rparr>]\<rparr>))))"

definition parse_from_fnargs :: "fn_arg list \<Rightarrow> (string \<rightharpoonup> 'e) \<Rightarrow> macro_error + 'e fn_args" where
  "parse_from_fnargs as defaults = parse_fnargs as defaults \<lparr>fa_receiver = None, fa_typed = []\<rparr>"

section \<open>Required and optional parameters\<close>

definition is_optional :: "'e typed_arg \<Rightarrow> bool" where
  "is_optional a \<longleftrightarrow> ta_nullable a \<or> ta_default a \<noteq> None"

text \<open>The loop of \<open>split_args\<close> from index \<open>i\<close>, with \<open>mid\<close> the split point so far.\<close>

fun split_mid :: "string option \<Rightarrow> nat \<Rightarrow> 'e typed_arg list \<Rightarrow> nat option \<Rightarrow> nat option" where
  "split_mid optional i [] mid = mid"
| "split_mid optional i (a # as) mid =
     split_mid optional (Suc i) as
       (case optional of
          Some name \<Rightarrow> if name = ta_name a then Some i else mid
        | None \<Rightarrow> if mid = None \<and> is_optional a then Some i
                  else if \<not> is_optional a then None else mid)"

definition split_args :: "'e typed_arg list \<Rightarrow> string option \<Rightarrow> 'e typed_arg list \<times> 'e typed_arg list" where
  "split_args typed optional =
     (case split_mid optional 0 typed None of
        Some mid \<Rightarrow> (take mid typed, drop mid typed)
      | None \<Rightarrow> (typed, []))"

section \<open>Generated handlers\<close>

text \<open>What a handler does with a call: report a wrong count to the engine, throw (the generic
  exception for an unconvertible value, a \<open>TypeError\<close> for an explicit null), return without an
  effect, or call the Rust function with the bound values. A parameter of type \<open>Option<T>\<close> is bound
  to an optional value, a variadic one to the list of its converted values.\<close>

datatype 'v bval = Plain 'v | Opt "'v option" | Slice "'v list"

datatype 'v binding = Bound 'v | ThrowInvalid string | ThrowNull string | SilentReturn

datatype 'v outcome =
    WrongCount nat nat | Thrown "'v bval binding" | Called "'v bval list"

definition convert_arg :: "('e typed_arg \<Rightarrow> 'z \<Rightarrow> 'v option) \<Rightarrow> 'e typed_arg \<Rightarrow> 'z \<Rightarrow> 'v bval binding" where
  "convert_arg conv a z =
     (if ta_nullable a then Bound (Opt (conv a z))
      else case conv a z of Some v \<Rightarrow> Bound (Plain v) | None \<Rightarrow> ThrowInvalid (ta_name a))"

text \<open>\<open>build_fast_arg_binding\<close>: \<open>zs\<close> are the zvals of the call frame, \<open>zs ! i\<close> the result of
  \<open>ex.zend_call_arg(i)\<close>.\<close>

definition fast_bind ::
    "('e typed_arg \<Rightarrow> 'z \<Rightarrow> 'v option) \<Rightarrow> ('z \<Rightarrow> bool) \<Rightarrow> ('e \<Rightarrow> 'v bval) \<Rightarrow> nat \<Rightarrow> 'z option list \<Rightarrow>
     nat \<Rightarrow> 'e typed_arg \<Rightarrow> 'v bval binding" where
  "fast_bind conv is_null eval_default min_num_args zs i a =
     (let num_args = length zs;
          present = (case zs ! i of None \<Rightarrow> SilentReturn | Some z \<Rightarrow> convert_arg conv a z);
          fallback = (case (ta_default a, ta_nullable a) of
                        (Some e, _) \<Rightarrow> Bound (eval_default e)
                      | (None, True) \<Rightarrow> Bound (Opt None)
                      | (None, False) \<Rightarrow> ThrowInvalid (ta_name a))
      in if i < min_num_args then present
         else if \<not> ta_nullable a \<and> ta_default a \<noteq> None
         then (if i < num_args
               then (case zs ! i of
                       None \<Rightarrow> SilentReturn
                     | Some z \<Rightarrow> if is_null z then ThrowNull (ta_name a) else convert_arg conv a z)
               else fallback)
         else if i < num_args then present else fallback)"

text \<open>\<open>TypedArg::accessor\<close> after parsing: \<open>arg\<close> is the argument as the parser left it.\<close>

definition slow_bind ::
    "('e typed_arg \<Rightarrow> 'z \<Rightarrow> 'v option) \<Rightarrow> ('z \<Rightarrow> bool) \<Rightarrow> ('e \<Rightarrow> 'v bval) \<Rightarrow> 'z arg \<Rightarrow>
     'e typed_arg \<Rightarrow> 'v bval binding" where
  "slow_bind conv is_null eval_default arg a =
     (case ta_default a of
        Some e \<Rightarrow>
          if ta_nullable a
          then (case a_zval arg of Some z \<Rightarrow> Bound (Opt (conv a z)) | None \<Rightarrow> Bound (eval_default e))
          else (case a_zval arg of
                  Some z \<Rightarrow> if is_null z then ThrowNull (ta_name a)
                            else (case conv a z of Some v \<Rightarrow> Bound (Plain v) | None \<Rightarrow> ThrowInvalid (ta_name a))
                | None \<Rightarrow> Bound (eval_default e))
      | None \<Rightarrow>
          if ta_variadic a then Bound (Slice (variadic_vals (conv a) arg))
          else if ta_nullable a then Bound (Opt (arg_val (conv a) arg))
          else (case arg_val (conv a) arg of
                  Some v \<Rightarrow> Bound (Plain v) | None \<Rightarrow> ThrowInvalid (ta_name a)))"

text \<open>The bindings are evaluated in order; the first that does not bind ends the handler.\<close>

fun bind_all :: "'v bval binding list \<Rightarrow> 'v bval list \<Rightarrow> 'v outcome" where
  "bind_all [] vs = Called vs"
| "bind_all (b # bs) vs = (case b of Bound v \<Rightarrow> bind_all bs (vs @ [v]) | _ \<Rightarrow> Thrown b)"

text \<open>\<open>build_fast_count_check\<close>: one comparison when every parameter is required, a range test
  otherwise.\<close>

definition fast_count_ok :: "nat \<Rightarrow> nat \<Rightarrow> nat \<Rightarrow> bool" where
  "fast_count_ok min_num_args max_num_args num_args =
     (if min_num_args = max_num_args then num_args = min_num_args
      else min_num_args \<le> num_args \<and> num_args \<le> max_num_args)"

definition fast_handler ::
    "('e typed_arg \<Rightarrow> 'z \<Rightarrow> 'v option) \<Rightarrow> ('z \<Rightarrow> bool) \<Rightarrow> ('e \<Rightarrow> 'v bval) \<Rightarrow>
     'e typed_arg list \<Rightarrow> string option \<Rightarrow> 'z option list \<Rightarrow> 'v outcome" where
  "fast_handler conv is_null eval_default typed optional zs =
     (let min_num_args = length (fst (split_args typed optional));
          max_num_args = length typed
      in if fast_count_ok min_num_args max_num_args (length zs)
         then bind_all (map (\<lambda>i. fast_bind conv is_null eval_default min_num_args zs i (typed ! i))
                          [0..<length typed]) []
         else WrongCount min_num_args max_num_args)"

text \<open>\<open>TypedArg::arg_builder\<close>; the data type of the Rust type and the stub text of a default
  expression are arguments.\<close>

definition arg_builder :: "(rtype \<Rightarrow> data_type) \<Rightarrow> ('e \<Rightarrow> string) \<Rightarrow> 'e typed_arg \<Rightarrow> 'z arg" where
  "arg_builder ty_of stub_of a =
     (let b = arg_new (case strip_prefix ''r#'' (ta_name a) of Some n \<Rightarrow> n | None \<Rightarrow> ta_name a) (ty_of (ta_ty a));
          b = (if ta_nullable a then arg_set_allow_null b else b);
          b = (case ta_default a of Some e \<Rightarrow> arg_set_default (stub_of e) b | None \<Rightarrow> b);
          b = (if ta_as_ref a then arg_as_ref b else b)
      in if ta_variadic a then arg_is_variadic b else b)"

definition slow_handler ::
    "(rtype \<Rightarrow> data_type) \<Rightarrow> ('e \<Rightarrow> string) \<Rightarrow>
     ('e typed_arg \<Rightarrow> 'z \<Rightarrow> 'v option) \<Rightarrow> ('z \<Rightarrow> bool) \<Rightarrow> ('e \<Rightarrow> 'v bval) \<Rightarrow>
     'e typed_arg list \<Rightarrow> string option \<Rightarrow> 'z option list \<Rightarrow> 'v outcome" where
  "slow_handler ty_of stub_of conv is_null eval_default typed optional zs =
     (let (req, opt) = split_args typed optional;
          p = parser_of (map (arg_builder ty_of stub_of) req) (map (arg_builder ty_of stub_of) opt) zs
      in case parse p of
           (Some (lo, hi), _) \<Rightarrow> WrongCount lo hi
         | (None, Inl _) \<Rightarrow> Thrown SilentReturn
         | (None, Inr as) \<Rightarrow>
             bind_all (map (\<lambda>(a, arg). slow_bind conv is_null eval_default arg a) (zip typed as)) [])"

text \<open>\<open>is_fast_path_eligible\<close> for a function or a method.\<close>

definition is_fast_path_eligible :: "'e typed_arg list \<Rightarrow> bool" where
  "is_fast_path_eligible typed \<longleftrightarrow> \<not> list_ex ta_variadic typed"

section \<open>How the parameters are split\<close>

lemma split_mid_None:
  "split_mid None i as mid =
     (let k = length (takeWhile is_optional (rev as))
      in if k = length as then (if mid = None \<and> as \<noteq> [] then Some i else mid)
         else if k = 0 then None else Some (i + length as - k))"
proof (induction as arbitrary: i mid)
  case (Cons a as)
  show ?case
  proof (cases "\<forall>x \<in> set as. is_optional x")
    case True
    then have e: "takeWhile is_optional (rev as) = rev as"
      "takeWhile is_optional (rev as @ [a]) = rev as @ takeWhile is_optional [a]"
      by (simp add: takeWhile_eq_all_conv, subst takeWhile_append2, simp_all)
    show ?thesis by (auto simp: Cons.IH Let_def e)
  next
    case False
    then have e: "takeWhile is_optional (rev as @ [a]) = takeWhile is_optional (rev as)"
      by (metis set_rev takeWhile_append1)
    have "length (takeWhile is_optional (rev as)) \<noteq> length as"
      using False by (metis length_rev takeWhile_eq_all_conv takeWhile_eq_take take_all set_rev order_refl)
    moreover have "length (takeWhile is_optional (rev as)) \<le> length as"
      by (metis length_rev length_takeWhile_le)
    ultimately show ?thesis by (auto simp: Cons.IH Let_def e)
  qed
qed simp

lemma split_args_append: "split_args typed optional = (req, opt) \<Longrightarrow> typed = req @ opt"
  by (auto simp: split_args_def split: option.splits)

lemma split_args_None:
  "split_args typed None =
     (let n = length typed - length (takeWhile is_optional (rev typed)) in (take n typed, drop n typed))"
proof -
  have "length (takeWhile is_optional (rev typed)) \<le> length typed"
    by (metis length_rev length_takeWhile_le)
  then show ?thesis
    by (auto simp: split_args_def split_mid_None Let_def)
qed

lemma rev_split_takeWhile: "xs = rev (dropWhile P (rev xs)) @ rev (takeWhile P (rev xs))"
  by (metis rev_append rev_rev_ident takeWhile_dropWhile_id)

lemma length_minus_takeWhile:
  "length xs - length (takeWhile P (rev xs)) = length (rev (dropWhile P (rev xs)))"
  by (metis add_diff_cancel_right' length_append length_rev rev_split_takeWhile)

lemma rev_take_drop_takeWhile:
  "drop (length xs - length (takeWhile P (rev xs))) xs = rev (takeWhile P (rev xs))"
  "take (length xs - length (takeWhile P (rev xs))) xs = rev (dropWhile P (rev xs))"
  by (metis append_eq_conv_conj length_minus_takeWhile rev_split_takeWhile)+

section \<open>Slots of a call without variadic parameters\<close>

lemma arg_builder_fields [simp]:
  "a_zval (arg_builder ty_of stub_of a) = None" "a_variadic_zvals (arg_builder ty_of stub_of a) = []"
  "a_variadic (arg_builder ty_of stub_of a) = ta_variadic a"
  by (auto simp: arg_builder_def arg_new_def arg_set_allow_null_def arg_set_default_def arg_as_ref_def
    arg_is_variadic_def Let_def split: option.splits)

lemma has_variadic_map:
  "has_variadic (map (arg_builder ty_of stub_of) typed) \<longleftrightarrow> typed \<noteq> [] \<and> ta_variadic (last typed)"
  by (auto simp: has_variadic_def last_map)

lemma fast_eligible_no_variadic:
  "is_fast_path_eligible typed \<Longrightarrow> \<not> has_variadic (map (arg_builder ty_of stub_of) typed)"
  by (auto simp: is_fast_path_eligible_def has_variadic_map list_ex_iff)

lemma distribute_plain:
  assumes "is_fast_path_eligible typed" and "i < length typed"
  shows "a_zval (distribute 0 zs (map (arg_builder ty_of stub_of) typed) ! i) =
         (if i < length zs then zs ! i else None)"
proof -
  have "\<not> ta_variadic (typed ! i)"
    using assms by (auto simp: is_fast_path_eligible_def list_ex_iff)
  then show ?thesis
    using assms fast_eligible_no_variadic [OF assms(1)]
    by (auto simp: distribute_nth take_zval_def)
qed

lemma fast_bind_slow_bind:
  assumes "\<not> ta_variadic a" and "i < length zs \<Longrightarrow> zs ! i \<noteq> None"
    and "i < lo \<Longrightarrow> ta_default a \<noteq> None \<and> \<not> ta_nullable a \<longrightarrow> \<not> is_null (the (zs ! i))"
    and "lo \<le> length zs"
    and "a_zval arg = (if i < length zs then zs ! i else None)"
  shows "fast_bind conv is_null ev lo zs i a = slow_bind conv is_null ev arg a"
  using assms
  by (auto simp: fast_bind_def slow_bind_def convert_arg_def arg_val_def Let_def split: option.splits bool.splits)

lemma fast_count_ok_iff:
  "lo \<le> hi \<Longrightarrow> fast_count_ok lo hi n \<longleftrightarrow> lo \<le> n \<and> n \<le> hi"
  by (auto simp: fast_count_ok_def)

lemma fast_slow_agree:
  fixes zs :: "'z option list"
  assumes "is_fast_path_eligible typed" and "\<forall>z \<in> set zs. z \<noteq> None"
    and "\<forall>(a, z) \<in> set (zip (fst (split_args typed optional)) zs).
           ta_default a \<noteq> None \<and> \<not> ta_nullable a \<longrightarrow> \<not> is_null (the z)"
    and "length typed < 2 ^ 32"
  shows "fast_handler conv is_null ev typed optional zs =
         slow_handler ty_of stub_of conv is_null ev typed optional zs"
proof -
  obtain req opt where sp: "split_args typed optional = (req, opt)" by (cases "split_args typed optional")
  let ?b = "arg_builder ty_of stub_of :: _ \<Rightarrow> 'z arg" and ?lo = "length req"
  let ?p = "parser_of (map ?b req) (map ?b opt) zs"
  from sp have typed: "typed = req @ opt" by (rule split_args_append)
  have dflt: "\<not> is_null (the (zs ! i))"
    if "i < length req" "i < length zs" "ta_default (req ! i) \<noteq> None \<and> \<not> ta_nullable (req ! i)" for i
    using assms(3) that sp by (fastforce simp: set_zip)
  have args: "map ?b req @ map ?b opt = map ?b typed" by (simp add: typed)
  have nv: "\<not> has_variadic (map ?b typed)" by (rule fast_eligible_no_variadic [OF assms(1)])
  have min: "parser_min ?p = ?lo" using nv by (simp add: parser_min_def args Let_def)
  have lt: "length typed = length req + length opt" by (simp add: typed)
  then have le: "?lo \<le> length typed" by simp
  show ?thesis
  proof (cases "?lo \<le> length zs \<and> length zs \<le> length typed")
    case True
    have ps: "parse ?p = (None, Inr (distribute 0 zs (map ?b typed)))"
      using True min unfolding parse_Inr_iff by (simp add: args lt)
    have "fast_bind conv is_null ev ?lo zs i (typed ! i) =
        slow_bind conv is_null ev (distribute 0 zs (map ?b typed) ! i) (typed ! i)"
      if i: "i < length typed" for i
    proof (rule fast_bind_slow_bind)
      show "\<not> ta_variadic (typed ! i)"
        using assms(1) i by (auto simp: is_fast_path_eligible_def list_ex_iff)
      show "i < ?lo \<Longrightarrow> ta_default (typed ! i) \<noteq> None \<and> \<not> ta_nullable (typed ! i) \<longrightarrow> \<not> is_null (the (zs ! i))"
        using dflt [of i] True by (auto simp: typed nth_append)
      show "a_zval (distribute 0 zs (map ?b typed) ! i) = (if i < length zs then zs ! i else None)"
        by (rule distribute_plain [OF assms(1) i])
    qed (use assms(2) True in auto)
    then have "map (\<lambda>i. fast_bind conv is_null ev ?lo zs i (typed ! i)) [0..<length typed] =
        map (\<lambda>(a, arg). slow_bind conv is_null ev arg a) (zip typed (distribute 0 zs (map ?b typed)))"
      by (auto intro: nth_equalityI)
    with True le ps show ?thesis
      by (simp add: fast_handler_def slow_handler_def sp fast_count_ok_iff Let_def del: parser_of_eq)
  next
    case False
    then have "parse ?p = (Some (?lo, length typed), Inl (IncorrectArguments (length zs) ?lo))"
      using nv min assms(4) by (auto simp: parse_def Let_def u32_try_into_def args lt)
    with False le show ?thesis
      by (auto simp add: fast_handler_def slow_handler_def sp fast_count_ok_iff Let_def del: parser_of_eq)
  qed
qed

section \<open>Properties\<close>

text \<open>Without an explicit \<open>optional\<close> attribute, the optional parameters are the longest suffix of
  parameters that are nullable or have a default: the two parts concatenate to the parameter list,
  every optional part member is optional, and the last required one is not.\<close>

theorem split_args_longest_suffix:
  "case split_args typed None of (req, opt) \<Rightarrow>
     typed = req @ opt \<and> list_all is_optional opt \<and> \<not> (req \<noteq> [] \<and> is_optional (last req))"
proof -
  let ?n = "length typed - length (takeWhile is_optional (rev typed))"
  have d: "drop ?n typed = rev (takeWhile is_optional (rev typed))"
    and t: "take ?n typed = rev (dropWhile is_optional (rev typed))"
    by (rule rev_take_drop_takeWhile)+
  have "dropWhile is_optional (rev typed) = [] \<or> \<not> is_optional (hd (dropWhile is_optional (rev typed)))"
    by (metis hd_dropWhile)
  then have "take ?n typed = [] \<or> \<not> is_optional (last (take ?n typed))"
    unfolding t by (auto simp: last_rev)
  moreover have "list_all is_optional (drop ?n typed)"
    unfolding d by (auto simp: list_all_iff dest: set_takeWhileD)
  ultimately show ?thesis
    by (auto simp add: split_args_None Let_def)
qed

text \<open>C3. The fast handler body and the body that goes through the argument parser behave the same on
  every call of a function without variadic parameters, except one that passes an explicit null
  for a required, non-nullable parameter that has a default (for which the theorem
  \<open>fast_null_for_required_default\<close> below shows the difference): same rejected counts, same bound
  values, same exception for the same argument. The function has fewer than $2^{32}$ parameters and
  the engine's argument slots are present.\<close>

theorem fast_handler_equiv_slow:
  assumes "is_fast_path_eligible typed" and "\<forall>z \<in> set zs. z \<noteq> None"
    and "\<forall>(a, z) \<in> set (zip (fst (split_args typed optional)) zs).
           ta_default a \<noteq> None \<and> \<not> ta_nullable a \<longrightarrow> \<not> is_null (the z)"
    and "length typed < 2 ^ 32"
  shows "fast_handler conv is_null ev typed optional zs =
         slow_handler ty_of stub_of conv is_null ev typed optional zs"
  using assms by (rule fast_slow_agree)

theorem fast_handler_equiv_slow_witness:
  "slow_handler (\<lambda>_. DtLong) (\<lambda>_. '''') (\<lambda>_ z. if z < 9 then Some z else None) (\<lambda>z. z = 0) Plain
     [\<lparr>ta_name = ''a'', ta_ty = RPath [(''i64'', None)], ta_nullable = False, ta_default = Some 7,
       ta_as_ref = False, ta_variadic = False\<rparr>,
      \<lparr>ta_name = ''b'', ta_ty = RPath [(''i64'', None)], ta_nullable = False, ta_default = None,
       ta_as_ref = False, ta_variadic = False\<rparr>,
      \<lparr>ta_name = ''c'', ta_ty = RPath [(''i64'', None)], ta_nullable = False, ta_default = Some (5 :: nat),
       ta_as_ref = False, ta_variadic = False\<rparr>] None [Some 3, Some 0] =
   Called [Plain 3, Plain 0, Plain 5]"
  by (subst fast_handler_equiv_slow [symmetric])
    (simp_all add: is_fast_path_eligible_def split_args_def is_optional_def fast_handler_def
      fast_count_ok_def fast_bind_def convert_arg_def Let_def upt_rec)

text \<open>The two bodies differ on an explicit null passed to a required parameter that has a default (one
  followed by a parameter without default): the parser body throws the \<open>TypeError\<close>, the fast body
  goes straight to the conversion, so a type whose conversion fails on null gives the generic
  exception and a type whose conversion accepts null is bound.\<close>

theorem fast_null_for_required_default:
  assumes "ta_default a = Some e" and "\<not> ta_nullable a" and "i < lo" and "i < length zs"
    and "zs ! i = Some z" and "is_null z" and "a_zval arg = Some z"
  shows "slow_bind conv is_null ev arg a = ThrowNull (ta_name a) \<and>
         fast_bind conv is_null ev lo zs i a =
           (case conv a z of Some v \<Rightarrow> Bound (Plain v) | None \<Rightarrow> ThrowInvalid (ta_name a))"
  using assms by (simp add: slow_bind_def fast_bind_def convert_arg_def Let_def)

theorem fast_null_for_required_default_witness:
  "let a = \<lparr>ta_name = ''a'', ta_ty = RPath [(''i64'', None)], ta_nullable = False,
       ta_default = Some (5 :: nat), ta_as_ref = False, ta_variadic = False\<rparr>;
       conv = (\<lambda>_ z. if z = (0 :: nat) then None else Some z)
   in slow_bind conv (\<lambda>z. z = 0) Plain ((arg_new ''a'' DtLong)\<lparr>a_zval := Some 0\<rparr>) a = ThrowNull ''a'' \<and>
      fast_bind conv (\<lambda>z. z = 0) Plain 2 [Some 0, Some 1] 0 a = ThrowInvalid ''a''"
  using fast_null_for_required_default
    [of "\<lparr>ta_name = ''a'', ta_ty = RPath [(''i64'', None)], ta_nullable = False,
       ta_default = Some (5 :: nat), ta_as_ref = False, ta_variadic = False\<rparr>" 5 0 2
       "[Some 0, Some (1 :: nat)]" 0 "\<lambda>z. z = 0" "(arg_new ''a'' DtLong)\<lparr>a_zval := Some 0\<rparr>"
       "\<lambda>_ z. if z = (0 :: nat) then None else Some z" Plain]
  by simp

end
