(* ===== verification/ZendString.thy ===== *)
theory ZendString
  imports Flags
begin

text \<open>
  \<open>src/types/string/mod.rs\<close>: the Zend string and its views as bytes, as a C string and as UTF-8
  text. A Zend string is its bytes, the \<open>IS_STR_INTERNED\<close> flag and the \<open>IS_STR_VALID_UTF8\<close> flag
  that caches a successful validation. The standard library's UTF-8 decoder is modelled first.
\<close>

section \<open>UTF-8\<close>

definition byte_in :: "char \<Rightarrow> nat \<Rightarrow> nat \<Rightarrow> bool" where
  "byte_in c lo hi \<longleftrightarrow> lo \<le> of_char c \<and> of_char c \<le> hi"

text \<open>The byte after a lead byte that starts a sequence of three or four bytes: its range depends
  on the lead byte (no overlong forms, no surrogates, nothing above U+10FFFF).\<close>

definition utf8_second_ok :: "nat \<Rightarrow> char \<Rightarrow> bool" where
  "utf8_second_ok b c =
     (if b = 0xE0 then byte_in c 0xA0 0xBF
      else if b = 0xED then byte_in c 0x80 0x9F
      else if b = 0xF0 then byte_in c 0x90 0xBF
      else if b = 0xF4 then byte_in c 0x80 0x8F
      else byte_in c 0x80 0xBF)"

definition utf8_width :: "nat \<Rightarrow> nat" where
  "utf8_width b =
     (if b < 0x80 then 1 else if 0xC2 \<le> b \<and> b \<le> 0xDF then 2
      else if 0xE0 \<le> b \<and> b \<le> 0xEF then 3 else if 0xF0 \<le> b \<and> b \<le> 0xF4 then 4 else 0)"

text \<open>The number of bytes, at most \<open>n\<close>, that continue a sequence.\<close>

fun utf8_conts :: "nat \<Rightarrow> string \<Rightarrow> nat" where
  "utf8_conts (Suc n) (c # cs) = (if byte_in c 0x80 0xBF then Suc (utf8_conts n cs) else 0)"
| "utf8_conts _ _ = 0"

text \<open>The first character: \<open>(True, n)\<close> for a valid one of \<open>n\<close> bytes, \<open>(False, n)\<close> for an invalid
  sequence of \<open>n\<close> bytes (the longest prefix of a valid sequence, at least one byte).\<close>

definition utf8_next :: "char \<Rightarrow> string \<Rightarrow> bool \<times> nat" where
  "utf8_next c cs =
     (let b = of_char c; w = utf8_width b
      in if w = 0 then (False, 1)
         else if w = 1 then (True, 1)
         else if cs = [] \<or> \<not> utf8_second_ok b (hd cs) then (False, 1)
         else let k = utf8_conts (w - 2) (tl cs) in (k = w - 2, k + 2))"

lemma utf8_next_pos [simp]: "0 < snd (utf8_next c cs)"
  by (auto simp: utf8_next_def Let_def)

lemma utf8_next_pos' [simp]: "utf8_next c cs = (b, n) \<Longrightarrow> 0 < n"
  by (metis snd_conv utf8_next_pos)

lemma utf8_next_shorter: "Suc n - snd (utf8_next c cs) < Suc n"
  by (simp only: diff_less utf8_next_pos zero_less_Suc)

function utf8_valid :: "string \<Rightarrow> bool" where
  "utf8_valid [] = True"
| "utf8_valid (c # cs) =
     (fst (utf8_next c cs) \<and> utf8_valid (drop (snd (utf8_next c cs)) (c # cs)))"
  by pat_completeness auto
termination
  by (relation "measure length") (simp_all add: utf8_next_shorter)

declare utf8_valid.simps(2) [simp del]

text \<open>\<open>String::from_utf8_lossy\<close>: every invalid sequence becomes U+FFFD.\<close>

definition replacement_char :: string where
  "replacement_char = [CHR 0xEF, CHR 0xBF, CHR 0xBD]"

function from_utf8_lossy :: "string \<Rightarrow> string" where
  "from_utf8_lossy [] = []"
| "from_utf8_lossy (c # cs) =
     (if fst (utf8_next c cs) then take (snd (utf8_next c cs)) (c # cs) else replacement_char) @
     from_utf8_lossy (drop (snd (utf8_next c cs)) (c # cs))"
  by pat_completeness auto
termination
  by (relation "measure length") (simp_all add: utf8_next_shorter)

declare from_utf8_lossy.simps(2) [simp del]

section \<open>The Zend string\<close>

record zend_str =
  zs_bytes :: string
  zs_interned :: bool
  zs_known_utf8 :: bool

definition zs_len :: "zend_str \<Rightarrow> nat" where
  "zs_len s = length (zs_bytes s)"

definition zs_is_empty :: "zend_str \<Rightarrow> bool" where
  "zs_is_empty s \<longleftrightarrow> zs_len s = 0"

text \<open>\<open>ext_php_rs_zend_string_init\<close> of \<open>src/wrapper.c\<close>: a short non-persistent string is one of the
  engine's interned strings when these exist (\<open>ready\<close>), anything else is freshly allocated.\<close>

definition zs_new :: "bool \<Rightarrow> string \<Rightarrow> bool \<Rightarrow> zend_str" where
  "zs_new ready s persistent =
     \<lparr>zs_bytes = s, zs_interned = (\<not> persistent \<and> length s \<le> 1 \<and> ready), zs_known_utf8 = False\<rparr>"

text \<open>\<open>ext_php_rs_set_known_valid_utf8\<close> leaves interned strings alone.\<close>

definition set_known_valid_utf8 :: "zend_str \<Rightarrow> zend_str" where
  "set_known_valid_utf8 s = (if zs_interned s then s else s\<lparr>zs_known_utf8 := True\<rparr>)"

definition zs_as_str :: "zend_str \<Rightarrow> (error + string) \<times> zend_str" where
  "zs_as_str s =
     (if zs_known_utf8 s then (Inr (zs_bytes s), s)
      else if utf8_valid (zs_bytes s) then (Inr (zs_bytes s), set_known_valid_utf8 s)
      else (Inl InvalidUtf8, s))"

text \<open>\<open>as_c_str\<close>: the bytes and their terminator form a C string when no byte before is zero.\<close>

definition zs_as_c_str :: "zend_str \<Rightarrow> error + string" where
  "zs_as_c_str s = (if CHR 0x00 \<in> set (zs_bytes s) then Inl InvalidCString else Inr (zs_bytes s))"

definition zs_eq :: "zend_str \<Rightarrow> string \<Rightarrow> bool" where
  "zs_eq s other \<longleftrightarrow> zs_bytes s = other"

fun bytes_cmp :: "string \<Rightarrow> string \<Rightarrow> int" where
  "bytes_cmp [] [] = 0"
| "bytes_cmp [] _ = -1"
| "bytes_cmp _ [] = 1"
| "bytes_cmp (x # xs) (y # ys) =
     (if (of_char x :: nat) < of_char y then -1 else if (of_char y :: nat) < of_char x then 1 else bytes_cmp xs ys)"

definition zs_cmp :: "zend_str \<Rightarrow> zend_str \<Rightarrow> int" where
  "zs_cmp s other = bytes_cmp (zs_bytes s) (zs_bytes other)"

definition zs_to_owned :: "bool \<Rightarrow> zend_str \<Rightarrow> zend_str" where
  "zs_to_owned ready s = zs_new ready (zs_bytes s) False"

text \<open>The flag is only ever set on valid text.\<close>

definition zs_ok :: "zend_str \<Rightarrow> bool" where
  "zs_ok s \<longleftrightarrow> (zs_known_utf8 s \<longrightarrow> utf8_valid (zs_bytes s))"

section \<open>Lemmas\<close>

lemma utf8_next_ascii [simp]: "of_char c < (0x80 :: nat) \<Longrightarrow> utf8_next c cs = (True, 1)"
  by (simp add: utf8_next_def utf8_width_def Let_def)

lemma utf8_valid_ascii_Cons: "of_char c < (0x80 :: nat) \<Longrightarrow> utf8_valid (c # cs) = utf8_valid cs"
  by (simp add: utf8_valid.simps(2))

lemma utf8_valid_ascii: "\<forall>c \<in> set s. of_char c < (0x80 :: nat) \<Longrightarrow> utf8_valid s"
  by (induction s) (auto simp: utf8_valid_ascii_Cons)

lemma from_utf8_lossy_valid: "utf8_valid s \<Longrightarrow> from_utf8_lossy s = s"
proof (induction s rule: utf8_valid.induct)
  case (2 c cs)
  then show ?case
    by (simp add: utf8_valid.simps(2) from_utf8_lossy.simps(2) del: drop_Cons' take_Cons')
qed simp

lemma utf8_conts_le: "utf8_conts n cs \<le> n \<and> utf8_conts n cs \<le> length cs"
  by (induction n cs rule: utf8_conts.induct) auto

lemma utf8_conts_append: "utf8_conts n cs = n \<Longrightarrow> utf8_conts n (cs @ ds) = n"
  by (induction n cs rule: utf8_conts.induct) (auto split: if_splits)

lemma utf8_conts_take: "utf8_conts n cs = n \<Longrightarrow> n \<le> m \<Longrightarrow> utf8_conts n (take m cs) = n"
  by (induction n cs arbitrary: m rule: utf8_conts.induct) (auto split: if_splits simp: take_Cons')

text \<open>A valid first character is recognised whatever follows it.\<close>

lemma utf8_next_validE:
  assumes "fst (utf8_next c cs)"
  obtains (ascii) "utf8_width (of_char c) = 1" "snd (utf8_next c cs) = 1"
  | (multi) k d rest where "utf8_width (of_char c) = Suc (Suc k)" "cs = d # rest"
      "utf8_second_ok (of_char c) d" "utf8_conts k rest = k" "snd (utf8_next c cs) = Suc (Suc k)"
proof (cases "utf8_width (of_char c) \<le> 1")
  case True
  then have "utf8_width (of_char c) = 1"
    using assms by (cases "utf8_width (of_char c)") (simp_all add: utf8_next_def)
  then show thesis by (intro ascii) (simp_all add: utf8_next_def)
next
  case False
  then obtain k where w: "utf8_width (of_char c) = Suc (Suc k)"
    by (metis One_nat_def Suc_le_mono le0 not0_implies_Suc)
  then obtain d rest where "cs = d # rest" using assms by (cases cs) (simp_all add: utf8_next_def)
  with assms w show thesis by (intro multi) (auto simp: utf8_next_def Let_def split: if_splits)
qed

lemma utf8_next_take:
  assumes "fst (utf8_next c cs)"
  shows "utf8_next c (take (snd (utf8_next c cs) - 1) cs @ ds) = utf8_next c cs"
  using assms
proof (cases rule: utf8_next_validE)
  case (multi k d rest)
  then have "utf8_conts k (take k rest @ ds) = k"
    by (simp add: utf8_conts_append utf8_conts_take)
  with multi show ?thesis by (simp add: utf8_next_def Let_def)
qed (simp add: utf8_next_def Let_def)

lemma utf8_next_le: "fst (utf8_next c cs) \<Longrightarrow> snd (utf8_next c cs) \<le> Suc (length cs)"
  by (erule utf8_next_validE) (simp, metis Suc_le_mono length_Cons utf8_conts_le)

lemma utf8_valid_char_append:
  assumes "fst (utf8_next c cs)"
  shows "utf8_valid (take (snd (utf8_next c cs)) (c # cs) @ ds) = utf8_valid ds"
proof -
  obtain k where n: "snd (utf8_next c cs) = Suc k" using utf8_next_pos [of c cs] gr0_conv_Suc by blast
  have k: "k \<le> length cs" using utf8_next_le [OF assms] n by simp
  have "take (Suc k) (c # cs) @ ds = c # (take k cs @ ds)" by simp
  moreover have "utf8_next c (take k cs @ ds) = utf8_next c cs"
    using utf8_next_take [OF assms, of ds] n by simp
  ultimately show ?thesis using assms n k by (simp add: utf8_valid.simps(2))
qed

lemma utf8_valid_replacement: "utf8_valid (replacement_char @ ds) = utf8_valid ds"
  by (simp add: replacement_char_def utf8_valid.simps(2) utf8_next_def utf8_width_def utf8_second_ok_def
    byte_in_def Let_def numeral_eq_Suc)

lemma from_utf8_lossy_is_valid: "utf8_valid (from_utf8_lossy s)"
proof (induction s rule: from_utf8_lossy.induct)
  case (2 c cs)
  then show ?case
    by (cases "fst (utf8_next c cs)")
      (simp_all only: from_utf8_lossy.simps(2) if_True if_False utf8_valid_char_append utf8_valid_replacement)
qed simp

lemma zs_as_str_ok: "zs_ok s \<Longrightarrow> zs_ok (snd (zs_as_str s))"
  by (simp add: zs_ok_def zs_as_str_def set_known_valid_utf8_def)

section \<open>Properties\<close>

text \<open>Reading a Zend string as text succeeds exactly on valid UTF-8, returns its bytes, keeps the
  bytes and the cached flag truthful, and reads the same the second time (the cache never changes
  the answer).\<close>

theorem zs_as_str_correct:
  assumes "zs_ok s"
  shows "fst (zs_as_str s) = (if utf8_valid (zs_bytes s) then Inr (zs_bytes s) else Inl InvalidUtf8) \<and>
         zs_bytes (snd (zs_as_str s)) = zs_bytes s \<and> zs_ok (snd (zs_as_str s)) \<and>
         zs_as_str (snd (zs_as_str s)) = zs_as_str s"
  using assms by (auto simp: zs_ok_def zs_as_str_def set_known_valid_utf8_def)

theorem zs_as_str_correct_witness:
  "fst (zs_as_str (zs_new True ''hi'' False)) = Inr ''hi'' \<and>
   fst (zs_as_str (zs_new True [CHR 0xC0, CHR 0x80] False)) = Inl InvalidUtf8"
  using zs_as_str_correct [of "zs_new True ''hi'' False"]
    zs_as_str_correct [of "zs_new True [CHR 0xC0, CHR 0x80] False"]
  by (simp add: zs_ok_def zs_new_def utf8_valid.simps(2) utf8_next_def utf8_width_def Let_def)

end
