(* ===== verification/ArrayKey.thy ===== *)
theory ArrayKey
  imports ZendString
begin

text \<open>
  \<open>src/types/array/array_key.rs\<close>: the key of a PHP array and its conversions. A machine integer is
  an \<open>int\<close> in the range \<open>in_i64\<close>, a Rust string its UTF-8 bytes. The conversions that read a Zend
  string only look at the result of \<open>as_str\<close>; the cached flag it may set is not observable here.
\<close>

datatype array_key = KLong int | KString string | KStr string | KZendString zend_str

section \<open>Conversions\<close>

definition starts_with_zero :: "string \<Rightarrow> bool" where
  "starts_with_zero s \<longleftrightarrow> prefix ''0'' s"

definition array_key_from_string :: "string \<Rightarrow> array_key" where
  "array_key_from_string value =
     (case i64_from_str value of
        Some index \<Rightarrow>
          if value = ''0'' \<or> \<not> starts_with_zero value then KLong index else KString value
      | None \<Rightarrow> KString value)"

definition array_key_from_str :: "string \<Rightarrow> array_key" where
  "array_key_from_str value =
     (case i64_from_str value of
        Some index \<Rightarrow>
          if value = ''0'' \<or> \<not> starts_with_zero value then KLong index else KStr value
      | None \<Rightarrow> KStr value)"

definition array_key_from_zend_str :: "zend_str \<Rightarrow> array_key" where
  "array_key_from_zend_str value =
     (case fst (zs_as_str value) of
        Inr text \<Rightarrow>
          (case i64_from_str text of
             Some index \<Rightarrow>
               if text = ''0'' \<or> \<not> starts_with_zero text then KLong index else KZendString value
           | None \<Rightarrow> KZendString value)
      | Inl _ \<Rightarrow> KZendString value)"

definition array_key_from_i32 :: "int \<Rightarrow> array_key" where
  "array_key_from_i32 index = KLong index"

definition array_key_from_i64 :: "int \<Rightarrow> array_key" where
  "array_key_from_i64 index = KLong index"

text \<open>\<open>From<u64>\<close> and \<open>From<usize>\<close>: a value above \<open>i64::MAX\<close> becomes its decimal text.\<close>

definition array_key_from_u64 :: "u64 \<Rightarrow> array_key" where
  "array_key_from_u64 index =
     (if in_i64 (uint index) then KLong (uint index) else KString (show_nat (unat index)))"

definition array_key_from_usize :: "u64 \<Rightarrow> array_key" where
  "array_key_from_usize index =
     (if in_i64 (uint index) then KLong (uint index) else KString (show_nat (unat index)))"

definition string_try_from_key :: "array_key \<Rightarrow> error + string" where
  "string_try_from_key key =
     (case key of
        KString s \<Rightarrow> Inr s
      | KStr s \<Rightarrow> Inr s
      | KLong l \<Rightarrow> Inr (show_int l)
      | KZendString s \<Rightarrow> fst (zs_as_str s))"

definition parse_property_i64 :: "string \<Rightarrow> error + int" where
  "parse_property_i64 s = (case i64_from_str s of Some i \<Rightarrow> Inr i | None \<Rightarrow> Inl InvalidProperty)"

definition i64_try_from_key :: "array_key \<Rightarrow> error + int" where
  "i64_try_from_key key =
     (case key of
        KLong i \<Rightarrow> Inr i
      | KString s \<Rightarrow> parse_property_i64 s
      | KStr s \<Rightarrow> parse_property_i64 s
      | KZendString s \<Rightarrow>
          (case fst (zs_as_str s) of Inl _ \<Rightarrow> Inl InvalidProperty | Inr t \<Rightarrow> parse_property_i64 t))"

definition key_is_long :: "array_key \<Rightarrow> bool" where
  "key_is_long key = (case key of KLong _ \<Rightarrow> True | _ \<Rightarrow> False)"

definition key_display :: "array_key \<Rightarrow> string" where
  "key_display key =
     (case key of
        KLong k \<Rightarrow> show_int k
      | KString k \<Rightarrow> k
      | KStr k \<Rightarrow> k
      | KZendString k \<Rightarrow>
          (case fst (zs_as_str k) of Inr t \<Rightarrow> t | Inl _ \<Rightarrow> from_utf8_lossy (zs_bytes k)))"

text \<open>\<open>FromZval for ArrayKey\<close>, over what \<open>Zval::long\<close> and \<open>Zval::string\<close> return.\<close>

definition key_from_zval :: "int option \<Rightarrow> string option \<Rightarrow> array_key option" where
  "key_from_zval zlong zstring =
     (case zlong of
        Some key \<Rightarrow> Some (KLong key)
      | None \<Rightarrow> (case zstring of Some key \<Rightarrow> Some (KString key) | None \<Rightarrow> None))"

section \<open>Decimal numerals\<close>

text \<open>A run of digits that does not start with a zero is the numeral of its value.\<close>

lemma digit_char_val: "is_ascii_digit c \<Longrightarrow> digit_char (digit_val c) = c \<and> digit_val c < 10"
  by (auto simp: is_ascii_digit_def digit_char_def digit_val_def)

lemma show_nat_digit: "n < 10 \<Longrightarrow> show_nat n = [digit_char n]"
  by (subst show_nat.simps) simp

lemma ascii_digit_code: "is_ascii_digit c \<Longrightarrow> of_char c < (0x80 :: nat)"
  by (auto simp: is_ascii_digit_def)

lemma show_int_ascii: "c \<in> set (show_int i) \<Longrightarrow> of_char c < (0x80 :: nat)"
  using show_nat_digits [of "nat i"] show_nat_digits [of "nat (- i)"]
  by (auto simp: show_int_def ascii_digit_code split: if_splits)

lemma show_nat_snoc: "0 < n \<Longrightarrow> d < 10 \<Longrightarrow> show_nat (10 * n + d) = show_nat n @ [digit_char d]"
  by (subst show_nat.simps) (auto simp del: show_nat.simps)

lemma digits_val_pos:
  "list_all is_ascii_digit ds \<Longrightarrow> ds \<noteq> [] \<Longrightarrow> hd ds \<noteq> CHR ''0'' \<Longrightarrow> 0 < digits_val ds"
proof (induction ds rule: rev_induct)
  case (snoc c ds)
  show ?case
  proof (cases "ds = []")
    case True
    with snoc.prems digit_char_val [of c] show ?thesis
      by (cases "digit_val c") (auto simp: digits_val_def digit_char_def)
  next
    case False
    with snoc show ?thesis by simp
  qed
qed simp

lemma show_digits_val:
  "list_all is_ascii_digit ds \<Longrightarrow> ds \<noteq> [] \<Longrightarrow> hd ds \<noteq> CHR ''0'' \<Longrightarrow> show_nat (digits_val ds) = ds"
proof (induction ds rule: rev_induct)
  case (snoc c ds)
  show ?case
  proof (cases "ds = []")
    case True
    with snoc.prems digit_char_val [of c] show ?thesis
      by (simp add: digits_val_def show_nat_digit)
  next
    case False
    with snoc digits_val_pos [of ds] digit_char_val [of c] show ?thesis
      by (simp add: show_nat_snoc del: show_nat.simps)
  qed
qed simp

lemma starts_with_zero_Cons [simp]: "starts_with_zero (c # s) \<longleftrightarrow> c = CHR ''0''"
  by (auto simp: starts_with_zero_def)

lemma starts_with_zero_show_nat: "starts_with_zero (show_nat n) \<longleftrightarrow> n = 0"
  using show_nat_hd [of n] by (cases "show_nat n") auto

lemma starts_with_zero_show_int: "starts_with_zero (show_int i) \<longleftrightarrow> i = 0"
  using starts_with_zero_show_nat [of "nat i"] by (auto simp: show_int_def)

lemma show_int_0 [simp]: "show_int 0 = ''0''"
  by (simp add: show_int_def show_nat_digit digit_char_def)

text \<open>The forms \<open>i64::from_str\<close> accepts.\<close>

lemma i64_from_str_forms:
  "i64_from_str s = Some i \<longleftrightarrow> in_i64 i \<and>
     (\<exists>ds. ds \<noteq> [] \<and> list_all is_ascii_digit ds \<and>
        (s = ds \<and> i = int (digits_val ds) \<or> s = CHR ''+'' # ds \<and> i = int (digits_val ds) \<or>
         s = CHR ''-'' # ds \<and> i = - int (digits_val ds)))"
proof (cases s)
  case (Cons c cs)
  then show ?thesis by (auto simp: i64_from_str_def Let_def)
qed (simp add: i64_from_str_def)

lemma array_key_from_str_eq:
  "array_key_from_str s = KLong i \<longleftrightarrow> i64_from_str s = Some i \<and> (s = ''0'' \<or> \<not> starts_with_zero s)"
  by (auto simp: array_key_from_str_def split: option.splits)

lemma array_key_from_string_cases:
  "array_key_from_string s = (case array_key_from_str s of KLong i \<Rightarrow> KLong i | _ \<Rightarrow> KString s)"
  by (simp add: array_key_from_string_def array_key_from_str_def split: option.splits)

lemma array_key_from_zend_str_cases:
  "array_key_from_zend_str z =
     (case fst (zs_as_str z) of
        Inl _ \<Rightarrow> KZendString z
      | Inr t \<Rightarrow> (case array_key_from_str t of KLong i \<Rightarrow> KLong i | _ \<Rightarrow> KZendString z))"
  by (simp add: array_key_from_zend_str_def array_key_from_str_def split: option.splits sum.splits)

lemma numeral_or_zero:
  assumes "list_all is_ascii_digit ds" "ds \<noteq> []" "ds = ''0'' \<or> \<not> starts_with_zero ds"
  shows "ds = show_int (int (digits_val ds))"
proof (cases "ds = ''0''")
  case False
  with assms have "hd ds \<noteq> CHR ''0''" by (cases ds) auto
  with assms show ?thesis by (simp add: show_int_def show_digits_val del: show_nat.simps)
qed (simp add: digits_val_def digit_val_def)

lemma negative_numeral:
  assumes "list_all is_ascii_digit ds" "ds \<noteq> []" "\<not> starts_with_zero ds"
  shows "CHR ''-'' # ds = show_int (- int (digits_val ds))"
proof -
  from assms have "hd ds \<noteq> CHR ''0''" by (cases ds) auto
  with assms show ?thesis
    using digits_val_pos [of ds] by (simp add: show_int_def show_digits_val del: show_nat.simps)
qed

lemma in_i64_uint: "in_i64 (uint n) \<longleftrightarrow> unat n < 2 ^ 63" for n :: u64
proof -
  have "int k \<le> 2 ^ 63 - 1 \<longleftrightarrow> k < 2 ^ 63" "- (2 ^ 63) \<le> int k" for k :: nat by auto
  from this [of "unat n"] show ?thesis by (simp only: uint_nat i64_defs simp_thms)
qed

lemma array_key_from_str_show_int: "in_i64 i \<Longrightarrow> array_key_from_str (show_int i) = KLong i"
  by (simp add: array_key_from_str_eq i64_from_str_show_int starts_with_zero_show_int) (metis show_int_0)

section \<open>The contract of the text conversions\<close>

text \<open>\<open>From<String>\<close>, \<open>From<&str>\<close> and \<open>From<&ZendStr>\<close> decide alike: a value whose \<open>text\<close> is an
  integer key becomes that integer, any other value is kept in its own form.\<close>

locale text_key =
  fixes text_of :: "'s \<Rightarrow> string option" and conv :: "'s \<Rightarrow> array_key" and keep :: "'s \<Rightarrow> array_key"
  assumes conv_eq: "conv s =
      (case text_of s of
         None \<Rightarrow> keep s
       | Some t \<Rightarrow> (case array_key_from_str t of KLong i \<Rightarrow> KLong i | _ \<Rightarrow> keep s))"
    and keep_not_long: "\<not> key_is_long (keep s)"
    and keep_text: "text_of s = Some t \<Longrightarrow> string_try_from_key (keep s) = Inr t"
begin

lemma conv_long_iff: "conv s = KLong i \<longleftrightarrow> (\<exists>t. text_of s = Some t \<and> array_key_from_str t = KLong i)"
  using keep_not_long [of s]
  by (auto simp: conv_eq key_is_long_def split: option.splits array_key.splits)

lemma conv_numeral: "text_of s = Some (show_int i) \<Longrightarrow> in_i64 i \<Longrightarrow> conv s = KLong i"
  by (simp add: conv_long_iff array_key_from_str_show_int)

lemma conv_text:
  assumes "text_of s = Some t" and "string_try_from_key (conv s) \<noteq> Inr t"
  shows "\<exists>i. array_key_from_str t = KLong i \<and> show_int i \<noteq> t"
  using assms keep_text [OF assms(1)]
  by (auto simp: conv_eq string_try_from_key_def split: array_key.splits)

end

interpretation string_key: text_key Some array_key_from_string KString
  by unfold_locales (simp_all add: array_key_from_string_cases key_is_long_def string_try_from_key_def)

interpretation str_key: text_key Some array_key_from_str KStr
  by unfold_locales (auto simp: array_key_from_str_def key_is_long_def string_try_from_key_def split: option.splits)

interpretation zend_str_key:
  text_key "\<lambda>z. case fst (zs_as_str z) of Inr t \<Rightarrow> Some t | Inl _ \<Rightarrow> None" array_key_from_zend_str KZendString
  by unfold_locales
     (auto simp: array_key_from_zend_str_cases key_is_long_def string_try_from_key_def split: sum.splits)

section \<open>Properties\<close>

text \<open>Which strings become integer keys: exactly the canonical numerals of 64-bit integers, which
  is PHP's rule, and besides them the numerals with a plus sign and those with a minus sign followed
  by a zero, which PHP keeps as strings.\<close>

theorem array_key_from_str_integers:
  "array_key_from_str s = KLong i \<longleftrightarrow> in_i64 i \<and>
     (s = show_int i \<or>
      (\<exists>ds. ds \<noteq> [] \<and> list_all is_ascii_digit ds \<and>
         (s = CHR ''+'' # ds \<and> i = int (digits_val ds) \<or>
          s = CHR ''-'' # ds \<and> starts_with_zero ds \<and> i = - int (digits_val ds))))"
  (is "?L \<longleftrightarrow> ?R")
proof
  assume ?L
  then show ?R
    unfolding array_key_from_str_eq i64_from_str_forms
    using numeral_or_zero negative_numeral by (fastforce split: if_splits)
next
  assume ?R
  then consider "in_i64 i" "s = show_int i" | ds where "in_i64 i" "ds \<noteq> []" "list_all is_ascii_digit ds"
      "s = CHR ''+'' # ds \<and> i = int (digits_val ds) \<or> s = CHR ''-'' # ds \<and> i = - int (digits_val ds)"
    by blast
  then show ?L
  proof cases
    case 1
    then show ?thesis by (simp add: array_key_from_str_show_int)
  next
    case 2
    then show ?thesis unfolding array_key_from_str_eq i64_from_str_forms by auto
  qed
qed

text \<open>An integer key survives the trip through text in every form of key, whatever its owner: the
  decimal text of a 64-bit integer is that integer's key, and the key's text and integer views give
  it back.\<close>

theorem array_key_int_roundtrip:
  assumes "in_i64 i"
  shows "array_key_from_string (show_int i) = KLong i \<and> array_key_from_str (show_int i) = KLong i \<and>
         array_key_from_zend_str (zs_new ready (show_int i) persistent) = KLong i \<and>
         string_try_from_key (array_key_from_i64 i) = Inr (show_int i) \<and>
         i64_try_from_key (KString (show_int i)) = Inr i \<and> i64_try_from_key (array_key_from_i64 i) = Inr i"
proof -
  have "fst (zs_as_str (zs_new ready (show_int i) persistent)) = Inr (show_int i)"
    by (simp add: zs_as_str_def zs_new_def utf8_valid_ascii show_int_ascii)
  then have "array_key_from_zend_str (zs_new ready (show_int i) persistent) = KLong i"
    using assms by (intro zend_str_key.conv_numeral) simp_all
  with string_key.conv_numeral [OF refl assms] str_key.conv_numeral [OF refl assms] assms show ?thesis
    by (simp add: string_try_from_key_def array_key_from_i64_def i64_try_from_key_def parse_property_i64_def
      i64_from_str_show_int)
qed

theorem array_key_int_roundtrip_witness:
  "in_i64 (-7) \<and> array_key_from_str (show_int (-7)) = KLong (-7)"
proof -
  have "in_i64 (-7)" by (simp add: i64_defs)
  with array_key_int_roundtrip [of "-7" True False] show ?thesis by simp
qed

text \<open>An unsigned index keeps its value in decimal, in the integer range or above it, and different
  indices give different keys.\<close>

theorem array_key_from_u64_faithful:
  "key_display (array_key_from_u64 n) = show_nat (unat n) \<and>
   (array_key_from_u64 m = array_key_from_u64 n \<longleftrightarrow> m = n) \<and>
   (key_is_long (array_key_from_u64 n) \<longleftrightarrow> unat n < 2 ^ 63)"
proof -
  have "uint m = uint n \<longleftrightarrow> unat m = unat n" by (simp only: uint_nat of_nat_eq_iff)
  then show ?thesis
    by (auto simp: array_key_from_u64_def key_display_def key_is_long_def show_int_def in_i64_uint
      word_unat_eq_iff split: if_splits)
qed

end
