(* ===== verification/Zval.thy ===== *)
theory Zval
  imports ArrayKey
begin

text \<open>
  \<open>src/types/zval.rs\<close>: the zval, its getters and setters, and the life cycle of what it points
  to. A zval is laid out as in C: an eight byte union read as an integer, the bits of a double or a
  pointer, and the \<open>type_info\<close> word. What pointers point to lives in an explicit heap: the
  reference-counting headers by address, and the strings, arrays, objects, references and indirect
  zvals. The engine functions that release, destroy and duplicate values are fields of a record the
  operations take. The flag that \<open>ZendStr::as_str\<close> may cache is not written back to the heap: by the
  properties of theory \<open>ZendString\<close> it changes no answer.
\<close>

unbundle bit_operations_syntax

record zval =
  zv_value :: u64
  zv_type_info :: u32
  zv_next :: u32

record gc_header =
  gc_refcount :: u32
  gc_type_info :: u32

record ('h, 'o) zheap =
  h_gc :: "u64 \<rightharpoonup> gc_header"
  h_str :: "u64 \<rightharpoonup> zend_str"
  h_arr :: "u64 \<rightharpoonup> 'h"
  h_obj :: "u64 \<rightharpoonup> 'o"
  h_ref :: "u64 \<rightharpoonup> zval"
  h_zv :: "u64 \<rightharpoonup> zval"

text \<open>\<open>zend_string_release\<close>, \<open>zval_ptr_dtor\<close> and \<open>zend_array_dup\<close> of the engine.\<close>

record ('h, 'o) zend_api =
  api_string_release :: "('h, 'o) zheap \<Rightarrow> u64 \<Rightarrow> ('h, 'o) zheap"
  api_ptr_dtor :: "('h, 'o) zheap \<Rightarrow> zval \<Rightarrow> ('h, 'o) zheap"
  api_array_dup :: "('h, 'o) zheap \<Rightarrow> u64 \<Rightarrow> u64 \<times> ('h, 'o) zheap"

section \<open>Types\<close>

definition get_type :: "zval \<Rightarrow> data_type" where
  "get_type z = datatype_from_u32 (zv_type_info z AND 0xFF)"

definition is_long :: "zval \<Rightarrow> bool" where "is_long z \<longleftrightarrow> get_type z = DtLong"
definition is_null :: "zval \<Rightarrow> bool" where "is_null z \<longleftrightarrow> get_type z = DtNull"
definition is_true :: "zval \<Rightarrow> bool" where "is_true z \<longleftrightarrow> get_type z = DtTrue"
definition is_false :: "zval \<Rightarrow> bool" where "is_false z \<longleftrightarrow> get_type z = DtFalse"
definition is_bool :: "zval \<Rightarrow> bool" where "is_bool z \<longleftrightarrow> is_true z \<or> is_false z"
definition is_double :: "zval \<Rightarrow> bool" where "is_double z \<longleftrightarrow> get_type z = DtDouble"
definition is_string :: "zval \<Rightarrow> bool" where "is_string z \<longleftrightarrow> get_type z = DtString"
definition is_resource :: "zval \<Rightarrow> bool" where "is_resource z \<longleftrightarrow> get_type z = DtResource"
definition is_array :: "zval \<Rightarrow> bool" where "is_array z \<longleftrightarrow> get_type z = DtArray"
definition is_object :: "zval \<Rightarrow> bool" where
  "is_object z \<longleftrightarrow> (case get_type z of DtObject _ \<Rightarrow> True | _ \<Rightarrow> False)"
definition is_reference :: "zval \<Rightarrow> bool" where "is_reference z \<longleftrightarrow> get_type z = DtReference"
definition is_indirect :: "zval \<Rightarrow> bool" where "is_indirect z \<longleftrightarrow> get_type z = DtIndirect"
definition is_ptr :: "zval \<Rightarrow> bool" where "is_ptr z \<longleftrightarrow> get_type z = DtPtr"
definition is_scalar :: "zval \<Rightarrow> bool" where
  "is_scalar z \<longleftrightarrow> get_type z \<in> {DtLong, DtDouble, DtString, DtTrue, DtFalse}"

lemmas is_type_defs = is_long_def is_null_def is_true_def is_false_def is_double_def is_string_def
  is_resource_def is_array_def is_object_def is_reference_def is_indirect_def is_ptr_def

section \<open>Getters\<close>

text \<open>A pointer read through \<open>as_ref\<close>: \<open>None\<close> for null. The heap is defined at every other pointer
  of a zval whose tag says it is one.\<close>

definition ptr_ref :: "(u64 \<rightharpoonup> 'a) \<Rightarrow> u64 \<Rightarrow> 'a option" where
  "ptr_ref m a = (if a = 0 then None else m a)"

text \<open>\<open>dereference\<close> follows a reference or an indirect zval, one level.\<close>

definition dereference :: "('h, 'o) zheap \<Rightarrow> zval \<Rightarrow> zval" where
  "dereference h z =
     (if is_reference z then the (h_ref h (zv_value z))
      else if is_indirect z then the (h_zv h (zv_value z))
      else z)"

definition zv_long :: "('h, 'o) zheap \<Rightarrow> zval \<Rightarrow> int option" where
  "zv_long h z =
     (if get_type z = DtLong then Some (sint (zv_value z))
      else let t = dereference h z in if get_type t = DtLong then Some (sint (zv_value t)) else None)"

definition zv_bool :: "('h, 'o) zheap \<Rightarrow> zval \<Rightarrow> bool option" where
  "zv_bool h z =
     (case get_type z of
        DtTrue \<Rightarrow> Some True
      | DtFalse \<Rightarrow> Some False
      | _ \<Rightarrow> (case get_type (dereference h z) of
               DtTrue \<Rightarrow> Some True | DtFalse \<Rightarrow> Some False | _ \<Rightarrow> None))"

text \<open>A double is its bit pattern.\<close>

definition zv_double :: "('h, 'o) zheap \<Rightarrow> zval \<Rightarrow> u64 option" where
  "zv_double h z =
     (if get_type z = DtDouble then Some (zv_value z)
      else let t = dereference h z in if get_type t = DtDouble then Some (zv_value t) else None)"

definition zv_zend_str :: "('h, 'o) zheap \<Rightarrow> zval \<Rightarrow> zend_str option" where
  "zv_zend_str h z =
     (if get_type z = DtString then ptr_ref (h_str h) (zv_value z)
      else let t = dereference h z
           in if get_type t = DtString then ptr_ref (h_str h) (zv_value t) else None)"

definition zv_str :: "('h, 'o) zheap \<Rightarrow> zval \<Rightarrow> string option" where
  "zv_str h z =
     (case zv_zend_str h z of
        None \<Rightarrow> None
      | Some s \<Rightarrow> (case fst (zs_as_str s) of Inr t \<Rightarrow> Some t | Inl _ \<Rightarrow> None))"

definition zv_string :: "('h, 'o) zheap \<Rightarrow> zval \<Rightarrow> string option" where
  "zv_string h z = zv_str h z"

definition zv_resource :: "('h, 'o) zheap \<Rightarrow> zval \<Rightarrow> u64 option" where
  "zv_resource h z =
     (if get_type z = DtResource then Some (zv_value z)
      else let t = dereference h z in if get_type t = DtResource then Some (zv_value t) else None)"

definition zv_array :: "('h, 'o) zheap \<Rightarrow> zval \<Rightarrow> 'h option" where
  "zv_array h z =
     (if get_type z = DtArray then ptr_ref (h_arr h) (zv_value z)
      else let t = dereference h z
           in if get_type t = DtArray then ptr_ref (h_arr h) (zv_value t) else None)"

definition zv_object :: "('h, 'o) zheap \<Rightarrow> zval \<Rightarrow> 'o option" where
  "zv_object h z =
     (if is_object z then ptr_ref (h_obj h) (zv_value z)
      else let t = dereference h z
           in if is_object t then ptr_ref (h_obj h) (zv_value t) else None)"

definition zv_indirect :: "('h, 'o) zheap \<Rightarrow> zval \<Rightarrow> zval option" where
  "zv_indirect h z = (if is_indirect z then h_zv h (zv_value z) else None)"

definition zv_reference :: "('h, 'o) zheap \<Rightarrow> zval \<Rightarrow> zval option" where
  "zv_reference h z = (if is_reference z then ptr_ref (h_ref h) (zv_value z) else None)"

definition zv_ptr :: "zval \<Rightarrow> u64 option" where
  "zv_ptr z = (if is_ptr z then Some (zv_value z) else None)"

text \<open>\<open>binary\<close> and \<open>binary_slice\<close>: the elements of a type of \<open>size\<close> bytes, unpacked by the type.\<close>

definition zv_binary :: "nat \<Rightarrow> (string \<Rightarrow> 't list) \<Rightarrow> ('h, 'o) zheap \<Rightarrow> zval \<Rightarrow> 't list option" where
  "zv_binary sz unpack h z =
     (case zv_zend_str h z of
        None \<Rightarrow> None
      | Some s \<Rightarrow> if length (zs_bytes s) mod sz \<noteq> 0 then None else Some (unpack (zs_bytes s)))"

section \<open>The getter contract\<close>

text \<open>The getters that see through references share one contract: a zval whose own tag is \<open>accepted\<close>
  is read directly, any other one is read after one level of dereferencing, if the tag found there is
  accepted. References and indirect zvals are never read directly.\<close>

locale value_getter =
  fixes accepted :: "data_type \<Rightarrow> bool"
    and read :: "('h, 'o) zheap \<Rightarrow> zval \<Rightarrow> 'v option"
    and get :: "('h, 'o) zheap \<Rightarrow> zval \<Rightarrow> 'v option"
  assumes get_eq: "get h z =
      (if accepted (get_type z) then read h z
       else if accepted (get_type (dereference h z)) then read h (dereference h z) else None)"
    and not_reference: "\<not> accepted DtReference"
    and not_indirect: "\<not> accepted DtIndirect"
begin

lemma get_own: "accepted (get_type z) \<Longrightarrow> get h z = read h z"
  by (simp add: get_eq)

lemma get_other: "\<not> is_reference z \<Longrightarrow> \<not> is_indirect z \<Longrightarrow> \<not> accepted (get_type z) \<Longrightarrow> get h z = None"
  by (simp add: get_eq dereference_def)

lemma get_reference:
  assumes "is_reference z" and "h_ref h (zv_value z) = Some t" and "\<not> is_reference t" and "\<not> is_indirect t"
  shows "get h z = get h t"
  using assms not_reference by (simp add: get_eq dereference_def is_reference_def)

lemma get_indirect:
  assumes "is_indirect z" and "h_zv h (zv_value z) = Some t" and "\<not> is_reference t" and "\<not> is_indirect t"
  shows "get h z = get h t"
  using assms not_indirect by (simp add: get_eq dereference_def is_reference_def is_indirect_def)

end

text \<open>A getter followed by a partial conversion, as \<open>str\<close> follows \<open>zend_str\<close>, is a getter again.\<close>

locale converted_getter = value_getter accepted read get
  for accepted :: "data_type \<Rightarrow> bool"
    and read :: "('h, 'o) zheap \<Rightarrow> zval \<Rightarrow> 'c option"
    and get :: "('h, 'o) zheap \<Rightarrow> zval \<Rightarrow> 'c option" +
  fixes conv :: "'c \<Rightarrow> 'd option"

sublocale converted_getter \<subseteq>
  converted: value_getter accepted "\<lambda>h z. Option.bind (read h z) conv" "\<lambda>h z. Option.bind (get h z) conv"
  by unfold_locales (simp_all add: get_eq not_reference not_indirect)

interpretation long_getter: value_getter "\<lambda>d. d = DtLong" "\<lambda>h z. Some (sint (zv_value z))" zv_long
  by unfold_locales (simp_all add: zv_long_def Let_def)

interpretation bool_getter: value_getter "\<lambda>d. d = DtTrue \<or> d = DtFalse" "\<lambda>h z. Some (get_type z = DtTrue)" zv_bool
  by unfold_locales (auto simp: zv_bool_def split: data_type.splits)

interpretation double_getter: value_getter "\<lambda>d. d = DtDouble" "\<lambda>h z. Some (zv_value z)" zv_double
  by unfold_locales (simp_all add: zv_double_def Let_def)

interpretation zend_str_getter:
  value_getter "\<lambda>d. d = DtString" "\<lambda>h z. ptr_ref (h_str h) (zv_value z)" zv_zend_str
  by unfold_locales (simp_all add: zv_zend_str_def Let_def)

interpretation resource_getter: value_getter "\<lambda>d. d = DtResource" "\<lambda>h z. Some (zv_value z)" zv_resource
  by unfold_locales (simp_all add: zv_resource_def Let_def)

interpretation array_getter: value_getter "\<lambda>d. d = DtArray" "\<lambda>h z. ptr_ref (h_arr h) (zv_value z)" zv_array
  by unfold_locales (simp_all add: zv_array_def Let_def)

interpretation object_getter:
  value_getter "\<lambda>d. case d of DtObject _ \<Rightarrow> True | _ \<Rightarrow> False" "\<lambda>h z. ptr_ref (h_obj h) (zv_value z)" zv_object
  by unfold_locales (simp_all add: zv_object_def is_object_def Let_def)

lemma zv_str_bind:
  "zv_str h z = Option.bind (zv_zend_str h z) (\<lambda>s. case fst (zs_as_str s) of Inr t \<Rightarrow> Some t | Inl _ \<Rightarrow> None)"
  by (simp add: zv_str_def split: option.splits)

interpretation str_getter:
  converted_getter "\<lambda>d. d = DtString" "\<lambda>h z. ptr_ref (h_str h) (zv_value z)" zv_zend_str
    "\<lambda>s. case fst (zs_as_str s) of Inr t \<Rightarrow> Some t | Inl _ \<Rightarrow> None"
  by unfold_locales

section \<open>Setters\<close>

definition zval_new :: zval where
  "zval_new = \<lparr>zv_value = 0, zv_type_info = as_u32 DtNull, zv_next = 0\<rparr>"

definition change_type :: "('h, 'o) zend_api \<Rightarrow> u32 \<Rightarrow> ('h, 'o) zheap \<times> zval \<Rightarrow> ('h, 'o) zheap \<times> zval" where
  "change_type api ty hz =
     (case hz of (h, z) \<Rightarrow>
        let h' = (if is_string z then (if zv_value z = 0 then h else api_string_release api h (zv_value z))
                  else if is_array z \<or> is_object z \<or> is_resource z \<or> is_reference z \<or>
                       get_type z = DtConstantExpression
                  then api_ptr_dtor api h z
                  else h)
        in (h', z\<lparr>zv_type_info := ty\<rparr>))"

definition set_value :: "u64 \<Rightarrow> ('h, 'o) zheap \<times> zval \<Rightarrow> ('h, 'o) zheap \<times> zval" where
  "set_value v hz = (fst hz, (snd hz)\<lparr>zv_value := v\<rparr>)"

definition set_long :: "('h, 'o) zend_api \<Rightarrow> int \<Rightarrow> ('h, 'o) zheap \<times> zval \<Rightarrow> ('h, 'o) zheap \<times> zval" where
  "set_long api v hz = set_value (word_of_int v) (change_type api IS_LONG hz)"

definition set_double :: "('h, 'o) zend_api \<Rightarrow> u64 \<Rightarrow> ('h, 'o) zheap \<times> zval \<Rightarrow> ('h, 'o) zheap \<times> zval" where
  "set_double api v hz = set_value v (change_type api IS_DOUBLE hz)"

definition set_bool :: "('h, 'o) zend_api \<Rightarrow> bool \<Rightarrow> ('h, 'o) zheap \<times> zval \<Rightarrow> ('h, 'o) zheap \<times> zval" where
  "set_bool api v hz = change_type api (if v then IS_TRUE else IS_FALSE) hz"

definition set_null :: "('h, 'o) zend_api \<Rightarrow> ('h, 'o) zheap \<times> zval \<Rightarrow> ('h, 'o) zheap \<times> zval" where
  "set_null api hz = change_type api IS_NULL hz"

text \<open>The string at address \<open>a\<close>, owned by the caller before and by the zval after.\<close>

definition set_zend_string :: "('h, 'o) zend_api \<Rightarrow> u64 \<Rightarrow> ('h, 'o) zheap \<times> zval \<Rightarrow> ('h, 'o) zheap \<times> zval" where
  "set_zend_string api a hz =
     (let is_interned = zs_interned (the (h_str (fst hz) a))
      in set_value a (change_type api (if is_interned then ZF_InternedStringEx else ZF_StringEx) hz))"

text \<open>\<open>set_interned_string\<close>: the engine's \<open>zend_string_init_interned\<close> gives the address \<open>init\<close>.\<close>

definition set_interned_string ::
    "('h, 'o) zend_api \<Rightarrow> (('h, 'o) zheap \<Rightarrow> u64 \<times> ('h, 'o) zheap) \<Rightarrow> ('h, 'o) zheap \<times> zval \<Rightarrow>
     ('h, 'o) zheap \<times> zval" where
  "set_interned_string api init hz =
     (let (h, z) = change_type api ZF_InternedStringEx hz; (a, h') = init h
      in (h', z\<lparr>zv_value := a\<rparr>))"

definition set_resource :: "('h, 'o) zend_api \<Rightarrow> u64 \<Rightarrow> ('h, 'o) zheap \<times> zval \<Rightarrow> ('h, 'o) zheap \<times> zval" where
  "set_resource api a hz = set_value a (change_type api ZF_ResourceEx hz)"

definition inc_count :: "u64 \<Rightarrow> ('h, 'o) zheap \<Rightarrow> ('h, 'o) zheap" where
  "inc_count a h = h\<lparr>h_gc := (h_gc h)(a := map_option (\<lambda>g. g\<lparr>gc_refcount := gc_refcount g + 1\<rparr>) (h_gc h a))\<rparr>"

definition dec_count :: "u64 \<Rightarrow> ('h, 'o) zheap \<Rightarrow> ('h, 'o) zheap" where
  "dec_count a h = h\<lparr>h_gc := (h_gc h)(a := map_option (\<lambda>g. g\<lparr>gc_refcount := gc_refcount g - 1\<rparr>) (h_gc h a))\<rparr>"

definition set_object :: "('h, 'o) zend_api \<Rightarrow> u64 \<Rightarrow> ('h, 'o) zheap \<times> zval \<Rightarrow> ('h, 'o) zheap \<times> zval" where
  "set_object api a hz =
     (let (h, z) = change_type api ZF_ObjectEx hz in (inc_count a h, z\<lparr>zv_value := a\<rparr>))"

text \<open>\<open>ZendHashTable::is_immutable\<close> reads the flag in the header.\<close>

definition ht_is_immutable :: "('h, 'o) zheap \<Rightarrow> u64 \<Rightarrow> bool" where
  "ht_is_immutable h a \<longleftrightarrow>
     (drop_bit GC_FLAGS_SHIFT (gc_type_info (the (h_gc h a))) AND drop_bit GC_FLAGS_SHIFT GC_FLAGS_MASK)
       AND GC_IMMUTABLE \<noteq> 0"

definition set_hashtable :: "('h, 'o) zend_api \<Rightarrow> u64 \<Rightarrow> ('h, 'o) zheap \<times> zval \<Rightarrow> ('h, 'o) zheap \<times> zval" where
  "set_hashtable api a hz =
     (let type_info = (if ht_is_immutable (fst hz) a then IS_ARRAY else ZF_ArrayEx)
      in set_value a (change_type api type_info hz))"

text \<open>\<open>set_ptr\<close> overwrites without releasing.\<close>

definition set_ptr :: "u64 \<Rightarrow> zval \<Rightarrow> zval" where
  "set_ptr a z = z\<lparr>zv_type_info := IS_PTR, zv_value := a\<rparr>"

definition zval_null :: "('h, 'o) zend_api \<Rightarrow> ('h, 'o) zheap \<Rightarrow> ('h, 'o) zheap \<times> zval" where
  "zval_null api h = set_null api (h, zval_new)"

text \<open>\<open>Drop for Zval\<close>; and \<open>release\<close>, which drops the zval but leaves what it points to alone.\<close>

definition zval_drop :: "('h, 'o) zend_api \<Rightarrow> ('h, 'o) zheap \<Rightarrow> zval \<Rightarrow> ('h, 'o) zheap" where
  "zval_drop api h z = fst (change_type api IS_NULL (h, z))"

definition zval_release :: "('h, 'o) zend_api \<Rightarrow> ('h, 'o) zheap \<Rightarrow> zval \<Rightarrow> ('h, 'o) zheap" where
  "zval_release api h z = zval_drop api h (z\<lparr>zv_type_info := IS_NULL\<rparr>)"

definition shallow_clone :: "('h, 'o) zheap \<Rightarrow> zval \<Rightarrow> ('h, 'o) zheap \<times> zval" where
  "shallow_clone h z =
     (let new = zval_new\<lparr>zv_type_info := zv_type_info z, zv_value := zv_value z\<rparr>
      in (if flags_contain (zv_type_info z) ZF_RefCounted then inc_count (zv_value z) h else h, new))"

text \<open>\<open>array_mut\<close>: the zval written is the one itself or the one it refers to; the address of the
  array to mutate, after separation.\<close>

definition separate_array :: "('h, 'o) zend_api \<Rightarrow> ('h, 'o) zheap \<Rightarrow> zval \<Rightarrow> ('h, 'o) zheap \<times> zval" where
  "separate_array api h z =
     (let arr = zv_value z
      in if ht_is_immutable h arr
         then (let (a, h') = api_array_dup api h arr in (h', z\<lparr>zv_value := a\<rparr>))
         else if 1 < gc_refcount (the (h_gc h arr))
         then (let (a, h') = api_array_dup api (dec_count arr h) arr in (h', z\<lparr>zv_value := a\<rparr>))
         else (h, z))"

definition array_mut ::
    "('h, 'o) zend_api \<Rightarrow> ('h, 'o) zheap \<times> zval \<Rightarrow> (('h, 'o) zheap \<times> zval) \<times> u64 option" where
  "array_mut api hz =
     (case hz of (h, z) \<Rightarrow>
        if get_type z = DtArray
        then (let (h', z') = separate_array api h z in ((h', z'), Some (zv_value z')))
        else if is_reference z \<and> get_type (the (h_ref h (zv_value z))) = DtArray
        then (let (h', t') = separate_array api h (the (h_ref h (zv_value z)))
              in ((h'\<lparr>h_ref := (h_ref h')(zv_value z \<mapsto> t')\<rparr>, z), Some (zv_value t')))
        else if is_indirect z \<and> get_type (the (h_zv h (zv_value z))) = DtArray
        then (let (h', t') = separate_array api h (the (h_zv h (zv_value z)))
              in ((h'\<lparr>h_zv := (h_zv h')(zv_value z \<mapsto> t')\<rparr>, z), Some (zv_value t')))
        else ((h, z), None))"

section \<open>Well-formed zvals and what the engine promises\<close>

abbreviation refcounted :: "zval \<Rightarrow> bool" where
  "refcounted z \<equiv> flags_contain (zv_type_info z) ZF_RefCounted"

definition counted_type :: "data_type \<Rightarrow> bool" where
  "counted_type t =
     (case t of DtString \<Rightarrow> True | DtArray \<Rightarrow> True | DtObject _ \<Rightarrow> True | DtResource \<Rightarrow> True
      | DtReference \<Rightarrow> True | DtConstantExpression \<Rightarrow> True | _ \<Rightarrow> False)"

definition rc :: "('h, 'o) zheap \<Rightarrow> u64 \<Rightarrow> u32 option" where
  "rc h a = map_option gc_refcount (h_gc h a)"

text \<open>The refcount flag is set on values with a header only, and on a string exactly when it is
  not interned.\<close>

definition zval_wf :: "('h, 'o) zheap \<Rightarrow> zval \<Rightarrow> bool" where
  "zval_wf h z \<longleftrightarrow>
     (refcounted z \<longrightarrow> counted_type (get_type z) \<and>
        (case rc h (zv_value z) of None \<Rightarrow> False | Some n \<Rightarrow> 1 \<le> n \<and> n < - 1)) \<and>
     (is_string z \<longrightarrow> zv_value z \<noteq> 0 \<and>
        (case h_str h (zv_value z) of None \<Rightarrow> False | Some s \<Rightarrow> zs_interned s \<longleftrightarrow> \<not> refcounted z))"

text \<open>Same strings, arrays, objects, references and indirect zvals.\<close>

definition same_contents :: "('h, 'o) zheap \<Rightarrow> ('h, 'o) zheap \<Rightarrow> bool" where
  "same_contents h h' \<longleftrightarrow> h_str h' = h_str h \<and> h_arr h' = h_arr h \<and> h_obj h' = h_obj h \<and>
     h_ref h' = h_ref h \<and> h_zv h' = h_zv h"

text \<open>What the engine documents of releasing a value that others still hold: its count drops by one
  and nothing else is touched; interned strings and zvals without the refcount flag are left alone.\<close>

definition release_shared :: "('h, 'o) zend_api \<Rightarrow> bool" where
  "release_shared api \<longleftrightarrow>
     (\<forall>h a s n. h_str h a = Some s \<longrightarrow> \<not> zs_interned s \<longrightarrow> rc h a = Some n \<longrightarrow> 1 < n \<longrightarrow>
        same_contents h (api_string_release api h a) \<and>
        rc (api_string_release api h a) = (rc h)(a \<mapsto> n - 1)) \<and>
     (\<forall>h a s. h_str h a = Some s \<longrightarrow> zs_interned s \<longrightarrow> api_string_release api h a = h) \<and>
     (\<forall>h z n. refcounted z \<longrightarrow> rc h (zv_value z) = Some n \<longrightarrow> 1 < n \<longrightarrow>
        same_contents h (api_ptr_dtor api h z) \<and>
        rc (api_ptr_dtor api h z) = (rc h)(zv_value z \<mapsto> n - 1)) \<and>
     (\<forall>h z. \<not> refcounted z \<longrightarrow> api_ptr_dtor api h z = h)"

text \<open>What the engine documents of duplicating an array: a fresh, mutable array of count one with the
  same elements; the array duplicated and every other array keep their elements and their header.\<close>

definition dup_fresh :: "('h, 'o) zend_api \<Rightarrow> ('h, 'o) zheap \<Rightarrow> u64 \<Rightarrow> bool" where
  "dup_fresh api h a \<longleftrightarrow>
     (case api_array_dup api h a of (b, h') \<Rightarrow>
        b \<noteq> 0 \<and> h_arr h b = None \<and> h_arr h' = (h_arr h)(b := h_arr h a) \<and> h_gc h' a = h_gc h a \<and>
        rc h' b = Some 1 \<and> \<not> ht_is_immutable h' b)"

text \<open>A heap with one reference, and an engine that counts references and never frees; its
  duplicates go to address 8.\<close>

definition heap_with_ref :: "zval \<Rightarrow> (unit, unit) zheap" where
  "heap_with_ref t = \<lparr>h_gc = [16 \<mapsto> \<lparr>gc_refcount = 2, gc_type_info = 0\<rparr>], h_str = Map.empty,
     h_arr = Map.empty, h_obj = Map.empty, h_ref = [16 \<mapsto> t], h_zv = Map.empty\<rparr>"

definition counting_api :: "('h, 'o) zend_api" where
  "counting_api =
     \<lparr>api_string_release = \<lambda>h a. (case h_str h a of
          Some s \<Rightarrow> if zs_interned s then h else dec_count a h | None \<Rightarrow> h),
      api_ptr_dtor = \<lambda>h z. (if refcounted z then dec_count (zv_value z) h else h),
      api_array_dup = \<lambda>h a. (8, h\<lparr>h_arr := (h_arr h)(8 := h_arr h a),
          h_gc := (h_gc h)(8 \<mapsto> \<lparr>gc_refcount = 1, gc_type_info = 0\<rparr>)\<rparr>)\<rparr>"

section \<open>Lemmas\<close>

lemma get_type_update [simp]:
  "get_type (z\<lparr>zv_value := v\<rparr>) = get_type z"
  "get_type (z\<lparr>zv_type_info := t, zv_value := v\<rparr>) = get_type (z\<lparr>zv_type_info := t\<rparr>)"
  by (simp_all add: get_type_def)

lemma get_type_const [simp]:
  "get_type (z\<lparr>zv_type_info := IS_LONG\<rparr>) = DtLong"
  "get_type (z\<lparr>zv_type_info := IS_DOUBLE\<rparr>) = DtDouble"
  "get_type (z\<lparr>zv_type_info := IS_TRUE\<rparr>) = DtTrue"
  "get_type (z\<lparr>zv_type_info := IS_FALSE\<rparr>) = DtFalse"
  "get_type (z\<lparr>zv_type_info := IS_NULL\<rparr>) = DtNull"
  "get_type (z\<lparr>zv_type_info := IS_PTR\<rparr>) = DtPtr"
  "get_type (z\<lparr>zv_type_info := IS_ARRAY\<rparr>) = DtArray"
  "get_type (z\<lparr>zv_type_info := ZF_ArrayEx\<rparr>) = DtArray"
  "get_type (z\<lparr>zv_type_info := ZF_StringEx\<rparr>) = DtString"
  "get_type (z\<lparr>zv_type_info := ZF_InternedStringEx\<rparr>) = DtString"
  "get_type (z\<lparr>zv_type_info := ZF_ObjectEx\<rparr>) = DtObject None"
  "get_type (z\<lparr>zv_type_info := ZF_ResourceEx\<rparr>) = DtResource"
  by (simp_all add: get_type_def datatype_from_u32_def zval_flags zend_consts)

lemma snd_change_type [simp]: "snd (change_type api ty hz) = (snd hz)\<lparr>zv_type_info := ty\<rparr>"
  by (simp add: change_type_def Let_def split: prod.splits)

lemma set_value_simps [simp]:
  "snd (set_value v hz) = (snd hz)\<lparr>zv_value := v\<rparr>" "fst (set_value v hz) = fst hz"
  by (simp_all add: set_value_def)

lemma rc_inc: "rc (inc_count a h) = (rc h)(a := map_option (\<lambda>n. n + 1) (rc h a))"
  by (auto simp: rc_def inc_count_def fun_eq_iff map_option.compositionality comp_def)

lemma rc_dec: "rc (dec_count a h) = (rc h)(a := map_option (\<lambda>n. n - 1) (rc h a))"
  by (auto simp: rc_def dec_count_def fun_eq_iff map_option.compositionality comp_def)

lemma h_str_inc [simp]: "h_str (inc_count a h) = h_str h"
  by (simp add: inc_count_def)

lemma same_contents_inc [simp]: "same_contents h (inc_count a h)"
  by (simp add: same_contents_def inc_count_def)

lemma same_contents_dec [simp]: "same_contents h (dec_count a h)"
  by (simp add: same_contents_def dec_count_def)

lemma same_contents_refl [simp]: "same_contents h h"
  by (simp add: same_contents_def)

lemma same_contents_trans: "same_contents h h' \<Longrightarrow> same_contents h' h'' \<Longrightarrow> same_contents h h''"
  by (simp add: same_contents_def)

lemma counted_type_iff:
  "counted_type (get_type z) \<longleftrightarrow> is_string z \<or> is_array z \<or> is_object z \<or> is_resource z \<or>
     is_reference z \<or> get_type z = DtConstantExpression"
  by (cases "get_type z") (auto simp: counted_type_def is_type_defs)

lemma zval_drop_eq:
  "zval_drop api h z =
     (if is_string z then (if zv_value z = 0 then h else api_string_release api h (zv_value z))
      else if counted_type (get_type z) then api_ptr_dtor api h z else h)"
  by (auto simp: zval_drop_def change_type_def counted_type_iff)

lemma zval_drop_shared:
  assumes "release_shared api" and "refcounted z" and "counted_type (get_type z)"
    and "rc h (zv_value z) = Some n" and "1 < n"
    and "is_string z \<Longrightarrow> zv_value z \<noteq> 0 \<and> (\<exists>s. h_str h (zv_value z) = Some s \<and> \<not> zs_interned s)"
  shows "same_contents h (zval_drop api h z) \<and> rc (zval_drop api h z) = (rc h)(zv_value z \<mapsto> n - 1)"
  using assms unfolding zval_drop_eq release_shared_def by (cases "is_string z") auto

lemma zval_drop_uncounted:
  assumes "release_shared api" and "\<not> refcounted z"
    and "is_string z \<Longrightarrow> \<exists>s. h_str h (zv_value z) = Some s \<and> zs_interned s"
  shows "zval_drop api h z = h"
  using assms unfolding zval_drop_eq release_shared_def by auto

lemma release_shared_counting: "release_shared counting_api"
  by (auto simp: release_shared_def counting_api_def rc_dec)

lemma word_succ_gt_1:
  assumes "1 \<le> n" and "n < - 1"
  shows "1 < n + (1 :: u32)"
proof -
  have "n + 1 \<noteq> 0" using assms(2) by (metis add_eq_0_iff order_less_irrefl add.commute)
  then have "unat (n + 1) = Suc (unat n)" by (metis unatSuc add.commute)
  moreover have "1 \<le> unat n" using assms(1) by (simp add: word_le_nat_alt)
  ultimately show ?thesis by (simp add: word_less_nat_alt)
qed

section \<open>Properties\<close>

text \<open>Each scalar setter is read back by its own getter, whatever the zval held before and whatever the
  engine did to release it, and by no other getter.\<close>

theorem zval_set_get:
  assumes "in_i64 v"
  shows "zv_long h' (snd (set_long api v hz)) = Some v \<and> zv_bool h' (snd (set_long api v hz)) = None \<and>
         zv_double h' (snd (set_double api d hz)) = Some d \<and> zv_long h' (snd (set_double api d hz)) = None \<and>
         zv_bool h' (snd (set_bool api b hz)) = Some b \<and> zv_long h' (snd (set_bool api b hz)) = None \<and>
         is_null (snd (set_null api hz)) \<and> zv_bool h' (snd (set_null api hz)) = None \<and>
         zv_ptr (set_ptr a (snd hz)) = Some a \<and> zv_zend_str h' (snd (set_long api v hz)) = None"
proof -
  have "sint (word_of_int v :: u64) = v"
    using assms by (simp add: i64_defs signed_of_int signed_take_bit_int_eq_self)
  then show ?thesis
    by (simp add: zv_long_def zv_bool_def zv_double_def zv_ptr_def zv_zend_str_def set_long_def
      set_double_def set_bool_def set_null_def set_ptr_def is_type_defs dereference_def Let_def)
qed

theorem zval_set_get_witness:
  "zv_long (heap_with_ref zval_new) (snd (set_long counting_api 42 (heap_with_ref zval_new, zval_new))) = Some 42"
proof -
  have "in_i64 42" by (simp add: i64_defs)
  then show ?thesis by (rule zval_set_get [THEN conjunct1])
qed

text \<open>A reference is transparent to the getters: reading through it gives what reading its target
  gives, for a target that is a value, and a null target is not read as anything.\<close>

theorem getters_deref:
  assumes "is_reference z" and "h_ref h (zv_value z) = Some t" and "\<not> is_reference t" and "\<not> is_indirect t"
  shows "zv_long h z = zv_long h t \<and> zv_bool h z = zv_bool h t \<and> zv_double h z = zv_double h t \<and>
         zv_zend_str h z = zv_zend_str h t \<and> zv_str h z = zv_str h t \<and> zv_array h z = zv_array h t \<and>
         zv_object h z = zv_object h t \<and> zv_resource h z = zv_resource h t"
  using long_getter.get_reference [OF assms] bool_getter.get_reference [OF assms]
    double_getter.get_reference [OF assms] zend_str_getter.get_reference [OF assms]
    array_getter.get_reference [OF assms] object_getter.get_reference [OF assms]
    resource_getter.get_reference [OF assms] str_getter.converted.get_reference [OF assms]
  by (simp add: zv_str_bind)

theorem getters_deref_witness:
  "zv_long (heap_with_ref (zval_new\<lparr>zv_type_info := IS_LONG, zv_value := 5\<rparr>))
     (zval_new\<lparr>zv_type_info := IS_REFERENCE, zv_value := 16\<rparr>) = Some 5"
  using getters_deref [of "zval_new\<lparr>zv_type_info := IS_REFERENCE, zv_value := 16\<rparr>"
      "heap_with_ref (zval_new\<lparr>zv_type_info := IS_LONG, zv_value := 5\<rparr>)"
      "zval_new\<lparr>zv_type_info := IS_LONG, zv_value := 5\<rparr>"]
  by (simp add: heap_with_ref_def is_type_defs zv_long_def)
     (simp add: get_type_def datatype_from_u32_def zend_consts)

text \<open>C7. Cloning a well-formed zval and dropping the clone leaves every reference count and every
  string, array, object and reference as they were: the clone takes one count exactly when the drop
  gives one back.\<close>

theorem clone_drop_balanced:
  assumes "release_shared api" and "zval_wf h z"
  shows "let (h', z') = shallow_clone h z; h'' = zval_drop api h' z'
         in same_contents h h'' \<and> rc h'' = rc h \<and> get_type z' = get_type z \<and> zv_value z' = zv_value z"
proof (cases "refcounted z")
  case True
  let ?z = "zval_new\<lparr>zv_type_info := zv_type_info z, zv_value := zv_value z\<rparr>"
  let ?h = "inc_count (zv_value z) h"
  from True assms(2) obtain n where n: "rc h (zv_value z) = Some n" "1 \<le> n" "n < - 1"
    and ct: "counted_type (get_type z)"
    by (auto simp: zval_wf_def split: option.splits)
  have t: "get_type ?z = get_type z" by (simp add: get_type_def)
  have "1 < n + 1" using n(2,3) by (rule word_succ_gt_1)
  then have "same_contents ?h (zval_drop api ?h ?z) \<and>
      rc (zval_drop api ?h ?z) = (rc ?h)(zv_value ?z \<mapsto> (n + 1) - 1)"
    using True n ct assms t
    by (intro zval_drop_shared)
       (auto simp: rc_inc zval_wf_def is_string_def split: option.splits)
  with True n t show ?thesis
    by (auto simp: shallow_clone_def Let_def rc_inc intro: same_contents_trans [OF same_contents_inc])
next
  case False
  have "zval_drop api h (zval_new\<lparr>zv_type_info := zv_type_info z, zv_value := zv_value z\<rparr>) = h"
    using False assms
    by (intro zval_drop_uncounted) (auto simp: zval_wf_def is_string_def get_type_def split: option.splits)
  with False show ?thesis by (simp add: shallow_clone_def Let_def get_type_def)
qed

theorem clone_drop_balanced_witness:
  "let z = zval_new\<lparr>zv_type_info := ZF_ReferenceEx, zv_value := 16\<rparr>; h = heap_with_ref zval_new;
       (h', z') = shallow_clone h z
   in rc h' 16 = Some 3 \<and> rc (zval_drop counting_api h' z') 16 = Some 2"
proof -
  let ?z = "zval_new\<lparr>zv_type_info := ZF_ReferenceEx, zv_value := 16\<rparr>" and ?h = "heap_with_ref zval_new"
  have "get_type ?z = DtReference"
    by (simp add: get_type_def datatype_from_u32_def zval_flags zend_consts)
  moreover have "refcounted ?z" by (simp add: flags_contain_def zval_flags zend_consts)
  ultimately have "zval_wf ?h ?z"
    by (simp add: zval_wf_def rc_def heap_with_ref_def counted_type_def is_string_def)
  from clone_drop_balanced [OF release_shared_counting this] \<open>refcounted ?z\<close> show ?thesis
    by (simp add: shallow_clone_def Let_def rc_inc) (simp add: rc_def heap_with_ref_def)
qed

text \<open>C8. \<open>array_mut\<close> on an array zval separates: the array it returns is mutable, has one owner and the
  elements the zval had; when the array was shared or immutable it is a new one, the other holders
  still see the old array with its elements, and the old count drops by one exactly for a counted
  array. An array with one owner is returned as it is.\<close>

theorem array_mut_separates:
  assumes "get_type z = DtArray" and "h_arr h (zv_value z) = Some x" and "rc h (zv_value z) = Some n" and "1 \<le> n"
    and "dup_fresh api h (zv_value z)" and "dup_fresh api (dec_count (zv_value z) h) (zv_value z)"
  shows "\<exists>h' z' r. array_mut api (h, z) = ((h', z'), Some r) \<and>
           zv_value z' = r \<and> get_type z' = DtArray \<and> h_arr h' r = Some x \<and>
           rc h' r = Some 1 \<and>
           \<not> ht_is_immutable h' r \<and> h_arr h' (zv_value z) = Some x \<and>
           (if ht_is_immutable h (zv_value z) then r \<noteq> zv_value z \<and> rc h' (zv_value z) = Some n
            else if 1 < n then r \<noteq> zv_value z \<and> rc h' (zv_value z) = Some (n - 1)
            else r = zv_value z \<and> h' = h)"
proof -
  let ?a = "zv_value z"
  obtain b h1 where d1: "api_array_dup api h ?a = (b, h1)" by (cases "api_array_dup api h ?a")
  obtain c h2 where d2: "api_array_dup api (dec_count ?a h) ?a = (c, h2)"
    by (cases "api_array_dup api (dec_count ?a h) ?a")
  have arr: "h_arr (dec_count ?a h) = h_arr h" by (simp add: dec_count_def)
  have n: "gc_refcount (the (h_gc h ?a)) = n" using assms(3) by (auto simp: rc_def)
  have "rc h1 ?a = rc h ?a" "rc h2 ?a = rc (dec_count ?a h) ?a"
    using assms(5,6) d1 d2 by (simp_all add: dup_fresh_def rc_def)
  then have "rc h1 ?a = Some n" "rc h2 ?a = Some (n - 1)"
    using assms(3) by (simp_all add: rc_dec)
  moreover have "\<not> 1 < n \<Longrightarrow> n = 1" using assms(4) by simp
  ultimately show ?thesis
    using assms d1 d2 n unfolding array_mut_def separate_array_def dup_fresh_def arr
    by (cases "ht_is_immutable h ?a"; cases "1 < n") (auto simp: Let_def)
qed

text \<open>Separating an immutable array does not make the zval refcounted: a zval that held the immutable
  array with the plain \<open>Array\<close> tag afterwards holds its own array of count one under the same tag,
  so dropping the zval leaves the duplicate allocated with its count (a leak).\<close>

theorem array_mut_immutable_leaks:
  assumes "zv_type_info z = IS_ARRAY" and "h_arr h (zv_value z) = Some x" and "ht_is_immutable h (zv_value z)"
    and "dup_fresh api h (zv_value z)" and "release_shared api"
  shows "\<exists>h' z' r. array_mut api (h, z) = ((h', z'), Some r) \<and> r \<noteq> zv_value z \<and> \<not> refcounted z' \<and>
           zval_drop api h' z' = h' \<and> rc h' r = Some 1 \<and> h_arr h' r = Some x"
proof -
  have t: "get_type z = DtArray"
    using assms(1) by (simp add: get_type_def datatype_from_u32_def zend_consts)
  obtain b h1 where d: "api_array_dup api h (zv_value z) = (b, h1)"
    by (cases "api_array_dup api h (zv_value z)")
  let ?z = "z\<lparr>zv_value := b\<rparr>"
  have "\<not> refcounted ?z"
    using assms(1) by (simp add: flags_contain_def zval_flags zend_consts)
  moreover from this have "zval_drop api h1 ?z = h1"
    using t by (intro zval_drop_uncounted [OF assms(5)]) (simp_all add: is_string_def)
  moreover have "array_mut api (h, z) = ((h1, ?z), Some b)"
    using t assms(3) d by (simp add: array_mut_def separate_array_def)
  ultimately show ?thesis
    using assms(2,4) d by (auto simp: dup_fresh_def)
qed

definition heap_with_array :: "u32 \<Rightarrow> u32 \<Rightarrow> (nat, unit) zheap" where
  "heap_with_array count flags = \<lparr>h_gc = [32 \<mapsto> \<lparr>gc_refcount = count, gc_type_info = flags\<rparr>],
     h_str = Map.empty, h_arr = [32 \<mapsto> 7], h_obj = Map.empty, h_ref = Map.empty, h_zv = Map.empty\<rparr>"

lemma heap_with_array_simps:
  "h_arr (heap_with_array n f) = [32 \<mapsto> 7]" "rc (heap_with_array n f) 32 = Some n"
  "ht_is_immutable (heap_with_array n f) 32 \<longleftrightarrow> f AND 64 \<noteq> 0"
  "dup_fresh counting_api (heap_with_array n f) 32"
  "dup_fresh counting_api (dec_count 32 (heap_with_array n f)) 32"
  by (simp_all add: heap_with_array_def rc_def ht_is_immutable_def zend_consts dup_fresh_def counting_api_def
    dec_count_def and.assoc)

theorem array_mut_separates_witness:
  "\<exists>h' z' r. array_mut counting_api (heap_with_array 2 0, zval_new\<lparr>zv_type_info := ZF_ArrayEx, zv_value := 32\<rparr>) =
      ((h', z'), Some r) \<and> r \<noteq> 32 \<and> h_arr h' r = Some 7 \<and> rc h' r = Some 1 \<and> rc h' 32 = Some 1"
  using array_mut_separates [of "zval_new\<lparr>zv_type_info := ZF_ArrayEx, zv_value := 32\<rparr>" "heap_with_array 2 0" 7 2
      counting_api]
  by (auto simp: heap_with_array_simps)

theorem array_mut_immutable_leaks_witness:
  "\<exists>h' z' r. array_mut counting_api (heap_with_array 2 64, zval_new\<lparr>zv_type_info := IS_ARRAY, zv_value := 32\<rparr>) =
      ((h', z'), Some r) \<and> zval_drop counting_api h' z' = h' \<and> rc h' r = Some 1"
  using array_mut_immutable_leaks [of "zval_new\<lparr>zv_type_info := IS_ARRAY, zv_value := 32\<rparr>" "heap_with_array 2 64" 7
      counting_api]
  by (auto simp: heap_with_array_simps release_shared_counting)

end
