(* ===== verification/Coerce.thy ===== *)
theory Coerce
  imports Zval
begin

text \<open>
  The coercions of \<open>src/types/zval.rs\<close> (numeric prefixes of strings, floats to text, the
  \<open>coerce_to_*\<close> methods), the integer conversions of \<open>src/types/long.rs\<close> and \<open>src/macros.rs\<close>, and
  the stub text of a constant (\<open>src/convert.rs\<close>). A float is its IEEE bit pattern; casts between
  floats and integers are written out on it. The standard library's decimal renderings and its
  decimal-to-float rounding are arguments.
\<close>

unbundle bit_operations_syntax

section \<open>Integers in strings\<close>

definition is_sign :: "char \<Rightarrow> bool" where
  "is_sign c \<longleftrightarrow> c = CHR ''-'' \<or> c = CHR ''+''"

text \<open>The loops advance an index over the bytes; \<open>takeWhile\<close> is the slice they cover.\<close>

definition parse_long_from_str :: "string \<Rightarrow> int" where
  "parse_long_from_str s0 =
     (let s = trim_start s0
      in if s = [] then 0
         else let is_negative = (hd s = CHR ''-'');
                  digits_start = (if is_sign (hd s) then 1 else 0);
                  i = digits_start + length (takeWhile is_ascii_digit (drop digits_start s))
              in if i = digits_start then 0
                 else case i64_from_str (take i s) of
                        Some n \<Rightarrow> n
                      | None \<Rightarrow> if is_negative then i64_min else i64_max)"

section \<open>Floats in strings\<close>

text \<open>The scanning loop: the number of bytes consumed from a position, given which of a decimal
  point, an exponent and a digit have been seen.\<close>

fun scan_double :: "bool \<Rightarrow> bool \<Rightarrow> bool \<Rightarrow> string \<Rightarrow> nat" where
  "scan_double has_decimal has_exponent has_digits [] = 0"
| "scan_double has_decimal has_exponent has_digits (c # cs) =
     (if is_ascii_digit c then Suc (scan_double has_decimal has_exponent True cs)
      else if c = CHR ''.'' \<and> \<not> has_decimal \<and> \<not> has_exponent
      then Suc (scan_double True has_exponent has_digits cs)
      else if (c = CHR ''e'' \<or> c = CHR ''E'') \<and> \<not> has_exponent \<and> has_digits
      then (case cs of
              d # ds \<Rightarrow> if is_sign d then Suc (Suc (scan_double has_decimal True has_digits ds))
                         else Suc (scan_double has_decimal True has_digits cs)
            | [] \<Rightarrow> Suc (scan_double has_decimal True has_digits []))
      else 0)"

text \<open>The finite numbers of the grammar of \<open>f64::from_str\<close>: an optional sign, digits with an
  optional point (a digit on one side at least), and an optional exponent with at least one digit.\<close>

definition drop_sign :: "string \<Rightarrow> string" where
  "drop_sign s = (case s of c # cs \<Rightarrow> if is_sign c then cs else s | [] \<Rightarrow> [])"

definition f64_exponent_ok :: "string \<Rightarrow> bool" where
  "f64_exponent_ok s =
     (case s of
        [] \<Rightarrow> True
      | c # cs \<Rightarrow> (c = CHR ''e'' \<or> c = CHR ''E'') \<and> drop_sign cs \<noteq> [] \<and>
                  list_all is_ascii_digit (drop_sign cs))"

definition f64_number :: "string \<Rightarrow> bool" where
  "f64_number s0 =
     (let s = drop_sign s0; ds = takeWhile is_ascii_digit s; r = dropWhile is_ascii_digit s
      in case r of
           c # cs \<Rightarrow>
             if c = CHR ''.''
             then (ds \<noteq> [] \<or> takeWhile is_ascii_digit cs \<noteq> []) \<and> f64_exponent_ok (dropWhile is_ascii_digit cs)
             else ds \<noteq> [] \<and> f64_exponent_ok r
         | [] \<Rightarrow> ds \<noteq> [])"

text \<open>\<open>to_f64\<close> rounds a text of the grammar to a float; the slice scanned has no letters but the
  exponent's, so the named values of the grammar cannot occur.\<close>

definition parse_double_from_str :: "(string \<Rightarrow> u64) \<Rightarrow> string \<Rightarrow> u64" where
  "parse_double_from_str to_f64 s0 =
     (let s = trim_start s0
      in if s = [] then 0
         else let start = (if is_sign (hd s) then 1 else 0);
                  i = start + scan_double False False False (drop start s)
              in if f64_number (take i s) then to_f64 (take i s) else 0)"

section \<open>Bit patterns of floats\<close>

definition f64_sign :: "u64 \<Rightarrow> bool" where "f64_sign b \<longleftrightarrow> 2 ^ 63 \<le> unat b"
definition f64_exp :: "u64 \<Rightarrow> nat" where "f64_exp b = unat b div 2 ^ 52 mod 2048"
definition f64_mant :: "u64 \<Rightarrow> nat" where "f64_mant b = unat b mod 2 ^ 52"

definition f64_pack :: "bool \<Rightarrow> nat \<Rightarrow> nat \<Rightarrow> u64" where
  "f64_pack s e m = word_of_nat ((if s then 2 ^ 63 else 0) + e * 2 ^ 52 + m)"

definition f64_is_nan :: "u64 \<Rightarrow> bool" where "f64_is_nan b \<longleftrightarrow> f64_exp b = 2047 \<and> f64_mant b \<noteq> 0"
definition f64_is_infinite :: "u64 \<Rightarrow> bool" where "f64_is_infinite b \<longleftrightarrow> f64_exp b = 2047 \<and> f64_mant b = 0"

text \<open>\<open>d as i64\<close>: truncation toward zero, saturating, zero for NaN. A finite float is its significand
  times a power of two.\<close>

definition f64_trunc :: "u64 \<Rightarrow> nat" where
  "f64_trunc b =
     (let e = f64_exp b; m = (if e = 0 then f64_mant b else 2 ^ 52 + f64_mant b); e' = (if e = 0 then 1 else e)
      in if 1075 \<le> e' then m * 2 ^ (e' - 1075) else m div 2 ^ (1075 - e'))"

definition f64_to_i64 :: "u64 \<Rightarrow> int" where
  "f64_to_i64 b =
     (if f64_is_nan b then 0
      else if f64_is_infinite b then (if f64_sign b then i64_min else i64_max)
      else let n = int (f64_trunc b) in if f64_sign b then max i64_min (- n) else min i64_max n)"

text \<open>\<open>l as f64\<close>: round to nearest, ties to even.\<close>

fun bit_length :: "nat \<Rightarrow> nat" where
  "bit_length n = (if n = 0 then 0 else Suc (bit_length (n div 2)))"

declare bit_length.simps [simp del]

definition f64_of_nat :: "bool \<Rightarrow> nat \<Rightarrow> u64" where
  "f64_of_nat s n =
     (if n = 0 then f64_pack s 0 0
      else let k = bit_length n
           in if k \<le> 53 then f64_pack s (1022 + k) (n * 2 ^ (53 - k) - 2 ^ 52)
              else let q = n div 2 ^ (k - 53); r = n mod 2 ^ (k - 53); half = 2 ^ (k - 54);
                       q' = (if half < r \<or> (r = half \<and> odd q) then Suc q else q)
                   in if q' = 2 ^ 53 then f64_pack s (1023 + k) 0 else f64_pack s (1022 + k) (q' - 2 ^ 52))"

definition f64_of_i64 :: "int \<Rightarrow> u64" where
  "f64_of_i64 l = (if l = 0 then 0 else f64_of_nat (l < 0) (nat \<bar>l\<bar>))"

definition f64_one :: u64 where "f64_one = f64_pack False 1023 0"

section \<open>Floats as text\<close>

text \<open>\<open>exp_fmt\<close> is \<open>format!("{d:.14E}")\<close>, \<open>dec_fmt\<close> is \<open>d.to_string()\<close>.\<close>

definition trim_zeros :: "string \<Rightarrow> string" where
  "trim_zeros s = trim_end_matches (CHR ''.'') (trim_end_matches (CHR ''0'') s)"

definition php_float_to_string :: "(u64 \<Rightarrow> string) \<Rightarrow> (u64 \<Rightarrow> string) \<Rightarrow> u64 \<Rightarrow> string" where
  "php_float_to_string exp_fmt dec_fmt d =
     (let formatted = exp_fmt d
      in case find_char (CHR ''E'') formatted of
           None \<Rightarrow> formatted
         | Some e_pos \<Rightarrow>
             let mantissa_part = take e_pos formatted;
                 exp = (case i64_from_str (drop (Suc e_pos) formatted) of
                          Some n \<Rightarrow> if - (2 ^ 31) \<le> n \<and> n < 2 ^ 31 then n else 0
                        | None \<Rightarrow> 0)
             in if 14 \<le> exp \<or> exp \<le> - 5
                then let mantissa = trim_zeros mantissa_part;
                         mantissa = (if CHR ''.'' \<in> set mantissa \<and> suffix ''.'' mantissa then mantissa @ ''0''
                                     else if CHR ''.'' \<notin> set mantissa then mantissa @ ''.0'' else mantissa)
                     in if 0 \<le> exp then mantissa @ ''E+'' @ show_int exp else mantissa @ ''E'' @ show_int exp
                else let s = dec_fmt d in if CHR ''.'' \<in> set s then trim_zeros s else s)"

section \<open>Coercions\<close>

text \<open>\<open>to_str\<close> is the outcome of calling \<open>__toString\<close> on an object and reading the result as text.\<close>

definition coerce_to_string ::
    "(u64 \<Rightarrow> string) \<Rightarrow> (u64 \<Rightarrow> string) \<Rightarrow> ('o \<Rightarrow> string option) \<Rightarrow> ('h, 'o) zheap \<Rightarrow> zval \<Rightarrow> string option" where
  "coerce_to_string exp_fmt dec_fmt to_str h z =
     (case zv_str h z of
        Some s \<Rightarrow> Some s
      | None \<Rightarrow>
     (case zv_bool h z of
        Some b \<Rightarrow> Some (if b then ''1'' else [])
      | None \<Rightarrow>
        if is_null z then Some []
        else
     (case zv_long h z of
        Some l \<Rightarrow> Some (show_int l)
      | None \<Rightarrow>
     (case zv_double h z of
        Some d \<Rightarrow>
          Some (if f64_is_nan d then ''NAN''
                else if f64_is_infinite d then (if \<not> f64_sign d then ''INF'' else ''-INF'')
                else php_float_to_string exp_fmt dec_fmt d)
      | None \<Rightarrow>
     (case zv_object h z of
        Some obj \<Rightarrow> to_str obj
      | None \<Rightarrow> None)))))"

definition coerce_to_long :: "('h, 'o) zheap \<Rightarrow> zval \<Rightarrow> int option" where
  "coerce_to_long h z =
     (case zv_long h z of
        Some l \<Rightarrow> Some l
      | None \<Rightarrow>
     (case zv_bool h z of
        Some b \<Rightarrow> Some (if b then 1 else 0)
      | None \<Rightarrow>
        if is_null z then Some 0
        else
     (case zv_double h z of
        Some d \<Rightarrow> Some (f64_to_i64 d)
      | None \<Rightarrow>
     (case zv_str h z of
        Some s \<Rightarrow> Some (parse_long_from_str s)
      | None \<Rightarrow> None))))"

definition coerce_to_double :: "(string \<Rightarrow> u64) \<Rightarrow> ('h, 'o) zheap \<Rightarrow> zval \<Rightarrow> u64 option" where
  "coerce_to_double to_f64 h z =
     (case zv_double h z of
        Some d \<Rightarrow> Some d
      | None \<Rightarrow>
     (case zv_long h z of
        Some l \<Rightarrow> Some (f64_of_i64 l)
      | None \<Rightarrow>
     (case zv_bool h z of
        Some b \<Rightarrow> Some (if b then f64_one else 0)
      | None \<Rightarrow>
        if is_null z then Some 0
        else
     (case zv_str h z of
        Some s \<Rightarrow> Some (parse_double_from_str to_f64 s)
      | None \<Rightarrow> None))))"

section \<open>Integer conversions\<close>

text \<open>\<open>try_into_zval_int!\<close> and \<open>into_zval!\<close> for an integer type: \<open>val\<close> is the Rust value, whose
  conversion to \<open>ZendLong\<close> fails outside its range.\<close>

definition int_set_zval ::
    "('h, 'o) zend_api \<Rightarrow> int \<Rightarrow> ('h, 'o) zheap \<times> zval \<Rightarrow> error + ('h, 'o) zheap \<times> zval" where
  "int_set_zval api val hz = (if in_i64 val then Inr (set_long api val hz) else Inl IntegerOverflow)"

definition int_into_zval :: "('h, 'o) zend_api \<Rightarrow> int \<Rightarrow> ('h, 'o) zheap \<Rightarrow> error + ('h, 'o) zheap \<times> zval" where
  "int_into_zval api val h = int_set_zval api val (h, zval_new)"

text \<open>\<open>try_from_zval!\<close> for an integer type with range \<open>lo..hi\<close>.\<close>

definition int_from_zval :: "int \<Rightarrow> int \<Rightarrow> ('h, 'o) zheap \<Rightarrow> zval \<Rightarrow> int option" where
  "int_from_zval lo hi h z =
     (case zv_long h z of Some v \<Rightarrow> if lo \<le> v \<and> v \<le> hi then Some v else None | None \<Rightarrow> None)"

definition int_try_from_zval :: "int \<Rightarrow> int \<Rightarrow> ('h, 'o) zheap \<Rightarrow> zval \<Rightarrow> error + int" where
  "int_try_from_zval lo hi h z =
     (case int_from_zval lo hi h z of Some v \<Rightarrow> Inr v | None \<Rightarrow> Inl (ZvalConversion (get_type z)))"

section \<open>Constants in stubs\<close>

text \<open>The value of a zval as \<open>zval_to_stub\<close> walks it: a string zval that is not UTF-8 is
  \<open>PvStr None\<close>, an array is its keys and values in order.\<close>

datatype pval =
    PvNull | PvBool bool | PvLong int | PvDouble u64 | PvStr "string option"
  | PvArr "(array_key \<times> pval) list" | PvOther

definition is_sequential :: "(array_key \<times> pval) list \<Rightarrow> bool" where
  "is_sequential kvs \<longleftrightarrow> list_all (\<lambda>(i, k, _). in_i64 (int i) \<and> k = KLong (int i)) (enumerate 0 kvs)"

definition escape_stub :: "string \<Rightarrow> string" where
  "escape_stub s =
     replace_char (CHR 0x09) [CHR 0x5C, CHR ''t'']
       (replace_char (CHR 0x0D) [CHR 0x5C, CHR ''r'']
         (replace_char (CHR 0x0A) [CHR 0x5C, CHR ''n'']
           (replace_char (CHR 0x27) [CHR 0x5C, CHR 0x27]
             (replace_char (CHR 0x5C) [CHR 0x5C, CHR 0x5C] s))))"

definition escape_key :: "string \<Rightarrow> string" where
  "escape_key s = replace_char (CHR 0x27) [CHR 0x5C, CHR 0x27] (replace_char (CHR 0x5C) [CHR 0x5C, CHR 0x5C] s)"

definition quote :: "string \<Rightarrow> string" where
  "quote s = [CHR 0x27] @ s @ [CHR 0x27]"

definition stub_element :: "bool \<Rightarrow> array_key \<Rightarrow> string \<Rightarrow> string" where
  "stub_element sequential key val_str =
     (if sequential then val_str
      else case key of
             KLong idx \<Rightarrow> show_int idx @ '' => '' @ val_str
           | KString k \<Rightarrow> quote (escape_key k) @ '' => '' @ val_str
           | KStr k \<Rightarrow> quote (escape_key k) @ '' => '' @ val_str
           | KZendString k \<Rightarrow>
               quote (escape_key (case fst (zs_as_str k) of Inr s \<Rightarrow> s | Inl _ \<Rightarrow> from_utf8_lossy (zs_bytes k)))
               @ '' => '' @ val_str)"

fun zval_to_stub :: "(u64 \<Rightarrow> string) \<Rightarrow> pval \<Rightarrow> string" where
  "zval_to_stub dec_fmt PvNull = ''null''"
| "zval_to_stub dec_fmt (PvBool b) = (if b then ''true'' else ''false'')"
| "zval_to_stub dec_fmt (PvLong i) = show_int i"
| "zval_to_stub dec_fmt (PvDouble d) = dec_fmt d"
| "zval_to_stub dec_fmt (PvStr None) = ''null''"
| "zval_to_stub dec_fmt (PvStr (Some s)) = quote (escape_stub s)"
| "zval_to_stub dec_fmt (PvArr kvs) =
     ''['' @ join '', '' (map (\<lambda>(k, v). stub_element (is_sequential kvs) k (zval_to_stub dec_fmt v)) kvs) @ '']''"
| "zval_to_stub dec_fmt PvOther = ''null''"

section \<open>Lemmas on numeric text\<close>

lemma takeWhile_digits: "list_all is_ascii_digit (takeWhile is_ascii_digit s)"
  by (induction s) auto

lemma i64_from_str_signed:
  assumes "ds \<noteq> []" "list_all is_ascii_digit ds" "sg \<in> {[], ''-'', ''+''}"
  shows "i64_from_str (sg @ ds) =
     (let n = (if sg = ''-'' then - int (digits_val ds) else int (digits_val ds))
      in if in_i64 n then Some n else None)"
proof -
  obtain c cs where ds: "ds = c # cs" using assms(1) by (cases ds) auto
  with assms(2) have "c \<noteq> CHR ''-''" "c \<noteq> CHR ''+''" by auto
  then show ?thesis using assms by (auto simp: i64_from_str_def Let_def ds)
qed

lemma in_i64_saturate:
  "0 \<le> v \<Longrightarrow> (let n = (if b then - v else v) in if in_i64 n then n else if b then i64_min else i64_max) =
     max i64_min (min i64_max (if b then - v else v))"
  by (cases b) (auto simp: i64_defs Let_def)

text \<open>Scanning the parts of a number.\<close>

lemma scan_digits:
  "list_all is_ascii_digit ds \<Longrightarrow>
   scan_double d e g (ds @ r) = length ds + scan_double d e (g \<or> ds \<noteq> []) r"
  by (induction ds arbitrary: g) auto

definition number_ends :: "string \<Rightarrow> bool" where
  "number_ends rest =
     (case rest of [] \<Rightarrow> True | c # _ \<Rightarrow> \<not> is_ascii_digit c \<and> c \<notin> {CHR ''.'', CHR ''e'', CHR ''E''})"

lemma scan_end [simp]: "number_ends rest \<Longrightarrow> scan_double d e g rest = 0"
  by (cases rest) (auto simp: number_ends_def)

lemma is_sign_not_digit [simp]: "is_sign c \<Longrightarrow> \<not> is_ascii_digit c"
  by (auto simp: is_sign_def)

lemma scan_exponent:
  assumes "f64_exponent_ok ex" and "number_ends rest"
  shows "scan_double d False True (ex @ rest) = length ex"
proof (cases ex)
  case (Cons c cs)
  with assms(1) have c: "c = CHR ''e'' \<or> c = CHR ''E''" and ds: "drop_sign cs \<noteq> []"
      "list_all is_ascii_digit (drop_sign cs)"
    by (auto simp: f64_exponent_ok_def)
  then have "\<not> is_ascii_digit c" "c \<noteq> CHR ''.''" by (auto simp: is_ascii_digit_def)
  moreover have sc: "scan_double d True True (drop_sign cs @ rest) = length (drop_sign cs)"
    using ds assms(2) by (simp add: scan_digits)
  moreover obtain x xs where cs: "cs = x # xs" using ds(1) by (cases cs) (auto simp: drop_sign_def)
  ultimately show ?thesis
    using c by (cases "is_sign x") (auto simp: Cons cs drop_sign_def)
qed (use assms in simp)

lemma scan_number:
  assumes "f64_number num" and "number_ends rest"
  shows "scan_double False False False (drop_sign num @ rest) = length (drop_sign num)"
proof -
  let ?s = "drop_sign num"
  let ?ds = "takeWhile is_ascii_digit ?s" and ?r = "dropWhile is_ascii_digit ?s"
  have s: "?s = ?ds @ ?r" by simp
  have ds: "scan_double False False False (?ds @ t) = length ?ds + scan_double False False (?ds \<noteq> []) t" for t
    using scan_digits [OF takeWhile_digits, of False False False ?s t] by simp
  show ?thesis
  proof (cases ?r)
    case Nil
    with s have "?s = ?ds" by simp
    then show ?thesis using ds [of rest] assms(2) by (metis add_0_right scan_end)
  next
    case (Cons c cs)
    let ?ds2 = "takeWhile is_ascii_digit cs" and ?r2 = "dropWhile is_ascii_digit cs"
    from Cons have nd: "\<not> is_ascii_digit c" by (metis hd_dropWhile list.distinct(1) list.sel(1))
    show ?thesis
    proof (cases "c = CHR ''.''")
      case True
      have "scan_double True False (?ds \<noteq> []) (?ds2 @ ?r2 @ rest) =
          length ?ds2 + scan_double True False (?ds \<noteq> [] \<or> ?ds2 \<noteq> []) (?r2 @ rest)"
        using scan_digits [OF takeWhile_digits] by simp
      also have "\<dots> = length ?ds2 + length ?r2"
        using assms True Cons scan_exponent [of ?r2 rest True] by (auto simp: f64_number_def Let_def)
      also have "\<dots> = length cs" by (metis length_append takeWhile_dropWhile_id)
      finally have "scan_double True False (?ds \<noteq> []) (cs @ rest) = length cs"
        by (metis append.assoc takeWhile_dropWhile_id)
      then show ?thesis using ds [of "?r @ rest"] s Cons True nd
        by (metis (no_types, lifting) append.assoc append_Cons length_append length_Cons scan_double.simps(2))
    next
      case False
      have "?ds \<noteq> []" "f64_exponent_ok ?r" using assms(1) Cons False by (auto simp: f64_number_def Let_def)
      then show ?thesis using ds [of "?r @ rest"] s scan_exponent [OF _ assms(2), of ?r False]
        by (metis append.assoc length_append)
    qed
  qed
qed

lemma parse_double_eq:
  assumes "trim_start s = c # cs"
    and "(if is_sign c then 1 else 0) + scan_double False False False (drop (if is_sign c then 1 else 0) (c # cs)) = i"
  shows "parse_double_from_str to_f64 s = (if f64_number (take i (c # cs)) then to_f64 (take i (c # cs)) else 0)"
  unfolding parse_double_from_str_def Let_def assms(1) list.sel assms(2)
  by (simp only: list.distinct if_False)

lemma trim_start_digit: "is_ascii_digit c \<Longrightarrow> trim_start (c # s) = c # s"
proof (rule trim_start_id)
  assume "is_ascii_digit c"
  moreover have "\<forall>c \<in> set ''0123456789''. \<forall>w \<in> set ws_codes. w \<noteq> [] \<and> hd w \<noteq> c" by code_simp
  ultimately have "\<forall>w \<in> set ws_codes. w \<noteq> [] \<and> hd w \<noteq> c" unfolding is_ascii_digit_def by blast
  then have "\<forall>w \<in> set ws_codes. \<not> prefix w (c # s)" by (metis Cons_prefix_Cons list.exhaust_sel)
  then show "ws_head (c # s) = None" by (simp add: ws_head_def find_None_iff)
qed

section \<open>Lemmas on floats\<close>

lemma bit_length_bounds: "0 < n \<Longrightarrow> 2 ^ (bit_length n - 1) \<le> n \<and> n < 2 ^ bit_length n \<and> 0 < bit_length n"
proof (induction n rule: bit_length.induct)
  case (1 n)
  show ?case
  proof (cases "n div 2 = 0")
    case True
    with \<open>0 < n\<close> have "n = 1" by simp
    then show ?thesis by (simp add: bit_length.simps)
  next
    case False
    with 1 have ih: "2 ^ (bit_length (n div 2) - 1) \<le> n div 2" "n div 2 < 2 ^ bit_length (n div 2)"
        "0 < bit_length (n div 2)" by auto
    obtain k where k: "bit_length (n div 2) = Suc k" using ih(3) by (cases "bit_length (n div 2)") auto
    have "bit_length n = Suc (Suc k)" using False k by (subst bit_length.simps) simp
    with ih k show ?thesis by (simp add: less_eq_div_iff_mult_less_eq div_less_iff_less_mult mult.commute)
  qed
qed

lemma f64_pack_fields:
  assumes "e < 2048" and "m < 2 ^ 52"
  shows "f64_sign (f64_pack s e m) = s" "f64_exp (f64_pack s e m) = e" "f64_mant (f64_pack s e m) = m"
proof -
  have lt: "e * 2 ^ 52 + m < 2 ^ 63"
  proof -
    have "e * 2 ^ 52 \<le> 2047 * 2 ^ 52" using assms(1) by (intro mult_right_mono) auto
    with assms(2) show ?thesis by simp
  qed
  then have "(if s then 2 ^ 63 else 0) + e * 2 ^ 52 + m < (2 :: nat) ^ 64" by (cases s) simp_all
  then have u: "unat (f64_pack s e m) = (if s then 2 ^ 63 else 0) + e * 2 ^ 52 + m"
    unfolding f64_pack_def by (simp only: unat_of_nat take_bit_nat_eq_self len_num0 len_bit0 len_num1)
      (simp add: take_bit_nat_eq_self)
  show "f64_sign (f64_pack s e m) = s" using lt by (auto simp: f64_sign_def u)
  show "f64_mant (f64_pack s e m) = m"
  proof -
    have "((if s then 2 ^ 63 else 0) + e * 2 ^ 52 + m) = m + ((if s then 2048 else 0) + e) * 2 ^ 52" by simp
    then show ?thesis using assms(2) unfolding f64_mant_def u by (metis mod_mult_self1 mod_less)
  qed
  show "f64_exp (f64_pack s e m) = e"
  proof -
    have "((if s then 2 ^ 63 else 0) + e * 2 ^ 52 + m) = m + ((if s then 2048 else 0) + e) * 2 ^ 52" by simp
    then have "((if s then 2 ^ 63 else 0) + e * 2 ^ 52 + m) div 2 ^ 52 = (if s then 2048 else 0) + e"
      using assms(2) by simp
    then show ?thesis using assms(1) unfolding f64_exp_def u by simp
  qed
qed

lemma f64_trunc_of_nat:
  assumes "0 < n" and "n \<le> 2 ^ 53"
  shows "f64_trunc (f64_of_nat s n) = n \<and> f64_exp (f64_of_nat s n) \<le> 1076 \<and> f64_sign (f64_of_nat s n) = s"
proof (cases "n = 2 ^ 53")
  case True
  have "bit_length (2 ^ 53) = 54" by (simp add: bit_length.simps)
  then have "f64_of_nat s n = f64_pack s 1076 0"
    by (simp add: True f64_of_nat_def Let_def)
  then show ?thesis by (simp add: f64_trunc_def f64_pack_fields True)
next
  case False
  with assms(2) have n53: "n < 2 ^ 53" by simp
  let ?k = "bit_length n"
  note b = bit_length_bounds [OF assms(1)]
  have k: "?k \<le> 53"
  proof (rule ccontr)
    assume "\<not> ?k \<le> 53"
    then have "53 \<le> ?k - 1" by simp
    then have "(2 :: nat) ^ 53 \<le> 2 ^ (?k - 1)" by (rule power_increasing) simp
    with b n53 show False by linarith
  qed
  let ?m = "n * 2 ^ (53 - ?k)"
  have e52: "(?k - 1) + (53 - ?k) = 52" and e53: "?k + (53 - ?k) = 53" using b k by simp_all
  have lo: "2 ^ 52 \<le> ?m"
    using b mult_right_mono [of "2 ^ (?k - 1)" n "2 ^ (53 - ?k)"] e52 by (simp flip: power_add)
  have hi: "?m < 2 ^ 53"
    using b mult_strict_right_mono [of n "2 ^ ?k" "2 ^ (53 - ?k)"] e53 by (simp flip: power_add)
  from k assms(1) have p: "f64_of_nat s n = f64_pack s (1022 + ?k) (?m - 2 ^ 52)"
    by (simp add: f64_of_nat_def Let_def)
  have fields: "f64_sign (f64_of_nat s n) = s" "f64_exp (f64_of_nat s n) = 1022 + ?k"
      "f64_mant (f64_of_nat s n) = ?m - 2 ^ 52"
    unfolding p using k lo hi by (intro f64_pack_fields; simp)+
  have "?m div 2 ^ (53 - ?k) = n" by simp
  moreover have "2 ^ 52 + (?m - 2 ^ 52) = ?m" using lo by simp
  moreover have "1075 - (1022 + ?k) = 53 - ?k" by simp
  ultimately show ?thesis
    using k b by (cases "?k = 53") (auto simp: f64_trunc_def fields Let_def)
qed

section \<open>Lemmas on quoted text\<close>

text \<open>What a PHP single-quoted literal denotes: a backslash escapes a backslash or a quote only.\<close>

fun php_unescape :: "string \<Rightarrow> string" where
  "php_unescape (c # d # cs) =
     (if c = CHR 0x5C \<and> (d = CHR 0x5C \<or> d = CHR 0x27) then d # php_unescape cs
      else c # php_unescape (d # cs))"
| "php_unescape s = s"

definition stub_char :: "char \<Rightarrow> string" where
  "stub_char c =
     (if c = CHR 0x5C then [CHR 0x5C, CHR 0x5C] else if c = CHR 0x27 then [CHR 0x5C, CHR 0x27]
      else if c = CHR 0x0A then [CHR 0x5C, CHR ''n''] else if c = CHR 0x0D then [CHR 0x5C, CHR ''r'']
      else if c = CHR 0x09 then [CHR 0x5C, CHR ''t''] else [c])"

definition denoted_char :: "char \<Rightarrow> string" where
  "denoted_char c = (if c \<in> {CHR 0x0A, CHR 0x0D, CHR 0x09} then stub_char c else [c])"

lemma escape_stub_concat: "escape_stub s = concat (map stub_char s)"
  by (induction s) (auto simp: escape_stub_def replace_char_simps replace_char_append stub_char_def)

lemma php_unescape_plain:
  "c \<noteq> CHR 0x5C \<Longrightarrow> php_unescape (c # s) = c # php_unescape s"
  by (cases s) auto

lemma php_unescape_escape: "php_unescape (concat (map stub_char s)) = concat (map denoted_char s)"
proof (induction s)
  case (Cons c s)
  then show ?case
    by (cases "c = CHR 0x5C"; cases "c = CHR 0x27"; cases "c = CHR 0x0A"; cases "c = CHR 0x0D"; cases "c = CHR 0x09")
      (simp_all add: stub_char_def denoted_char_def php_unescape_plain)
qed simp

lemma denoted_id: "concat (map denoted_char s) = s \<longleftrightarrow> set s \<inter> {CHR 0x0A, CHR 0x0D, CHR 0x09} = {}"
proof (induction s)
  case (Cons c s)
  show ?case
  proof (cases "c \<in> {CHR 0x0A, CHR 0x0D, CHR 0x09}")
    case True
    then have "hd (denoted_char c) = CHR 0x5C" "denoted_char c \<noteq> []" "c \<noteq> CHR 0x5C"
      by (auto simp: denoted_char_def stub_char_def)
    then have "concat (map denoted_char (c # s)) \<noteq> c # s" by (cases "denoted_char c") auto
    with True show ?thesis by auto
  next
    case False
    with Cons.IH show ?thesis by (auto simp: denoted_char_def)
  qed
qed simp

section \<open>Properties\<close>

text \<open>C22. The integer a string coerces to is the signed value of the digits that follow leading
  whitespace and an optional sign (zero when there are none), saturated to 64 bits.\<close>

theorem parse_long_saturates:
  "parse_long_from_str s =
     (let t = trim_start s; v = int (digits_val (takeWhile is_ascii_digit (drop_sign t)))
      in max i64_min (min i64_max (if prefix ''-'' t then - v else v)))"
proof (cases "trim_start s")
  case Nil
  then show ?thesis by (simp add: parse_long_from_str_def drop_sign_def digits_val_def i64_defs)
next
  case (Cons c cs)
  let ?t = "c # cs" and ?sg = "if is_sign c then [c] else []"
  let ?ds = "takeWhile is_ascii_digit (drop_sign ?t)"
  have d: "drop (length ?sg) ?t = drop_sign ?t" by (simp add: drop_sign_def)
  have t: "?t = ?sg @ drop_sign ?t" by (simp add: drop_sign_def)
  have tk: "take (length ?sg + length ?ds) ?t = ?sg @ ?ds"
    by (subst t) (simp add: takeWhile_eq_take [symmetric] del: append_Cons)
  have start: "(if is_sign c then 1 else 0) = length ?sg" by simp
  have sg: "?sg \<in> {[], ''-'', ''+''}" by (auto simp: is_sign_def)
  have neg: "prefix ''-'' ?t \<longleftrightarrow> c = CHR ''-''" "?sg = ''-'' \<longleftrightarrow> c = CHR ''-''"
    by (auto simp: is_sign_def)
  show ?thesis
  proof (cases "?ds = []")
    case True
    then show ?thesis
      unfolding parse_long_from_str_def Let_def Cons list.sel start d
      by (simp add: digits_val_def i64_defs)
  next
    case False
    have "i64_from_str (?sg @ ?ds) = (let n = (if c = CHR ''-'' then - int (digits_val ?ds) else int (digits_val ?ds))
        in if in_i64 n then Some n else None)"
      using i64_from_str_signed [OF False takeWhile_digits sg] neg(2) by simp
    then have "parse_long_from_str s =
        (let n = (if c = CHR ''-'' then - int (digits_val ?ds) else int (digits_val ?ds))
         in if in_i64 n then n else if c = CHR ''-'' then i64_min else i64_max)"
      using False unfolding parse_long_from_str_def Let_def Cons list.sel start d tk by simp
    also have "\<dots> = max i64_min (min i64_max (if c = CHR ''-'' then - int (digits_val ?ds) else int (digits_val ?ds)))"
      by (rule in_i64_saturate) simp
    finally show ?thesis by (simp add: Let_def Cons neg(1))
  qed
qed

text \<open>A string that starts, after whitespace, with a decimal number of the float grammar followed by
  a character that cannot continue a number coerces to that number's float.\<close>

theorem parse_double_prefix:
  assumes "trim_start s = num @ rest" and "f64_number num" and "number_ends rest"
  shows "parse_double_from_str to_f64 s = to_f64 num"
proof -
  obtain c cs where n: "num = c # cs"
    using assms(2) by (cases num) (auto simp: f64_number_def drop_sign_def)
  let ?st = "if is_sign c then 1 else 0 :: nat"
  have d: "drop ?st (c # cs @ rest) = drop_sign num @ rest" by (simp add: n drop_sign_def)
  have "?st + length (drop_sign num) = length num" by (simp add: n drop_sign_def)
  then have "?st + scan_double False False False (drop ?st (c # cs @ rest)) = length num"
    unfolding d using scan_number [OF assms(2,3)] by simp
  from parse_double_eq [OF _ this] assms(1,2) show ?thesis by (simp add: n)
qed

theorem parse_double_prefix_witness:
  "parse_double_from_str (\<lambda>t. if t = ''3.14'' then 7 else 0) ''3.14abc'' = 7"
proof -
  have "trim_start ''3.14abc'' = ''3.14'' @ ''abc''"
    by (simp add: trim_start_digit is_ascii_digit_def)
  from parse_double_prefix [OF this, of "\<lambda>t. if t = ''3.14'' then 7 else 0"] show ?thesis
    by (simp add: f64_number_def number_ends_def drop_sign_def is_sign_def is_ascii_digit_def f64_exponent_ok_def Let_def)
qed

text \<open>An exponent letter that no digits follow makes the scanned text unparseable, so the coercion
  gives zero instead of the number in front of the letter.\<close>

theorem parse_double_dangling_exponent:
  assumes "trim_start s = ds @ e # rest" and "ds \<noteq> []" and "list_all is_ascii_digit ds"
    and "e = CHR ''e'' \<or> e = CHR ''E''" and "number_ends rest" and "rest = [] \<or> \<not> is_sign (hd rest)"
  shows "parse_double_from_str to_f64 s = 0"
proof -
  obtain c cs where d: "ds = c # cs" using assms(2) by (cases ds) auto
  with assms(3) have c: "\<not> is_sign c" by (auto simp: is_sign_def)
  have e: "\<not> is_ascii_digit e" "e \<noteq> CHR ''.''" using assms(4) by (auto simp: is_ascii_digit_def)
  have "scan_double False False True (e # rest) = 1"
    using assms(4-6) e by (cases rest) (auto simp: number_ends_def)
  then have "scan_double False False False (ds @ e # rest) = Suc (length ds)"
    using scan_digits [OF assms(3), of False False False "e # rest"] assms(2) by simp
  moreover have "\<not> f64_number (ds @ [e])"
    using assms(3) c e by (auto simp: f64_number_def drop_sign_def d f64_exponent_ok_def Let_def list_all_iff)
  ultimately show ?thesis
    using c parse_double_eq [of s c "cs @ e # rest" "Suc (length ds)"] assms(1) by (simp add: d)
qed

theorem parse_double_dangling_exponent_witness:
  "parse_double_from_str (\<lambda>t. if t = ''1'' then 7 else 9) ''1e'' = 0"
proof -
  have "trim_start ''1e'' = ''1'' @ CHR ''e'' # []"
    by (simp add: trim_start_digit is_ascii_digit_def)
  from parse_double_dangling_exponent [OF this] show ?thesis
    by (simp add: is_ascii_digit_def number_ends_def)
qed

text \<open>An integer of at most 53 bits survives the conversion to a float and back.\<close>

theorem f64_i64_roundtrip:
  assumes "\<bar>l\<bar> \<le> 2 ^ 53"
  shows "f64_to_i64 (f64_of_i64 l) = l"
proof (cases "l = 0")
  case True
  then show ?thesis by (simp add: f64_of_i64_def f64_to_i64_def f64_is_nan_def f64_is_infinite_def f64_exp_def
      f64_mant_def f64_trunc_def f64_sign_def i64_defs)
next
  case False
  have "nat \<bar>l\<bar> \<le> nat (2 ^ 53)" using assms by (intro nat_mono)
  then have "nat \<bar>l\<bar> \<le> 2 ^ 53" by simp
  with False f64_trunc_of_nat [of "nat \<bar>l\<bar>" "l < 0"]
  have t: "f64_trunc (f64_of_i64 l) = nat \<bar>l\<bar>" "f64_exp (f64_of_i64 l) \<le> 1076" "f64_sign (f64_of_i64 l) \<longleftrightarrow> l < 0"
    by (simp_all add: f64_of_i64_def)
  from t(2) have "\<not> f64_is_nan (f64_of_i64 l)" "\<not> f64_is_infinite (f64_of_i64 l)"
    by (auto simp: f64_is_nan_def f64_is_infinite_def)
  with t assms show ?thesis by (auto simp: f64_to_i64_def i64_defs Let_def)
qed

theorem f64_i64_roundtrip_witness: "f64_to_i64 (f64_of_i64 (- 12345)) = - 12345"
  by (rule f64_i64_roundtrip) simp

text \<open>A reference to null does not coerce: the null test looks at the zval itself, so all three
  coercions of a reference to null give nothing, where null itself gives the empty string and zero.\<close>

theorem coerce_reference_to_null:
  assumes "is_reference z" and "h_ref h (zv_value z) = Some t" and "is_null t"
  shows "coerce_to_string ef df ts h z = None \<and> coerce_to_long h z = None \<and> coerce_to_double tf h z = None \<and>
         coerce_to_string ef df ts h t = Some [] \<and> coerce_to_long h t = Some 0 \<and> coerce_to_double tf h t = Some 0"
  using assms
  by (simp add: coerce_to_string_def coerce_to_long_def coerce_to_double_def zv_str_def zv_zend_str_def zv_bool_def
    zv_long_def zv_double_def zv_object_def is_type_defs dereference_def Let_def)

theorem coerce_reference_to_null_witness:
  "coerce_to_long (heap_with_ref zval_new) (zval_new\<lparr>zv_type_info := IS_REFERENCE, zv_value := 16\<rparr>) = None"
proof -
  have "is_reference (zval_new\<lparr>zv_type_info := IS_REFERENCE, zv_value := 16\<rparr>)" "is_null zval_new"
    by (simp_all add: is_type_defs get_type_def datatype_from_u32_def zval_new_def zend_consts)
  from coerce_reference_to_null [OF this(1) _ this(2), of "heap_with_ref zval_new"] show ?thesis
    by (simp add: heap_with_ref_def)
qed

text \<open>An integer of a Rust type converts to a zval exactly when it fits in 64 signed bits, and converts
  back to itself; a zval integer outside the Rust type's range is an error, never a truncation.\<close>

theorem int_zval_roundtrip:
  assumes "lo \<le> v" and "v \<le> hi"
  shows "int_into_zval api v h =
           (if in_i64 v then Inr (set_long api v (h, zval_new)) else Inl IntegerOverflow) \<and>
         (in_i64 v \<longrightarrow> int_try_from_zval lo hi h' (snd (set_long api v (h, zval_new))) = Inr v) \<and>
         (in_i64 w \<longrightarrow> w < lo \<or> hi < w \<longrightarrow>
            int_try_from_zval lo hi h' (snd (set_long api w (h, zval_new))) = Inl (ZvalConversion DtLong))"
proof -
  have "zv_long h' (snd (set_long api x (h, zval_new))) = Some x" if "in_i64 x" for x
    using that by (simp add: zv_long_def set_long_def i64_defs signed_of_int signed_take_bit_int_eq_self)
  moreover have "get_type (snd (set_long api w (h, zval_new))) = DtLong" by (simp add: set_long_def)
  ultimately show ?thesis
    using assms by (auto simp: int_into_zval_def int_set_zval_def int_try_from_zval_def int_from_zval_def)
qed

theorem int_zval_roundtrip_witness:
  "int_try_from_zval 0 255 (heap_with_ref zval_new) (snd (set_long counting_api 256 (heap_with_ref zval_new, zval_new))) =
     Inl (ZvalConversion DtLong)"
  using int_zval_roundtrip [of 0 7 255 counting_api "heap_with_ref zval_new" "heap_with_ref zval_new" 256]
  by (simp add: i64_defs)

text \<open>The stub literal of a string constant denotes that string exactly when the string has no newline,
  carriage return or tab: their escapes mean nothing between single quotes.\<close>

theorem stub_string_denotes:
  "zval_to_stub df (PvStr (Some s)) = quote (escape_stub s) \<and>
   (php_unescape (escape_stub s) = s \<longleftrightarrow> set s \<inter> {CHR 0x0A, CHR 0x0D, CHR 0x09} = {})"
  by (simp only: escape_stub_concat php_unescape_escape denoted_id zval_to_stub.simps simp_thms)

end
