(* ===== verification/Describe.thy ===== *)
theory Describe
  imports Args "HOL-Library.List_Lexorder" "HOL-Library.Char_ord"
begin

text \<open>
  \<open>src/describe/mod.rs\<close>: the descriptions of an extension's exports the stub generator works on,
  and their construction from the builders; the parts of \<open>src/builders/class.rs\<close>,
  \<open>src/builders/enum_builder.rs\<close> and \<open>src/builders/module.rs\<close> that collect the exports. Pointers
  to engine objects and to user functions play no part in a description: a class entry is the name
  its stub shows, the value of a constant its stub text.
\<close>

unbundle bit_operations_syntax

section \<open>Descriptions\<close>

datatype visibility = VisPrivate | VisProtected | VisPublic

datatype method_type = MtMember | MtStatic | MtConstructor

record retval =
  rv_ty :: data_type
  rv_nullable :: bool

record parameter =
  p_name :: string
  p_ty :: "data_type option"
  p_nullable :: bool
  p_variadic :: bool
  p_default :: "string option"

record dfunction =
  f_name :: string
  f_docs :: "string list"
  f_ret :: "retval option"
  f_params :: "parameter list"

record dmethod =
  m_name :: string
  m_docs :: "string list"
  m_ty :: method_type
  m_params :: "parameter list"
  m_retval :: "retval option"
  m_static :: bool
  m_visibility :: visibility
  m_abstract :: bool

record dproperty =
  pr_prop_name :: string
  pr_docs :: "string list"
  pr_ty :: "data_type option"
  pr_vis :: visibility
  pr_static :: bool
  pr_nullable :: bool
  pr_readonly :: bool
  pr_default :: "string option"

record dconstant =
  k_name :: string
  k_docs :: "string list"
  k_value :: "string option"

record dclass =
  c_name :: string
  c_docs :: "string list"
  c_extends :: "string option"
  c_implements :: "string list"
  c_properties :: "dproperty list"
  c_methods :: "dmethod list"
  c_constants :: "dconstant list"
  c_flags :: u32

record denum_case =
  ec_name :: string
  ec_docs :: "string list"
  ec_value :: "string option"

record denum =
  e_name :: string
  e_docs :: "string list"
  e_cases :: "denum_case list"
  e_backing_type :: "string option"

record dmodule =
  d_name :: string
  d_functions :: "dfunction list"
  d_classes :: "dclass list"
  d_enums :: "denum list"
  d_constants :: "dconstant list"

section \<open>Builders of classes and enums\<close>

record class_property =
  cp_name :: string
  cp_flags :: u32
  cp_docs :: "string list"
  cp_ty :: "data_type option"
  cp_nullable :: bool
  cp_readonly :: bool
  cp_default_stub :: "string option"

record 'z class_builder =
  cb_name :: string
  cb_ce_flags :: u32
  cb_extends :: "string option"
  cb_interfaces :: "string list"
  cb_methods :: "('z function_builder \<times> u32) list"
  cb_properties :: "class_property list"
  cb_constants :: "(string \<times> string list \<times> string) list"
  cb_docs :: "string list"
  cb_object_override :: bool
  cb_register :: bool

definition cb_new :: "string \<Rightarrow> 'z class_builder" where
  "cb_new n = \<lparr>cb_name = n, cb_ce_flags = 0, cb_extends = None, cb_interfaces = [], cb_methods = [],
     cb_properties = [], cb_constants = [], cb_docs = [], cb_object_override = False, cb_register = False\<rparr>"

definition cb_set_extends :: "string \<Rightarrow> 'z class_builder \<Rightarrow> 'z class_builder" where
  "cb_set_extends parent b = b\<lparr>cb_extends := Some parent\<rparr>"

definition cb_implements :: "string \<Rightarrow> 'z class_builder \<Rightarrow> 'z class_builder" where
  "cb_implements iface b = b\<lparr>cb_interfaces := cb_interfaces b @ [iface]\<rparr>"

definition cb_method :: "'z function_builder \<Rightarrow> u32 \<Rightarrow> 'z class_builder \<Rightarrow> 'z class_builder" where
  "cb_method func flags b = b\<lparr>cb_methods := cb_methods b @ [(func, flags)]\<rparr>"

definition cb_property :: "class_property \<Rightarrow> 'z class_builder \<Rightarrow> 'z class_builder" where
  "cb_property prop b = b\<lparr>cb_properties := cb_properties b @ [prop]\<rparr>"

definition cb_dyn_constant :: "string \<Rightarrow> string \<Rightarrow> string list \<Rightarrow> 'z class_builder \<Rightarrow> 'z class_builder" where
  "cb_dyn_constant n stub docs b = b\<lparr>cb_constants := cb_constants b @ [(n, docs, stub)]\<rparr>"

definition cb_set_flags :: "u32 \<Rightarrow> 'z class_builder \<Rightarrow> 'z class_builder" where
  "cb_set_flags flags b = b\<lparr>cb_ce_flags := flags\<rparr>"

definition cb_registration :: "'z class_builder \<Rightarrow> 'z class_builder" where
  "cb_registration b = b\<lparr>cb_register := True\<rparr>"

definition cb_set_docs :: "string list \<Rightarrow> 'z class_builder \<Rightarrow> 'z class_builder" where
  "cb_set_docs docs b = b\<lparr>cb_docs := docs\<rparr>"

text \<open>\<open>object_override\<close>: \<open>ctor\<close> is \<open>T::constructor()\<close> (the function that fills in the arguments and
  the visibility), \<open>flags\<close> is \<open>T::FLAGS\<close>, \<open>handler\<close> the generated constructor.\<close>

definition cb_override ::
    "u32 \<Rightarrow> (('z function_builder \<Rightarrow> 'z function_builder) \<times> u32 option) option \<Rightarrow> nat \<Rightarrow>
     'z class_builder \<Rightarrow> 'z class_builder" where
  "cb_override flags ctor handler b =
     (let b = b\<lparr>cb_object_override := True\<rparr>;
          is_interface = flags_contain flags ZEND_ACC_INTERFACE
      in case ctor of
           Some (build_fn, vis) \<Rightarrow>
             (let func = (if is_interface then fb_new_abstract ''__construct'' else fb_new ''__construct'' handler)
              in cb_method (build_fn func) (case vis of Some v \<Rightarrow> v | None \<Rightarrow> ZEND_ACC_PUBLIC) b)
         | None \<Rightarrow> if is_interface then b else cb_method (fb_new ''__construct'' handler) ZEND_ACC_PUBLIC b)"

datatype discriminant = DiscInt int | DiscString string

record enum_case =
  cs_name :: string
  cs_discriminant :: "discriminant option"
  cs_docs :: "string list"

text \<open>\<open>EnumCase::data_type\<close> of \<open>src/enum_.rs\<close>.\<close>

definition enum_case_data_type :: "enum_case \<Rightarrow> data_type" where
  "enum_case_data_type c =
     (case cs_discriminant c of
        Some (DiscInt _) \<Rightarrow> DtLong | Some (DiscString _) \<Rightarrow> DtString | None \<Rightarrow> DtUndef)"

record 'z enum_builder =
  eb_name :: string
  eb_methods :: "('z function_builder \<times> u32) list"
  eb_cases :: "enum_case list"
  eb_datatype :: data_type
  eb_register :: bool
  eb_docs :: "string list"

definition eb_new :: "string \<Rightarrow> 'z enum_builder" where
  "eb_new n = \<lparr>eb_name = n, eb_methods = [], eb_cases = [], eb_datatype = DtUndef, eb_register = False, eb_docs = []\<rparr>"

text \<open>\<open>None\<close> is the failed assertion.\<close>

definition eb_case :: "enum_case \<Rightarrow> 'z enum_builder \<Rightarrow> 'z enum_builder option" where
  "eb_case c b =
     (let data_type = enum_case_data_type c
      in if data_type = eb_datatype b \<or> eb_cases b = []
         then Some (b\<lparr>eb_datatype := data_type, eb_cases := eb_cases b @ [c]\<rparr>)
         else None)"

definition eb_method :: "'z function_builder \<Rightarrow> u32 \<Rightarrow> 'z enum_builder \<Rightarrow> 'z enum_builder" where
  "eb_method m flags b = b\<lparr>eb_methods := eb_methods b @ [(m, flags)]\<rparr>"

definition eb_registration :: "'z enum_builder \<Rightarrow> 'z enum_builder" where
  "eb_registration b = b\<lparr>eb_register := True\<rparr>"

definition eb_set_docs :: "string list \<Rightarrow> 'z enum_builder \<Rightarrow> 'z enum_builder" where
  "eb_set_docs docs b = b\<lparr>eb_docs := docs\<rparr>"

text \<open>Functions are known by their addresses.\<close>

record 'z module_builder =
  mb_name :: string
  mb_version :: string
  mb_functions :: "'z function_builder list"
  mb_constants :: "(string \<times> string \<times> string list) list"
  mb_classes :: "'z class_builder list"
  mb_interfaces :: "'z class_builder list"
  mb_enums :: "'z enum_builder list"
  mb_startup_func :: "nat option"
  mb_shutdown_func :: "nat option"
  mb_request_startup_func :: "nat option"
  mb_request_shutdown_func :: "nat option"
  mb_post_deactivate_func :: "nat option"
  mb_info_func :: "nat option"
  mb_globals_size :: nat
  mb_globals_ptr :: nat
  mb_globals_ctor :: "nat option"
  mb_globals_dtor :: "nat option"

definition mb_new :: "string \<Rightarrow> string \<Rightarrow> 'z module_builder" where
  "mb_new n v = \<lparr>mb_name = n, mb_version = v, mb_functions = [], mb_constants = [], mb_classes = [],
     mb_interfaces = [], mb_enums = [], mb_startup_func = None, mb_shutdown_func = None, mb_request_startup_func = None,
     mb_request_shutdown_func = None, mb_post_deactivate_func = None, mb_info_func = None, mb_globals_size = 0, mb_globals_ptr = 0,
     mb_globals_ctor = None, mb_globals_dtor = None\<rparr>"

definition mb_startup_function :: "nat \<Rightarrow> 'z module_builder \<Rightarrow> 'z module_builder" where
  "mb_startup_function func b = b\<lparr>mb_startup_func := Some func\<rparr>"

definition mb_shutdown_function :: "nat \<Rightarrow> 'z module_builder \<Rightarrow> 'z module_builder" where
  "mb_shutdown_function func b = b\<lparr>mb_shutdown_func := Some func\<rparr>"

definition mb_request_startup_function :: "nat \<Rightarrow> 'z module_builder \<Rightarrow> 'z module_builder" where
  "mb_request_startup_function func b = b\<lparr>mb_request_startup_func := Some func\<rparr>"

definition mb_request_shutdown_function :: "nat \<Rightarrow> 'z module_builder \<Rightarrow> 'z module_builder" where
  "mb_request_shutdown_function func b = b\<lparr>mb_request_shutdown_func := Some func\<rparr>"

definition mb_post_deactivate_function :: "nat \<Rightarrow> 'z module_builder \<Rightarrow> 'z module_builder" where
  "mb_post_deactivate_function func b = b\<lparr>mb_post_deactivate_func := Some func\<rparr>"

definition mb_info_function :: "nat \<Rightarrow> 'z module_builder \<Rightarrow> 'z module_builder" where
  "mb_info_function func b = b\<lparr>mb_info_func := Some func\<rparr>"

text \<open>A handle to module globals: the size of the type, the address of the storage and the two callbacks
  for it.\<close>

definition mb_globals :: "nat \<Rightarrow> nat \<Rightarrow> nat \<Rightarrow> nat \<Rightarrow> 'z module_builder \<Rightarrow> 'z module_builder" where
  "mb_globals size_of data_ptr ginit gshutdown b =
     b\<lparr>mb_globals_size := size_of, mb_globals_ptr := data_ptr, mb_globals_ctor := Some ginit, mb_globals_dtor := Some gshutdown\<rparr>"

definition mb_function :: "'z function_builder \<Rightarrow> 'z module_builder \<Rightarrow> 'z module_builder" where
  "mb_function func b = b\<lparr>mb_functions := mb_functions b @ [func]\<rparr>"

definition mb_constant :: "string \<times> string \<times> string list \<Rightarrow> 'z module_builder \<Rightarrow> 'z module_builder" where
  "mb_constant const b = b\<lparr>mb_constants := mb_constants b @ [const]\<rparr>"

text \<open>What a \<open>RegisteredClass\<close> (and \<open>RegisteredEnum\<close>) implementation supplies to the module builder.
  A static property's default is its stub text.\<close>

record property_desc =
  pd_name :: string
  pd_flags :: u32
  pd_docs :: "string list"
  pd_ty :: data_type
  pd_nullable :: bool
  pd_readonly :: bool

record 'z registered_class =
  rc_class_name :: string
  rc_method_builders :: "('z function_builder \<times> u32) list"
  rc_interface_methods :: "('z function_builder \<times> u32) list"
  rc_extends :: "string option"
  rc_implements :: "string list"
  rc_interface_impls :: "string list"
  rc_constants :: "(string \<times> string \<times> string list) list"
  rc_all_properties :: "property_desc list"
  rc_static_properties :: "(string \<times> u32 \<times> string option \<times> string list) list"
  rc_builder_modifier :: "('z class_builder \<Rightarrow> 'z class_builder) option"
  rc_flags :: u32
  rc_constructor :: "(('z function_builder \<Rightarrow> 'z function_builder) \<times> u32 option) option"
  rc_handler :: nat
  rc_doc_comments :: "string list"
  rc_cases :: "enum_case list"

definition add_methods :: "('z function_builder \<times> u32) list \<Rightarrow> 'z class_builder \<Rightarrow> 'z class_builder" where
  "add_methods ms b = fold (\<lambda>(m, fl). cb_method m fl) ms b"

definition add_constants :: "(string \<times> string \<times> string list) list \<Rightarrow> 'z class_builder \<Rightarrow> 'z class_builder" where
  "add_constants ks b = fold (\<lambda>(n, stub, docs). cb_dyn_constant n stub docs) ks b"

definition apply_modifier :: "'z registered_class \<Rightarrow> 'z class_builder \<Rightarrow> 'z class_builder" where
  "apply_modifier t b = (case rc_builder_modifier t of Some f \<Rightarrow> f b | None \<Rightarrow> b)"

definition property_of_desc :: "property_desc \<Rightarrow> class_property" where
  "property_of_desc d =
     \<lparr>cp_name = pd_name d, cp_flags = pd_flags d, cp_docs = pd_docs d, cp_ty = Some (pd_ty d),
      cp_nullable = pd_nullable d, cp_readonly = pd_readonly d,
      cp_default_stub = (if pd_nullable d then Some ''null'' else None)\<rparr>"

definition property_of_static :: "string \<times> u32 \<times> string option \<times> string list \<Rightarrow> class_property" where
  "property_of_static v =
     (case v of (n, flags, default_stub, docs) \<Rightarrow>
        \<lparr>cp_name = n, cp_flags = flags, cp_docs = docs, cp_ty = None, cp_nullable = False, cp_readonly = False,
         cp_default_stub = default_stub\<rparr>)"

definition interface_builder :: "'z registered_class \<Rightarrow> 'z class_builder" where
  "interface_builder t =
     (let b = add_methods (rc_method_builders t) (cb_new (rc_class_name t));
          b = fold cb_implements (rc_implements t) b;
          b = add_constants (rc_constants t) b;
          b = apply_modifier t b
      in cb_set_docs (rc_doc_comments t) (cb_registration (cb_set_flags ZEND_ACC_INTERFACE b)))"

definition class_builder_of :: "'z registered_class \<Rightarrow> 'z class_builder" where
  "class_builder_of t =
     (let b = add_methods (rc_method_builders t) (cb_new (rc_class_name t));
          b = add_methods (rc_interface_methods t) b;
          b = (case rc_extends t of Some p \<Rightarrow> cb_set_extends p b | None \<Rightarrow> b);
          b = fold cb_implements (rc_implements t) b;
          b = fold cb_implements (rc_interface_impls t) b;
          b = add_constants (rc_constants t) b;
          b = fold (\<lambda>d. cb_property (property_of_desc d)) (rc_all_properties t) b;
          b = fold (\<lambda>d. cb_property (property_of_static d)) (rc_static_properties t) b;
          b = apply_modifier t b;
          b = cb_set_flags (rc_flags t) b;
          b = cb_override (rc_flags t) (rc_constructor t) (rc_handler t) b
      in cb_set_docs (rc_doc_comments t) (cb_registration b))"

definition enum_builder_of :: "'z registered_class \<Rightarrow> 'z enum_builder option" where
  "enum_builder_of t =
     map_option (\<lambda>b. eb_set_docs (rc_doc_comments t)
          (eb_registration (fold (\<lambda>(m, fl). eb_method m fl) (rc_method_builders t) b)))
       (fold (\<lambda>c b. Option.bind b (eb_case c)) (rc_cases t) (Some (eb_new (rc_class_name t))))"

definition mb_interface :: "'z registered_class \<Rightarrow> 'z module_builder \<Rightarrow> 'z module_builder" where
  "mb_interface t b = b\<lparr>mb_interfaces := mb_interfaces b @ [interface_builder t]\<rparr>"

definition mb_class :: "'z registered_class \<Rightarrow> 'z module_builder \<Rightarrow> 'z module_builder" where
  "mb_class t b = b\<lparr>mb_classes := mb_classes b @ [class_builder_of t]\<rparr>"

definition mb_enumeration :: "'z registered_class \<Rightarrow> 'z module_builder \<Rightarrow> 'z module_builder option" where
  "mb_enumeration t b = map_option (\<lambda>e. b\<lparr>mb_enums := mb_enums b @ [e]\<rparr>) (enum_builder_of t)"

section \<open>From builders to descriptions\<close>

definition visibility_from_flags :: "u32 \<Rightarrow> visibility" where
  "visibility_from_flags value =
     (if flags_contain value ZEND_ACC_PROTECTED then VisProtected
      else if flags_contain value ZEND_ACC_PRIVATE then VisPrivate
      else VisPublic)"

definition visibility_from_property_flags :: "u32 \<Rightarrow> visibility" where
  "visibility_from_property_flags value =
     (if flags_contain value ZEND_ACC_PROTECTED then VisProtected
      else if flags_contain value ZEND_ACC_PRIVATE then VisPrivate
      else VisPublic)"

definition method_type_from_flags :: "u32 \<Rightarrow> method_type" where
  "method_type_from_flags value =
     (if flags_contain value ZEND_ACC_CTOR then MtConstructor
      else if flags_contain value ZEND_ACC_STATIC then MtStatic
      else MtMember)"

definition parameter_from_arg :: "'z arg \<Rightarrow> parameter" where
  "parameter_from_arg a =
     \<lparr>p_name = a_name a, p_ty = Some (a_type a), p_nullable = a_allow_null a, p_variadic = a_variadic a,
      p_default = a_default a\<rparr>"

definition retval_from :: "'z function_builder \<Rightarrow> retval option" where
  "retval_from b =
     map_option (\<lambda>r. \<lparr>rv_ty = r, rv_nullable = (r \<noteq> DtMixed \<and> fb_ret_as_null b)\<rparr>) (fb_retval b)"

definition function_from_builder :: "'z function_builder \<Rightarrow> dfunction" where
  "function_from_builder b =
     \<lparr>f_name = fb_name b, f_docs = fb_docs b, f_ret = retval_from b,
      f_params = map parameter_from_arg (fb_args b)\<rparr>"

definition method_from_builder :: "'z function_builder \<times> u32 \<Rightarrow> dmethod" where
  "method_from_builder v =
     (case v of (b, flags) \<Rightarrow>
        \<lparr>m_name = fb_name b, m_docs = fb_docs b, m_ty = method_type_from_flags flags,
         m_params = map parameter_from_arg (fb_args b), m_retval = retval_from b,
         m_static = flags_contain flags ZEND_ACC_STATIC, m_visibility = visibility_from_flags flags,
         m_abstract = flags_contain flags ZEND_ACC_ABSTRACT\<rparr>)"

definition property_from_builder :: "class_property \<Rightarrow> dproperty" where
  "property_from_builder p =
     \<lparr>pr_prop_name = cp_name p, pr_docs = cp_docs p, pr_ty = cp_ty p,
      pr_vis = visibility_from_property_flags (cp_flags p),
      pr_static = flags_contain (cp_flags p) ZEND_ACC_STATIC, pr_nullable = cp_nullable p,
      pr_readonly = cp_readonly p, pr_default = cp_default_stub p\<rparr>"

definition class_from_builder :: "'z class_builder \<Rightarrow> dclass" where
  "class_from_builder b =
     \<lparr>c_name = cb_name b, c_docs = cb_docs b, c_extends = cb_extends b, c_implements = cb_interfaces b,
      c_properties = map property_from_builder (cb_properties b),
      c_methods = map method_from_builder (cb_methods b),
      c_constants = map (\<lambda>(n, docs, stub). \<lparr>k_name = n, k_docs = docs, k_value = Some stub\<rparr>) (cb_constants b),
      c_flags = cb_ce_flags b\<rparr>"

definition closure_class :: dclass where
  "closure_class =
     \<lparr>c_name = ''RustClosure'', c_docs = [], c_extends = None, c_implements = [], c_properties = [],
      c_methods = [\<lparr>m_name = ''__invoke'', m_docs = [], m_ty = MtMember,
        m_params = [\<lparr>p_name = ''args'', p_ty = Some DtMixed, p_nullable = False, p_variadic = True, p_default = None\<rparr>],
        m_retval = Some \<lparr>rv_ty = DtMixed, rv_nullable = False\<rparr>, m_static = False, m_visibility = VisPublic,
        m_abstract = False\<rparr>],
      c_constants = [], c_flags = 0\<rparr>"

definition enum_case_from :: "enum_case \<Rightarrow> denum_case" where
  "enum_case_from c =
     \<lparr>ec_name = cs_name c, ec_docs = cs_docs c,
      ec_value = map_option (\<lambda>v. case v of DiscInt i \<Rightarrow> show_int i
        | DiscString s \<Rightarrow> [CHR 0x27] @ s @ [CHR 0x27]) (cs_discriminant c)\<rparr>"

definition enum_from_builder :: "'z enum_builder \<Rightarrow> denum" where
  "enum_from_builder b =
     \<lparr>e_name = eb_name b, e_docs = eb_docs b, e_cases = map enum_case_from (eb_cases b),
      e_backing_type = (case eb_datatype b of DtLong \<Rightarrow> Some ''int'' | DtString \<Rightarrow> Some ''string'' | _ \<Rightarrow> None)\<rparr>"

definition constant_from :: "string \<times> string \<times> string list \<Rightarrow> dconstant" where
  "constant_from v = (case v of (n, stub_value, docs) \<Rightarrow> \<lparr>k_name = n, k_docs = docs, k_value = Some stub_value\<rparr>)"

text \<open>\<open>closure\<close> is the feature of that name.\<close>

definition module_from_builder :: "bool \<Rightarrow> 'z module_builder \<Rightarrow> dmodule" where
  "module_from_builder closure b =
     \<lparr>d_name = mb_name b, d_functions = map function_from_builder (mb_functions b),
      d_classes = map class_from_builder (mb_interfaces b @ mb_classes b) @ (if closure then [closure_class] else []),
      d_enums = map enum_from_builder (mb_enums b), d_constants = map constant_from (mb_constants b)\<rparr>"

section \<open>Lemmas\<close>

lemma fold_eb_case_None: "fold (\<lambda>c b. Option.bind b (f c)) cs None = None"
  by (induction cs) auto

lemma fold_eb_case:
  assumes "eb_cases b \<noteq> []"
  shows "fold (\<lambda>c b. Option.bind b (eb_case c)) cs (Some b) =
     (if \<forall>c \<in> set cs. enum_case_data_type c = eb_datatype b
      then Some (b\<lparr>eb_cases := eb_cases b @ cs\<rparr>) else None)"
  using assms
proof (induction cs arbitrary: b)
  case (Cons c cs)
  show ?case
  proof (cases "enum_case_data_type c = eb_datatype b")
    case True
    with Cons.prems Cons.IH [of "b\<lparr>eb_cases := eb_cases b @ [c]\<rparr>"] show ?thesis
      by (simp add: eb_case_def)
  next
    case False
    with Cons.prems show ?thesis by (simp add: eb_case_def fold_eb_case_None)
  qed
qed simp

lemma fold_eb_method: "fold (\<lambda>(m, fl). eb_method m fl) ms b = b\<lparr>eb_methods := eb_methods b @ ms\<rparr>"
  by (induction ms arbitrary: b) (auto simp: eb_method_def)

lemma enum_builder_of_eq:
  "enum_builder_of t =
     (case rc_cases t of
        [] \<Rightarrow> Some ((eb_new (rc_class_name t))\<lparr>eb_methods := rc_method_builders t, eb_register := True,
                eb_docs := rc_doc_comments t\<rparr>)
      | c # cs \<Rightarrow>
        if \<forall>d \<in> set cs. enum_case_data_type d = enum_case_data_type c
        then Some \<lparr>eb_name = rc_class_name t, eb_methods = rc_method_builders t, eb_cases = rc_cases t,
                   eb_datatype = enum_case_data_type c, eb_register = True, eb_docs = rc_doc_comments t\<rparr>
        else None)"
proof (cases "rc_cases t")
  case (Cons c cs)
  then show ?thesis
    using fold_eb_case [of "(eb_new (rc_class_name t))\<lparr>eb_datatype := enum_case_data_type c, eb_cases := [c]\<rparr>" cs]
    by (auto simp: enum_builder_of_def eb_case_def eb_new_def eb_set_docs_def eb_registration_def fold_eb_method)
qed (simp add: enum_builder_of_def eb_set_docs_def eb_registration_def fold_eb_method eb_new_def)

lemma fold_methods: "cb_methods (add_methods ms b) = cb_methods b @ ms"
  by (induction ms arbitrary: b) (auto simp: add_methods_def cb_method_def)

section \<open>Properties\<close>

text \<open>An enum can be built exactly when all its cases have discriminants of one kind (all integers, all
  strings or none); its description then lists every case in order and names that kind.\<close>

theorem enum_builder_uniform:
  "(enum_builder_of t \<noteq> None \<longleftrightarrow> length (remdups (map enum_case_data_type (rc_cases t))) \<le> 1) \<and>
   (case enum_builder_of t of
      None \<Rightarrow> True
    | Some b \<Rightarrow> map ec_name (e_cases (enum_from_builder b)) = map cs_name (rc_cases t) \<and>
        e_backing_type (enum_from_builder b) =
          (case rc_cases t of
             [] \<Rightarrow> None
           | c # _ \<Rightarrow> (case cs_discriminant c of None \<Rightarrow> None | Some (DiscInt _) \<Rightarrow> Some ''int''
                       | Some (DiscString _) \<Rightarrow> Some ''string'')))"
proof (cases "rc_cases t")
  case Nil
  then show ?thesis by (simp add: enum_builder_of_eq enum_from_builder_def eb_new_def)
next
  case (Cons c cs)
  have u: "length (remdups (map enum_case_data_type (c # cs))) \<le> 1 \<longleftrightarrow>
      (\<forall>d \<in> set cs. enum_case_data_type d = enum_case_data_type c)"
  proof -
    have "length (remdups (map enum_case_data_type (c # cs))) = card (insert (enum_case_data_type c) (enum_case_data_type ` set cs))"
      by (simp only: length_remdups_card_conv set_map list.set image_insert)
    also have "\<dots> \<le> 1 \<longleftrightarrow> (\<forall>d \<in> set cs. enum_case_data_type d = enum_case_data_type c)"
      unfolding One_nat_def by (subst card_le_Suc0_iff_eq) auto
    finally show ?thesis .
  qed
  have n: "map ec_name (map enum_case_from xs) = map cs_name xs" for xs
    by (simp add: enum_case_from_def)
  show ?thesis
    unfolding Cons enum_builder_of_eq u
    using n [of "c # cs"]
    by (auto simp: enum_from_builder_def enum_case_data_type_def split: option.splits discriminant.splits)
qed

end
