(* ===== verification/Stub.thy ===== *)
theory Stub
  imports Describe "HOL-Library.Multiset"
begin

text \<open>
  \<open>src/describe/stub.rs\<close>: the PHP stub file of a described extension. A \<open>fmt_stub\<close> method only
  appends to its buffer and writing to a string cannot fail, so each is modelled by the text it
  appends (\<open>to_stub\<close> is that text). The hash maps of the parsed documentation are maps; the one
  from namespaces to entries is the list of its keys with their buckets. Strings compare bytewise,
  which is the lexicographic order of the library. The line separator is the one used off Windows.
\<close>

section \<open>Text\<close>

abbreviation nl :: string where "nl \<equiv> [CHR 0x0A]"
abbreviation backslash :: string where "backslash \<equiv> [CHR 0x5C]"

definition NEW_LINE_SEPARATOR :: string where "NEW_LINE_SEPARATOR = nl"

definition split_namespace :: "string \<Rightarrow> string option \<times> string" where
  "split_namespace cls =
     (case rfind_char (CHR 0x5C) cls of
        Some idx \<Rightarrow> (Some (take idx cls), drop (Suc idx) cls)
      | None \<Rightarrow> (None, cls))"

definition indent_line :: "nat \<Rightarrow> string \<Rightarrow> string" where
  "indent_line depth line = (if \<not> all_whitespace line then replicate depth (CHR '' '') @ line else [])"

definition indent :: "string \<Rightarrow> nat \<Rightarrow> string" where
  "indent s depth = join NEW_LINE_SEPARATOR (map (indent_line depth) (split_char (CHR 0x0A) s))"

section \<open>Documentation comments\<close>

record parsed_rust_doc =
  pd_summary :: "string list"
  pd_params :: "string \<rightharpoonup> string"
  pd_param_types :: "string \<rightharpoonup> string"
  pd_returns :: "string option"
  pd_errors :: "string list"

definition rust_doc_default :: parsed_rust_doc where
  "rust_doc_default =
     \<lparr>pd_summary = [], pd_params = Map.empty, pd_param_types = Map.empty, pd_returns = None, pd_errors = []\<rparr>"

definition strip_dollar :: "string \<Rightarrow> string" where
  "strip_dollar n = (case strip_prefix ''$'' n of Some r \<Rightarrow> r | None \<Rightarrow> n)"

definition parse_param_line :: "string \<Rightarrow> (string \<times> string) option" where
  "parse_param_line line =
     (case (case strip_prefix ''`'' line of
              Some rest \<Rightarrow> map_option (\<lambda>e. (rest, e)) (find_char (CHR ''`'') rest)
            | None \<Rightarrow> None) of
        Some (rest, end_tick) \<Rightarrow>
          (let nm = take end_tick rest;
               after_tick = drop (end_tick + 1) rest;
               desc = (case (case strip_prefix ''-'' (trim after_tick) of
                               Some d \<Rightarrow> Some d
                             | None \<Rightarrow> strip_prefix '':'' (trim after_tick)) of
                         Some d \<Rightarrow> trim d
                       | None \<Rightarrow> trim after_tick)
           in Some (strip_dollar nm, desc))
      | None \<Rightarrow>
          (case find_str '' - '' line of
             Some sep_pos \<Rightarrow>
               Some (strip_dollar (trim (take sep_pos line)), trim (drop (sep_pos + 3) line))
           | None \<Rightarrow> None))"

definition parse_typed_param_line :: "string \<Rightarrow> (string \<times> string \<times> string) option" where
  "parse_typed_param_line line =
     Option.bind (strip_prefix ''`'' line) (\<lambda>rest.
     Option.bind (find_char (CHR ''`'') rest) (\<lambda>end_tick.
       let nm = take end_tick rest;
           after_name = trim (drop (end_tick + 1) rest)
       in Option.bind (strip_prefix '':'' after_name) (\<lambda>ac.
          Option.bind (strip_prefix ''`'' (trim ac)) (\<lambda>type_rest.
          Option.bind (find_char (CHR ''`'') type_rest) (\<lambda>type_end_tick.
            Some (strip_dollar nm, take type_end_tick type_rest,
                  trim (drop (type_end_tick + 1) type_rest)))))))"

definition list_item :: "string \<Rightarrow> string option" where
  "list_item trimmed =
     (case strip_prefix ''* '' trimmed of Some i \<Rightarrow> Some i | None \<Rightarrow> strip_prefix ''- '' trimmed)"

definition add_argument :: "string \<Rightarrow> parsed_rust_doc \<Rightarrow> parsed_rust_doc" where
  "add_argument line r =
     (case Option.bind (list_item (trim line)) (\<lambda>i. parse_param_line (trim i)) of
        Some (nm, desc) \<Rightarrow> r\<lparr>pd_params := (pd_params r)(nm \<mapsto> desc)\<rparr>
      | None \<Rightarrow> r)"

definition add_typed_parameter :: "string \<Rightarrow> parsed_rust_doc \<Rightarrow> parsed_rust_doc" where
  "add_typed_parameter line r =
     (case Option.bind (list_item (trim line)) (\<lambda>i. parse_typed_param_line (trim i)) of
        Some (nm, ty, desc) \<Rightarrow>
          (let r = r\<lparr>pd_param_types := (pd_param_types r)(nm \<mapsto> ty)\<rparr>
           in if desc \<noteq> [] then r\<lparr>pd_params := (pd_params r)(nm \<mapsto> desc)\<rparr> else r)
      | None \<Rightarrow> r)"

definition finalize_section :: "string option \<Rightarrow> string list \<Rightarrow> parsed_rust_doc \<Rightarrow> parsed_rust_doc" where
  "finalize_section sec content r =
     (case sec of
        None \<Rightarrow> r
      | Some section_name \<Rightarrow>
          if section_name = ''Arguments'' then fold add_argument content r
          else if section_name = ''Returns''
          then (let desc = join '' '' (filter (\<lambda>s. s \<noteq> []) (map trim content))
                in if desc \<noteq> [] then r\<lparr>pd_returns := Some desc\<rparr> else r)
          else if section_name = ''Errors''
          then r\<lparr>pd_errors := pd_errors r @ filter (\<lambda>s. s \<noteq> []) (map trim content)\<rparr>
          else if section_name = ''Parameters'' then fold add_typed_parameter content r
          else r)"

fun parse_rustdoc_lines ::
    "string list \<Rightarrow> string option \<Rightarrow> string list \<Rightarrow> parsed_rust_doc \<Rightarrow> parsed_rust_doc" where
  "parse_rustdoc_lines [] current_section section_content r =
     finalize_section current_section section_content r"
| "parse_rustdoc_lines (line # docs) current_section section_content r =
     (case strip_prefix ''# '' (trim line) of
        Some section_name \<Rightarrow>
          parse_rustdoc_lines docs (Some section_name) [] (finalize_section current_section section_content r)
      | None \<Rightarrow>
          if current_section \<noteq> None
          then parse_rustdoc_lines docs current_section (section_content @ [line]) r
          else parse_rustdoc_lines docs current_section section_content
                 (r\<lparr>pd_summary := pd_summary r @ [line]\<rparr>))"

definition parse_rustdoc :: "string list \<Rightarrow> parsed_rust_doc" where
  "parse_rustdoc docs = parse_rustdoc_lines docs None [] rust_doc_default"

section \<open>Types\<close>

definition extract_php_type :: "string \<Rightarrow> string" where
  "extract_php_type type_str = (case first_word type_str of Some w \<Rightarrow> w | None \<Rightarrow> ''mixed'')"

definition format_class_type :: "string \<Rightarrow> bool \<Rightarrow> string" where
  "format_class_type n nullable =
     (let class_name = (if prefix backslash n then n else backslash @ n)
      in if nullable then class_name @ ''|null'' else class_name)"

definition never_nullable :: "data_type \<Rightarrow> bool" where
  "never_nullable ty \<longleftrightarrow> ty = DtMixed \<or> ty = DtNull \<or> ty = DtVoid"

definition phpdoc_base :: "data_type \<Rightarrow> string" where
  "phpdoc_base ty = (case ty of
       DtBool \<Rightarrow> ''bool'' | DtTrue \<Rightarrow> ''bool'' | DtFalse \<Rightarrow> ''bool'' | DtLong \<Rightarrow> ''int'' | DtDouble \<Rightarrow> ''float''
     | DtString \<Rightarrow> ''string'' | DtArray \<Rightarrow> ''array'' | DtObject _ \<Rightarrow> ''object'' | DtResource \<Rightarrow> ''resource''
     | DtCallable \<Rightarrow> ''callable'' | DtVoid \<Rightarrow> ''void'' | DtNull \<Rightarrow> ''null'' | DtIterable \<Rightarrow> ''iterable''
     | _ \<Rightarrow> ''mixed'')"

definition datatype_to_phpdoc :: "data_type \<Rightarrow> bool \<Rightarrow> string" where
  "datatype_to_phpdoc ty nullable =
     (case ty of
        DtObject (Some n) \<Rightarrow> format_class_type n nullable
      | _ \<Rightarrow> if nullable \<and> \<not> never_nullable ty then phpdoc_base ty @ ''|null'' else phpdoc_base ty)"

definition datatype_stub :: "data_type \<Rightarrow> string" where
  "datatype_stub ty = (case ty of
       DtBool \<Rightarrow> ''bool'' | DtTrue \<Rightarrow> ''bool'' | DtFalse \<Rightarrow> ''bool'' | DtLong \<Rightarrow> ''int'' | DtDouble \<Rightarrow> ''float''
     | DtString \<Rightarrow> ''string'' | DtArray \<Rightarrow> ''array'' | DtObject (Some n) \<Rightarrow> backslash @ n
     | DtObject None \<Rightarrow> ''object'' | DtResource \<Rightarrow> ''resource'' | DtReference \<Rightarrow> ''reference''
     | DtCallable \<Rightarrow> ''callable'' | DtIterable \<Rightarrow> ''iterable'' | DtVoid \<Rightarrow> ''void'' | DtNull \<Rightarrow> ''null''
     | DtMixed \<Rightarrow> ''mixed'' | DtUndef \<Rightarrow> ''mixed'' | DtPtr \<Rightarrow> ''mixed'' | DtIndirect \<Rightarrow> ''mixed''
     | DtConstantExpression \<Rightarrow> ''mixed'')"

section \<open>Comment blocks\<close>

definition docblock_stub :: "string list \<Rightarrow> string" where
  "docblock_stub docs =
     (if docs = [] then []
      else ''/**'' @ nl @ concat (map (\<lambda>c. '' *'' @ c @ nl) docs) @ '' */'' @ nl)"

definition param_type_doc :: "parsed_rust_doc \<Rightarrow> parameter \<Rightarrow> string" where
  "param_type_doc parsed p =
     (case pd_param_types parsed (p_name p) of
        Some type_override \<Rightarrow> extract_php_type type_override
      | None \<Rightarrow> (case p_ty p of Some ty \<Rightarrow> datatype_to_phpdoc ty (p_nullable p) | None \<Rightarrow> ''mixed''))"

definition param_tag :: "parsed_rust_doc \<Rightarrow> parameter \<Rightarrow> string" where
  "param_tag parsed p =
     (case pd_params parsed (p_name p) of
        Some desc \<Rightarrow> '' * @param '' @ param_type_doc parsed p @ '' $'' @ p_name p @ '' '' @ desc @ nl
      | None \<Rightarrow> '' * @param '' @ param_type_doc parsed p @ '' $'' @ p_name p @ nl)"

definition return_tag :: "parsed_rust_doc \<Rightarrow> retval \<Rightarrow> string" where
  "return_tag parsed r =
     (let type_str = datatype_to_phpdoc (rv_ty r) (rv_nullable r)
      in case pd_returns parsed of
           Some desc \<Rightarrow> '' * @return '' @ type_str @ '' '' @ desc @ nl
         | None \<Rightarrow> '' * @return '' @ type_str @ nl)"

definition throws_tag :: "string \<Rightarrow> string" where
  "throws_tag err = '' * @throws '' @ backslash @ ''Exception '' @ err @ nl"

text \<open>The text written and the type overrides returned.\<close>

definition format_phpdoc ::
    "string list \<Rightarrow> parameter list \<Rightarrow> retval option \<Rightarrow> string \<times> (string \<rightharpoonup> string)" where
  "format_phpdoc docs params ret =
     (if docs = [] \<and> params = [] \<and> ret = None then ([], Map.empty)
      else
        let parsed = parse_rustdoc docs;
            has_summary = list_ex (\<lambda>s. trim s \<noteq> []) (pd_summary parsed);
            has_params = (params \<noteq> []);
            has_return = (ret \<noteq> None);
            has_errors = (pd_errors parsed \<noteq> []);
            summary_lines = rev (dropWhile (\<lambda>s. trim s = []) (rev (pd_summary parsed)))
        in if \<not> has_summary \<and> \<not> has_params \<and> \<not> has_return \<and> \<not> has_errors then ([], pd_param_types parsed)
           else (''/**'' @ nl @ concat (map (\<lambda>line. '' *'' @ line @ nl) summary_lines) @
                 (if summary_lines \<noteq> [] \<and> (has_params \<or> has_return \<or> has_errors) then '' *'' @ nl else []) @
                 concat (map (param_tag parsed) params) @
                 (case ret of Some r \<Rightarrow> return_tag parsed r | None \<Rightarrow> []) @
                 concat (map throws_tag (pd_errors parsed)) @
                 '' */'' @ nl, pd_param_types parsed))"

section \<open>Stubs\<close>

definition param_to_stub :: "(string \<rightharpoonup> string) \<Rightarrow> parameter \<Rightarrow> string" where
  "param_to_stub type_overrides p =
     (let type_override = (if p_ty p = Some DtMixed \<or> p_ty p = None then type_overrides (p_name p) else None)
      in (case type_override of
            Some override_str \<Rightarrow> extract_php_type override_str @ '' ''
          | None \<Rightarrow>
              (case p_ty p of
                 Some ty \<Rightarrow> (if p_nullable p \<and> \<not> never_nullable ty then ''?'' else []) @ datatype_stub ty @ '' ''
               | None \<Rightarrow> [])) @
         (if p_variadic p then ''...'' else []) @ ''$'' @ p_name p @
         (case p_default p of
            Some d \<Rightarrow> '' = '' @ d
          | None \<Rightarrow> if p_nullable p then '' = null'' else []))"

definition parameter_stub :: "parameter \<Rightarrow> string" where
  "parameter_stub p = param_to_stub Map.empty p"

definition params_stub :: "(string \<rightharpoonup> string) \<Rightarrow> parameter list \<Rightarrow> string" where
  "params_stub ov ps = join '', '' (map (param_to_stub ov) ps)"

definition ret_stub :: "retval \<Rightarrow> string" where
  "ret_stub r = '': '' @ (if rv_nullable r \<and> \<not> never_nullable (rv_ty r) then ''?'' else []) @ datatype_stub (rv_ty r)"

definition function_stub :: "dfunction \<Rightarrow> string" where
  "function_stub f =
     (let (doc, ov) = format_phpdoc (f_docs f) (f_params f) (f_ret f);
          nm = snd (split_namespace (f_name f))
      in doc @ ''function '' @ nm @ ''('' @ params_stub ov (f_params f) @ '')'' @
         (case f_ret f of Some r \<Rightarrow> ret_stub r | None \<Rightarrow> []) @ '' {}'' @ nl)"

definition visibility_stub :: "visibility \<Rightarrow> string" where
  "visibility_stub v =
     (case v of VisPrivate \<Rightarrow> ''private'' | VisProtected \<Rightarrow> ''protected'' | VisPublic \<Rightarrow> ''public'')"

definition method_stub :: "dmethod \<Rightarrow> string" where
  "method_stub m =
     (let ret = (if m_ty m = MtConstructor then None else m_retval m);
          (doc, ov) = format_phpdoc (m_docs m) (m_params m) ret
      in doc @ visibility_stub (m_visibility m) @ '' '' @ (if m_ty m = MtStatic then ''static '' else []) @
         ''function '' @ m_name m @ ''('' @ params_stub ov (m_params m) @ '')'' @
         (case ret of Some r \<Rightarrow> ret_stub r | None \<Rightarrow> []) @
         (if m_abstract m then '';'' @ nl else '' {}'' @ nl))"

definition constant_stub :: "dconstant \<Rightarrow> string" where
  "constant_stub k =
     docblock_stub (k_docs k) @ ''const '' @ k_name k @ '' = '' @
     (case k_value k of Some v \<Rightarrow> v | None \<Rightarrow> ''null'') @ '';'' @ nl"

definition property_stub :: "dproperty \<Rightarrow> string" where
  "property_stub p =
     (if pr_docs p \<noteq> []
      then ''/**'' @ nl @ concat (map (\<lambda>c. '' *'' @ c @ nl) (pr_docs p)) @
           (case pr_ty p of
              Some ty \<Rightarrow> '' *'' @ nl @ '' * @var '' @ datatype_to_phpdoc ty (pr_nullable p) @ nl
            | None \<Rightarrow> []) @ '' */'' @ nl
      else []) @
     visibility_stub (pr_vis p) @ '' '' @ (if pr_static p then ''static '' else []) @
     (if pr_readonly p then ''readonly '' else []) @
     (case pr_ty p of
        Some ty \<Rightarrow> (if pr_nullable p \<and> ty \<noteq> DtMixed \<and> ty \<noteq> DtNull then ''?'' else []) @ datatype_stub ty @ '' ''
      | None \<Rightarrow> []) @
     ''$'' @ pr_prop_name p @ (case pr_default p of Some d \<Rightarrow> '' = '' @ d | None \<Rightarrow> []) @ '';'' @ nl"

text \<open>\<open>ClassFlags::from_bits\<close> fails on a bit outside the declared flags.\<close>

definition CLASS_FLAGS_ALL :: u32 where "CLASS_FLAGS_ALL = 0x701F77FF"

definition class_flags_from_bits :: "u32 \<Rightarrow> u32 option" where
  "class_flags_from_bits b = (if b AND CLASS_FLAGS_ALL = b then Some b else None)"

definition sorted_stubs :: "(string \<times> string) list \<Rightarrow> string list" where
  "sorted_stubs entries = map snd (sort_key fst entries)"

definition class_stub :: "dclass \<Rightarrow> string" where
  "class_stub c =
     (let nm = snd (split_namespace (c_name c));
          flags = (case class_flags_from_bits (c_flags c) of Some f \<Rightarrow> f | None \<Rightarrow> 0);
          is_interface = flags_contain flags ZEND_ACC_INTERFACE;
          constants = map (\<lambda>k. (k_name k, indent (constant_stub k) 4)) (c_constants c);
          properties = map (\<lambda>p. (pr_prop_name p, indent (property_stub p) 4)) (c_properties c);
          methods = map (\<lambda>m. (m_name m, indent (method_stub m) 4)) (c_methods c)
      in docblock_stub (c_docs c) @
         (if is_interface then ''interface '' @ nm @ '' '' else ''class '' @ nm @ '' '') @
         (case c_extends c of Some e \<Rightarrow> ''extends '' @ e @ '' '' | None \<Rightarrow> []) @
         (if c_implements c \<noteq> [] \<and> \<not> is_interface then ''implements '' @ join '', '' (c_implements c) @ '' '' else []) @
         (if c_implements c \<noteq> [] \<and> is_interface then ''extends '' @ join '', '' (c_implements c) @ '' '' else []) @
         ''{'' @ nl @
         join NEW_LINE_SEPARATOR (sorted_stubs constants @ sorted_stubs properties @ sorted_stubs methods) @
         ''}'' @ nl)"

definition enum_case_stub :: "denum_case \<Rightarrow> string" where
  "enum_case_stub c =
     docblock_stub (ec_docs c) @ ''  case '' @ ec_name c @
     (case ec_value c of Some v \<Rightarrow> '' = '' @ v | None \<Rightarrow> []) @ '';'' @ nl"

definition enum_stub :: "denum \<Rightarrow> string" where
  "enum_stub e =
     docblock_stub (e_docs e) @ ''enum '' @ snd (split_namespace (e_name e)) @
     (case e_backing_type e of Some t \<Rightarrow> '': '' @ t | None \<Rightarrow> []) @ '' {'' @ nl @
     concat (map enum_case_stub (e_cases e)) @ ''}'' @ nl"

section \<open>The module\<close>

text \<open>The entries in the order they are inserted: namespace, sort key, stub.\<close>

definition module_entry :: "string \<Rightarrow> string \<Rightarrow> string option \<times> string \<times> string" where
  "module_entry qualified stub = (let (ns, nm) = split_namespace qualified in (ns, nm, stub))"

definition module_entries :: "dmodule \<Rightarrow> (string option \<times> string \<times> string) list" where
  "module_entries m =
     map (\<lambda>k. module_entry (k_name k) (constant_stub k)) (d_constants m) @
     map (\<lambda>f. module_entry (f_name f) (function_stub f)) (d_functions m) @
     map (\<lambda>c. module_entry (c_name c) (class_stub c)) (d_classes m) @
     map (\<lambda>e. module_entry (e_name e) (enum_stub e)) (d_enums m)"

text \<open>The order of the namespaces: named ones by name, the global one last.\<close>

definition sorted_namespaces :: "(string option \<times> string \<times> string) list \<Rightarrow> string option list" where
  "sorted_namespaces es =
     map Some (sort (remdups (List.map_filter fst es))) @ (if None \<in> fst ` set es then [None] else [])"

definition bucket :: "(string option \<times> string \<times> string) list \<Rightarrow> string option \<Rightarrow> (string \<times> string) list" where
  "bucket es ns = sort_key fst (map snd (filter (\<lambda>e. fst e = ns) es))"

definition namespace_stub :: "string option \<Rightarrow> (string \<times> string) list \<Rightarrow> string" where
  "namespace_stub ns entries =
     (case ns of Some n \<Rightarrow> ''namespace '' @ n @ '' {'' @ nl | None \<Rightarrow> ''namespace {'' @ nl) @
     join NEW_LINE_SEPARATOR (map (\<lambda>(_, stub). indent stub 4) entries) @ ''}'' @ nl"

definition module_stub :: "dmodule \<Rightarrow> string" where
  "module_stub m =
     (let es = module_entries m
      in ''<?php'' @ nl @ nl @ ''// Stubs for '' @ d_name m @ nl @ nl @
         join NEW_LINE_SEPARATOR (map (\<lambda>ns. namespace_stub ns (bucket es ns)) (sorted_namespaces es)))"

section \<open>Lemmas\<close>

lemma split_namespace_cases:
  "case split_namespace s of
     (Some ns, n) \<Rightarrow> s = ns @ backslash @ n \<and> CHR 0x5C \<notin> set n
   | (None, n) \<Rightarrow> n = s \<and> CHR 0x5C \<notin> set s"
proof (cases "CHR 0x5C \<in> set s")
  case True
  then obtain p n where "s = p @ CHR 0x5C # n" "CHR 0x5C \<notin> set n" by (meson split_list_last)
  then show ?thesis by (simp add: split_namespace_def rfind_char_append)
next
  case False
  then have "rfind_char (CHR 0x5C) s = None" by (simp add: rfind_char_None_iff)
  with False show ?thesis by (simp add: split_namespace_def)
qed

text \<open>Splitting a list by a key and putting the parts together again loses nothing.\<close>

lemma mset_buckets:
  assumes "distinct ks" and "fst ` set es \<subseteq> set ks"
  shows "mset (concat (map (\<lambda>k. filter (\<lambda>e. fst e = k) es) ks)) = mset es"
  using assms
proof (induction ks arbitrary: es)
  case (Cons k ks)
  let ?es = "filter (\<lambda>e. fst e \<noteq> k) es"
  have "map (\<lambda>j. filter (\<lambda>e. fst e = j) es) ks = map (\<lambda>j. filter (\<lambda>e. fst e = j) ?es) ks"
    using Cons.prems(1) by (auto intro!: filter_cong)
  moreover have "mset (concat (map (\<lambda>j. filter (\<lambda>e. fst e = j) ?es) ks)) = mset ?es"
    using Cons.prems by (intro Cons.IH) auto
  ultimately have "mset (concat (map (\<lambda>j. filter (\<lambda>e. fst e = j) es) (k # ks))) =
      mset (filter (\<lambda>e. fst e = k) es) + mset ?es" by (simp only: list.map concat.simps mset_append)
  also have "\<dots> = mset es" by (induction es) auto
  finally show ?case .
qed simp

lemma mset_bucket: "mset (map (Pair ns) (bucket es ns)) = mset (filter (\<lambda>e. fst e = ns) es)"
proof -
  have "mset (map (Pair ns) (bucket es ns)) = mset (map (Pair ns) (map snd (filter (\<lambda>e. fst e = ns) es)))"
    by (simp only: bucket_def mset_map mset_sort)
  also have "map (Pair ns) (map snd (filter (\<lambda>e. fst e = ns) es)) = filter (\<lambda>e. fst e = ns) es"
    by (auto intro: map_idI)
  finally show ?thesis .
qed

lemma mset_concat_cong:
  "(\<And>x. x \<in> set xs \<Longrightarrow> mset (f x) = mset (g x)) \<Longrightarrow> mset (concat (map f xs)) = mset (concat (map g xs))"
  by (induction xs) auto

lemma set_map_filter_fst: "Some n \<in> fst ` set es \<longleftrightarrow> n \<in> set (List.map_filter fst es)"
  by (induction es) (auto simp: map_filter_simps image_iff split: option.splits)

lemma sorted_namespaces_props:
  "distinct (sorted_namespaces es)" "set (sorted_namespaces es) = fst ` set es"
proof -
  show "distinct (sorted_namespaces es)" by (auto simp: sorted_namespaces_def distinct_map)
  have "ns \<in> set (sorted_namespaces es) \<longleftrightarrow> ns \<in> fst ` set es" for ns
    by (cases ns) (auto simp: sorted_namespaces_def set_map_filter_fst)
  then show "set (sorted_namespaces es) = fst ` set es" by blast
qed

lemma sorted_bucket: "sorted (map fst (bucket es ns))"
  by (simp add: bucket_def)

text \<open>A line that opens a section.\<close>

definition is_header :: "string \<Rightarrow> bool" where
  "is_header line \<longleftrightarrow> strip_prefix ''# '' (trim line) \<noteq> None"

lemma pd_summary_add [simp]:
  "pd_summary (add_argument l r) = pd_summary r" "pd_summary (add_typed_parameter l r) = pd_summary r"
  by (simp_all add: add_argument_def add_typed_parameter_def Let_def split: option.splits)

lemma pd_summary_fold [simp]:
  "pd_summary (fold add_argument ls r) = pd_summary r" "pd_summary (fold add_typed_parameter ls r) = pd_summary r"
  by (induction ls arbitrary: r) auto

lemma pd_summary_finalize [simp]: "pd_summary (finalize_section s c r) = pd_summary r"
  by (simp add: finalize_section_def Let_def split: option.splits)

lemma parse_in_section_summary:
  "pd_summary (parse_rustdoc_lines docs (Some s) c r) = pd_summary r"
  by (induction docs arbitrary: s c r) (auto split: option.splits)

lemma parse_summary:
  "pd_summary (parse_rustdoc_lines docs None [] r) = pd_summary r @ takeWhile (\<lambda>l. \<not> is_header l) docs"
  by (induction docs arbitrary: r) (auto simp: is_header_def parse_in_section_summary split: option.splits)

lemma parse_no_header:
  "\<forall>l \<in> set docs. \<not> is_header l \<Longrightarrow> parse_rustdoc_lines docs None c r = r\<lparr>pd_summary := pd_summary r @ docs\<rparr>"
  by (induction docs arbitrary: r) (auto simp: is_header_def finalize_section_def)

section \<open>Properties\<close>

text \<open>The namespaces in order, each with its entries.\<close>

definition stub_groups :: "dmodule \<Rightarrow> (string option \<times> (string \<times> string) list) list" where
  "stub_groups m = map (\<lambda>ns. (ns, bucket (module_entries m) ns)) (sorted_namespaces (module_entries m))"

definition qualified_name :: "string option \<Rightarrow> string \<Rightarrow> string" where
  "qualified_name ns n = (case ns of Some q \<Rightarrow> q @ backslash @ n | None \<Rightarrow> n)"

lemma module_entry_qualified:
  "module_entry q stub = (ns, n, stub') \<Longrightarrow> qualified_name ns n = q \<and> stub' = stub \<and> CHR 0x5C \<notin> set n"
  using split_namespace_cases [of q] by (auto simp: module_entry_def qualified_name_def split: prod.splits option.splits)

lemma module_entries_qualified_unqualified:
  shows module_entries_qualified: "map (\<lambda>(ns, n, stub). (qualified_name ns n, stub)) (module_entries m) =
     map (\<lambda>k. (k_name k, constant_stub k)) (d_constants m) @ map (\<lambda>f. (f_name f, function_stub f)) (d_functions m) @
     map (\<lambda>c. (c_name c, class_stub c)) (d_classes m) @ map (\<lambda>e. (e_name e, enum_stub e)) (d_enums m)"
    and module_entries_unqualified: "(ns, n, stub) \<in> set (module_entries m) \<Longrightarrow> CHR 0x5C \<notin> set n"
proof -
  have "(case module_entry q stub of (ns, n, stub) \<Rightarrow> (qualified_name ns n, stub)) = (q, stub)" for q stub
    using module_entry_qualified [of q stub] by (cases "module_entry q stub") auto
  then show "map (\<lambda>(ns, n, stub). (qualified_name ns n, stub)) (module_entries m) =
     map (\<lambda>k. (k_name k, constant_stub k)) (d_constants m) @ map (\<lambda>f. (f_name f, function_stub f)) (d_functions m) @
     map (\<lambda>c. (c_name c, class_stub c)) (d_classes m) @ map (\<lambda>e. (e_name e, enum_stub e)) (d_enums m)"
    by (simp add: module_entries_def comp_def)
  show "CHR 0x5C \<notin> set n" if "(ns, n, stub) \<in> set (module_entries m)"
    using that module_entry_qualified by (fastforce simp: module_entries_def dest: sym)
qed

lemma mset_stub_groups:
  "mset (concat (map (\<lambda>(ns, entries). map (Pair ns) entries) (stub_groups m))) = mset (module_entries m)"
proof -
  let ?es = "module_entries m"
  have "mset (concat (map (\<lambda>ns. map (Pair ns) (bucket ?es ns)) (sorted_namespaces ?es))) =
      mset (concat (map (\<lambda>k. filter (\<lambda>e. fst e = k) ?es) (sorted_namespaces ?es)))"
    by (rule mset_concat_cong) (rule mset_bucket)
  also have "\<dots> = mset ?es"
    by (rule mset_buckets) (simp_all add: sorted_namespaces_props)
  finally show ?thesis by (simp add: stub_groups_def comp_def)
qed

lemma bucket_member: "(n, stub) \<in> set (bucket es ns) \<Longrightarrow> (ns, n, stub) \<in> set es"
  by (auto simp: bucket_def)

lemma bucket_nonempty:
  assumes "ns \<in> set (sorted_namespaces es)"
  shows "bucket es ns \<noteq> []"
proof -
  from assms obtain e where "e \<in> set es" "fst e = ns" unfolding sorted_namespaces_props(2) by blast
  then have "snd e \<in> set (bucket es ns)" by (simp add: bucket_def)
  then show ?thesis by auto
qed

text \<open>C37. The stub of a module is its header and one block per namespace, and in these blocks every described constant, function, class and
  enum occurs exactly once, as its own stub, indented, under its namespace: the pairs of qualified name and stub
  over all blocks are those of the module. The namespaces differ and are sorted by name, the global one last; the entries of a
  block are sorted by their unqualified names, which hold no backslash, and no block is empty.\<close>

theorem module_stub_complete:
  "\<exists>groups.
     module_stub m = ''<?php'' @ nl @ nl @ ''// Stubs for '' @ d_name m @ nl @ nl @
       join NEW_LINE_SEPARATOR (map (\<lambda>(ns, entries).
         (case ns of Some n \<Rightarrow> ''namespace '' @ n @ '' {'' | None \<Rightarrow> ''namespace {'') @ nl @
         join NEW_LINE_SEPARATOR (map (\<lambda>(_, stub). indent stub 4) entries) @ ''}'' @ nl) groups) \<and>
     mset (concat (map (\<lambda>(ns, entries). map (\<lambda>(n, stub). (case ns of Some q \<Rightarrow> q @ backslash @ n | None \<Rightarrow> n, stub)) entries) groups)) =
       mset (map (\<lambda>k. (k_name k, constant_stub k)) (d_constants m) @ map (\<lambda>f. (f_name f, function_stub f)) (d_functions m) @
         map (\<lambda>c. (c_name c, class_stub c)) (d_classes m) @ map (\<lambda>e. (e_name e, enum_stub e)) (d_enums m)) \<and>
     (\<exists>named. map fst groups = map Some named \<or> map fst groups = map Some named @ [None]) \<and>
     distinct (map fst groups) \<and> sorted (List.map_filter fst groups) \<and>
     list_all (\<lambda>(_, entries). entries \<noteq> [] \<and> sorted (map fst entries) \<and> list_all (\<lambda>(n, _). CHR 0x5C \<notin> set n) entries) groups"
proof (intro exI [of _ "stub_groups m"] conjI)
  let ?es = "module_entries m"
  show "module_stub m = ''<?php'' @ nl @ nl @ ''// Stubs for '' @ d_name m @ nl @ nl @
       join NEW_LINE_SEPARATOR (map (\<lambda>(ns, entries).
         (case ns of Some n \<Rightarrow> ''namespace '' @ n @ '' {'' | None \<Rightarrow> ''namespace {'') @ nl @
         join NEW_LINE_SEPARATOR (map (\<lambda>(_, stub). indent stub 4) entries) @ ''}'' @ nl) (stub_groups m))"
    unfolding module_stub_def stub_groups_def Let_def namespace_stub_def
    by (auto simp: comp_def split: option.split intro!: arg_cong [where f = "join NEW_LINE_SEPARATOR"])
  have "concat (map (\<lambda>(ns, entries). map (\<lambda>(n, stub). (qualified_name ns n, stub)) entries) (stub_groups m)) =
      map (\<lambda>(ns, n, stub). (qualified_name ns n, stub)) (concat (map (\<lambda>(ns, entries). map (Pair ns) entries) (stub_groups m)))"
    unfolding map_concat map_map comp_def by (simp add: case_prod_unfold comp_def)
  then show "mset (concat (map (\<lambda>(ns, entries). map (\<lambda>(n, stub). (case ns of Some q \<Rightarrow> q @ backslash @ n | None \<Rightarrow> n, stub)) entries) (stub_groups m))) =
       mset (map (\<lambda>k. (k_name k, constant_stub k)) (d_constants m) @ map (\<lambda>f. (f_name f, function_stub f)) (d_functions m) @
         map (\<lambda>c. (c_name c, class_stub c)) (d_classes m) @ map (\<lambda>e. (e_name e, enum_stub e)) (d_enums m))"
    unfolding module_entries_qualified [symmetric] qualified_name_def [symmetric] mset_map mset_stub_groups [symmetric] by (simp only: mset_map)
  have fsts: "map fst (stub_groups m) = sorted_namespaces ?es" by (simp add: stub_groups_def comp_def)
  then show "distinct (map fst (stub_groups m))" by (simp add: sorted_namespaces_props)
  show "\<exists>named. map fst (stub_groups m) = map Some named \<or> map fst (stub_groups m) = map Some named @ [None]"
    unfolding fsts sorted_namespaces_def by auto
  have "List.map_filter fst (stub_groups m) = List.map_filter (\<lambda>x. x) (sorted_namespaces ?es)"
    by (simp add: List.map_filter_def stub_groups_def filter_map comp_def)
  also have "\<dots> = sort (remdups (List.map_filter fst ?es))"
    by (simp add: sorted_namespaces_def List.map_filter_def filter_map comp_def)
  finally show "sorted (List.map_filter fst (stub_groups m))" by simp
  show "list_all (\<lambda>(_, entries). entries \<noteq> [] \<and> sorted (map fst entries) \<and> list_all (\<lambda>(n, _). CHR 0x5C \<notin> set n) entries) (stub_groups m)"
    using bucket_nonempty sorted_bucket bucket_member module_entries_unqualified
    by (fastforce simp: list_all_iff stub_groups_def)
qed

text \<open>The type in the comment block and the type in the signature agree (the comment spells nullability
  \<open>|null\<close>, the signature a question mark in front of the same base type) for every type except a
  \<open>Reference\<close> and a class name that already starts with a backslash, to which the signature adds a
  second backslash.\<close>

theorem phpdoc_type_matches_signature:
  "datatype_to_phpdoc ty nullable =
     datatype_stub ty @ (if nullable \<and> \<not> never_nullable ty then ''|null'' else []) \<longleftrightarrow>
   ty \<noteq> DtReference \<and> (case ty of DtObject (Some n) \<Rightarrow> \<not> prefix backslash n | _ \<Rightarrow> True)"
proof (cases ty)
  case (DtObject obj)
  show ?thesis
  proof (cases obj)
    case (Some n)
    have "n @ x \<noteq> CHR 0x5C # n @ x" for x :: string by (metis append_Cons append_same_eq not_Cons_self)
    then show ?thesis
      by (auto simp: DtObject Some datatype_to_phpdoc_def datatype_stub_def format_class_type_def
        never_nullable_def Let_def)
  qed (simp add: DtObject datatype_to_phpdoc_def datatype_stub_def phpdoc_base_def)
qed (simp_all add: datatype_to_phpdoc_def datatype_stub_def phpdoc_base_def never_nullable_def)

text \<open>A type written in the \<open>Parameters\<close> section of the documentation replaces the declared type in the
  comment block whatever that type is, but in the signature only when the declared type is mixed or
  missing; so the comment and the signature of one parameter can name different types.\<close>

theorem override_changes_comment_only:
  assumes "pd_param_types (parse_rustdoc docs) (p_name p) = Some ov" and "p_ty p = Some ty" and "ty \<noteq> DtMixed"
  shows "param_type_doc (parse_rustdoc docs) p = extract_php_type ov \<and>
         param_to_stub (pd_param_types (parse_rustdoc docs)) p = parameter_stub p"
  using assms by (simp add: param_type_doc_def param_to_stub_def parameter_stub_def)

theorem override_changes_comment_only_witness:
  "let docs = [''# Parameters'', ''- `x`: `int` a number''];
       p = \<lparr>p_name = ''x'', p_ty = Some DtString, p_nullable = False, p_variadic = False, p_default = None\<rparr>
   in param_type_doc (parse_rustdoc docs) p = ''int'' \<and> parameter_stub p = ''string $x''"
proof -
  let ?docs = "[''# Parameters'', ''- `x`: `int` a number'']"
  let ?p = "\<lparr>p_name = ''x'', p_ty = Some DtString, p_nullable = False, p_variadic = False, p_default = None\<rparr>"
  have "strip_prefix ''# '' (trim ''# Parameters'') = Some ''Parameters''"
    and "strip_prefix ''# '' (trim ''- `x`: `int` a number'') = None"
    and "Option.bind (list_item (trim ''- `x`: `int` a number'')) (\<lambda>i. parse_typed_param_line (trim i)) =
      Some (''x'', ''int'', ''a number'')"
    by code_simp+
  then have "pd_param_types (parse_rustdoc ?docs) ''x'' = Some ''int''"
    by (simp add: parse_rustdoc_def finalize_section_def add_typed_parameter_def)
  then have "pd_param_types (parse_rustdoc ?docs) (p_name ?p) = Some ''int''" by simp
  from override_changes_comment_only [OF this] have "param_type_doc (parse_rustdoc ?docs) ?p = extract_php_type ''int''"
    by simp
  moreover have "extract_php_type ''int'' = ''int''" by code_simp
  ultimately show ?thesis
    by (simp add: parameter_stub_def param_to_stub_def datatype_stub_def)
qed

text \<open>The summary of a documentation comment is the lines before the first section header, unchanged, and a
  comment without headers contributes nothing but its summary.\<close>

theorem rustdoc_summary:
  "pd_summary (parse_rustdoc docs) = takeWhile (\<lambda>l. \<not> is_header l) docs \<and>
   parse_rustdoc (takeWhile (\<lambda>l. \<not> is_header l) docs) =
     rust_doc_default\<lparr>pd_summary := takeWhile (\<lambda>l. \<not> is_header l) docs\<rparr>"
proof -
  have "\<forall>l \<in> set (takeWhile (\<lambda>l. \<not> is_header l) docs). \<not> is_header l" by (metis set_takeWhileD)
  from parse_no_header [OF this, of "[]" rust_doc_default] show ?thesis
    by (simp add: parse_rustdoc_def parse_summary rust_doc_default_def)
qed

end
