(* ===== verification/Bailout.thy ===== *)
theory Bailout
  imports Prelude
begin

text \<open>
  \<open>src/zend/bailout_guard.rs\<close> and \<open>src/zend/try_catch.rs\<close>: guards whose values are dropped even when
  PHP leaves a handler by \<open>longjmp\<close>. A boxed value is a number that is never reused; the log records
  the values dropped and those moved out. A thread's handler invocations form a stack of frames,
  each with the guards its Rust code still owns; a bailout abandons frames without running their
  destructors, and the handler that catches it runs the registered cleanups.
\<close>

section \<open>Guards\<close>

record bailout_guard =
  g_value :: nat
  g_index :: nat

record cleanup_state =
  cs_stack :: "(nat \<times> bool) list"
  cs_next :: nat
  cs_dropped :: "nat list"
  cs_moved :: "nat list"

definition guard_new :: "cleanup_state \<Rightarrow> bailout_guard \<times> cleanup_state" where
  "guard_new s =
     (let ptr = cs_next s; idx = length (cs_stack s)
      in (\<lparr>g_value = ptr, g_index = idx\<rparr>, s\<lparr>cs_next := Suc ptr, cs_stack := cs_stack s @ [(ptr, True)]\<rparr>))"

text \<open>Both ways of giving up a guard first switch its cleanup off, if the stack still reaches its index.\<close>

definition deactivate :: "nat \<Rightarrow> cleanup_state \<Rightarrow> cleanup_state" where
  "deactivate i s =
     (if i < length (cs_stack s) then s\<lparr>cs_stack := (cs_stack s)[i := (fst (cs_stack s ! i), False)]\<rparr> else s)"

definition drop_box :: "nat \<Rightarrow> cleanup_state \<Rightarrow> cleanup_state" where
  "drop_box p s = s\<lparr>cs_dropped := cs_dropped s @ [p]\<rparr>"

definition guard_drop :: "bailout_guard \<Rightarrow> cleanup_state \<Rightarrow> cleanup_state" where
  "guard_drop g s = drop_box (g_value g) (deactivate (g_index g) s)"

definition guard_into_inner :: "bailout_guard \<Rightarrow> cleanup_state \<Rightarrow> nat \<times> cleanup_state" where
  "guard_into_inner g s =
     (let s = deactivate (g_index g) s in (g_value g, s\<lparr>cs_moved := cs_moved s @ [g_value g]\<rparr>))"

definition run_bailout_cleanups :: "cleanup_state \<Rightarrow> cleanup_state" where
  "run_bailout_cleanups s =
     fold (\<lambda>(p, active) s. if active then drop_box p s else s) (rev (cs_stack s)) (s\<lparr>cs_stack := []\<rparr>)"

section \<open>Catching bailouts\<close>

text \<open>How a closure called under \<open>try_catch\<close> ends, and what \<open>do_try_catch\<close> makes of it: the wrapper
  stores a result or a caught panic, and stores nothing when control left by a bailout.\<close>

datatype 'r run = Returns 'r | Panics string | Bails

datatype 'r caught = TryOk 'r | CatchError | ResumesPanic string

definition panic_wrapper :: "'r run \<Rightarrow> (string + 'r) option \<times> bool" where
  "panic_wrapper func =
     (case func of Returns r \<Rightarrow> (Some (Inr r), False) | Panics e \<Rightarrow> (Some (Inl e), False) | Bails \<Rightarrow> (None, True))"

definition do_try_catch :: "'r run \<Rightarrow> 'r caught" where
  "do_try_catch func =
     (case panic_wrapper func of
        (panic, has_bailout) \<Rightarrow>
          if panic = None \<or> has_bailout then CatchError
          else case the panic of Inr r \<Rightarrow> TryOk r | Inl err \<Rightarrow> ResumesPanic err)"

section \<open>Handler invocations\<close>

record bailout_conf =
  bc_state :: cleanup_state
  bc_frames :: "bailout_guard list list"

definition conf_init :: bailout_conf where
  "conf_init = \<lparr>bc_state = \<lparr>cs_stack = [], cs_next = 0, cs_dropped = [], cs_moved = []\<rparr>, bc_frames = []\<rparr>"

text \<open>The steps of one thread. \<open>Bailout\<close> abandons the \<open>Suc k\<close> innermost frames: the innermost handler
  catches it, runs the cleanups and triggers it again, up to whatever catches it for good. With
  \<open>nested\<close> a frame may stay (Rust code in it called \<open>try_catch\<close> itself); without, only a bailout out
  of all frames is possible.\<close>

inductive bailout_step :: "bool \<Rightarrow> bailout_conf \<Rightarrow> bailout_conf \<Rightarrow> bool" for nested where
  Enter: "bailout_step nested \<lparr>bc_state = s, bc_frames = fs\<rparr> \<lparr>bc_state = s, bc_frames = [] # fs\<rparr>"
| New: "guard_new s = (g, s') \<Longrightarrow>
    bailout_step nested \<lparr>bc_state = s, bc_frames = f # fs\<rparr> \<lparr>bc_state = s', bc_frames = (g # f) # fs\<rparr>"
| Drop: "g \<in> set f \<Longrightarrow>
    bailout_step nested \<lparr>bc_state = s, bc_frames = f # fs\<rparr>
      \<lparr>bc_state = guard_drop g s, bc_frames = remove1 g f # fs\<rparr>"
| Into: "g \<in> set f \<Longrightarrow>
    bailout_step nested \<lparr>bc_state = s, bc_frames = f # fs\<rparr>
      \<lparr>bc_state = snd (guard_into_inner g s), bc_frames = remove1 g f # fs\<rparr>"
| Return: "bailout_step nested \<lparr>bc_state = s, bc_frames = [] # fs\<rparr> \<lparr>bc_state = s, bc_frames = fs\<rparr>"
| Bailout: "k < length fs \<Longrightarrow> nested \<or> Suc k = length fs \<Longrightarrow>
    bailout_step nested \<lparr>bc_state = s, bc_frames = fs\<rparr>
      \<lparr>bc_state = run_bailout_cleanups s, bc_frames = drop (Suc k) fs\<rparr>"

inductive bailout_reach :: "bool \<Rightarrow> bailout_conf \<Rightarrow> bool" for nested where
  Init: "bailout_reach nested conf_init"
| Step: "bailout_reach nested c \<Longrightarrow> bailout_step nested c c' \<Longrightarrow> bailout_reach nested c'"

section \<open>Invariant\<close>

abbreviation live_guards :: "bailout_conf \<Rightarrow> bailout_guard list" where
  "live_guards c \<equiv> concat (bc_frames c)"

definition active_values :: "cleanup_state \<Rightarrow> nat list" where
  "active_values s = map fst (filter snd (cs_stack s))"

text \<open>The live guards are exactly the active cleanups, each at its index, and every value made so far is
  accounted for once: still active, dropped, or moved out.\<close>

definition bailout_inv :: "bailout_conf \<Rightarrow> bool" where
  "bailout_inv c \<longleftrightarrow>
     (let s = bc_state c
      in (\<forall>g \<in> set (live_guards c). g_index g < length (cs_stack s) \<and> cs_stack s ! g_index g = (g_value g, True)) \<and>
         distinct (map g_value (live_guards c)) \<and>
         set (map g_value (live_guards c)) = set (active_values s) \<and>
         distinct (map fst (cs_stack s)) \<and> set (map fst (cs_stack s)) \<subseteq> {..<cs_next s} \<and>
         distinct (active_values s @ cs_dropped s @ cs_moved s) \<and>
         set (active_values s @ cs_dropped s @ cs_moved s) = {..<cs_next s})"

lemma cleanups_fold:
  "fold (\<lambda>(p, active) s. if active then drop_box p s else s) es s =
     s\<lparr>cs_dropped := cs_dropped s @ map fst (filter snd es)\<rparr>"
  by (induction es arbitrary: s) (auto simp: drop_box_def)

lemma run_bailout_cleanups_eq:
  "run_bailout_cleanups s = s\<lparr>cs_stack := [], cs_dropped := cs_dropped s @ rev (active_values s)\<rparr>"
  by (simp add: run_bailout_cleanups_def cleanups_fold active_values_def rev_filter rev_map)

text \<open>Switching off an active entry takes exactly its value out of the active ones.\<close>

lemma active_values_deactivate:
  assumes "i < length (cs_stack s)" and "cs_stack s ! i = (v, True)" and "distinct (map fst (cs_stack s))"
  shows "set (active_values (deactivate i s)) = set (active_values s) - {v}"
    and "distinct (map fst (cs_stack (deactivate i s)))"
    and "distinct (active_values s) \<Longrightarrow> distinct (active_values (deactivate i s))"
proof -
  let ?xs = "cs_stack s"
  have fst: "map fst (?xs[i := (v, False)]) = map fst ?xs"
    using assms(1,2) by (simp add: map_update) (metis fst_conv list_update_id nth_map)
  have split: "?xs = take i ?xs @ (v, True) # drop (Suc i) ?xs"
    using assms(1,2) by (metis id_take_nth_drop)
  have upd: "?xs[i := (v, False)] = take i ?xs @ (v, False) # drop (Suc i) ?xs"
    using assms(1) by (rule upd_conv_take_nth_drop)
  have "distinct (map fst (take i ?xs @ (v, True) # drop (Suc i) ?xs))" using assms(3) split by metis
  then have v: "v \<notin> fst ` set (take i ?xs)" "v \<notin> fst ` set (drop (Suc i) ?xs)" by auto
  have a: "active_values s = map fst (filter snd (take i ?xs)) @ v # map fst (filter snd (drop (Suc i) ?xs))"
    unfolding active_values_def by (subst split) simp
  have b: "active_values (deactivate i s) = map fst (filter snd (take i ?xs)) @ map fst (filter snd (drop (Suc i) ?xs))"
    using assms(1,2) by (simp add: deactivate_def active_values_def upd)
  show "set (active_values (deactivate i s)) = set (active_values s) - {v}"
    unfolding a b using v by force
  show "distinct (active_values s) \<Longrightarrow> distinct (active_values (deactivate i s))"
    unfolding a b by auto
  show "distinct (map fst (cs_stack (deactivate i s)))"
    using assms fst by (simp add: deactivate_def)
qed

lemma deactivate_fields [simp]:
  "cs_dropped (deactivate i s) = cs_dropped s" "cs_moved (deactivate i s) = cs_moved s"
  "cs_next (deactivate i s) = cs_next s" "length (cs_stack (deactivate i s)) = length (cs_stack s)"
  by (simp_all add: deactivate_def)

lemma deactivate_other:
  "j \<noteq> i \<Longrightarrow> cs_stack (deactivate i s) ! j = cs_stack s ! j"
  by (simp add: deactivate_def)

lemma fst_deactivate: "fst ` set (cs_stack (deactivate i s)) = fst ` set (cs_stack s)"
proof -
  have "map fst (cs_stack (deactivate i s)) = map fst (cs_stack s)"
    by (simp add: deactivate_def map_update) (metis list_update_id nth_map)
  then show ?thesis by (metis list.set_map)
qed

lemma bailout_invI:
  assumes "\<And>g. g \<in> set (concat fs) \<Longrightarrow> g_index g < length (cs_stack s) \<and> cs_stack s ! g_index g = (g_value g, True)"
    and "distinct (map g_value (concat fs))" and "set (map g_value (concat fs)) = set (active_values s)"
    and "distinct (map fst (cs_stack s))" and "set (map fst (cs_stack s)) \<subseteq> {..<cs_next s}"
    and "distinct (active_values s @ cs_dropped s @ cs_moved s)"
    and "set (active_values s @ cs_dropped s @ cs_moved s) = {..<cs_next s}"
  shows "bailout_inv \<lparr>bc_state = s, bc_frames = fs\<rparr>"
  using assms unfolding bailout_inv_def Let_def by auto

lemma bailout_invD:
  assumes "bailout_inv \<lparr>bc_state = s, bc_frames = fs\<rparr>"
  shows "g \<in> set (concat fs) \<Longrightarrow> g_index g < length (cs_stack s) \<and> cs_stack s ! g_index g = (g_value g, True)"
    and "distinct (map g_value (concat fs))" and "set (map g_value (concat fs)) = set (active_values s)"
    and "distinct (map fst (cs_stack s))" and "set (map fst (cs_stack s)) \<subseteq> {..<cs_next s}"
    and "distinct (active_values s @ cs_dropped s @ cs_moved s)"
    and "set (active_values s @ cs_dropped s @ cs_moved s) = {..<cs_next s}"
  using assms unfolding bailout_inv_def Let_def by auto

lemma remove1_values:
  assumes "distinct (map h (f @ r))" and "g \<in> set f"
  shows "set (map h (remove1 g f @ r)) = set (map h (f @ r)) - {h g}"
    and "x \<in> set (remove1 g f @ r) \<Longrightarrow> x \<in> set (f @ r) \<and> h x \<noteq> h g"
    and "distinct (map h (remove1 g f @ r))"
proof -
  from assms(2) obtain a b where f: "f = a @ g # b" "g \<notin> set a" by (meson split_list_first)
  then have r: "remove1 g (a @ g # b) = a @ b" by (simp add: remove1_append)
  from assms(1) f have n: "h g \<notin> set (map h (a @ b @ r))" by auto
  then show "set (map h (remove1 g f @ r)) = set (map h (f @ r)) - {h g}" unfolding f(1) r by auto
  show "x \<in> set (remove1 g f @ r) \<Longrightarrow> x \<in> set (f @ r) \<and> h x \<noteq> h g" using n unfolding f(1) r
    by (simp add: image_iff) metis
  show "distinct (map h (remove1 g f @ r))" using assms(1) unfolding f(1) r by auto
qed

text \<open>Giving up a live guard of the innermost frame, whichever log its value goes to.\<close>

lemma inv_retire:
  assumes inv: "bailout_inv \<lparr>bc_state = s, bc_frames = f # fs\<rparr>" and g: "g \<in> set f"
    and st: "cs_stack s' = cs_stack (deactivate (g_index g) s)" and nx: "cs_next s' = cs_next s"
    and logs: "cs_dropped s' = cs_dropped s @ [g_value g] \<and> cs_moved s' = cs_moved s \<or>
               cs_dropped s' = cs_dropped s \<and> cs_moved s' = cs_moved s @ [g_value g]"
  shows "bailout_inv \<lparr>bc_state = s', bc_frames = remove1 g f # fs\<rparr>"
proof (rule bailout_invI)
  note I = bailout_invD [OF inv]
  let ?v = "g_value g"
  from I(1) [of g] g have gi: "g_index g < length (cs_stack s)" "cs_stack s ! g_index g = (?v, True)" by auto
  note dv = active_values_deactivate [OF gi I(4)]
  have av: "active_values s' = active_values (deactivate (g_index g) s)" by (simp add: active_values_def st)
  have d: "distinct (map g_value (f @ concat fs))" using I(2) by simp
  note rm = remove1_values [OF d g]
  show "g_index h < length (cs_stack s') \<and> cs_stack s' ! g_index h = (g_value h, True)"
    if "h \<in> set (concat (remove1 g f # fs))" for h
  proof -
    from rm(2) [of h] that I(1) [of h] have hi: "g_index h < length (cs_stack s)" "cs_stack s ! g_index h = (g_value h, True)"
      and "g_value h \<noteq> ?v" by auto
    with gi have "g_index h \<noteq> g_index g" by auto
    with hi show ?thesis by (simp add: st deactivate_other)
  qed
  show "distinct (map g_value (concat (remove1 g f # fs)))" using rm(3) by simp
  show "set (map g_value (concat (remove1 g f # fs))) = set (active_values s')"
    using rm(1) I(3) unfolding av dv(1) by simp
  show "distinct (map fst (cs_stack s'))" using dv(2) st by simp
  show "set (map fst (cs_stack s')) \<subseteq> {..<cs_next s'}"
    using I(5) by (simp add: st nx fst_deactivate)
  have v_in: "?v \<in> set (active_values s)" using I(3) g by auto
  have da: "distinct (active_values s)" and vn: "?v \<notin> set (cs_dropped s @ cs_moved s)" using I(6) v_in by auto
  show "distinct (active_values s' @ cs_dropped s' @ cs_moved s')"
    using I(6) dv(3) [OF da] dv(1) vn logs unfolding av by auto
  show "set (active_values s' @ cs_dropped s' @ cs_moved s') = {..<cs_next s'}"
  proof -
    from logs have "set (cs_dropped s' @ cs_moved s') = insert ?v (set (cs_dropped s @ cs_moved s))" by auto
    then have "set (active_values s' @ cs_dropped s' @ cs_moved s') =
        (set (active_values s) - {?v}) \<union> insert ?v (set (cs_dropped s @ cs_moved s))"
      by (simp only: set_append av dv(1))
    also have "\<dots> = set (active_values s @ cs_dropped s @ cs_moved s)" using v_in by auto
    finally show ?thesis unfolding nx I(7) .
  qed
qed

lemma inv_new:
  assumes inv: "bailout_inv \<lparr>bc_state = s, bc_frames = f # fs\<rparr>" and n: "guard_new s = (g, s')"
  shows "bailout_inv \<lparr>bc_state = s', bc_frames = (g # f) # fs\<rparr>"
proof (rule bailout_invI)
  note I = bailout_invD [OF inv]
  from n have g: "g = \<lparr>g_value = cs_next s, g_index = length (cs_stack s)\<rparr>"
    and s': "s' = s\<lparr>cs_next := Suc (cs_next s), cs_stack := cs_stack s @ [(cs_next s, True)]\<rparr>"
    by (simp_all add: guard_new_def Let_def)
  have av: "active_values s' = active_values s @ [cs_next s]" by (simp add: active_values_def s')
  have logs: "cs_dropped s' = cs_dropped s" "cs_moved s' = cs_moved s" "cs_next s' = Suc (cs_next s)" by (simp_all add: s')
  have fresh: "cs_next s \<notin> set (active_values s @ cs_dropped s @ cs_moved s)" using I(7) by simp
  show "g_index h < length (cs_stack s') \<and> cs_stack s' ! g_index h = (g_value h, True)"
    if "h \<in> set (concat ((g # f) # fs))" for h
    using that I(1) [of h] by (auto simp: g s' nth_append)
  show "distinct (map g_value (concat ((g # f) # fs)))"
    using I(2,3) fresh by (auto simp: g)
  show "set (map g_value (concat ((g # f) # fs))) = set (active_values s')"
    using I(3) by (auto simp: av g)
  show "distinct (active_values s' @ cs_dropped s' @ cs_moved s')"
    using I(6) fresh unfolding av logs by auto
  show "set (active_values s' @ cs_dropped s' @ cs_moved s') = {..<cs_next s'}"
    unfolding av logs lessThan_Suc I(7) [symmetric] by auto
  show "distinct (map fst (cs_stack s'))"
    using I(4,5) by (auto simp: s')
  show "set (map fst (cs_stack s')) \<subseteq> {..<cs_next s'}"
    using I(5) by (auto simp: s' less_Suc_eq)
qed

lemma inv_step: "bailout_step False c c' \<Longrightarrow> bailout_inv c \<Longrightarrow> bailout_inv c'"
proof (induction rule: bailout_step.induct)
  case (Enter s fs)
  then show ?case by (simp add: bailout_inv_def)
next
  case (New s g s' f fs)
  then show ?case by (blast intro: inv_new)
next
  case (Drop g f s fs)
  show ?case by (rule inv_retire [OF Drop.prems Drop.hyps]) (simp_all add: guard_drop_def drop_box_def)
next
  case (Into g f s fs)
  show ?case by (rule inv_retire [OF Into.prems Into.hyps]) (simp_all add: guard_into_inner_def Let_def)
next
  case (Return s fs)
  then show ?case by (simp add: bailout_inv_def)
next
  case (Bailout k fs s)
  note I = bailout_invD [OF Bailout.prems]
  have "drop (Suc k) fs = []" using Bailout.hyps by simp
  then show ?case
    using I(6,7) by (intro bailout_invI) (auto simp: run_bailout_cleanups_eq active_values_def)
qed

lemma inv_reach: "bailout_reach False c \<Longrightarrow> bailout_inv c"
proof (induction rule: bailout_reach.induct)
  case Init
  then show ?case by (simp add: conf_init_def bailout_inv_def active_values_def)
next
  case (Step c c')
  then show ?case by (blast intro: inv_step)
qed

section \<open>Properties\<close>

text \<open>C2. As long as no Rust frame survives a bailout, guarded values are never lost and never dropped twice:
  in every reachable state no value is dropped twice, the value of every live guard has been neither
  dropped nor moved out, and a bailout drops, each once and the youngest first, exactly the values
  of the guards alive at that moment.\<close>

theorem bailout_guard_safe:
  assumes "bailout_reach False c"
  shows "distinct (cs_dropped (bc_state c)) \<and>
         set (map g_value (live_guards c)) \<inter> (set (cs_dropped (bc_state c)) \<union> set (cs_moved (bc_state c))) = {} \<and>
         (let s' = run_bailout_cleanups (bc_state c)
          in cs_dropped s' = cs_dropped (bc_state c) @ rev (active_values (bc_state c)) \<and>
             set (active_values (bc_state c)) = set (map g_value (live_guards c)) \<and>
             distinct (cs_dropped s') \<and>
             set (cs_dropped s') \<union> set (cs_moved s') = {..<cs_next (bc_state c)})"
proof -
  have "bailout_inv \<lparr>bc_state = bc_state c, bc_frames = bc_frames c\<rparr>" using inv_reach [OF assms] by (cases c) simp
  note I = bailout_invD [OF this]
  have "set (map g_value (live_guards c)) = set (active_values (bc_state c))" using I(3) .
  moreover have "set (active_values (bc_state c)) \<inter> (set (cs_dropped (bc_state c)) \<union> set (cs_moved (bc_state c))) = {}"
    using I(6) by auto
  moreover have "distinct (cs_dropped (bc_state c) @ rev (active_values (bc_state c)))" using I(6) by auto
  moreover have "set (cs_dropped (bc_state c) @ rev (active_values (bc_state c))) \<union> set (cs_moved (bc_state c)) =
      {..<cs_next (bc_state c)}" using I(7) by auto
  ultimately show ?thesis
    using I(6) by (simp add: run_bailout_cleanups_eq Let_def)
qed

text \<open>Two guards in nested handlers.\<close>

definition conf_nested :: bailout_conf where
  "conf_nested =
     \<lparr>bc_state = \<lparr>cs_stack = [(0, True), (1, True)], cs_next = 2, cs_dropped = [], cs_moved = []\<rparr>,
      bc_frames = [[\<lparr>g_value = 1, g_index = 1\<rparr>], [\<lparr>g_value = 0, g_index = 0\<rparr>]]\<rparr>"

lemma reach_conf_nested: "bailout_reach nested conf_nested"
proof -
  let ?s0 = "\<lparr>cs_stack = [], cs_next = 0, cs_dropped = [], cs_moved = []\<rparr>"
  let ?s1 = "\<lparr>cs_stack = [(0, True)], cs_next = 1, cs_dropped = [], cs_moved = []\<rparr>"
  let ?s2 = "\<lparr>cs_stack = [(0, True), (1, True)], cs_next = 2, cs_dropped = [], cs_moved = []\<rparr>"
  let ?g0 = "\<lparr>g_value = 0, g_index = 0\<rparr>" and ?g1 = "\<lparr>g_value = 1, g_index = 1\<rparr>"
  have "bailout_reach nested \<lparr>bc_state = ?s0, bc_frames = []\<rparr>"
    using bailout_reach.Init [of nested] by (simp add: conf_init_def)
  then have "bailout_reach nested \<lparr>bc_state = ?s0, bc_frames = [[]]\<rparr>" by (rule Step) (rule Enter)
  then have "bailout_reach nested \<lparr>bc_state = ?s1, bc_frames = [[?g0]]\<rparr>"
    by (rule Step) (rule New, simp add: guard_new_def)
  then have "bailout_reach nested \<lparr>bc_state = ?s1, bc_frames = [[], [?g0]]\<rparr>" by (rule Step) (rule Enter)
  then have "bailout_reach nested \<lparr>bc_state = ?s2, bc_frames = [[?g1], [?g0]]\<rparr>"
    by (rule Step) (rule New, simp add: guard_new_def)
  then show ?thesis by (simp add: conf_nested_def)
qed

theorem bailout_guard_safe_witness:
  "distinct (cs_dropped (bc_state conf_nested)) \<and>
   cs_dropped (run_bailout_cleanups (bc_state conf_nested)) = [1, 0]"
  using bailout_guard_safe [OF reach_conf_nested]
  by (simp add: Let_def) (simp add: conf_nested_def active_values_def run_bailout_cleanups_eq)

text \<open>A Rust frame that survives a bailout (it called \<open>try_catch\<close> around the code that bailed out) can be
  left owning a guard whose value the cleanups already dropped: the cleanups of the inner handler
  drain the entries of the outer frames too, and the guard's own drop then frees the value again.\<close>

theorem bailout_guard_double_drop:
  "\<exists>c c' g. bailout_reach True c \<and> g \<in> set (live_guards c) \<and> g_value g \<in> set (cs_dropped (bc_state c)) \<and>
     bailout_step True c c' \<and> \<not> distinct (cs_dropped (bc_state c'))"
proof -
  let ?s = "\<lparr>cs_stack = [], cs_next = 2, cs_dropped = [1, 0], cs_moved = []\<rparr>"
  let ?g = "\<lparr>g_value = 0, g_index = 0\<rparr>"
  let ?c = "\<lparr>bc_state = ?s, bc_frames = [[?g]]\<rparr>"
  let ?c' = "\<lparr>bc_state = guard_drop ?g ?s, bc_frames = [[]]\<rparr>"
  have "bailout_step True conf_nested ?c"
    using bailout_step.Bailout [of 0 "bc_frames conf_nested" True "bc_state conf_nested"]
    by (simp add: conf_nested_def run_bailout_cleanups_eq active_values_def)
  then have r: "bailout_reach True ?c" by (rule Step [OF reach_conf_nested])
  have "bailout_step True ?c ?c'"
    using bailout_step.Drop [of ?g "[?g]" True ?s "[]"] by simp
  moreover have "\<not> distinct (cs_dropped (bc_state ?c'))"
    by (simp add: guard_drop_def drop_box_def deactivate_def)
  ultimately show ?thesis using r by (intro exI [of _ ?c] exI [of _ ?c'] exI [of _ ?g]) simp
qed

end
