(* ===== verification/MacroFn.thy ===== *)
theory MacroFn
  imports MacroArgs Coerce Stub Bailout
begin

text \<open>
  \<open>crates/macros/src/function.rs\<close> and \<open>syn_ext.rs\<close>: the function builder the macro emits for a whole
  function, with its arguments, return type and documentation, and the wrapper around every
  generated handler. \<open><T as IntoZval>::TYPE\<close> and \<open>NULLABLE\<close> of the returned type, which the Rust
  compiler resolves, are an argument. The \<open>syn_ext.rs\<close> part covers the types of theory \<open>MacroArgs\<close>.
\<close>

section \<open>Dropping lifetimes\<close>

fun drop_lifetimes :: "rtype \<Rightarrow> rtype"
  and drop_segment_lifetimes :: "string \<times> garg list option \<Rightarrow> string \<times> garg list option"
  and drop_garg_lifetimes :: "garg list \<Rightarrow> garg list" where
  "drop_lifetimes (RPath segs) = RPath (map drop_segment_lifetimes segs)"
| "drop_lifetimes (RRef l mut elem) = RRef None mut (drop_lifetimes elem)"
| "drop_lifetimes (RSlice elem) = RSlice (drop_lifetimes elem)"
| "drop_lifetimes (ROther t) = ROther t"
| "drop_segment_lifetimes (ident, None) = (ident, None)"
| "drop_segment_lifetimes (ident, Some args) = (ident, Some (drop_garg_lifetimes args))"
| "drop_garg_lifetimes [] = []"
| "drop_garg_lifetimes (GLifetime l # gs) = drop_garg_lifetimes gs"
| "drop_garg_lifetimes (GType t # gs) = GType (drop_lifetimes t) # drop_garg_lifetimes gs"
| "drop_garg_lifetimes (GAssoc n t # gs) = GAssoc n (drop_lifetimes t) # drop_garg_lifetimes gs"
| "drop_garg_lifetimes (GConst c # gs) = GConst c # drop_garg_lifetimes gs"

section \<open>The builder of a function\<close>

datatype method_receiver = RecvStatic | RecvClass | RecvZendClassObject

datatype call_type = CallFunction | CallMethod string method_receiver

record 'e macro_function =
  mf_name :: string
  mf_args :: "'e fn_args"
  mf_output :: "rtype option"
  mf_optional :: "string option"
  mf_docs :: "string list"

text \<open>The type whose \<open>IntoZval\<close> instance gives the return type: the output as written, the class, or
  \<open>&mut ZendClassObject<class>\<close>.\<close>

datatype ret_source = RetOutput rtype | RetClass string | RetClassObject string

definition is_method :: "call_type option \<Rightarrow> bool" where
  "is_method ct \<longleftrightarrow> (case ct of Some (CallMethod _ _) \<Rightarrow> True | _ \<Rightarrow> False)"

definition build_returns ::
    "(ret_source \<Rightarrow> data_type \<times> bool) \<Rightarrow> 'e macro_function \<Rightarrow> call_type option \<Rightarrow>
     'z function_builder \<Rightarrow> 'z function_builder" where
  "build_returns info f ct b =
     (let ret = (\<lambda>src. fb_returns (fst (info src)) False (snd (info src)) b)
      in case mf_output f of
           None \<Rightarrow>
             if is_method ct \<and> (mf_name f = ''__destruct'' \<or> mf_name f = ''__clone'') then b
             else fb_returns DtVoid False False b
         | Some output \<Rightarrow>
             (case ct of
                Some (CallMethod cls _) \<Rightarrow>
                  if returns_self_ref (mf_output f) then ret (RetClassObject cls)
                  else if returns_self (mf_output f) then ret (RetClass cls)
                  else ret (RetOutput (drop_lifetimes output))
              | _ \<Rightarrow> ret (RetOutput (drop_lifetimes output))))"

definition declare_function ::
    "(rtype \<Rightarrow> data_type) \<Rightarrow> ('e \<Rightarrow> string) \<Rightarrow> (ret_source \<Rightarrow> data_type \<times> bool) \<Rightarrow> 'e macro_function \<Rightarrow>
     call_type option \<Rightarrow> 'z function_builder \<Rightarrow> 'z function_builder" where
  "declare_function ty_of stub_of info f ct b =
     (let (required, not_required) = split_args (fa_typed (mf_args f)) (mf_optional f);
          b = fold fb_arg (map (arg_builder ty_of stub_of) required) b;
          b = fold fb_arg (map (arg_builder ty_of stub_of) not_required) (fb_not_required b);
          b = build_returns info f ct b
      in if mf_docs f = [] then b else fb_set_docs (mf_docs f) b)"

text \<open>\<open>None\<close> is the compile error for a static method that returns \<open>&Self\<close>; \<open>h\<close> is the address of the
  generated handler.\<close>

definition function_builder_of ::
    "(rtype \<Rightarrow> data_type) \<Rightarrow> ('e \<Rightarrow> string) \<Rightarrow> (ret_source \<Rightarrow> data_type \<times> bool) \<Rightarrow> nat \<Rightarrow> 'e macro_function \<Rightarrow>
     call_type \<Rightarrow> 'z function_builder option" where
  "function_builder_of ty_of stub_of info h f ct =
     (if returns_self_ref (mf_output f) \<and> (case ct of CallMethod _ RecvStatic \<Rightarrow> True | _ \<Rightarrow> False) then None
      else Some (declare_function ty_of stub_of info f (Some ct) (fb_new (mf_name f) h)))"

definition abstract_function_builder ::
    "(rtype \<Rightarrow> data_type) \<Rightarrow> ('e \<Rightarrow> string) \<Rightarrow> (ret_source \<Rightarrow> data_type \<times> bool) \<Rightarrow> 'e macro_function \<Rightarrow>
     'z function_builder" where
  "abstract_function_builder ty_of stub_of info f =
     declare_function ty_of stub_of info f None (fb_new_abstract (mf_name f))"

section \<open>The body of a handler\<close>

text \<open>What the body generated for a function or a method does with a call: it ends because the call has no
  object of the class, or as one of the two argument-binding bodies of theory \<open>MacroArgs\<close> says. The
  parser body looks for the object before it parses, the fast body after it has bound every argument.
  \<open>this\<close> tells whether the call has an object of the class.\<close>

datatype 'v handled = NoThis string | Handled "'v outcome"

definition needs_this :: "call_type \<Rightarrow> bool" where
  "needs_this ct \<longleftrightarrow> (case ct of CallMethod _ RecvClass \<Rightarrow> True | CallMethod _ RecvZendClassObject \<Rightarrow> True | _ \<Rightarrow> False)"

definition handler_body ::
    "(rtype \<Rightarrow> data_type) \<Rightarrow> ('e \<Rightarrow> string) \<Rightarrow>
     ('e typed_arg \<Rightarrow> 'z \<Rightarrow> 'v option) \<Rightarrow> ('z \<Rightarrow> bool) \<Rightarrow> ('e \<Rightarrow> 'v bval) \<Rightarrow>
     call_type \<Rightarrow> bool \<Rightarrow> 'e typed_arg list \<Rightarrow> string option \<Rightarrow> 'z option list \<Rightarrow> 'v handled" where
  "handler_body ty_of stub_of conv null_test ev ct this typed optional zs =
     (let no_this = NoThis ''Failed to retrieve reference to `$this`''
      in if is_fast_path_eligible typed
         then (case fast_handler conv null_test ev typed optional zs of
                 Called vs \<Rightarrow> if needs_this ct \<and> \<not> this then no_this else Handled (Called vs)
               | r \<Rightarrow> Handled r)
         else if needs_this ct \<and> \<not> this then no_this
         else Handled (slow_handler ty_of stub_of conv null_test ev typed optional zs))"

section \<open>The wrapper of a handler\<close>

text \<open>How the handler leaves, given how its body does. \<open>bailout\<close> jumps to the next enclosing catch.\<close>

definition generated_handler :: "'r run \<Rightarrow> cleanup_state \<Rightarrow> 'r run \<times> cleanup_state" where
  "generated_handler body s =
     (case do_try_catch body of
        TryOk r \<Rightarrow> (Returns r, s)
      | CatchError \<Rightarrow> (Bails, run_bailout_cleanups s)
      | ResumesPanic e \<Rightarrow> (Panics e, s))"

section \<open>Lemmas\<close>

fun lifetime_free :: "rtype \<Rightarrow> bool"
  and segment_lifetime_free :: "string \<times> garg list option \<Rightarrow> bool"
  and gargs_lifetime_free :: "garg list \<Rightarrow> bool" where
  "lifetime_free (RPath segs) \<longleftrightarrow> (\<forall>seg \<in> set segs. segment_lifetime_free seg)"
| "lifetime_free (RRef l mut elem) \<longleftrightarrow> l = None \<and> lifetime_free elem"
| "lifetime_free (RSlice elem) \<longleftrightarrow> lifetime_free elem"
| "lifetime_free (ROther t) \<longleftrightarrow> True"
| "segment_lifetime_free (ident, None) \<longleftrightarrow> True"
| "segment_lifetime_free (ident, Some args) \<longleftrightarrow> gargs_lifetime_free args"
| "gargs_lifetime_free [] \<longleftrightarrow> True"
| "gargs_lifetime_free (GLifetime l # gs) \<longleftrightarrow> False"
| "gargs_lifetime_free (GType t # gs) \<longleftrightarrow> lifetime_free t \<and> gargs_lifetime_free gs"
| "gargs_lifetime_free (GAssoc n t # gs) \<longleftrightarrow> lifetime_free t \<and> gargs_lifetime_free gs"
| "gargs_lifetime_free (GConst c # gs) \<longleftrightarrow> gargs_lifetime_free gs"

text \<open>No lifetime is left anywhere in the type, and a type without lifetimes is not changed.\<close>

lemma drop_lifetimes_free:
  "lifetime_free (drop_lifetimes t)"
  "segment_lifetime_free (drop_segment_lifetimes seg)"
  "gargs_lifetime_free (drop_garg_lifetimes gs)"
  by (induction t and seg and gs rule: drop_lifetimes_drop_segment_lifetimes_drop_garg_lifetimes.induct) simp_all

lemma drop_lifetimes_id:
  "lifetime_free t \<Longrightarrow> drop_lifetimes t = t"
  "segment_lifetime_free seg \<Longrightarrow> drop_segment_lifetimes seg = seg"
  "gargs_lifetime_free gs \<Longrightarrow> drop_garg_lifetimes gs = gs"
  by (induction t and seg and gs rule: drop_lifetimes_drop_segment_lifetimes_drop_garg_lifetimes.induct)
     (simp_all add: map_idI)

lemma handler_catches_again:
  "generated_handler (fst (generated_handler Bails s)) (snd (generated_handler Bails s)) =
     (Bails, run_bailout_cleanups s)"
  by (simp add: generated_handler_def do_try_catch_def panic_wrapper_def run_bailout_cleanups_eq active_values_def)

section \<open>Parameters of a described function\<close>

text \<open>The name under which PHP sees a parameter, and the end of its line in the stub.\<close>

definition php_param_name :: "'e typed_arg \<Rightarrow> string" where
  "php_param_name a = (case strip_prefix ''r#'' (ta_name a) of Some n \<Rightarrow> n | None \<Rightarrow> ta_name a)"

definition stub_type_text :: "(string \<rightharpoonup> string) \<Rightarrow> (rtype \<Rightarrow> data_type) \<Rightarrow> 'e typed_arg \<Rightarrow> string" where
  "stub_type_text ov ty_of a =
     (case (if ty_of (ta_ty a) = DtMixed then ov (php_param_name a) else None) of
        Some documented \<Rightarrow> extract_php_type documented
      | None \<Rightarrow> (if ta_nullable a \<and> \<not> never_nullable (ty_of (ta_ty a)) then ''?'' else []) @ datatype_stub (ty_of (ta_ty a)))"

definition stub_default_clause :: "('e \<Rightarrow> string) \<Rightarrow> 'e typed_arg \<Rightarrow> string" where
  "stub_default_clause stub_of a =
     (if is_optional a then '' = '' @ (case ta_default a of Some e \<Rightarrow> stub_of e | None \<Rightarrow> ''null'') else [])"

lemma arg_builder_described:
  "parameter_from_arg (arg_builder ty_of stub_of a) =
     \<lparr>p_name = php_param_name a, p_ty = Some (ty_of (ta_ty a)), p_nullable = ta_nullable a,
      p_variadic = ta_variadic a, p_default = map_option stub_of (ta_default a)\<rparr>"
  by (auto simp: parameter_from_arg_def arg_builder_def arg_new_def arg_set_allow_null_def arg_set_default_def
    arg_as_ref_def arg_is_variadic_def php_param_name_def Let_def split: option.splits)

lemma param_to_stub_described:
  "param_to_stub ov (parameter_from_arg (arg_builder ty_of stub_of a)) =
     stub_type_text ov ty_of a @ '' '' @ (if ta_variadic a then ''...'' else []) @ ''$'' @ php_param_name a @
     stub_default_clause stub_of a"
  unfolding arg_builder_described
  by (auto simp: param_to_stub_def stub_type_text_def stub_default_clause_def is_optional_def Let_def split: option.splits)

lemma build_returns_fields [simp]:
  "fb_args (build_returns info f ct b) = fb_args b" "fb_n_req (build_returns info f ct b) = fb_n_req b"
  "fb_name (build_returns info f ct b) = fb_name b"
  by (auto simp: build_returns_def fb_returns_def Let_def split: option.splits call_type.splits)

lemma build_returns_retval:
  "fb_retval b = None \<Longrightarrow> fb_retval (build_returns info f ct b) = None \<longleftrightarrow>
     mf_output f = None \<and> is_method ct \<and> (mf_name f = ''__destruct'' \<or> mf_name f = ''__clone'')"
  by (auto simp: build_returns_def fb_returns_def Let_def split: option.splits call_type.splits)

lemma declare_function_fields:
  assumes "fb_args b = []" and "fb_retval b = None"
  shows "fb_args (declare_function ty_of stub_of info f ct b) = map (arg_builder ty_of stub_of) (fa_typed (mf_args f))"
    and "fb_n_req (declare_function ty_of stub_of info f ct b) =
           Some (length (fst (split_args (fa_typed (mf_args f)) (mf_optional f))))"
    and "fb_name (declare_function ty_of stub_of info f ct b) = fb_name b"
    and "fb_retval (declare_function ty_of stub_of info f ct b) = None \<longleftrightarrow>
           mf_output f = None \<and> is_method ct \<and> (mf_name f = ''__destruct'' \<or> mf_name f = ''__clone'')"
proof -
  obtain req opt where sp: "split_args (fa_typed (mf_args f)) (mf_optional f) = (req, opt)"
    by (cases "split_args (fa_typed (mf_args f)) (mf_optional f)")
  then have typed: "fa_typed (mf_args f) = req @ opt" by (rule split_args_append)
  let ?b = "fold fb_arg (map (arg_builder ty_of stub_of) opt)
    (fb_not_required (fold fb_arg (map (arg_builder ty_of stub_of) req) b))"
  have frame: "fb_name ?b = fb_name b" "fb_retval ?b = fb_retval b"
    using builder_sink.declare_all(3) [of "map (arg_builder ty_of stub_of) opt" "map (arg_builder ty_of stub_of) req" b,
      unfolded prod.inject] by simp_all
  have d: "declare_function ty_of stub_of info f ct b =
      (if mf_docs f = [] then build_returns info f ct ?b else fb_set_docs (mf_docs f) (build_returns info f ct ?b))"
    by (simp add: declare_function_def sp Let_def)
  show "fb_args (declare_function ty_of stub_of info f ct b) = map (arg_builder ty_of stub_of) (fa_typed (mf_args f))"
    unfolding d typed using assms(1) by (simp add: fb_set_docs_def)
  show "fb_n_req (declare_function ty_of stub_of info f ct b) =
      Some (length (fst (split_args (fa_typed (mf_args f)) (mf_optional f))))"
    unfolding d sp using assms(1) by (simp add: fb_set_docs_def)
  show "fb_name (declare_function ty_of stub_of info f ct b) = fb_name b"
    unfolding d using frame by (simp add: fb_set_docs_def)
  show "fb_retval (declare_function ty_of stub_of info f ct b) = None \<longleftrightarrow>
      mf_output f = None \<and> is_method ct \<and> (mf_name f = ''__destruct'' \<or> mf_name f = ''__clone'')"
    unfolding d using build_returns_retval [of ?b info f ct] frame assms(2) by (auto simp: fb_set_docs_def)
qed

text \<open>The engine's required count of the declared function, and the parameters a call may leave out.\<close>

lemma fb_required_declared:
  assumes "fb_args b = map (arg_builder ty_of stub_of) typed" and "fb_n_req b = Some k"
  shows "fb_required b = (if typed \<noteq> [] \<and> ta_variadic (last typed) then k - 1 else k)"
  using assms by (simp add: fb_required_def has_variadic_map)

lemma bind_all_not_count: "bind_all bs vs \<noteq> WrongCount lo hi"
  by (induction bs arbitrary: vs) (auto split: binding.splits)

text \<open>Both bodies report a wrong count for the same calls, whatever the receiver is, apart from the parser
  body of a call without its object.\<close>

lemma handler_body_count:
  fixes zs :: "'z option list"
  assumes "length typed < 2 ^ 32" and "this \<or> \<not> needs_this ct"
  shows "handler_body ty_of stub_of conv null_test ev ct this typed optional zs = Handled (WrongCount lo hi) \<longleftrightarrow>
    (let va = typed \<noteq> [] \<and> ta_variadic (last typed); k = length (fst (split_args typed optional))
     in lo = (if va then k - 1 else k) \<and> hi = length typed \<and> (length zs < lo \<or> \<not> va \<and> hi < length zs))"
proof -
  obtain req opt where sp: "split_args typed optional = (req, opt)" by (cases "split_args typed optional")
  then have typed: "typed = req @ opt" by (rule split_args_append)
  show ?thesis
  proof (cases "is_fast_path_eligible typed")
    case True
    then have "\<not> (typed \<noteq> [] \<and> ta_variadic (last typed))" by (auto simp: is_fast_path_eligible_def list_ex_iff)
    moreover have "length req \<le> length typed" by (simp add: typed)
    ultimately show ?thesis
      using True assms(2) bind_all_not_count
      by (auto simp: handler_body_def fast_handler_def sp Let_def fast_count_ok_iff split: outcome.splits)
  next
    case False
    let ?b = "arg_builder ty_of stub_of :: _ \<Rightarrow> 'z arg"
    let ?p = "parser_of (map ?b req) (map ?b opt) zs"
    have va: "has_variadic (map ?b req @ map ?b opt) \<longleftrightarrow> typed \<noteq> [] \<and> ta_variadic (last typed)"
      unfolding typed map_append [symmetric] by (rule has_variadic_map)
    have min: "parser_min ?p = (if typed \<noteq> [] \<and> ta_variadic (last typed) then length req - 1 else length req)"
      by (simp add: parser_min_def va)
    have "slow_handler ty_of stub_of conv null_test ev typed optional zs = WrongCount lo hi \<longleftrightarrow> fst (parse ?p) = Some (lo, hi)"
      using bind_all_not_count
      by (auto simp: slow_handler_def sp Let_def simp del: parser_of_eq split: prod.splits option.splits sum.splits)
    moreover have "fst (parse ?p) = Some (lo, hi) \<longleftrightarrow>
        lo = parser_min ?p \<and> hi = length typed \<and> (length zs < lo \<or> \<not> has_variadic (map ?b req @ map ?b opt) \<and> hi < length zs)"
    proof (subst parse_reports_iff)
      show "length (ap_args ?p) < 2 ^ 32" using assms(1) by (simp add: typed)
      show "parser_min ?p < 2 ^ 32" using assms(1) unfolding min by (auto simp: typed)
    qed (simp add: typed)
    moreover note min
    moreover have "handler_body ty_of stub_of conv null_test ev ct this typed optional zs =
        Handled (slow_handler ty_of stub_of conv null_test ev typed optional zs)"
      using False assms(2) by (auto simp add: handler_body_def Let_def)
    ultimately show ?thesis by (simp only: handled.inject sp fst_conv Let_def va)
  qed
qed

lemma optional_part_optional:
  assumes "length (fst (split_args typed None)) \<le> i" and "i < length typed"
  shows "is_optional (typed ! i)"
proof -
  let ?n = "length typed - length (takeWhile is_optional (rev typed))"
  have "?n \<le> i" using assms by (simp add: split_args_None Let_def)
  then have "typed ! i = drop ?n typed ! (i - ?n)" "i - ?n < length (drop ?n typed)" using assms(2) by simp_all
  then have "typed ! i \<in> set (drop ?n typed)" using nth_mem by metis
  then show ?thesis unfolding rev_take_drop_takeWhile by (auto dest: set_takeWhileD)
qed

text \<open>A variadic last parameter that is not optional keeps every parameter in the required part.\<close>

lemma variadic_last_required:
  assumes "typed \<noteq> []" and "\<not> is_optional (last typed)"
  shows "fst (split_args typed None) = typed"
proof -
  have "takeWhile is_optional (rev typed) = []"
    using assms by (cases typed rule: rev_cases) simp_all
  then show ?thesis by (simp add: split_args_None)
qed

section \<open>Handlers of functions on integers\<close>

definition plain_param :: "'e typed_arg \<Rightarrow> bool" where
  "plain_param a \<longleftrightarrow> \<not> is_optional a \<and> \<not> ta_variadic a"

lemma split_args_plain:
  assumes "list_all plain_param typed"
  shows "split_args typed None = (typed, [])"
proof -
  have "takeWhile is_optional (rev typed) = []"
    using assms by (cases "rev typed") (auto simp: list_all_iff plain_param_def rev_swap)
  then show ?thesis by (simp add: split_args_None)
qed

lemma bind_all_checked:
  "bind_all (map (\<lambda>(a, v). if ok a v then Bound (Plain v) else ThrowInvalid (ta_name a)) xs) acc =
     (case find (\<lambda>(a, v). \<not> ok a v) xs of
        None \<Rightarrow> Called (acc @ map (\<lambda>(a, v). Plain v) xs)
      | Some (a, v) \<Rightarrow> Thrown (ThrowInvalid (ta_name a)))"
  by (induction xs arbitrary: acc) (auto split: option.splits)

lemma int_from_zval_set_long:
  assumes "in_i64 v"
  shows "int_from_zval lo hi h' (snd (set_long api v hz)) = (if lo \<le> v \<and> v \<le> hi then Some v else None)"
proof -
  have "zv_long h' (snd (set_long api v hz)) = Some v"
    using assms by (simp add: zv_long_def set_long_def i64_defs signed_of_int signed_take_bit_int_eq_self)
  then show ?thesis by (simp add: int_from_zval_def)
qed

lemma fast_bind_plain:
  assumes "plain_param a" and "i < lo" and "zs ! i = Some z"
  shows "fast_bind conv null_test ev lo zs i a =
    (case conv a z of Some v \<Rightarrow> Bound (Plain v) | None \<Rightarrow> ThrowInvalid (ta_name a))"
  using assms by (simp add: fast_bind_def convert_arg_def plain_param_def is_optional_def Let_def)

text \<open>The fast body on integer arguments checks them in order against the ranges of their types.\<close>

lemma fast_handler_integers:
  assumes "list_all plain_param typed" and "length vs = length typed" and "list_all in_i64 vs"
  shows "fast_handler (\<lambda>a. int_from_zval (lo a) (hi a) h') null_test ev typed None
      (map (\<lambda>v. Some (snd (set_long api v (h, zval_new)))) vs) =
    (case find (\<lambda>(a, v). \<not> (lo a \<le> v \<and> v \<le> hi a)) (zip typed vs) of
       None \<Rightarrow> Called (map Plain vs) | Some (a, v) \<Rightarrow> Thrown (ThrowInvalid (ta_name a)))"
proof -
  let ?zs = "map (\<lambda>v. Some (snd (set_long api v (h, zval_new)))) vs"
  let ?conv = "\<lambda>a. int_from_zval (lo a) (hi a) h'" and ?ok = "\<lambda>a v. lo a \<le> v \<and> v \<le> hi a"
  have "fast_bind ?conv null_test ev (length typed) ?zs i (typed ! i) =
      (case zip typed vs ! i of (a, v) \<Rightarrow> if ?ok a v then Bound (Plain v) else ThrowInvalid (ta_name a))"
    if i: "i < length typed" for i
  proof -
    have v: "in_i64 (vs ! i)" using assms(2,3) i by (simp add: list_all_iff)
    have "plain_param (typed ! i)" "?zs ! i = Some (snd (set_long api (vs ! i) (h, zval_new)))"
      using assms(1,2) i by (simp_all add: list_all_iff)
    from fast_bind_plain [OF this(1) i this(2), where conv = ?conv and null_test = null_test and ev = ev] show ?thesis
      using assms(2) i by (simp add: int_from_zval_set_long [OF v])
  qed
  then have m: "map (\<lambda>i. fast_bind ?conv null_test ev (length typed) ?zs i (typed ! i)) [0..<length typed] =
      map (\<lambda>(a, v). if ?ok a v then Bound (Plain v) else ThrowInvalid (ta_name a)) (zip typed vs)"
    using assms(2) by (auto intro!: nth_equalityI)
  have "map (\<lambda>(a, v). Plain v) (zip typed vs) = map Plain vs"
    using assms(2) by (auto intro!: nth_equalityI)
  with m show ?thesis
    using assms(2) split_args_plain [OF assms(1)]
    by (simp add: fast_handler_def fast_count_ok_def Let_def bind_all_checked split: option.splits)
qed

end
