(* ===== verification/MacroNames.thy ===== *)
theory MacroNames
  imports Prelude
begin

text \<open>
  \<open>crates/macros/src/parsing.rs\<close>: the PHP name of a Rust item, the keyword tables and the check
  that a name is allowed where it is used, and the renaming rules. The case conversions of the
  \<open>convert_case\<close> crate are the argument \<open>to_case\<close>.
\<close>

section \<open>Names\<close>

definition ident_to_php_name :: "string \<Rightarrow> string" where
  "ident_to_php_name name = (case strip_prefix ''r#'' name of Some n \<Rightarrow> n | None \<Rightarrow> name)"

definition PHP_RESERVED_KEYWORDS :: "string list" where
  "PHP_RESERVED_KEYWORDS =
    [''__halt_compiler'', ''abstract'', ''and'', ''array'', ''as'', ''break'', ''callable'', ''case'',
     ''catch'', ''class'', ''clone'', ''const'', ''continue'', ''declare'', ''default'', ''die'', ''do'',
     ''echo'', ''else'', ''elseif'', ''empty'', ''enum'', ''enddeclare'', ''endfor'', ''endforeach'',
     ''endif'', ''endswitch'', ''endwhile'', ''eval'', ''exit'', ''extends'', ''final'', ''finally'',
     ''fn'', ''for'', ''foreach'', ''function'', ''global'', ''goto'', ''if'', ''implements'', ''include'',
     ''include_once'', ''instanceof'', ''insteadof'', ''interface'', ''isset'', ''list'', ''match'',
     ''namespace'', ''new'', ''or'', ''print'', ''private'', ''protected'', ''public'', ''readonly'',
     ''require'', ''require_once'', ''return'', ''static'', ''switch'', ''throw'', ''trait'', ''try'',
     ''unset'', ''use'', ''var'', ''while'', ''xor'', ''yield'', ''yield from'', ''__CLASS__'',
     ''__DIR__'', ''__FILE__'', ''__FUNCTION__'', ''__LINE__'', ''__METHOD__'', ''__NAMESPACE__'',
     ''__TRAIT__'', ''self'', ''parent'']"

definition PHP_METHOD_FORBIDDEN_KEYWORDS :: "string list" where
  "PHP_METHOD_FORBIDDEN_KEYWORDS =
    [''__halt_compiler'']"

definition PHP_FUNCTION_ALLOWED_KEYWORDS :: "string list" where
  "PHP_FUNCTION_ALLOWED_KEYWORDS =
    [''readonly'']"

definition PHP_TYPE_KEYWORDS :: "string list" where
  "PHP_TYPE_KEYWORDS =
    [''bool'', ''false'', ''float'', ''int'', ''iterable'', ''mixed'', ''never'', ''null'', ''object'',
     ''string'', ''true'', ''void'']"

datatype php_name_context =
    CtxClass | CtxInterface | CtxEnum | CtxEnumCase | CtxFunction | CtxMethod | CtxConstant | CtxProperty

fun ctx_description :: "php_name_context \<Rightarrow> string" where
  "ctx_description CtxClass = ''class''"
| "ctx_description CtxInterface = ''interface''"
| "ctx_description CtxEnum = ''enum''"
| "ctx_description CtxEnumCase = ''enum case''"
| "ctx_description CtxFunction = ''function''"
| "ctx_description CtxMethod = ''method''"
| "ctx_description CtxConstant = ''constant''"
| "ctx_description CtxProperty = ''property''"

text \<open>\<open>str::to_lowercase\<close> as far as a comparison with ASCII text goes: ASCII letters are lowered, and the
  only other character whose lower case is ASCII, the Kelvin sign U+212A, becomes \<open>k\<close>. Every other
  character beyond ASCII keeps a byte beyond ASCII, so its bytes are left as they are.\<close>

fun to_lowercase :: "string \<Rightarrow> string" where
  "to_lowercase (a # b # c # s) =
     (if a = CHR 0xE2 \<and> b = CHR 0x84 \<and> c = CHR 0xAA then CHR ''k'' # to_lowercase s
      else ascii_lower a # to_lowercase (b # c # s))"
| "to_lowercase [a, b] = [ascii_lower a, ascii_lower b]"
| "to_lowercase [a] = [ascii_lower a]"
| "to_lowercase [] = []"

definition is_keyword_of :: "string list \<Rightarrow> string \<Rightarrow> bool" where
  "is_keyword_of kws name \<longleftrightarrow> list_ex (\<lambda>kw. to_lowercase kw = to_lowercase name) kws"

definition is_php_type_keyword :: "string \<Rightarrow> bool" where
  "is_php_type_keyword name \<longleftrightarrow> is_keyword_of PHP_TYPE_KEYWORDS name"

definition is_php_reserved_keyword :: "string \<Rightarrow> bool" where
  "is_php_reserved_keyword name \<longleftrightarrow> is_keyword_of PHP_RESERVED_KEYWORDS name"

definition is_php_method_forbidden_keyword :: "string \<Rightarrow> bool" where
  "is_php_method_forbidden_keyword name \<longleftrightarrow> is_keyword_of PHP_METHOD_FORBIDDEN_KEYWORDS name"

definition is_php_function_allowed_keyword :: "string \<Rightarrow> bool" where
  "is_php_function_allowed_keyword name \<longleftrightarrow> is_keyword_of PHP_FUNCTION_ALLOWED_KEYWORDS name"

definition is_forbidden_name :: "php_name_context \<Rightarrow> string \<Rightarrow> bool" where
  "is_forbidden_name ctx name =
     (case ctx of
        CtxClass \<Rightarrow> is_php_reserved_keyword name \<or> is_php_type_keyword name
      | CtxInterface \<Rightarrow> is_php_reserved_keyword name \<or> is_php_type_keyword name
      | CtxEnum \<Rightarrow> is_php_reserved_keyword name \<or> is_php_type_keyword name
      | CtxEnumCase \<Rightarrow> is_php_reserved_keyword name \<or> is_php_type_keyword name
      | CtxFunction \<Rightarrow> is_php_reserved_keyword name \<and> \<not> is_php_function_allowed_keyword name
      | CtxMethod \<Rightarrow> is_php_method_forbidden_keyword name
      | CtxConstant \<Rightarrow> is_php_method_forbidden_keyword name
      | CtxProperty \<Rightarrow> is_php_method_forbidden_keyword name)"

text \<open>The error is the message of the \<open>syn::Error\<close>.\<close>

definition validate_php_name :: "string \<Rightarrow> php_name_context \<Rightarrow> string + unit" where
  "validate_php_name name ctx =
     (if is_forbidden_name ctx name
      then Inl (''cannot use '' @ [CHR 0x27] @ name @ [CHR 0x27] @ '' as a PHP '' @ ctx_description ctx @
        '' name: '' @ [CHR 0x27] @ name @ [CHR 0x27] @ '' is a reserved keyword in PHP. '' @
        ''Consider using a different name or the #[php(name = '' @ [CHR 0x22] @ ''...'' @ [CHR 0x22] @
        '')] attribute to specify an alternative PHP name.'')
      else Inr ())"

section \<open>Renaming\<close>

definition MAGIC_METHOD :: "string list" where
  "MAGIC_METHOD =
    [''__construct'', ''__destruct'', ''__call'', ''__call_static'', ''__get'', ''__set'', ''__isset'',
     ''__unset'', ''__sleep'', ''__wakeup'', ''__serialize'', ''__unserialize'', ''__to_string'',
     ''__invoke'', ''__set_state'', ''__clone'', ''__debug_info'']"

datatype rename_rule = RuleNone | RuleCamel | RuleSnake | RulePascal | RuleScreamingSnake

datatype case_kind = CaseCamel | CasePascal | CaseSnake | CaseConstant

record php_rename =
  pr_name :: "string option"
  pr_change_case :: "rename_rule option"

fun rule_rename :: "(case_kind \<Rightarrow> string \<Rightarrow> string) \<Rightarrow> rename_rule \<Rightarrow> string \<Rightarrow> string" where
  "rule_rename to_case RuleNone value = value"
| "rule_rename to_case RuleCamel value = to_case CaseCamel value"
| "rule_rename to_case RulePascal value = to_case CasePascal value"
| "rule_rename to_case RuleSnake value = to_case CaseSnake value"
| "rule_rename to_case RuleScreamingSnake value = to_case CaseConstant value"

definition rename_method :: "(case_kind \<Rightarrow> string \<Rightarrow> string) \<Rightarrow> rename_rule \<Rightarrow> string \<Rightarrow> string" where
  "rename_method to_case rule original =
     (if rule = RuleNone then original
      else if original \<in> set MAGIC_METHOD
      then (if original = ''__to_string'' then ''__toString''
            else if original = ''__debug_info'' then ''__debugInfo''
            else if original = ''__call_static'' then ''__callStatic''
            else original)
      else rule_rename to_case rule original)"

definition effective_rule :: "php_rename \<Rightarrow> rename_rule \<Rightarrow> rename_rule" where
  "effective_rule r default_rule = (case pr_change_case r of Some c \<Rightarrow> c | None \<Rightarrow> default_rule)"

definition php_rename_item ::
    "(case_kind \<Rightarrow> string \<Rightarrow> string) \<Rightarrow> php_rename \<Rightarrow> string \<Rightarrow> rename_rule \<Rightarrow> string" where
  "php_rename_item to_case r name default_rule =
     (case pr_name r of Some n \<Rightarrow> n | None \<Rightarrow> rule_rename to_case (effective_rule r default_rule) name)"

definition php_rename_method ::
    "(case_kind \<Rightarrow> string \<Rightarrow> string) \<Rightarrow> php_rename \<Rightarrow> string \<Rightarrow> rename_rule \<Rightarrow> string" where
  "php_rename_method to_case r name default_rule =
     (case pr_name r of Some n \<Rightarrow> n | None \<Rightarrow> rename_method to_case (effective_rule r default_rule) name)"

section \<open>Lemmas\<close>

text \<open>The names PHP gives the magic methods, in the order of the table.\<close>

definition php_magic_names :: "string list" where
  "php_magic_names =
    [''__construct'', ''__destruct'', ''__call'', ''__callStatic'', ''__get'', ''__set'', ''__isset'',
     ''__unset'', ''__sleep'', ''__wakeup'', ''__serialize'', ''__unserialize'', ''__toString'', ''__invoke'',
     ''__set_state'', ''__clone'', ''__debugInfo'']"

lemma is_keyword_of_cong: "to_lowercase a = to_lowercase b \<Longrightarrow> is_keyword_of kws a = is_keyword_of kws b"
  by (simp add: is_keyword_of_def)

lemma is_keyword_of_mono: "set kws \<subseteq> set kws' \<Longrightarrow> is_keyword_of kws a \<Longrightarrow> is_keyword_of kws' a"
  by (auto simp: is_keyword_of_def list_ex_iff)

lemma halt_compiler_reserved: "is_php_method_forbidden_keyword a \<Longrightarrow> is_php_reserved_keyword a"
  unfolding is_php_method_forbidden_keyword_def is_php_reserved_keyword_def
  by (erule is_keyword_of_mono [rotated]) (simp add: PHP_METHOD_FORBIDDEN_KEYWORDS_def PHP_RESERVED_KEYWORDS_def)

lemma halt_compiler_not_readonly:
  "is_php_method_forbidden_keyword a \<Longrightarrow> \<not> is_php_function_allowed_keyword a"
proof -
  have "to_lowercase ''__halt_compiler'' \<noteq> to_lowercase ''readonly''" by code_simp
  then show "is_php_method_forbidden_keyword a \<Longrightarrow> \<not> is_php_function_allowed_keyword a"
    unfolding is_php_method_forbidden_keyword_def is_php_function_allowed_keyword_def is_keyword_of_def
      PHP_METHOD_FORBIDDEN_KEYWORDS_def PHP_FUNCTION_ALLOWED_KEYWORDS_def
    by (simp del: to_lowercase.simps)
qed

section \<open>Properties\<close>

text \<open>The name contexts are ordered by strictness: a name allowed for a class, interface, enum or enum
  case is allowed for a function, and a name allowed for a function is allowed for a method, a
  constant and a property; and the check does not depend on the case of the letters.\<close>

theorem validate_php_name_strictness:
  assumes "to_lowercase name' = to_lowercase name"
  shows "(validate_php_name name CtxClass = Inr () \<longrightarrow> validate_php_name name CtxFunction = Inr ()) \<and>
         (validate_php_name name CtxFunction = Inr () \<longrightarrow>
            validate_php_name name CtxMethod = Inr () \<and> validate_php_name name CtxConstant = Inr () \<and>
            validate_php_name name CtxProperty = Inr ()) \<and>
         (validate_php_name name' ctx = Inr () \<longleftrightarrow> validate_php_name name ctx = Inr ())"
proof -
  note c = is_keyword_of_cong [OF assms]
  have "is_forbidden_name ctx name' = is_forbidden_name ctx name"
    by (simp add: is_forbidden_name_def is_php_type_keyword_def is_php_reserved_keyword_def
      is_php_method_forbidden_keyword_def is_php_function_allowed_keyword_def c split: php_name_context.splits)
  then show ?thesis
    using halt_compiler_reserved [of name] halt_compiler_not_readonly [of name]
    by (auto simp: validate_php_name_def is_forbidden_name_def)
qed

theorem validate_php_name_strictness_witness:
  "validate_php_name ''ReadOnly'' CtxMethod = Inr () \<and> validate_php_name ''ReadOnly'' CtxClass \<noteq> Inr ()"
proof -
  have l: "to_lowercase ''ReadOnly'' = to_lowercase ''readonly''" by code_simp
  have f: "validate_php_name ''readonly'' CtxFunction = Inr ()"
    by (simp add: validate_php_name_def is_forbidden_name_def is_php_function_allowed_keyword_def
      is_keyword_of_def PHP_FUNCTION_ALLOWED_KEYWORDS_def)
  have c: "validate_php_name ''readonly'' CtxClass \<noteq> Inr ()"
    by (simp add: validate_php_name_def is_forbidden_name_def is_php_reserved_keyword_def
      is_keyword_of_def PHP_RESERVED_KEYWORDS_def)
  from f c validate_php_name_strictness [OF l, of CtxMethod] validate_php_name_strictness [OF l, of CtxClass]
  show ?thesis by auto
qed

text \<open>Under every rule but \<open>none\<close>, whatever the case conversion does, the seventeen magic methods
  written in snake case get the names PHP calls, and an explicit name wins over every rule.\<close>

theorem magic_methods_renamed:
  "map (\<lambda>m. php_rename_method to_case \<lparr>pr_name = None, pr_change_case = rule\<rparr> m default_rule) MAGIC_METHOD =
     (if effective_rule \<lparr>pr_name = None, pr_change_case = rule\<rparr> default_rule = RuleNone
      then MAGIC_METHOD else php_magic_names) \<and>
   php_rename_method to_case \<lparr>pr_name = Some n, pr_change_case = rule\<rparr> m default_rule = n"
  by (simp add: php_rename_method_def rename_method_def MAGIC_METHOD_def php_magic_names_def)

end
