(* ===== verification/MacroImpl.thy ===== *)
theory MacroImpl
  imports MacroFn MacroNames
begin

text \<open>
  \<open>crates/macros/src/impl_.rs\<close>, \<open>interface.rs\<close>, \<open>impl_interface.rs\<close> and the properties of \<open>class.rs\<close>: the macros on
  implementation blocks, on traits that are PHP interfaces, on their implementations and on the fields of a
  struct. Items are given as the parser of Rust and the attribute library deliver them. What the compiler
  resolves (the data type of a Rust type, the stub text of a default, the type of a result) and the case
  conversion are parameters, as in theory \<open>MacroFn\<close>; \<open>h\<close> gives the address of the handler generated for a function.
\<close>

unbundle bit_operations_syntax

section \<open>Attributes of a method\<close>

record 'e method_attribute =
  at_rename :: php_rename
  at_defaults :: "string \<rightharpoonup> 'e"
  at_optional :: "string option"
  at_vis :: "visibility option"
  at_getter :: bool
  at_setter :: bool
  at_constructor :: bool
  at_abstract :: bool
  at_final :: bool
  at_docs :: "string list"



datatype impl_error =
    CannotBeAbstract string | CannotBeFinal string | AbstractAndFinal | AbstractPrivate | NameError string
  | ArgsError macro_error | SecondConstructor | DefaultImplementation | EmptyConstant


section \<open>An implementation block\<close>

record 'e impl_fn =
  im_ident :: string
  im_inputs :: "fn_arg list"
  im_output :: "rtype option"
  im_attr :: "'e method_attribute"

datatype 'e impl_item = ImplConst string php_rename "string list" | ImplFn "'e impl_fn" | ImplOther


text \<open>\<open>FnBuilder\<close>: the builder (\<open>None\<close> where the emitted code does not compile), visibility and modifiers.\<close>

record 'z fn_builder =
  fnb_builder :: "'z function_builder option"
  fnb_vis :: visibility
  fnb_abstract :: bool
  fnb_static :: bool
  fnb_final :: bool





text \<open>The receiver of a method and its arguments without \<open>self_\<close>.\<close>

definition method_receiver_of :: "'e fn_args \<Rightarrow> method_receiver \<times> 'e fn_args" where
  "method_receiver_of args =
     (if fa_receiver args \<noteq> None then (RecvClass, args)
      else case fa_typed args of
             a # as \<Rightarrow> if ta_name a = ''self_'' then (RecvZendClassObject, args\<lparr>fa_typed := as\<rparr>) else (RecvStatic, args)
           | [] \<Rightarrow> (RecvStatic, args))"

record 'e macro_env =
  mv_to_case :: "case_kind \<Rightarrow> string \<Rightarrow> string"
  mv_ty_of :: "rtype \<Rightarrow> data_type"
  mv_stub_of :: "'e \<Rightarrow> string"
  mv_info :: "ret_source \<Rightarrow> data_type \<times> bool"
  mv_handler :: "string \<Rightarrow> nat"





fun visibility_flag :: "visibility \<Rightarrow> u32" where
  "visibility_flag VisPublic = ZEND_ACC_PUBLIC"
| "visibility_flag VisProtected = ZEND_ACC_PROTECTED"
| "visibility_flag VisPrivate = ZEND_ACC_PRIVATE"

definition fn_builder_flags :: "'z fn_builder \<Rightarrow> u32" where
  "fn_builder_flags f =
     visibility_flag (fnb_vis f) OR (if fnb_abstract f then ZEND_ACC_ABSTRACT else 0) OR
     (if fnb_static f then ZEND_ACC_STATIC else 0) OR (if fnb_final f then ZEND_ACC_FINAL else 0)"

section \<open>Properties with getters and setters\<close>






text \<open>The descriptor generated for a group: the order of the descriptors is that of a \<open>HashMap\<close>. The getter and the
  setter are the methods they call; \<open>mp_ty\<close> is the type whose conversions are used.\<close>

record method_prop =
  mp_name :: string
  mp_mangled_name :: string
  mp_get :: "string option"
  mp_set :: "string option"
  mp_flags :: u32
  mp_docs :: "string list"
  mp_ty :: "rtype option"
  mp_readonly :: bool



section \<open>Properties of a struct\<close>

text \<open>A field with its attributes: \<open>fp_flags\<close> is the flags expression, its text and its value.\<close>

record field =
  fp_ident :: string
  fp_ty :: rtype
  fp_prop :: bool
  fp_static :: bool
  fp_rename :: php_rename
  fp_flags :: "(string \<times> u32) option"
  fp_default :: "string option"
  fp_docs :: "string list"

fun parse_fields :: "(case_kind \<Rightarrow> string \<Rightarrow> string) \<Rightarrow> field list \<Rightarrow> impl_error + (string \<times> field) list" where
  "parse_fields to_case [] = Inr []"
| "parse_fields to_case (f # fs) =
     (if \<not> fp_prop f then parse_fields to_case fs
      else
        let n = php_rename_item to_case (fp_rename f) (ident_to_php_name (fp_ident f)) RuleCamel
        in case validate_php_name n CtxProperty of
             Inl msg \<Rightarrow> Inl (NameError msg)
           | Inr _ \<Rightarrow> (case parse_fields to_case fs of Inl e \<Rightarrow> Inl e | Inr ps \<Rightarrow> Inr ((n, f) # ps)))"

definition flags_text :: "field \<Rightarrow> string" where
  "flags_text f = (case fp_flags f of Some (txt, _) \<Rightarrow> txt | None \<Rightarrow> '':: ext_php_rs :: flags :: PropertyFlags :: Public'')"

definition flags_value :: "field \<Rightarrow> u32" where
  "flags_value f = (case fp_flags f of Some (_, v) \<Rightarrow> v | None \<Rightarrow> ZEND_ACC_PUBLIC)"

definition mangled_field_name :: "string \<Rightarrow> string \<Rightarrow> field \<Rightarrow> string" where
  "mangled_field_name class_name n f =
     (if str_contains (flags_text f) ''Private'' then [CHR 0x00] @ class_name @ [CHR 0x00] @ n
      else if str_contains (flags_text f) ''Protected'' then [CHR 0x00] @ ''*'' @ [CHR 0x00] @ n
      else n)"

definition field_descriptor :: "string \<Rightarrow> string \<times> field \<Rightarrow> method_prop" where
  "field_descriptor class_name p =
     (case p of (n, f) \<Rightarrow>
        \<lparr>mp_name = n, mp_mangled_name = mangled_field_name class_name n f, mp_get = Some (fp_ident f), mp_set = Some (fp_ident f),
         mp_flags = flags_value f, mp_docs = fp_docs f, mp_ty = Some (fp_ty f), mp_readonly = False\<rparr>)"

definition field_props :: "string \<Rightarrow> (string \<times> field) list \<Rightarrow> method_prop list" where
  "field_props class_name ps = map (field_descriptor class_name) (filter (\<lambda>(_, f). \<not> fp_static f) ps)"

definition static_props :: "(string \<times> field) list \<Rightarrow> (string \<times> u32 \<times> string option \<times> string list) list" where
  "static_props ps = map (\<lambda>(n, f). (n, flags_value f OR ZEND_ACC_STATIC, fp_default f, fp_docs f)) (filter (\<lambda>(_, f). fp_static f) ps)"

section \<open>Interfaces\<close>

record 'e trait_fn =
  tf_ident :: string
  tf_inputs :: "fn_arg list"
  tf_output :: "rtype option"
  tf_has_body :: bool
  tf_attr :: "'e method_attribute"

datatype ('e, 'z) method_kind = KindMethod "'z fn_builder" | KindConstructor "'e macro_function"

text \<open>A first parameter \<open>self_\<close> takes the last parameter off the list.\<close>

definition parse_trait_item_fn ::
    "'e macro_env \<Rightarrow> 'e trait_fn \<Rightarrow> rename_rule option \<Rightarrow> impl_error + ('e, 'z) method_kind" where
  "parse_trait_item_fn ev f change_case =
     (if tf_has_body f then Inl DefaultImplementation
      else
        case parse_from_fnargs (tf_inputs f) (at_defaults (tf_attr f)) of
          Inl e \<Rightarrow> Inl (ArgsError e)
        | Inr args \<Rightarrow>
            let first_self = (case fa_typed args of a # _ \<Rightarrow> ta_name a = ''self_'' | [] \<Rightarrow> False);
                is_static = (\<not> first_self \<and> fa_receiver args = None);
                args = (if first_self then args\<lparr>fa_typed := butlast (fa_typed args)\<rparr> else args);
                method_name = php_rename_item (mv_to_case ev) (at_rename (tf_attr f)) (ident_to_php_name (tf_ident f))
                  (case change_case of Some r \<Rightarrow> r | None \<Rightarrow> RuleCamel)
            in (case validate_php_name method_name CtxMethod of
                  Inl msg \<Rightarrow> Inl (NameError msg)
                | Inr _ \<Rightarrow>
                    let func = \<lparr>mf_name = method_name, mf_args = args, mf_output = tf_output f, mf_optional = at_optional (tf_attr f),
                                mf_docs = at_docs (tf_attr f)\<rparr>
                    in if at_constructor (tf_attr f) then Inr (KindConstructor func)
                       else Inr (KindMethod \<lparr>fnb_builder = Some (abstract_function_builder (mv_ty_of ev) (mv_stub_of ev) (mv_info ev) func),
                                   fnb_vis = (case at_vis (tf_attr f) of Some v \<Rightarrow> v | None \<Rightarrow> VisPublic),
                                   fnb_abstract = True, fnb_static = is_static, fnb_final = False\<rparr>)))"

datatype 'e trait_item = TraitFn "'e trait_fn" | TraitConst string php_rename "string option" "string list" | TraitOther

record ('e, 'z) interface_data =
  if_constructor :: "'e macro_function option"
  if_methods :: "'z fn_builder list"
  if_constants :: "(string \<times> string \<times> string list) list"

definition parse_trait_item_const ::
    "'e macro_env \<Rightarrow> string \<Rightarrow> php_rename \<Rightarrow> string option \<Rightarrow> string list \<Rightarrow> rename_rule option \<Rightarrow> impl_error + string \<times> string \<times> string list" where
  "parse_trait_item_const ev ident rename expr docs change_case =
     (case expr of
        None \<Rightarrow> Inl EmptyConstant
      | Some e \<Rightarrow>
          let n = php_rename_item (mv_to_case ev) rename (ident_to_php_name ident)
                    (case change_case of Some r \<Rightarrow> r | None \<Rightarrow> RuleScreamingSnake)
          in (case validate_php_name n CtxConstant of Inl msg \<Rightarrow> Inl (NameError msg) | Inr _ \<Rightarrow> Inr (n, e, docs)))"

fun parse_trait_items ::
    "'e macro_env \<Rightarrow> rename_rule option \<Rightarrow> rename_rule option \<Rightarrow> 'e trait_item list \<Rightarrow> ('e, 'z) interface_data \<Rightarrow>
     impl_error + ('e, 'z) interface_data" where
  "parse_trait_items ev mc cc [] d = Inr d"
| "parse_trait_items ev mc cc (TraitFn f # is) d =
     (case parse_trait_item_fn ev f mc of
        Inl e \<Rightarrow> Inl e
      | Inr (KindMethod b) \<Rightarrow> parse_trait_items ev mc cc is (d\<lparr>if_methods := if_methods d @ [b]\<rparr>)
      | Inr (KindConstructor c) \<Rightarrow>
          if if_constructor d \<noteq> None then Inl SecondConstructor
          else parse_trait_items ev mc cc is (d\<lparr>if_constructor := Some c\<rparr>))"
| "parse_trait_items ev mc cc (TraitConst ident rename expr docs # is) d =
     (case parse_trait_item_const ev ident rename expr docs cc of
        Inl e \<Rightarrow> Inl e
      | Inr c \<Rightarrow> parse_trait_items ev mc cc is (d\<lparr>if_constants := if_constants d @ [c]\<rparr>))"
| "parse_trait_items ev mc cc (TraitOther # is) d = parse_trait_items ev mc cc is d"

text \<open>\<open>parse_supertraits\<close>: the path of each trait bound, its last segment prefixed; a lifetime bound is skipped, and so is
  an empty path.\<close>

definition parse_supertraits :: "string list option list \<Rightarrow> string list list" where
  "parse_supertraits bounds =
     List.map_filter (\<lambda>b. case b of
        Some path \<Rightarrow> if path = [] then None else Some (butlast path @ [''PhpInterface'' @ last path])
      | None \<Rightarrow> None) bounds"

section \<open>Implementing an interface\<close>

definition is_option_type :: "rtype \<Rightarrow> bool" where
  "is_option_type ty \<longleftrightarrow> path_ident ty = Some ''Option''"

fun named_inputs :: "fn_arg list \<Rightarrow> (string \<times> rtype) list" where
  "named_inputs [] = []"
| "named_inputs (FnTyped (Some n) ty # as) = (n, ty) # named_inputs as"
| "named_inputs (_ # as) = named_inputs as"

text \<open>The loop over the arguments from the last to the first.\<close>

fun boundary_loop :: "(string \<times> rtype) list \<Rightarrow> nat \<Rightarrow> nat \<Rightarrow> nat" where
  "boundary_loop as 0 boundary = boundary"
| "boundary_loop as (Suc i) boundary = (if is_option_type (snd (as ! i)) then boundary_loop as i i else boundary)"

definition optional_boundary :: "(string \<times> rtype) list \<Rightarrow> nat" where
  "optional_boundary as = boundary_loop as (length as) (length as)"

definition generate_method_builder ::
    "'e macro_env \<Rightarrow> string \<Rightarrow> string \<Rightarrow> fn_arg list \<Rightarrow> rtype option \<Rightarrow> bool \<Rightarrow> 'z function_builder \<times> u32" where
  "generate_method_builder ev php_name method_ident inputs output is_static =
     (let as = named_inputs inputs;
          boundary = optional_boundary as;
          declare = (\<lambda>(n, ty). arg_new (ident_to_php_name n) (mv_ty_of ev ty));
          b = fb_new php_name (mv_handler ev method_ident);
          b = fold fb_arg (map declare (take boundary as)) b;
          b = fold fb_arg (map (\<lambda>a. arg_set_allow_null (declare a)) (drop boundary as)) (fb_not_required b);
          b = (case output of
                 None \<Rightarrow> fb_returns DtVoid False False b
               | Some ty \<Rightarrow> fb_returns (fst (mv_info ev (RetOutput ty))) False (snd (mv_info ev (RetOutput ty))) b)
      in (b, if is_static then ZEND_ACC_PUBLIC OR ZEND_ACC_STATIC else ZEND_ACC_PUBLIC))"



definition impl_interface_method :: "'e macro_env \<Rightarrow> rename_rule option \<Rightarrow> 'e impl_fn \<Rightarrow> 'z function_builder \<times> u32" where
  "impl_interface_method ev change_case m =
     (let has_self = list_ex (\<lambda>a. case a of FnReceiver _ _ \<Rightarrow> True | FnTyped _ _ \<Rightarrow> False) (im_inputs m)
      in generate_method_builder ev
           (rename_method (mv_to_case ev) (case change_case of Some r \<Rightarrow> r | None \<Rightarrow> RuleCamel) (ident_to_php_name (im_ident m)))
           (im_ident m) (im_inputs m) (im_output m) (\<not> has_self))"

definition impl_interface_methods :: "'e macro_env \<Rightarrow> rename_rule option \<Rightarrow> 'e impl_item list \<Rightarrow> ('z function_builder \<times> u32) list" where
  "impl_interface_methods ev change_case items =
     List.map_filter (\<lambda>i. case i of ImplFn m \<Rightarrow> Some (impl_interface_method ev change_case m) | _ \<Rightarrow> None) items"

section \<open>Lemmas on groups\<close>









section \<open>Lemmas on parameters\<close>

text \<open>A parameter of a type the two macros read alike: a path that is no \<open>PhpRef\<close>, with the data type of an \<open>Option\<close> that of
  what it wraps.\<close>

definition plain_type :: "'e macro_env \<Rightarrow> rtype \<Rightarrow> bool" where
  "plain_type ev ty \<longleftrightarrow>
     (case ty of RPath segs \<Rightarrow>
        (case parse_typed ty of (variadic, as_ref, inner) \<Rightarrow> \<not> variadic \<and> \<not> as_ref \<and> mv_ty_of ev inner = mv_ty_of ev ty)
      | _ \<Rightarrow> False)"

definition typed_of :: "string \<times> rtype \<Rightarrow> 'e typed_arg" where
  "typed_of p = \<lparr>ta_name = fst p, ta_ty = snd (snd (parse_typed (snd p))), ta_nullable = is_option_type (snd p), ta_default = None,
     ta_as_ref = False, ta_variadic = False\<rparr>"

lemma parse_fnargs_plain:
  assumes "\<forall>p \<in> set ps. plain_type ev (snd p)"
  shows "parse_fnargs (map (\<lambda>(n, ty). FnTyped (Some n) ty) ps) Map.empty r = Inr (r\<lparr>fa_typed := fa_typed r @ map typed_of ps\<rparr>)"
  using assms
proof (induction ps arbitrary: r)
  case (Cons p ps)
  obtain n segs where p: "p = (n, RPath segs)"
    using Cons.prems by (cases p) (auto simp: plain_type_def split: rtype.splits)
  obtain inner where inner: "parse_typed (RPath segs) = (False, False, inner)"
    using Cons.prems by (auto simp: plain_type_def p split: prod.splits)
  show ?case
    using Cons.IH [of "r\<lparr>fa_typed := fa_typed r @ [typed_of p]\<rparr>"] Cons.prems
    by (simp add: p inner typed_of_def type_is_nullable_def is_option_type_def)
qed simp

lemma named_inputs_map [simp]: "named_inputs (map (\<lambda>(n, ty). FnTyped (Some n) ty) ps) = ps"
  by (induction ps) auto

lemma boundary_loop_eq:
  "i \<le> length as \<Longrightarrow> boundary_loop as i i = i - length (takeWhile (\<lambda>a. is_option_type (snd a)) (rev (take i as)))"
proof (induction i)
  case (Suc i)
  then have "rev (take (Suc i) as) = as ! i # rev (take i as)" by (simp add: take_Suc_conv_app_nth)
  with Suc show ?case by simp
qed simp

lemma optional_boundary_eq:
  "optional_boundary as = length as - length (takeWhile (\<lambda>a. is_option_type (snd a)) (rev as))"
  by (simp add: optional_boundary_def boundary_loop_eq)

lemma takeWhile_map_eq: "takeWhile P (map f xs) = map f (takeWhile (\<lambda>x. P (f x)) xs)"
  by (induction xs) auto

lemma is_optional_typed_of [simp]: "is_optional (typed_of p) \<longleftrightarrow> is_option_type (snd p)"
  by (simp add: is_optional_def typed_of_def)

lemma split_args_typed_of:
  "split_args (map typed_of ps) None =
     (map typed_of (take (optional_boundary ps) ps), map typed_of (drop (optional_boundary ps) ps))"
  by (simp add: split_args_None optional_boundary_eq take_map drop_map Let_def rev_map takeWhile_map_eq)

text \<open>How the implementation declares a parameter, and how the trait does.\<close>

definition declare_param :: "'e macro_env \<Rightarrow> string \<times> rtype \<Rightarrow> 'z arg" where
  "declare_param ev p = arg_new (ident_to_php_name (fst p)) (mv_ty_of ev (snd p))"

lemma arg_builder_typed_of:
  "plain_type ev (snd p) \<Longrightarrow> arg_builder (mv_ty_of ev) (mv_stub_of ev) (typed_of p) =
     (if is_option_type (snd p) then arg_set_allow_null (declare_param ev p) else declare_param ev p)"
  by (auto simp: arg_builder_def typed_of_def declare_param_def ident_to_php_name_def plain_type_def Let_def
      split: rtype.splits prod.splits option.splits)

lemma option_from_boundary: "p \<in> set (drop (optional_boundary ps) ps) \<Longrightarrow> is_option_type (snd p)"
  unfolding optional_boundary_eq rev_take_drop_takeWhile by (auto dest: set_takeWhileD)

lemma declare_function_returns:
  "fb_retval (declare_function ty_of stub_of info f None b) =
     Some (case mf_output f of None \<Rightarrow> DtVoid | Some ty \<Rightarrow> fst (info (RetOutput (drop_lifetimes ty))))"
  "fb_ret_as_null (declare_function ty_of stub_of info f None b) =
     (case mf_output f of None \<Rightarrow> False | Some ty \<Rightarrow>
        snd (info (RetOutput (drop_lifetimes ty))) \<and> fst (info (RetOutput (drop_lifetimes ty))) \<notin> {DtVoid, DtMixed})"
  by (auto simp: declare_function_def build_returns_def fb_returns_def fb_set_docs_def is_method_def Let_def split: option.splits prod.splits)

lemma generate_method_builder_fields:
  assumes "generate_method_builder ev n ident (FnReceiver by_ref mut # map (\<lambda>(n, ty). FnTyped (Some n) ty) ps) output st = (fb, flags)"
  shows "fb_name fb = n" and "fb_n_req fb = Some (optional_boundary ps)"
    and "fb_args fb = map (declare_param ev) (take (optional_boundary ps) ps) @
      map (\<lambda>p. arg_set_allow_null (declare_param ev p)) (drop (optional_boundary ps) ps)"
    and "fb_retval fb = Some (case output of None \<Rightarrow> DtVoid | Some ty \<Rightarrow> fst (mv_info ev (RetOutput ty)))"
    and "fb_ret_as_null fb = (case output of None \<Rightarrow> False | Some ty \<Rightarrow>
      snd (mv_info ev (RetOutput ty)) \<and> fst (mv_info ev (RetOutput ty)) \<notin> {DtVoid, DtMixed})"
    and "flags = (if st then ZEND_ACC_PUBLIC OR ZEND_ACC_STATIC else ZEND_ACC_PUBLIC)"
proof -
  have d: "(\<lambda>(n, ty). arg_new (ident_to_php_name n) (mv_ty_of ev ty)) = declare_param ev"
    by (auto simp: declare_param_def)
  have le: "optional_boundary ps \<le> length ps" by (simp add: optional_boundary_eq)
  note g = assms [unfolded generate_method_builder_def named_inputs.simps named_inputs_map Let_def d builder_of_def [symmetric] builder_of_eq]
  show "fb_name fb = n" "fb_n_req fb = Some (optional_boundary ps)"
    "fb_args fb = map (declare_param ev) (take (optional_boundary ps) ps) @
      map (\<lambda>p. arg_set_allow_null (declare_param ev p)) (drop (optional_boundary ps) ps)"
    "fb_retval fb = Some (case output of None \<Rightarrow> DtVoid | Some ty \<Rightarrow> fst (mv_info ev (RetOutput ty)))"
    "fb_ret_as_null fb = (case output of None \<Rightarrow> False | Some ty \<Rightarrow>
      snd (mv_info ev (RetOutput ty)) \<and> fst (mv_info ev (RetOutput ty)) \<notin> {DtVoid, DtMixed})"
    "flags = (if st then ZEND_ACC_PUBLIC OR ZEND_ACC_STATIC else ZEND_ACC_PUBLIC)"
    using g le by (auto simp: fb_returns_def fb_new_def fb_with_def split: option.splits)
qed

lemma allow_null_ne: "a_allow_null a = False \<Longrightarrow> arg_set_allow_null a \<noteq> a"
  by (cases a) (simp add: arg_set_allow_null_def)

text \<open>The arguments of the two declarations, side by side.\<close>

lemma declared_args_agree:
  fixes ps :: "(string \<times> rtype) list" and ev :: "'e macro_env"
  defines "k \<equiv> optional_boundary ps"
  assumes "\<forall>p \<in> set ps. plain_type ev (snd p)"
  shows "map (declare_param ev) (take k ps) @ map (\<lambda>p. arg_set_allow_null (declare_param ev p)) (drop k ps) =
      map (arg_builder (mv_ty_of ev) (mv_stub_of ev)) (map typed_of ps) \<longleftrightarrow> (\<forall>p \<in> set (take k ps). \<not> is_option_type (snd p))"
    and "map a_name (map (declare_param ev) (take k ps) @ map (\<lambda>p. arg_set_allow_null (declare_param ev p)) (drop k ps)) =
      map a_name (map (arg_builder (mv_ty_of ev) (mv_stub_of ev)) (map typed_of ps))"
    and "map a_type (map (declare_param ev) (take k ps) @ map (\<lambda>p. arg_set_allow_null (declare_param ev p)) (drop k ps)) =
      map a_type (map (arg_builder (mv_ty_of ev) (mv_stub_of ev)) (map typed_of ps))"
proof -
  have built: "map (arg_builder (mv_ty_of ev) (mv_stub_of ev)) (map typed_of xs) =
      map (\<lambda>p. if is_option_type (snd p) then arg_set_allow_null (declare_param ev p) else declare_param ev p) xs"
    if "set xs \<subseteq> set ps" for xs
  proof -
    have "plain_type ev (snd p)" if "p \<in> set xs" for p using that \<open>set xs \<subseteq> set ps\<close> assms(2) by blast
    then show ?thesis by (simp add: arg_builder_typed_of)
  qed
  have split: "map (arg_builder (mv_ty_of ev) (mv_stub_of ev)) (map typed_of ps) =
      map (\<lambda>p. if is_option_type (snd p) then arg_set_allow_null (declare_param ev p) else declare_param ev p) (take k ps) @
      map (\<lambda>p. arg_set_allow_null (declare_param ev p)) (drop k ps)"
    unfolding built [OF subset_refl]
    by (subst append_take_drop_id [of k ps, symmetric], subst map_append) (auto simp: k_def dest: option_from_boundary)
  have ne: "arg_set_allow_null (declare_param ev p) \<noteq> declare_param ev p" for p
    by (rule allow_null_ne) (simp add: declare_param_def arg_new_def)
  show "map (declare_param ev) (take k ps) @ map (\<lambda>p. arg_set_allow_null (declare_param ev p)) (drop k ps) =
      map (arg_builder (mv_ty_of ev) (mv_stub_of ev)) (map typed_of ps) \<longleftrightarrow> (\<forall>p \<in> set (take k ps). \<not> is_option_type (snd p))"
    unfolding split using ne by (auto simp: eq_commute [of "declare_param ev _"])
  show "map a_name (map (declare_param ev) (take k ps) @ map (\<lambda>p. arg_set_allow_null (declare_param ev p)) (drop k ps)) =
      map a_name (map (arg_builder (mv_ty_of ev) (mv_stub_of ev)) (map typed_of ps))"
    "map a_type (map (declare_param ev) (take k ps) @ map (\<lambda>p. arg_set_allow_null (declare_param ev p)) (drop k ps)) =
      map a_type (map (arg_builder (mv_ty_of ev) (mv_stub_of ev)) (map typed_of ps))"
    unfolding split by (simp_all add: arg_set_allow_null_def declare_param_def arg_new_def)
qed





section \<open>Lemmas on implementation blocks\<close>

























section \<open>Properties\<close>




text \<open>C31. A method of an interface, as the trait declares it and as its implementation registers it, under these conditions: the
  method takes \<open>&self\<close> and its first parameter is not called \<open>self_\<close>; the parameters have plain types (paths,
  not passed by reference, an \<open>Option\<close> having the data type of what it wraps); the trait gives the method no attributes;
  the result type mentions no lifetime; its name is no magic method. Then both have the same name,
  the same number of required parameters, the same parameter names and types, the same result, and public visibility; the
  parameters agree altogether exactly when no \<open>Option\<close> parameter comes before a required one.\<close>

theorem interface_method_agrees:
  fixes ev :: "'e macro_env"
  assumes inputs: "inputs = FnReceiver True mut # map (\<lambda>(n, ty). FnTyped (Some n) ty) ps"
    and plain: "\<forall>p \<in> set ps. plain_type ev (snd p)" and no_self: "ps = [] \<or> fst (hd ps) \<noteq> ''self_''"
    and attr: "attr = \<lparr>at_rename = \<lparr>pr_name = None, pr_change_case = None\<rparr>, at_defaults = Map.empty, at_optional = None, at_vis = None,
        at_getter = False, at_setter = False, at_constructor = False, at_abstract = False, at_final = False, at_docs = []\<rparr>"
    and lifetimes: "\<forall>ty. output = Some ty \<longrightarrow> lifetime_free ty"
    and magic: "ident_to_php_name ident \<notin> set MAGIC_METHOD"
    and declared: "parse_trait_item_fn ev \<lparr>tf_ident = ident, tf_inputs = inputs, tf_output = output, tf_has_body = False, tf_attr = attr\<rparr> mc
      = Inr (KindMethod b)"
    and implemented: "impl_interface_method ev mc \<lparr>im_ident = ident, im_inputs = inputs, im_output = output, im_attr = attr'\<rparr> = (fb, flags)"
  shows "let abs = the (fnb_builder b) in
    fb_name fb = fb_name abs \<and> fb_n_req fb = fb_n_req abs \<and> fb_retval fb = fb_retval abs \<and>
    fb_ret_as_null fb = fb_ret_as_null abs \<and>
    map a_name (fb_args fb) = map a_name (fb_args abs) \<and> map a_type (fb_args fb) = map a_type (fb_args abs) \<and>
    flags = ZEND_ACC_PUBLIC \<and> fn_builder_flags b = ZEND_ACC_PUBLIC OR ZEND_ACC_ABSTRACT \<and>
    (fb_args fb = fb_args abs \<longleftrightarrow> (\<forall>p \<in> set (take (optional_boundary ps) ps). \<not> is_option_type (snd p)))"
proof -
  let ?n = "rule_rename (mv_to_case ev) (case mc of Some r \<Rightarrow> r | None \<Rightarrow> RuleCamel) (ident_to_php_name ident)"
  define args :: "'e fn_args" where "args = \<lparr>fa_receiver = Some mut, fa_typed = map typed_of ps\<rparr>"
  define f where "f = \<lparr>mf_name = ?n, mf_args = args, mf_output = output, mf_optional = None, mf_docs = []\<rparr>"
  let ?abs = "declare_function (mv_ty_of ev) (mv_stub_of ev) (mv_info ev) f None (fb_new_abstract ?n)"
  have parsed: "parse_from_fnargs inputs Map.empty = Inr args"
    using parse_fnargs_plain [OF plain, where r = "\<lparr>fa_receiver = Some mut, fa_typed = []\<rparr> :: 'e fn_args"]
    by (simp add: parse_from_fnargs_def inputs args_def)
  have first: "(case fa_typed args of a # _ \<Rightarrow> ta_name a = ''self_'' | [] \<Rightarrow> False) = False"
    using no_self by (cases ps) (auto simp: args_def typed_of_def)
  have b: "fnb_builder b = Some ?abs" "fn_builder_flags b = ZEND_ACC_PUBLIC OR ZEND_ACC_ABSTRACT"
    using declared first
    by (auto simp: parse_trait_item_fn_def attr parsed Let_def abstract_function_builder_def f_def php_rename_item_def effective_rule_def
        fn_builder_flags_def args_def split: sum.splits)
  have "rename_method (mv_to_case ev) (case mc of Some r \<Rightarrow> r | None \<Rightarrow> RuleCamel) (ident_to_php_name ident) = ?n"
    using magic by (auto simp: rename_method_def)
  with implemented have g: "generate_method_builder ev ?n ident inputs output False = (fb, flags)"
    by (simp add: impl_interface_method_def inputs)
  note fb = generate_method_builder_fields [OF g [unfolded inputs]]
  have abs: "fb_args ?abs = map (arg_builder (mv_ty_of ev) (mv_stub_of ev)) (map typed_of ps)"
    "fb_n_req ?abs = Some (optional_boundary ps)" "fb_name ?abs = ?n"
    using declare_function_fields [of "fb_new_abstract ?n" "mv_ty_of ev" "mv_stub_of ev" "mv_info ev" f None]
    by (simp_all add: fb_new_abstract_def fb_with_def f_def args_def split_args_typed_of optional_boundary_eq)
  have out: "mf_output f = output" "\<And>ty. output = Some ty \<Longrightarrow> drop_lifetimes ty = ty"
    using lifetimes by (simp_all add: f_def drop_lifetimes_id)
  show ?thesis
    unfolding b Let_def option.sel fb abs declare_function_returns
    using declared_args_agree [OF plain] out by (auto split: option.splits)
qed



text \<open>A method with a required and an optional integer.\<close>

definition impl_demo_env :: "unit macro_env" where
  "impl_demo_env = \<lparr>mv_to_case = (\<lambda>_ n. n), mv_ty_of = (\<lambda>_. DtLong), mv_stub_of = (\<lambda>_. []), mv_info = (\<lambda>_. (DtLong, False)), mv_handler = (\<lambda>_. 1)\<rparr>"

definition demo_method_attr :: "unit method_attribute" where
  "demo_method_attr = \<lparr>at_rename = \<lparr>pr_name = None, pr_change_case = None\<rparr>, at_defaults = Map.empty, at_optional = None, at_vis = None,
     at_getter = False, at_setter = False, at_constructor = False, at_abstract = False, at_final = False, at_docs = []\<rparr>"

definition demo_params :: "(string \<times> rtype) list" where
  "demo_params = [(''a'', RPath [(''i64'', None)]), (''b'', RPath [(''Option'', Some [GType (RPath [(''i64'', None)])])])]"

definition demo_inputs :: "fn_arg list" where
  "demo_inputs = FnReceiver True False # map (\<lambda>(n, ty). FnTyped (Some n) ty) demo_params"


theorem interface_method_agrees_witness:
  "\<exists>(b :: unit fn_builder) (fb :: unit function_builder) flags.
     parse_trait_item_fn impl_demo_env \<lparr>tf_ident = ''run'', tf_inputs = demo_inputs, tf_output = None, tf_has_body = False, tf_attr = demo_method_attr\<rparr> None
       = Inr (KindMethod b) \<and>
     impl_interface_method impl_demo_env None \<lparr>im_ident = ''run'', im_inputs = demo_inputs, im_output = None, im_attr = demo_method_attr\<rparr> = (fb, flags) \<and>
     fb_args fb = fb_args (the (fnb_builder b)) \<and> fb_n_req fb = Some 1"
proof -
  have name: "ident_to_php_name ''run'' = ''run''" "validate_php_name ''run'' CtxMethod = Inr ()" by code_simp+
  have plain: "\<forall>p \<in> set demo_params. plain_type impl_demo_env (snd p)"
    by (simp add: demo_params_def plain_type_def parse_typed_def impl_demo_env_def Let_def)
  have "parse_from_fnargs demo_inputs (Map.empty :: string \<rightharpoonup> unit) = Inr \<lparr>fa_receiver = Some False, fa_typed = map typed_of demo_params\<rparr>"
    using parse_fnargs_plain [OF plain, where r = "\<lparr>fa_receiver = Some False, fa_typed = []\<rparr> :: unit fn_args"]
    by (simp add: parse_from_fnargs_def demo_inputs_def)
  then have "\<exists>b :: unit fn_builder. parse_trait_item_fn impl_demo_env \<lparr>tf_ident = ''run'', tf_inputs = demo_inputs, tf_output = None, tf_has_body = False,
      tf_attr = demo_method_attr\<rparr> None = Inr (KindMethod b)"
    by (simp add: parse_trait_item_fn_def demo_method_attr_def name php_rename_item_def effective_rule_def impl_demo_env_def demo_params_def
        typed_of_def Let_def)
  then obtain b :: "unit fn_builder" where b: "parse_trait_item_fn impl_demo_env \<lparr>tf_ident = ''run'', tf_inputs = demo_inputs, tf_output = None,
      tf_has_body = False, tf_attr = demo_method_attr\<rparr> None = Inr (KindMethod b)" by blast
  obtain fb :: "unit function_builder" and flags where
    fb: "impl_interface_method impl_demo_env None \<lparr>im_ident = ''run'', im_inputs = demo_inputs, im_output = None, im_attr = demo_method_attr\<rparr> = (fb, flags)"
    by (cases "impl_interface_method impl_demo_env None \<lparr>im_ident = ''run'', im_inputs = demo_inputs, im_output = None, im_attr = demo_method_attr\<rparr>
      :: unit function_builder \<times> u32")
  have boundary: "optional_boundary demo_params = 1"
    by (simp add: optional_boundary_def demo_params_def is_option_type_def numeral_2_eq_2)
  have "''run'' \<notin> set MAGIC_METHOD" by (simp add: MAGIC_METHOD_def)
  from interface_method_agrees [OF demo_inputs_def plain _ demo_method_attr_def _ _ b fb] this name boundary
  have "fb_args fb = fb_args (the (fnb_builder b))"
    by (simp add: demo_params_def is_option_type_def Let_def)
  moreover have "fb_n_req fb = Some 1"
    using fb generate_method_builder_fields(2) [of impl_demo_env _ _ True False demo_params] boundary
    by (auto simp: impl_interface_method_def demo_inputs_def)
  ultimately show ?thesis using b fb by blast
qed


text \<open>A trait method that takes its object as a parameter \<open>self_\<close> is declared with \<open>self_\<close> and without its last parameter,
  where an implementation block registers the parameters after \<open>self_\<close>.\<close>

theorem interface_self_parameter:
  assumes "parse_from_fnargs (tf_inputs f) (at_defaults (tf_attr f)) = Inr args" and "fa_typed args = a # as" and "ta_name a = ''self_''"
    and "parse_trait_item_fn ev f mc = Inr (KindMethod b)"
  shows "map a_name (fb_args (the (fnb_builder b))) = map php_param_name (butlast (a # as)) \<and>
    (fa_receiver args = None \<longrightarrow> fa_typed (snd (method_receiver_of args)) = as)"
proof
  have "a_name (arg_builder ty_of stub_of x) = php_param_name x" for ty_of stub_of and x :: "'a typed_arg"
    by (auto simp: arg_builder_def arg_new_def arg_set_allow_null_def arg_set_default_def arg_as_ref_def arg_is_variadic_def php_param_name_def
        Let_def split: option.splits)
  then show "map a_name (fb_args (the (fnb_builder b))) = map php_param_name (butlast (a # as))"
    using assms by (auto simp: parse_trait_item_fn_def abstract_function_builder_def declare_function_fields fb_new_abstract_def fb_with_def
        Let_def split: sum.splits if_splits)
  show "fa_receiver args = None \<longrightarrow> fa_typed (snd (method_receiver_of args)) = as"
    using assms(2,3) by (simp add: method_receiver_of_def)
qed

end
