(* ===== verification/MacroEnum.thy ===== *)
theory MacroEnum
  imports MacroNames Describe
begin

text \<open>
  \<open>crates/macros/src/enum_.rs\<close>: the \<open>#[php_enum]\<close> macro. An enum is given by its attributes and variants as the
  attribute library parses them; the result is either a compile error or the generated implementation,
  described by the functions it contains. Generating it may also panic inside the macro. The case conversion
  library is the parameter \<open>to_case\<close>.
\<close>

section \<open>The enum as written\<close>

datatype lit = LitStr string | LitInt int | LitOther

record variant =
  va_ident :: string
  va_unit :: bool
  va_native :: bool
  va_rename :: php_rename
  va_value :: "lit option"
  va_docs :: "string list"

record enum_attribute =
  ea_rename :: php_rename
  ea_allow_native_discriminants :: bool
  ea_rename_cases :: "rename_rule option"
  ea_docs :: "string list"

datatype enum_error =
    NotUnitVariant string | NativeDiscriminant string | InvalidInteger int | UnsupportedDiscriminant
  | MixedDiscriminants string | MissingDiscriminant string | BadName string | DuplicateDiscriminants string

section \<open>Parsing\<close>

text \<open>\<open>base10_parse::<i64>\<close> fails outside the range of the type.\<close>

definition discriminant_try_from :: "lit \<Rightarrow> enum_error + discriminant" where
  "discriminant_try_from l =
     (case l of
        LitStr s \<Rightarrow> Inr (DiscString s)
      | LitInt i \<Rightarrow> if in_i64 i then Inr (DiscInt i) else Inl (InvalidInteger i)
      | LitOther \<Rightarrow> Inl UnsupportedDiscriminant)"

datatype discriminant_type = DiscTypeNone | DiscTypeString | DiscTypeInteger

record macro_case =
  mc_ident :: string
  mc_name :: string
  mc_discriminant :: "discriminant option"
  mc_docs :: "string list"

definition next_discriminant_type ::
    "string \<Rightarrow> discriminant option \<Rightarrow> discriminant_type \<Rightarrow> enum_error + discriminant_type" where
  "next_discriminant_type ident d ty =
     (case d of
        Some (DiscString _) \<Rightarrow> if ty = DiscTypeInteger then Inl (MixedDiscriminants ident) else Inr DiscTypeString
      | Some (DiscInt _) \<Rightarrow> if ty = DiscTypeString then Inl (MixedDiscriminants ident) else Inr DiscTypeInteger
      | None \<Rightarrow> if ty \<noteq> DiscTypeNone then Inl (MissingDiscriminant ident) else Inr ty)"

definition variant_discriminant :: "variant \<Rightarrow> enum_error + discriminant option" where
  "variant_discriminant v =
     (case va_value v of
        None \<Rightarrow> Inr None
      | Some l \<Rightarrow> (case discriminant_try_from l of Inl e \<Rightarrow> Inl e | Inr d \<Rightarrow> Inr (Some d)))"

definition case_name :: "(case_kind \<Rightarrow> string \<Rightarrow> string) \<Rightarrow> enum_attribute \<Rightarrow> variant \<Rightarrow> string" where
  "case_name to_case attr v =
     php_rename_item to_case (va_rename v) (ident_to_php_name (va_ident v))
       (case ea_rename_cases attr of Some r \<Rightarrow> r | None \<Rightarrow> RulePascal)"

definition discriminants :: "macro_case list \<Rightarrow> discriminant list" where
  "discriminants cases = List.map_filter mc_discriminant cases"

fun parse_variants ::
    "(case_kind \<Rightarrow> string \<Rightarrow> string) \<Rightarrow> enum_attribute \<Rightarrow> variant list \<Rightarrow> discriminant_type \<Rightarrow> macro_case list \<Rightarrow>
     enum_error + discriminant_type \<times> macro_case list" where
  "parse_variants to_case attr [] ty cases = Inr (ty, cases)"
| "parse_variants to_case attr (v # vs) ty cases =
     (if \<not> va_unit v then Inl (NotUnitVariant (va_ident v))
      else if \<not> ea_allow_native_discriminants attr \<and> va_native v then Inl (NativeDiscriminant (va_ident v))
      else
        case variant_discriminant v of
          Inl e \<Rightarrow> Inl e
        | Inr d \<Rightarrow>
            (case next_discriminant_type (va_ident v) d ty of
               Inl e \<Rightarrow> Inl e
             | Inr ty \<Rightarrow>
                 (case validate_php_name (case_name to_case attr v) CtxEnumCase of
                    Inl msg \<Rightarrow> Inl (BadName msg)
                  | Inr _ \<Rightarrow>
                      let cases = cases @ [\<lparr>mc_ident = va_ident v, mc_name = case_name to_case attr v,
                                            mc_discriminant = d, mc_docs = va_docs v\<rparr>]
                      in if \<not> distinct (discriminants cases) then Inl (DuplicateDiscriminants (va_ident v))
                         else parse_variants to_case attr vs ty cases)))"

record macro_enum =
  en_name :: string
  en_discriminant_type :: discriminant_type
  en_docs :: "string list"
  en_cases :: "macro_case list"

definition enum_new ::
    "(case_kind \<Rightarrow> string \<Rightarrow> string) \<Rightarrow> string \<Rightarrow> enum_attribute \<Rightarrow> macro_case list \<Rightarrow> discriminant_type \<Rightarrow> enum_error + macro_enum" where
  "enum_new to_case ident attr cases ty =
     (let n = php_rename_item to_case (ea_rename attr) (ident_to_php_name ident) RulePascal
      in case validate_php_name n CtxEnum of
           Inl msg \<Rightarrow> Inl (BadName msg)
         | Inr _ \<Rightarrow> Inr \<lparr>en_name = n, en_discriminant_type = ty, en_docs = ea_docs attr, en_cases = cases\<rparr>)"

definition enum_parser ::
    "(case_kind \<Rightarrow> string \<Rightarrow> string) \<Rightarrow> string \<Rightarrow> enum_attribute \<Rightarrow> variant list \<Rightarrow> enum_error + macro_enum" where
  "enum_parser to_case ident attr variants =
     (case parse_variants to_case attr variants DiscTypeNone [] of
        Inl e \<Rightarrow> Inl e
      | Inr (ty, cases) \<Rightarrow> enum_new to_case ident attr cases ty)"

section \<open>The generated implementation\<close>

text \<open>A value of the enum is the identifier of its variant.\<close>

definition enum_from_name :: "macro_enum \<Rightarrow> string \<Rightarrow> error + string" where
  "enum_from_name en n =
     (case find (\<lambda>c. mc_name c = n) (en_cases en) of Some c \<Rightarrow> Inr (mc_ident c) | None \<Rightarrow> Inl InvalidProperty)"

definition enum_to_name :: "macro_enum \<Rightarrow> string \<Rightarrow> string option" where
  "enum_to_name en v = map_option mc_name (find (\<lambda>c. mc_ident c = v) (en_cases en))"

text \<open>\<open>impl_try_from\<close> and \<open>impl_into\<close>: the outer option is a panic of the macro, the middle one that no
  implementation is generated.\<close>

definition all_discriminants :: "macro_enum \<Rightarrow> (string \<times> discriminant) list option" where
  "all_discriminants en =
     (if list_all (\<lambda>c. mc_discriminant c \<noteq> None) (en_cases en)
      then Some (map (\<lambda>c. (mc_ident c, the (mc_discriminant c))) (en_cases en)) else None)"

definition impl_try_from :: "macro_enum \<Rightarrow> (discriminant \<Rightarrow> error + string) option option" where
  "impl_try_from en =
     (if en_discriminant_type en = DiscTypeNone then Some None
      else map_option (\<lambda>ds. Some (\<lambda>d.
        case find (\<lambda>(_, d'). d' = d) ds of Some (v, _) \<Rightarrow> Inr v | None \<Rightarrow> Inl InvalidProperty)) (all_discriminants en))"

definition impl_into :: "macro_enum \<Rightarrow> (string \<Rightarrow> discriminant option) option option" where
  "impl_into en =
     (if en_discriminant_type en = DiscTypeNone then Some None
      else map_option (\<lambda>ds. Some (map_of ds)) (all_discriminants en))"

text \<open>The constants of the registered class; the methods and constants come from an implementation block.\<close>

definition registered_enum ::
    "macro_enum \<Rightarrow> ('z function_builder \<times> u32) list \<Rightarrow> (string \<times> string \<times> string list) list \<Rightarrow> 'z registered_class" where
  "registered_enum en methods constants =
     \<lparr>rc_class_name = en_name en, rc_method_builders = methods, rc_interface_methods = [], rc_extends = None,
      rc_implements = [], rc_interface_impls = [], rc_constants = constants, rc_all_properties = [],
      rc_static_properties = [], rc_builder_modifier = None, rc_flags = ZEND_ACC_ENUM, rc_constructor = None, rc_handler = 0,
      rc_doc_comments = en_docs en,
      rc_cases = map (\<lambda>c. \<lparr>cs_name = mc_name c, cs_discriminant = mc_discriminant c, cs_docs = mc_docs c\<rparr>) (en_cases en)\<rparr>"

definition enum_expands :: "macro_enum \<Rightarrow> bool" where
  "enum_expands en \<longleftrightarrow> impl_try_from en \<noteq> None \<and> impl_into en \<noteq> None"

text \<open>The macro as a whole: the parser of the enum, then the tokens of the implementation, whose generation panics where a
  discriminant is expected and there is none.\<close>

datatype enum_expansion = Refused enum_error | MacroPanics | Expanded macro_enum

definition enum_macro ::
    "(case_kind \<Rightarrow> string \<Rightarrow> string) \<Rightarrow> string \<Rightarrow> enum_attribute \<Rightarrow> variant list \<Rightarrow> enum_expansion" where
  "enum_macro to_case ident attr variants =
     (case enum_parser to_case ident attr variants of
        Inl e \<Rightarrow> Refused e
      | Inr en \<Rightarrow> if enum_expands en then Expanded en else MacroPanics)"

section \<open>Accepted enums\<close>

definition kind :: "discriminant option \<Rightarrow> discriminant_type" where
  "kind d = (case d of None \<Rightarrow> DiscTypeNone | Some (DiscString _) \<Rightarrow> DiscTypeString | Some (DiscInt _) \<Rightarrow> DiscTypeInteger)"

lemma kind_None [simp]: "kind d = DiscTypeNone \<longleftrightarrow> d = None"
  by (auto simp: kind_def split: option.splits discriminant.splits)

lemma next_discriminant_type_Inr:
  "next_discriminant_type v d ty = Inr ty' \<longleftrightarrow> (ty = DiscTypeNone \<or> kind d = ty) \<and> ty' = kind d"
  by (cases ty) (auto simp: next_discriminant_type_def kind_def split: option.splits discriminant.splits)

text \<open>The checks of one variant, and those across variants.\<close>

definition variant_case :: "(case_kind \<Rightarrow> string \<Rightarrow> string) \<Rightarrow> enum_attribute \<Rightarrow> variant \<Rightarrow> macro_case \<Rightarrow> bool" where
  "variant_case to_case attr v c \<longleftrightarrow> va_unit v \<and> (va_native v \<longrightarrow> ea_allow_native_discriminants attr) \<and>
     variant_discriminant v = Inr (mc_discriminant c) \<and> validate_php_name (mc_name c) CtxEnumCase = Inr () \<and>
     mc_ident c = va_ident v \<and> mc_name c = case_name to_case attr v \<and> mc_docs c = va_docs v"

fun kinds_from :: "discriminant_type \<Rightarrow> macro_case list \<Rightarrow> discriminant_type \<Rightarrow> bool" where
  "kinds_from ty [] ty' \<longleftrightarrow> ty' = ty"
| "kinds_from ty (c # cs) ty' \<longleftrightarrow>
     (ty = DiscTypeNone \<or> kind (mc_discriminant c) = ty) \<and> kinds_from (kind (mc_discriminant c)) cs ty'"

lemma discriminants_simps [simp]:
  "discriminants [] = []" "discriminants (cs @ ds) = discriminants cs @ discriminants ds"
  "discriminants (c # cs) = (case mc_discriminant c of None \<Rightarrow> discriminants cs | Some d \<Rightarrow> d # discriminants cs)"
  by (simp_all add: discriminants_def List.map_filter_def split: option.splits)

lemma variant_case_determines:
  "variant_case to_case attr v c \<Longrightarrow>
     c = \<lparr>mc_ident = va_ident v, mc_name = case_name to_case attr v, mc_discriminant = mc_discriminant c, mc_docs = va_docs v\<rparr>"
  by (simp add: variant_case_def)

lemma parse_variants_Inr:
  assumes "distinct (discriminants cases)"
  shows "parse_variants to_case attr vs ty cases = Inr (ty', cases') \<longleftrightarrow>
    (\<exists>new. cases' = cases @ new \<and> list_all2 (variant_case to_case attr) vs new \<and> kinds_from ty new ty' \<and> distinct (discriminants cases'))"
  using assms
proof (induction vs arbitrary: ty cases)
  case Nil
  then show ?case by auto
next
  case (Cons v vs)
  show ?case
  proof (cases "\<exists>c. variant_case to_case attr v c")
    case False
    then show ?thesis
      by (auto simp: variant_case_def list_all2_Cons1 Let_def split: sum.splits if_splits
          dest!: spec [of _ "\<lparr>mc_ident = va_ident v, mc_name = case_name to_case attr v, mc_discriminant = _, mc_docs = va_docs v\<rparr>"])
  next
    case True
    then obtain c where c: "variant_case to_case attr v c" by blast
    have unique: "variant_case to_case attr v d \<longleftrightarrow> d = c" for d
      using c variant_case_determines [of to_case attr v d] variant_case_determines [OF c]
      by (auto simp: variant_case_def)
    have checks: "va_unit v" "\<not> (\<not> ea_allow_native_discriminants attr \<and> va_native v)"
      "variant_discriminant v = Inr (mc_discriminant c)" "validate_php_name (case_name to_case attr v) CtxEnumCase = Inr ()"
      using c by (auto simp: variant_case_def)
    have "parse_variants to_case attr (v # vs) ty cases =
        (case next_discriminant_type (va_ident v) (mc_discriminant c) ty of
           Inl e \<Rightarrow> Inl e
         | Inr ty \<Rightarrow> if \<not> distinct (discriminants (cases @ [c])) then Inl (DuplicateDiscriminants (va_ident v))
                     else parse_variants to_case attr vs ty (cases @ [c]))"
      unfolding parse_variants.simps checks variant_case_determines [OF c, symmetric] Let_def sum.case
      using checks by (simp only: simp_thms if_False if_True)
    note step = this
    show ?thesis
    proof (cases "next_discriminant_type (va_ident v) (mc_discriminant c) ty")
      case (Inl e)
      then have "\<not> (ty = DiscTypeNone \<or> kind (mc_discriminant c) = ty)"
        using next_discriminant_type_Inr [of "va_ident v" "mc_discriminant c" ty] by force
      with Inl step show ?thesis by (auto simp: list_all2_Cons1 unique)
    next
      case (Inr ty1)
      then have ok: "ty = DiscTypeNone \<or> kind (mc_discriminant c) = ty" "ty1 = kind (mc_discriminant c)"
        by (simp_all add: next_discriminant_type_Inr)
      show ?thesis
      proof (cases "distinct (discriminants (cases @ [c]))")
        case True
        with Inr step have "parse_variants to_case attr (v # vs) ty cases = parse_variants to_case attr vs ty1 (cases @ [c])" by simp
        with Cons.IH [OF True, of ty1] ok show ?thesis by (auto simp: list_all2_Cons1 unique)
      next
        case False
        then have "\<not> distinct (discriminants (cases @ c # new))" for new
          by (metis append.assoc append_Cons append_Nil discriminants_simps(2) distinct_append)
        moreover from False Inr step have "parse_variants to_case attr (v # vs) ty cases = Inl (DuplicateDiscriminants (va_ident v))" by simp
        ultimately show ?thesis by (auto simp: list_all2_Cons1 unique simp del: discriminants_simps)
      qed
    qed
  qed
qed

lemma kinds_from_same: "ty \<noteq> DiscTypeNone \<Longrightarrow> kinds_from ty cs ty' \<Longrightarrow> ty' = ty \<and> (\<forall>c \<in> set cs. kind (mc_discriminant c) = ty)"
  by (induction cs arbitrary: ty) auto

lemma kinds_from_None:
  "kinds_from DiscTypeNone cs ty' \<longleftrightarrow>
     (\<exists>k \<le> length cs. (\<forall>c \<in> set (take k cs). mc_discriminant c = None) \<and> (\<forall>c \<in> set (drop k cs). kind (mc_discriminant c) = ty') \<and>
        (k = length cs \<longleftrightarrow> ty' = DiscTypeNone))"
proof (induction cs)
  case Nil
  then show ?case by auto
next
  case (Cons c cs)
  show ?case
  proof (cases "mc_discriminant c")
    case None
    then have "kinds_from DiscTypeNone (c # cs) ty' \<longleftrightarrow> kinds_from DiscTypeNone cs ty'" by (simp add: kind_def)
    also have "\<dots> \<longleftrightarrow> (\<exists>k \<le> length (c # cs). (\<forall>c \<in> set (take k (c # cs)). mc_discriminant c = None) \<and>
        (\<forall>c \<in> set (drop k (c # cs)). kind (mc_discriminant c) = ty') \<and> (k = length (c # cs) \<longleftrightarrow> ty' = DiscTypeNone))" (is "_ \<longleftrightarrow> (\<exists>k \<le> _. ?P k)")
    proof
      assume "kinds_from DiscTypeNone cs ty'"
      then obtain k where "k \<le> length cs" "?P (Suc k)" using None unfolding Cons.IH by auto
      then show "\<exists>k \<le> length (c # cs). ?P k" by (intro exI [of _ "Suc k"]) auto
    next
      assume "\<exists>k \<le> length (c # cs). ?P k"
      then obtain k where k: "k \<le> length (c # cs)" "?P k" by blast
      show "kinds_from DiscTypeNone cs ty'"
      proof (cases k)
        case 0
        with k(2) None have "kind None = ty'" by simp
        then have "ty' = DiscTypeNone" by (simp add: kind_def)
        with 0 k(2) show ?thesis by simp
      next
        case (Suc j)
        with k show ?thesis unfolding Cons.IH by (intro exI [of _ j]) auto
      qed
    qed
    finally show ?thesis .
  next
    case (Some d)
    then have ne: "kind (mc_discriminant c) \<noteq> DiscTypeNone" by simp
    have "kinds_from ty cs ty' \<longleftrightarrow> ty' = ty \<and> (\<forall>c \<in> set cs. kind (mc_discriminant c) = ty)" if "ty \<noteq> DiscTypeNone" for ty
      using that by (induction cs) auto
    with ne have "kinds_from DiscTypeNone (c # cs) ty' \<longleftrightarrow> (\<forall>e \<in> set (c # cs). kind (mc_discriminant e) = ty')" by auto
    also have "\<dots> \<longleftrightarrow> (\<exists>k \<le> length (c # cs). (\<forall>c \<in> set (take k (c # cs)). mc_discriminant c = None) \<and>
        (\<forall>c \<in> set (drop k (c # cs)). kind (mc_discriminant c) = ty') \<and> (k = length (c # cs) \<longleftrightarrow> ty' = DiscTypeNone))" (is "_ \<longleftrightarrow> (\<exists>k \<le> _. ?P k)")
    proof
      assume "\<forall>e \<in> set (c # cs). kind (mc_discriminant e) = ty'"
      with ne have "?P 0" by auto
      then show "\<exists>k \<le> length (c # cs). ?P k" by blast
    next
      assume "\<exists>k \<le> length (c # cs). ?P k"
      then obtain k where "?P k" by blast
      moreover from this Some have "k = 0" by (cases k) auto
      ultimately show "\<forall>e \<in> set (c # cs). kind (mc_discriminant e) = ty'" by simp
    qed
    finally show ?thesis .
  qed
qed

lemma enum_parser_Inr:
  "enum_parser to_case ident attr vs = Inr en \<longleftrightarrow>
     list_all2 (variant_case to_case attr) vs (en_cases en) \<and> kinds_from DiscTypeNone (en_cases en) (en_discriminant_type en) \<and>
     distinct (discriminants (en_cases en)) \<and>
     en_name en = php_rename_item to_case (ea_rename attr) (ident_to_php_name ident) RulePascal \<and>
     validate_php_name (en_name en) CtxEnum = Inr () \<and> en_docs en = ea_docs attr"
proof -
  have "enum_parser to_case ident attr vs = Inr en \<longleftrightarrow>
      (\<exists>ty cs. parse_variants to_case attr vs DiscTypeNone [] = Inr (ty, cs) \<and> enum_new to_case ident attr cs ty = Inr en)"
    by (auto simp: enum_parser_def split: sum.splits prod.splits)
  then show ?thesis
    by (cases en; cases "validate_php_name (php_rename_item to_case (ea_rename attr) (ident_to_php_name ident) RulePascal) CtxEnum")
      (auto simp: parse_variants_Inr enum_new_def Let_def)
qed

lemma accepted_kinds:
  assumes "kinds_from DiscTypeNone cs ty"
  shows "ty = DiscTypeNone \<longleftrightarrow> (\<forall>c \<in> set cs. mc_discriminant c = None)"
    and "\<forall>c \<in> set cs. mc_discriminant c \<noteq> None \<Longrightarrow> \<forall>c \<in> set cs. kind (mc_discriminant c) = ty"
proof -
  from assms obtain k where k: "k \<le> length cs" "\<forall>c \<in> set (take k cs). mc_discriminant c = None"
    "\<forall>c \<in> set (drop k cs). kind (mc_discriminant c) = ty" "k = length cs \<longleftrightarrow> ty = DiscTypeNone"
    unfolding kinds_from_None by blast
  show "ty = DiscTypeNone \<longleftrightarrow> (\<forall>c \<in> set cs. mc_discriminant c = None)"
  proof (cases "k = length cs")
    case True
    with k show ?thesis by simp
  next
    case False
    with k(1) have "cs ! k \<in> set (drop k cs)" by (auto simp: in_set_conv_nth intro!: exI [of _ 0])
    with k(3,4) False show ?thesis by (metis in_set_dropD kind_None)
  qed
  assume all: "\<forall>c \<in> set cs. mc_discriminant c \<noteq> None"
  then have "take k cs = []" using k(2) by (metis in_set_takeD last_in_set)
  with k(3) show "\<forall>c \<in> set cs. kind (mc_discriminant c) = ty" by (metis append_Nil append_take_drop_id)
qed

lemma enum_expands_iff:
  "enum_expands en \<longleftrightarrow> en_discriminant_type en = DiscTypeNone \<or> (\<forall>c \<in> set (en_cases en). mc_discriminant c \<noteq> None)"
  by (auto simp: enum_expands_def impl_try_from_def impl_into_def all_discriminants_def list_all_iff)

lemma data_type_kind:
  "enum_case_data_type \<lparr>cs_name = n, cs_discriminant = d, cs_docs = docs\<rparr> =
     (case kind d of DiscTypeNone \<Rightarrow> DtUndef | DiscTypeString \<Rightarrow> DtString | DiscTypeInteger \<Rightarrow> DtLong)"
  by (auto simp: enum_case_data_type_def kind_def split: option.splits discriminant.splits)

lemma enum_builder_kinds:
  "enum_builder_of (registered_enum en ms ks) \<noteq> None \<longleftrightarrow>
     (\<forall>c \<in> set (en_cases en). \<forall>d \<in> set (en_cases en). kind (mc_discriminant c) = kind (mc_discriminant d))"
proof (cases "en_cases en")
  case (Cons c cs)
  have inj: "(case a of DiscTypeNone \<Rightarrow> DtUndef | DiscTypeString \<Rightarrow> DtString | DiscTypeInteger \<Rightarrow> DtLong) =
      (case b of DiscTypeNone \<Rightarrow> DtUndef | DiscTypeString \<Rightarrow> DtString | DiscTypeInteger \<Rightarrow> DtLong) \<longleftrightarrow> a = b" for a b
    by (cases a; cases b) simp_all
  have "enum_builder_of (registered_enum en ms ks) \<noteq> None \<longleftrightarrow> (\<forall>d \<in> set cs. kind (mc_discriminant d) = kind (mc_discriminant c))"
    by (simp add: enum_builder_of_eq registered_enum_def Cons data_type_kind inj)
  then show ?thesis unfolding Cons by auto
qed (simp add: enum_builder_of_eq registered_enum_def)

lemma discriminants_all: "\<forall>c \<in> set cs. mc_discriminant c \<noteq> None \<Longrightarrow> discriminants cs = map (\<lambda>c. the (mc_discriminant c)) cs"
  by (induction cs) auto

lemma find_value: "distinct (map snd xs) \<Longrightarrow> find (\<lambda>(_, d'). d' = d) xs = Some (w, e) \<longleftrightarrow> (w, e) \<in> set xs \<and> e = d"
  by (induction xs) force+

section \<open>Properties\<close>

text \<open>Discriminants that start at some case go on to the end: from the first case, in no case, or from one in between.\<close>

lemma kinds_from_uniform:
  "kinds_from DiscTypeNone cs ty \<and> (ty = DiscTypeNone \<or> (\<forall>c \<in> set cs. mc_discriminant c \<noteq> None)) \<longleftrightarrow>
     (\<forall>c \<in> set cs. kind (mc_discriminant c) = ty) \<and> (cs = [] \<longrightarrow> ty = DiscTypeNone)"
  (is "?L \<longleftrightarrow> ?R")
proof
  assume L: ?L
  then have acc: "kinds_from DiscTypeNone cs ty" ..
  from L accepted_kinds [OF acc] kind_None have "\<forall>c \<in> set cs. kind (mc_discriminant c) = ty" by metis
  moreover from acc have "cs = [] \<longrightarrow> ty = DiscTypeNone" by auto
  ultimately show ?R by blast
next
  assume R: ?R
  have "kinds_from DiscTypeNone cs ty"
    unfolding kinds_from_None
  proof (cases "ty = DiscTypeNone")
    case True
    with R show "\<exists>k \<le> length cs. (\<forall>c \<in> set (take k cs). mc_discriminant c = None) \<and> (\<forall>c \<in> set (drop k cs). kind (mc_discriminant c) = ty) \<and>
        (k = length cs \<longleftrightarrow> ty = DiscTypeNone)"
      by (intro exI [of _ "length cs"]) auto
  next
    case False
    with R show "\<exists>k \<le> length cs. (\<forall>c \<in> set (take k cs). mc_discriminant c = None) \<and> (\<forall>c \<in> set (drop k cs). kind (mc_discriminant c) = ty) \<and>
        (k = length cs \<longleftrightarrow> ty = DiscTypeNone)"
      by (intro exI [of _ 0]) auto
  qed
  then show ?L using R by (metis kind_None)
qed

lemma kinds_from_partial:
  "kinds_from DiscTypeNone cs ty \<and> \<not> (ty = DiscTypeNone \<or> (\<forall>c \<in> set cs. mc_discriminant c \<noteq> None)) \<longleftrightarrow>
     ty \<noteq> DiscTypeNone \<and> (\<exists>k. 0 < k \<and> k < length cs \<and> (\<forall>c \<in> set (take k cs). mc_discriminant c = None) \<and>
       (\<forall>c \<in> set (drop k cs). kind (mc_discriminant c) = ty))"
  (is "?L \<longleftrightarrow> ?R")
proof
  assume L: ?L
  then obtain k where k: "k \<le> length cs" "\<forall>c \<in> set (take k cs). mc_discriminant c = None"
    "\<forall>c \<in> set (drop k cs). kind (mc_discriminant c) = ty" "k = length cs \<longleftrightarrow> ty = DiscTypeNone"
    unfolding kinds_from_None by blast
  with L have "k < length cs" by auto
  moreover have "k \<noteq> 0"
  proof
    assume "k = 0"
    with k(3) L have "\<forall>c \<in> set cs. mc_discriminant c \<noteq> None" by (metis drop_0 kind_None)
    with L show False by blast
  qed
  ultimately show ?R using k L by auto
next
  assume R: ?R
  then obtain k where k: "0 < k" "k < length cs" "\<forall>c \<in> set (take k cs). mc_discriminant c = None"
    "\<forall>c \<in> set (drop k cs). kind (mc_discriminant c) = ty" by blast
  have "kinds_from DiscTypeNone cs ty" unfolding kinds_from_None using k R by (intro exI [of _ k]) auto
  moreover have "cs ! 0 \<in> set (take k cs)" using k by (auto simp: in_set_conv_nth intro!: exI [of _ 0])
  ultimately show ?L using k R by (metis in_set_takeD)
qed

text \<open>C33. What the enum macro does with an enum. It expands exactly when every variant is a unit variant with a usable discriminant
  (native ones only where allowed) and an allowed name, no discriminant occurs twice, the name of the
  enum is allowed, and the discriminants are of one kind: no case has one, or all have an integer, or all a string. The expansion
  then has these cases in order, and this kind. It panics exactly when all this holds except that one or more leading cases lack
  a discriminant that the rest has; every other enum is refused with an error.\<close>

theorem enum_macro_accepts:
  "let n = php_rename_item to_case (ea_rename attr) (ident_to_php_name ident) RulePascal;
       usable = (\<lambda>cs. list_all2 (variant_case to_case attr) vs cs \<and> distinct (discriminants cs) \<and> validate_php_name n CtxEnum = Inr ())
   in (enum_macro to_case ident attr vs = Expanded en \<longleftrightarrow>
         usable (en_cases en) \<and> list_all (\<lambda>c. kind (mc_discriminant c) = en_discriminant_type en) (en_cases en) \<and>
         \<not> (en_cases en = [] \<and> en_discriminant_type en \<noteq> DiscTypeNone) \<and> en_name en = n \<and> en_docs en = ea_docs attr) \<and>
      (enum_macro to_case ident attr vs = MacroPanics \<longleftrightarrow>
         (\<exists>cs k ty. usable cs \<and> 0 < k \<and> k < length cs \<and> ty \<noteq> DiscTypeNone \<and>
            list_all (\<lambda>c. mc_discriminant c = None) (take k cs) \<and> list_all (\<lambda>c. kind (mc_discriminant c) = ty) (drop k cs)))"
proof -
  let ?n = "php_rename_item to_case (ea_rename attr) (ident_to_php_name ident) RulePascal"
  have "enum_macro to_case ident attr vs = Expanded en \<longleftrightarrow> enum_parser to_case ident attr vs = Inr en \<and> enum_expands en"
    by (auto simp: enum_macro_def split: sum.splits if_splits)
  then have expands: "enum_macro to_case ident attr vs = Expanded en \<longleftrightarrow>
      (list_all2 (variant_case to_case attr) vs (en_cases en) \<and> distinct (discriminants (en_cases en)) \<and> validate_php_name ?n CtxEnum = Inr ()) \<and>
      (\<forall>c \<in> set (en_cases en). kind (mc_discriminant c) = en_discriminant_type en) \<and>
      \<not> (en_cases en = [] \<and> en_discriminant_type en \<noteq> DiscTypeNone) \<and> en_name en = ?n \<and> en_docs en = ea_docs attr"
    unfolding enum_parser_Inr enum_expands_iff
    using kinds_from_uniform [of "en_cases en" "en_discriminant_type en"] by (cases "en_name en = ?n") (simp_all only: simp_thms, blast)
  have "enum_macro to_case ident attr vs = MacroPanics \<longleftrightarrow> (\<exists>en. enum_parser to_case ident attr vs = Inr en \<and> \<not> enum_expands en)"
    by (auto simp: enum_macro_def split: sum.splits if_splits)
  also have "\<dots> \<longleftrightarrow> (\<exists>cs ty. list_all2 (variant_case to_case attr) vs cs \<and> distinct (discriminants cs) \<and> validate_php_name ?n CtxEnum = Inr () \<and>
      kinds_from DiscTypeNone cs ty \<and> \<not> (ty = DiscTypeNone \<or> (\<forall>c \<in> set cs. mc_discriminant c \<noteq> None)))"
    (is "?L \<longleftrightarrow> (\<exists>cs ty. ?partial cs ty)")
  proof
    assume ?L
    then show "\<exists>cs ty. ?partial cs ty" unfolding enum_parser_Inr enum_expands_iff by metis
  next
    assume "\<exists>cs ty. ?partial cs ty"
    then obtain cs ty where "?partial cs ty" by blast
    then show ?L unfolding enum_parser_Inr enum_expands_iff
      by (intro exI [of _ "\<lparr>en_name = ?n, en_discriminant_type = ty, en_docs = ea_docs attr, en_cases = cs\<rparr>"]) simp
  qed
  finally show ?thesis
    unfolding kinds_from_partial expands Let_def list_all_iff by blast
qed

text \<open>C32. The generated code and the builder: an accepted enum expands exactly when registering it does not panic, and
  then its values and their discriminants are in one-to-one correspondence through the two generated
  conversions.\<close>

theorem enum_discriminant_roundtrip:
  assumes "enum_parser to_case ident attr vs = Inr en" and "distinct (map va_ident vs)"
  shows "(enum_expands en \<longleftrightarrow> enum_builder_of (registered_enum en ms ks) \<noteq> None) \<and>
    (case (impl_into en, impl_try_from en) of
       (Some (Some into), Some (Some try_from)) \<Rightarrow>
         \<forall>v d. into v = Some d \<longleftrightarrow> try_from d = Inr v
     | (Some None, Some None) \<Rightarrow> \<forall>c \<in> set (en_cases en). mc_discriminant c = None
     | _ \<Rightarrow> \<not> enum_expands en)"
proof
  have acc: "kinds_from DiscTypeNone (en_cases en) (en_discriminant_type en)" "distinct (discriminants (en_cases en))"
    "list_all2 (variant_case to_case attr) vs (en_cases en)"
    using assms(1) by (simp_all add: enum_parser_Inr)
  show "enum_expands en \<longleftrightarrow> enum_builder_of (registered_enum en ms ks) \<noteq> None"
    unfolding enum_expands_iff enum_builder_kinds using accepted_kinds [OF acc(1)] kind_None by metis
  have "map mc_ident (en_cases en) = map va_ident vs"
    using acc(3) by (induction rule: list_all2_induct) (auto simp: variant_case_def)
  with assms(2) have idents: "distinct (map mc_ident (en_cases en))" by simp
  define ds where "ds = map (\<lambda>c. (mc_ident c, the (mc_discriminant c))) (en_cases en)"
  have both: "map_of ds v = Some d \<longleftrightarrow>
      (case find (\<lambda>(_, d'). d' = d) ds of Some (v, _) \<Rightarrow> Inr v | None \<Rightarrow> Inl InvalidProperty) = Inr v"
    if all: "\<forall>c \<in> set (en_cases en). mc_discriminant c \<noteq> None" for v d
  proof -
    have keys: "distinct (map fst ds)" using idents by (simp add: ds_def comp_def)
    have "map snd ds = discriminants (en_cases en)" using all by (simp add: ds_def discriminants_all comp_def)
    with acc(2) have "distinct (map snd ds)" by simp
    from find_value [OF this] have find_d: "find (\<lambda>(_, d'). d' = d) ds = Some (w, e) \<longleftrightarrow> (w, e) \<in> set ds \<and> e = d" for w e .
    have "map_of ds v = Some d \<longleftrightarrow> (v, d) \<in> set ds" using keys by (rule map_of_eq_Some_iff)
    also have "\<dots> \<longleftrightarrow> find (\<lambda>(_, d'). d' = d) ds = Some (v, d)" using find_d by simp
    also have "\<dots> \<longleftrightarrow> (case find (\<lambda>(_, d'). d' = d) ds of Some (v, _) \<Rightarrow> Inr v | None \<Rightarrow> Inl InvalidProperty) = Inr v"
      using find_d by (cases "find (\<lambda>(_, d'). d' = d) ds") auto
    finally show ?thesis .
  qed
  show "case (impl_into en, impl_try_from en) of
       (Some (Some into), Some (Some try_from)) \<Rightarrow> \<forall>v d. into v = Some d \<longleftrightarrow> try_from d = Inr v
     | (Some None, Some None) \<Rightarrow> \<forall>c \<in> set (en_cases en). mc_discriminant c = None
     | _ \<Rightarrow> \<not> enum_expands en"
    using both accepted_kinds(1) [OF acc(1)]
    by (simp add: ds_def [symmetric] impl_into_def impl_try_from_def all_discriminants_def list_all_iff enum_expands_iff)
qed

text \<open>Two cases with integers; the same enum with its first integer left out is accepted but does not expand.\<close>

definition demo_attr :: enum_attribute where
  "demo_attr = \<lparr>ea_rename = \<lparr>pr_name = None, pr_change_case = None\<rparr>, ea_allow_native_discriminants = False,
     ea_rename_cases = Some RuleNone, ea_docs = []\<rparr>"

definition demo_variant :: "string \<Rightarrow> lit option \<Rightarrow> variant" where
  "demo_variant n l = \<lparr>va_ident = n, va_unit = True, va_native = False, va_rename = \<lparr>pr_name = None, pr_change_case = None\<rparr>,
     va_value = l, va_docs = []\<rparr>"

definition demo_enum :: "lit option \<Rightarrow> enum_error + macro_enum" where
  "demo_enum l = enum_parser (\<lambda>_ n. n) ''Suit'' demo_attr [demo_variant ''A'' l, demo_variant ''B'' (Some (LitInt 2))]"

theorem enum_discriminant_roundtrip_witness:
  "\<exists>en into try_from. demo_enum (Some (LitInt 1)) = Inr en \<and> impl_into en = Some (Some into) \<and> impl_try_from en = Some (Some try_from) \<and>
     into ''B'' = Some (DiscInt 2) \<and> try_from (DiscInt 2) = Inr ''B'' \<and>
     (\<exists>en'. demo_enum None = Inr en' \<and> \<not> enum_expands en')"
proof -
  have names: "validate_php_name ''A'' CtxEnumCase = Inr ()" "validate_php_name ''B'' CtxEnumCase = Inr ()"
    "validate_php_name ''Suit'' CtxEnum = Inr ()"
    by code_simp+
  have idents: "ident_to_php_name ''A'' = ''A''" "ident_to_php_name ''B'' = ''B''" "ident_to_php_name ''Suit'' = ''Suit''"
    by code_simp+
  note defs = demo_enum_def enum_parser_def enum_new_def variant_discriminant_def discriminant_try_from_def next_discriminant_type_def
    case_name_def php_rename_item_def effective_rule_def demo_attr_def demo_variant_def i64_defs names idents
  obtain en where en: "demo_enum (Some (LitInt 1)) = Inr en"
    "en_cases en = [\<lparr>mc_ident = ''A'', mc_name = ''A'', mc_discriminant = Some (DiscInt 1), mc_docs = []\<rparr>,
      \<lparr>mc_ident = ''B'', mc_name = ''B'', mc_discriminant = Some (DiscInt 2), mc_docs = []\<rparr>]"
    "en_discriminant_type en = DiscTypeInteger"
    by (simp add: defs)
  have partial: "\<exists>en'. demo_enum None = Inr en' \<and> \<not> enum_expands en'"
    by (simp add: defs enum_expands_iff)
  have "distinct (map va_ident [demo_variant ''A'' (Some (LitInt 1)), demo_variant ''B'' (Some (LitInt 2))])"
    by (simp add: demo_variant_def)
  from enum_discriminant_roundtrip [OF en(1) [unfolded demo_enum_def] this, where ms = "[] :: (unit function_builder \<times> u32) list" and ks = "[]"]
  obtain into try_from where "impl_into en = Some (Some into)" "impl_try_from en = Some (Some try_from)"
    "\<forall>v d. into v = Some d \<longleftrightarrow> try_from d = Inr v"
    using en(2,3) by (auto simp: impl_into_def impl_try_from_def all_discriminants_def)
  moreover from this(1) have "into ''B'' = Some (DiscInt 2)"
    using en(2,3) by (auto simp: impl_into_def all_discriminants_def)
  ultimately show ?thesis using en(1) partial by blast
qed

end
