(* ===== verification/PhpEval.thy ===== *)
theory PhpEval
  imports Bailout
begin

text \<open>
  \<open>src/php_eval.rs\<close>: running PHP code embedded in the extension. The engine's globals the function
  touches are the error-reporting level and the pending exception; everything else of the engine is
  the component \<open>eg_rest\<close>. Compiling and executing are arguments: each may change the globals and may
  leave by a bailout. They are C functions, so they do not panic.
\<close>

datatype php_eval_error = MissingOpenTag | CompilationFailed | ExecutionFailed | EvalBailout

fun php_eval_error_display :: "php_eval_error \<Rightarrow> string" where
  "php_eval_error_display MissingOpenTag = ''PHP code must start with a <?php open tag''"
| "php_eval_error_display CompilationFailed = ''PHP compilation failed (syntax error)''"
| "php_eval_error_display ExecutionFailed = ''PHP execution threw an unhandled exception''"
| "php_eval_error_display EvalBailout = ''PHP fatal error (bailout) during execution''"

record 'w executor_globals =
  eg_error_reporting :: int
  eg_exception :: bool
  eg_rest :: 'w

definition strip_bom :: "string \<Rightarrow> string" where
  "strip_bom code = (if prefix [CHR 0xEF, CHR 0xBB, CHR 0xBF] code then drop 3 code else code)"

definition strip_php_open_tag :: "string \<Rightarrow> string option" where
  "strip_php_open_tag code =
     (let trimmed = dropWhile is_ascii_whitespace code
      in if trimmed = [] then None
         else if 5 \<le> length trimmed \<and> map ascii_lower (take 5 trimmed) = map ascii_lower ''<?php''
         then Some (dropWhile is_ascii_whitespace (drop 5 trimmed))
         else None)"

text \<open>The closure under \<open>try_catch\<close>.\<close>

definition eval_body ::
    "(string \<Rightarrow> 'w executor_globals \<Rightarrow> 'op option run \<times> 'w executor_globals) \<Rightarrow>
     ('op \<Rightarrow> 'w executor_globals \<Rightarrow> unit run \<times> 'w executor_globals) \<Rightarrow>
     string \<Rightarrow> 'w executor_globals \<Rightarrow> (php_eval_error + unit) run \<times> 'w executor_globals" where
  "eval_body compile exec source eg =
     (case compile source eg of
        (Returns None, eg) \<Rightarrow> (Returns (Inl CompilationFailed), eg)
      | (Returns (Some op_array), eg) \<Rightarrow>
          (case exec op_array eg of
             (Returns _, eg) \<Rightarrow> (Returns (if eg_exception eg then Inl ExecutionFailed else Inr ()), eg)
           | (Panics e, eg) \<Rightarrow> (Panics e, eg)
           | (Bails, eg) \<Rightarrow> (Bails, eg))
      | (Panics e, eg) \<Rightarrow> (Panics e, eg)
      | (Bails, eg) \<Rightarrow> (Bails, eg))"

definition php_execute ::
    "(string \<Rightarrow> 'w executor_globals \<Rightarrow> 'op option run \<times> 'w executor_globals) \<Rightarrow>
     ('op \<Rightarrow> 'w executor_globals \<Rightarrow> unit run \<times> 'w executor_globals) \<Rightarrow>
     string \<Rightarrow> 'w executor_globals \<Rightarrow> (php_eval_error + unit) caught \<times> 'w executor_globals" where
  "php_execute compile exec code eg =
     (case strip_php_open_tag (strip_bom code) of
        None \<Rightarrow> (TryOk (Inl MissingOpenTag), eg)
      | Some source \<Rightarrow>
          if source = [] then (TryOk (Inr ()), eg)
          else
            let prev_error_reporting = eg_error_reporting eg;
                (r, eg') = eval_body compile exec source (eg\<lparr>eg_error_reporting := 0\<rparr>)
            in case do_try_catch r of
                 ResumesPanic e \<Rightarrow> (ResumesPanic e, eg')
               | CatchError \<Rightarrow> (TryOk (Inl EvalBailout), eg'\<lparr>eg_error_reporting := prev_error_reporting\<rparr>)
               | TryOk inner \<Rightarrow> (TryOk inner, eg'\<lparr>eg_error_reporting := prev_error_reporting\<rparr>))"

section \<open>Lemmas\<close>

lemma do_try_catch_simps [simp]:
  "do_try_catch (Returns r) = TryOk r" "do_try_catch (Panics e) = ResumesPanic e" "do_try_catch Bails = CatchError"
  by (simp_all add: do_try_catch_def panic_wrapper_def)

text \<open>What the engine is asked to do and how it went, for code that passed the tag check.\<close>

lemma php_execute_runs:
  assumes "strip_php_open_tag (strip_bom code) = Some source" and "source \<noteq> []"
  shows "php_execute compile exec code eg =
     (case eval_body compile exec source (eg\<lparr>eg_error_reporting := 0\<rparr>) of
        (Returns r, eg') \<Rightarrow> (TryOk r, eg'\<lparr>eg_error_reporting := eg_error_reporting eg\<rparr>)
      | (Bails, eg') \<Rightarrow> (TryOk (Inl EvalBailout), eg'\<lparr>eg_error_reporting := eg_error_reporting eg\<rparr>)
      | (Panics e, eg') \<Rightarrow> (ResumesPanic e, eg'))"
  using assms by (simp add: php_execute_def split: prod.splits run.splits)

text \<open>Code and the source after its open tag: a byte order mark or none, white space, the tag in any case, white space, and the source,
  which does not start with white space.\<close>

definition embedded_source :: "string \<Rightarrow> string \<Rightarrow> bool" where
  "embedded_source code source \<longleftrightarrow>
     (\<exists>bom ws tag ws'. code = bom @ ws @ tag @ ws' @ source \<and> (bom = [] \<or> bom = [CHR 0xEF, CHR 0xBB, CHR 0xBF]) \<and>
        list_all is_ascii_whitespace ws \<and> map ascii_lower tag = ''<?php'' \<and> list_all is_ascii_whitespace ws' \<and>
        \<not> (source \<noteq> [] \<and> is_ascii_whitespace (source ! 0)))"

lemma dropWhile_prefix:
  "list_all P xs \<Longrightarrow> \<not> (ys \<noteq> [] \<and> P (ys ! 0)) \<Longrightarrow> dropWhile P (xs @ ys) = ys"
  by (induction xs) (auto simp: neq_Nil_conv dropWhile_eq_self_iff hd_conv_nth)

lemma tag_first:
  assumes "map ascii_lower tag = ''<?php''"
  shows "length tag = 5" and "\<not> is_ascii_whitespace (tag ! 0)" and "tag ! 0 \<noteq> CHR 0xEF"
proof -
  from assms show len: "length tag = 5" by (metis length_map length_Cons list.size(3) numeral_eq_Suc pred_numeral_simps(2,3) BitM.simps eval_nat_numeral)
  from assms len have "ascii_lower (tag ! 0) = CHR ''<''" by (metis nth_Cons_0 nth_map zero_less_numeral)
  then show "\<not> is_ascii_whitespace (tag ! 0)" "tag ! 0 \<noteq> CHR 0xEF"
    by (auto simp: is_ascii_whitespace_def ascii_lower_def split: if_splits)
qed

text \<open>The two strips find exactly that source.\<close>

lemma strip_tag_iff: "strip_php_open_tag (strip_bom code) = Some source \<longleftrightarrow> embedded_source code source"
proof
  assume L: "strip_php_open_tag (strip_bom code) = Some source"
  let ?code = "strip_bom code" and ?W = is_ascii_whitespace
  let ?trimmed = "dropWhile ?W ?code"
  from L have t: "5 \<le> length ?trimmed" "map ascii_lower (take 5 ?trimmed) = ''<?php''" "source = dropWhile ?W (drop 5 ?trimmed)"
    by (simp_all add: strip_php_open_tag_def Let_def ascii_lower_def split: if_splits)
  obtain bom where bom: "code = bom @ ?code" "bom = [] \<or> bom = [CHR 0xEF, CHR 0xBB, CHR 0xBF]"
    by (cases "prefix [CHR 0xEF, CHR 0xBB, CHR 0xBF] code") (auto simp: strip_bom_def prefix_def)
  have "code = bom @ takeWhile ?W ?code @ take 5 ?trimmed @ takeWhile ?W (drop 5 ?trimmed) @ source"
    using bom(1) t(3) by (metis append_take_drop_id takeWhile_dropWhile_id)
  moreover have "\<not> (source \<noteq> [] \<and> ?W (source ! 0))" unfolding t(3) by (metis hd_conv_nth hd_dropWhile)
  ultimately show "embedded_source code source"
    unfolding embedded_source_def using bom(2) t(2)
    by (intro exI [of _ bom] exI [of _ "takeWhile ?W ?code"] exI [of _ "take 5 ?trimmed"] exI [of _ "takeWhile ?W (drop 5 ?trimmed)"] conjI)
      (simp_all only: list_all_iff, (blast dest: set_takeWhileD)+)
next
  assume "embedded_source code source"
  then obtain bom ws tag ws' where c: "code = bom @ ws @ tag @ ws' @ source" "bom = [] \<or> bom = [CHR 0xEF, CHR 0xBB, CHR 0xBF]"
    "list_all is_ascii_whitespace ws" "map ascii_lower tag = ''<?php''" "list_all is_ascii_whitespace ws'"
    "\<not> (source \<noteq> [] \<and> is_ascii_whitespace (source ! 0))"
    unfolding embedded_source_def by (elim exE conjE) (rule that)
  note tag = tag_first [OF c(4)]
  obtain x xs where x: "tag = x # xs" using tag(1) by (cases tag) auto
  have "\<not> prefix [CHR 0xEF, CHR 0xBB, CHR 0xBF] (ws @ tag @ ws' @ source)"
    using c(3) tag(3) by (cases ws) (auto simp: x is_ascii_whitespace_def)
  then have "strip_bom code = ws @ tag @ ws' @ source" using c(1,2) by (auto simp: strip_bom_def)
  moreover have "dropWhile is_ascii_whitespace (ws @ tag @ ws' @ source) = tag @ ws' @ source"
    using tag(2) by (intro dropWhile_prefix [OF c(3)]) (simp add: x)
  moreover have "dropWhile is_ascii_whitespace (ws' @ source) = source" by (rule dropWhile_prefix [OF c(5,6)])
  ultimately show "strip_php_open_tag (strip_bom code) = Some source"
    using tag(1) c(4) by (simp add: strip_php_open_tag_def Let_def x ascii_lower_def)
qed

section \<open>Properties\<close>

text \<open>C38. What running embedded code answers and leaves behind. Without an open tag (after a byte order mark and white space, in
  upper or lower case) the answer is \<open>MissingOpenTag\<close> and the engine is not touched; code that is nothing but the tag succeeds
  without touching it. Otherwise the engine compiles the source after the tag with error reporting off: a bailout of compiler or
  executor is \<open>Bailout\<close>, no compiled code \<open>CompilationFailed\<close>, an exception pending after execution \<open>ExecutionFailed\<close>, and all
  else success. On every one of these paths the error-reporting level is afterwards what it was, and all else is as compiler and
  executor left it. Compiler and executor do not panic, they are C functions.\<close>

theorem php_execute_restores:
  assumes "\<And>s g e. fst (compile s g) \<noteq> Panics e" and "\<And>p g e. fst (exec p g) \<noteq> Panics e"
  shows "(embedded_source code source \<longrightarrow>
      (let restored = (\<lambda>g. g\<lparr>eg_error_reporting := eg_error_reporting eg\<rparr>)
       in php_execute compile exec code eg =
         (if source = [] then (TryOk (Inr ()), eg)
          else case compile source (eg\<lparr>eg_error_reporting := 0\<rparr>) of
            (Returns None, eg1) \<Rightarrow> (TryOk (Inl CompilationFailed), restored eg1)
          | (Returns (Some op_array), eg1) \<Rightarrow>
              (case exec op_array eg1 of
                 (Returns _, eg2) \<Rightarrow> (TryOk (if eg_exception eg2 then Inl ExecutionFailed else Inr ()), restored eg2)
               | (_, eg2) \<Rightarrow> (TryOk (Inl EvalBailout), restored eg2))
          | (_, eg1) \<Rightarrow> (TryOk (Inl EvalBailout), restored eg1)))) \<and>
    ((\<nexists>source. embedded_source code source) \<longrightarrow> php_execute compile exec code eg = (TryOk (Inl MissingOpenTag), eg)) \<and>
    eg_error_reporting (snd (php_execute compile exec code eg)) = eg_error_reporting eg"
proof -
  have compile: "compile s g \<noteq> (Panics e, g')" for s g e g' using assms(1) by (metis fst_conv)
  have exec: "exec p g \<noteq> (Panics e, g')" for p g e g' using assms(2) by (metis fst_conv)
  let ?restored = "\<lambda>g. g\<lparr>eg_error_reporting := eg_error_reporting eg\<rparr>"
  have runs: "php_execute compile exec code eg =
      (if s = [] then (TryOk (Inr ()), eg)
       else case compile s (eg\<lparr>eg_error_reporting := 0\<rparr>) of
            (Returns None, eg1) \<Rightarrow> (TryOk (Inl CompilationFailed), ?restored eg1)
          | (Returns (Some op_array), eg1) \<Rightarrow>
              (case exec op_array eg1 of
                 (Returns _, eg2) \<Rightarrow> (TryOk (if eg_exception eg2 then Inl ExecutionFailed else Inr ()), ?restored eg2)
               | (_, eg2) \<Rightarrow> (TryOk (Inl EvalBailout), ?restored eg2))
          | (_, eg1) \<Rightarrow> (TryOk (Inl EvalBailout), ?restored eg1))" if "embedded_source code s" for s
  proof (cases "s = []")
    case True
    with that show ?thesis by (simp add: php_execute_def flip: strip_tag_iff)
  next
    case False
    show ?thesis
      unfolding php_execute_runs [OF that [folded strip_tag_iff] False] eval_body_def
      using False by (auto simp: compile exec split: prod.splits run.splits option.splits)
  qed
  have missing: "php_execute compile exec code eg = (TryOk (Inl MissingOpenTag), eg)" if "\<nexists>source. embedded_source code source"
    using that by (cases "strip_php_open_tag (strip_bom code)") (auto simp: php_execute_def strip_tag_iff)
  have "eg_error_reporting (snd (php_execute compile exec code eg)) = eg_error_reporting eg"
  proof (cases "\<exists>source. embedded_source code source")
    case True
    then obtain s where "embedded_source code s" ..
    from runs [OF this] show ?thesis by (simp split: prod.splits run.splits option.splits)
  qed (use missing in simp)
  with runs [of source] missing show ?thesis unfolding Let_def by (intro conjI impI)
qed

theorem php_execute_restores_witness:
  "php_execute (\<lambda>s g. (Returns (Some s), g\<lparr>eg_error_reporting := 5\<rparr>)) (\<lambda>_ g. (Bails, g))
      ''<?PHP exit;'' \<lparr>eg_error_reporting = 7, eg_exception = False, eg_rest = ()\<rparr> =
    (TryOk (Inl EvalBailout), \<lparr>eg_error_reporting = 7, eg_exception = False, eg_rest = ()\<rparr>)"
proof -
  have "embedded_source ''<?PHP exit;'' ''exit;''" unfolding strip_tag_iff [symmetric] by code_simp
  with php_execute_restores [of "\<lambda>s g. (Returns (Some s), g\<lparr>eg_error_reporting := 5\<rparr>)" "\<lambda>_ g. (Bails, g)"
      "''<?PHP exit;''" "''exit;''" "\<lparr>eg_error_reporting = 7, eg_exception = False, eg_rest = ()\<rparr>"]
  show ?thesis by simp
qed

end
