(* ===== verification/PhpBuild.thy ===== *)
theory PhpBuild
  imports Prelude
begin

text \<open>
  \<open>crates/php-build/src/lib.rs\<close>, \<open>build.rs\<close> and \<open>unix_build.rs\<close>: what the build script reads from the
  output of \<open>php -i\<close> and the configuration flags and C definitions it derives from the API version.
  Running a process and the environment are outside the model: the texts they give are arguments.
  The lines printed for cargo are a list.
\<close>

section \<open>API versions\<close>

datatype api_version = Php80 | Php81 | Php82 | Php83 | Php84 | Php85

fun api_number :: "api_version \<Rightarrow> nat" where
  "api_number Php80 = 20200930"
| "api_number Php81 = 20210902"
| "api_number Php82 = 20220829"
| "api_number Php83 = 20230831"
| "api_number Php84 = 20240924"
| "api_number Php85 = 20250925"

definition api_max :: api_version where "api_max = Php85"

definition versions :: "api_version list" where
  "versions = [Php80, Php81, Php82, Php83, Php84, Php85]"

text \<open>The derived order of the enumeration is that of its discriminants.\<close>

lemma api_number_inject: "api_number v = api_number w \<longleftrightarrow> v = w"
  by (cases v; cases w) simp_all

instantiation api_version :: linorder
begin

definition less_eq_api_version :: "api_version \<Rightarrow> api_version \<Rightarrow> bool" where
  "less_eq_api_version v w \<longleftrightarrow> api_number v \<le> api_number w"

definition less_api_version :: "api_version \<Rightarrow> api_version \<Rightarrow> bool" where
  "less_api_version v w \<longleftrightarrow> api_number v < api_number w"

instance
  by standard (auto simp: less_eq_api_version_def less_api_version_def api_number_inject)

end

definition supported_apis :: "api_version \<Rightarrow> api_version list" where
  "supported_apis self = filter (\<lambda>v. v \<le> self) versions"

fun cfg_name :: "api_version \<Rightarrow> string" where
  "cfg_name Php80 = ''php80''"
| "cfg_name Php81 = ''php81''"
| "cfg_name Php82 = ''php82''"
| "cfg_name Php83 = ''php83''"
| "cfg_name Php84 = ''php84''"
| "cfg_name Php85 = ''php85''"

fun define_name :: "api_version \<Rightarrow> string" where
  "define_name Php80 = ''EXT_PHP_RS_PHP_80''"
| "define_name Php81 = ''EXT_PHP_RS_PHP_81''"
| "define_name Php82 = ''EXT_PHP_RS_PHP_82''"
| "define_name Php83 = ''EXT_PHP_RS_PHP_83''"
| "define_name Php84 = ''EXT_PHP_RS_PHP_84''"
| "define_name Php85 = ''EXT_PHP_RS_PHP_85''"

datatype build_error =
    UnsupportedVersion nat nat | MissingKey string | BadZendVersion string | BelowMinimum string

definition in_range :: "nat \<Rightarrow> api_version \<Rightarrow> api_version \<Rightarrow> bool" where
  "in_range x a b \<longleftrightarrow> api_number a \<le> x \<and> x < api_number b"

definition api_try_from :: "nat \<Rightarrow> build_error + api_version" where
  "api_try_from version =
     (if in_range version Php80 Php81 then Inr Php80
      else if in_range version Php81 Php82 then Inr Php81
      else if in_range version Php82 Php83 then Inr Php82
      else if in_range version Php83 Php84 then Inr Php83
      else if in_range version Php84 Php85 then Inr Php84
      else if api_number Php85 = version then Inr Php85
      else Inl (UnsupportedVersion version (api_number api_max)))"

section \<open>The output of \<open>php -i\<close>\<close>

text \<open>\<open>line.split(pat)\<close>: the second piece, if there is one, lies between the first two occurrences.\<close>

definition second_piece :: "string \<Rightarrow> string \<Rightarrow> string option" where
  "second_piece pat line =
     (case find_str pat line of
        None \<Rightarrow> None
      | Some i \<Rightarrow>
          (let rest = drop (i + length pat) line
           in Some (case find_str pat rest of None \<Rightarrow> rest | Some j \<Rightarrow> take j rest)))"

fun first_piece_in :: "string \<Rightarrow> string list \<Rightarrow> string option" where
  "first_piece_in pat [] = None"
| "first_piece_in pat (line # ls) = (case second_piece pat line of Some v \<Rightarrow> Some v | None \<Rightarrow> first_piece_in pat ls)"

definition get_key :: "string \<Rightarrow> string \<Rightarrow> string option" where
  "get_key info key = first_piece_in (key @ '' => '') (str_lines info)"

definition thread_safety :: "string \<Rightarrow> build_error + bool" where
  "thread_safety info =
     (case get_key info ''Thread Safety'' of None \<Rightarrow> Inl (MissingKey ''Thread Safety'') | Some v \<Rightarrow> Inr (v = ''enabled''))"

definition php_debug :: "string \<Rightarrow> build_error + bool" where
  "php_debug info =
     (case get_key info ''Debug Build'' of None \<Rightarrow> Inl (MissingKey ''Debug Build'') | Some v \<Rightarrow> Inr (v = ''yes''))"

definition php_version :: "string \<Rightarrow> build_error + string" where
  "php_version info =
     (case get_key info ''PHP Version'' of None \<Rightarrow> Inl (MissingKey ''PHP Version'') | Some v \<Rightarrow> Inr v)"

text \<open>\<open>u32::from_str\<close>: an optional plus sign, at least one digit, and no overflow.\<close>

definition u32_from_str :: "string \<Rightarrow> nat option" where
  "u32_from_str s =
     (let ds = (case s of c # cs \<Rightarrow> if c = CHR ''+'' then cs else s | [] \<Rightarrow> [])
      in if ds = [] \<or> \<not> list_all is_ascii_digit ds \<or> 2 ^ 32 \<le> digits_val ds then None else Some (digits_val ds))"

definition zend_version :: "string \<Rightarrow> build_error + nat" where
  "zend_version info =
     (case get_key info ''PHP API'' of
        None \<Rightarrow> Inl (MissingKey ''PHP API'')
      | Some s \<Rightarrow> (case u32_from_str s of None \<Rightarrow> Inl (BadZendVersion s) | Some n \<Rightarrow> Inr n))"

section \<open>The build script\<close>

definition emit_php_cfg_flags :: "api_version \<Rightarrow> string list" where
  "emit_php_cfg_flags version = map (\<lambda>v. ''cargo:rustc-cfg='' @ cfg_name v) (supported_apis version)"

definition check_cfg_line :: string where
  "check_cfg_line =
     ''cargo::rustc-check-cfg=cfg(php80, php81, php82, php83, php84, php85, php_zts, php_debug, docs)''"

definition add_php_version_defines :: "(string \<times> string) list \<Rightarrow> string \<Rightarrow> build_error + (string \<times> string) list" where
  "add_php_version_defines defines info =
     (case zend_version info of
        Inl e \<Rightarrow> Inl e
      | Inr version \<Rightarrow>
        (case api_try_from version of
           Inl e \<Rightarrow> Inl e
         | Inr v \<Rightarrow> Inr (defines @ map (\<lambda>a. (define_name a, ''1'')) (supported_apis v))))"

text \<open>\<open>enum\<close> is the feature of that name.\<close>

definition min_api_version :: "bool \<Rightarrow> api_version" where
  "min_api_version enum_feature = (if enum_feature then Php81 else Php80)"

definition eol_warning :: string where
  "eol_warning = ''cargo:warning=PHP 8.0 is EOL and is no longer supported. Please upgrade to a supported version of PHP. See https://www.php.net/supported-versions.php for information on version support timelines.''"

text \<open>The lines printed, and the result.\<close>

definition check_php_version :: "bool \<Rightarrow> string \<Rightarrow> string list \<times> (build_error + unit)" where
  "check_php_version enum_feature info =
     (case zend_version info of
        Inl e \<Rightarrow> ([], Inl e)
      | Inr n \<Rightarrow>
        (case api_try_from n of
           Inl e \<Rightarrow> ([], Inl e)
         | Inr version \<Rightarrow>
             (let out = check_cfg_line # (if version = Php80 then [eol_warning] else [])
              in if version < min_api_version enum_feature
                 then (out, Inl (BelowMinimum (cfg_name version)))
                 else (out @ emit_php_cfg_flags version, Inr ()))))"

text \<open>\<open>Provider\<close> of \<open>unix_build.rs\<close>: \<open>out\<close> is what \<open>php-config --includes\<close> prints.\<close>

fun trim_start_I :: "string \<Rightarrow> string" where
  "trim_start_I (a # b # s) = (if a = CHR ''-'' \<and> b = CHR ''I'' then trim_start_I s else a # b # s)"
| "trim_start_I s = s"

definition get_includes :: "string \<Rightarrow> string list" where
  "get_includes out = map trim_start_I (split_char (CHR '' '') out)"

definition get_defines :: "string \<Rightarrow> build_error + (string \<times> string) list" where
  "get_defines info =
     (case thread_safety info of
        Inl e \<Rightarrow> Inl e
      | Inr zts \<Rightarrow> Inr (if zts then [(''ZTS'', ''1'')] else []))"

section \<open>Lemmas\<close>

lemma api_try_from_bounds:
  "api_try_from n = Inr v \<Longrightarrow> api_number v \<le> n \<and> (\<forall>w \<in> set versions. api_number w \<le> n \<longrightarrow> api_number w \<le> api_number v)"
  by (auto simp: api_try_from_def in_range_def versions_def split: if_splits)

lemma api_try_from_ok: "(\<exists>v. api_try_from n = Inr v) \<longleftrightarrow> 20200930 \<le> n \<and> n \<le> 20250925"
  by (auto simp: api_try_from_def in_range_def)

lemma supported_apis_of_number:
  assumes "api_try_from n = Inr v"
  shows "supported_apis v = filter (\<lambda>w. api_number w \<le> n) versions"
  unfolding supported_apis_def less_eq_api_version_def
  using api_try_from_bounds [OF assms] by (intro filter_cong) auto

lemma find_str_Some_first:
  "\<forall>j < length pre. \<not> prefix pat (drop j (pre @ pat @ s)) \<Longrightarrow> find_str pat (pre @ pat @ s) = Some (length pre)"
proof (induction pre)
  case Nil
  have "prefix pat (pat @ s)" by simp
  then show ?case by (cases "pat @ s") (auto simp del: prefix_order.order_refl)
next
  case (Cons c pre)
  have "\<forall>j < length pre. \<not> prefix pat (drop j (pre @ pat @ s))"
    using Cons.prems by (metis Suc_less_eq append_Cons drop_Suc_Cons length_Cons)
  moreover have "\<not> prefix pat (c # pre @ pat @ s)" using Cons.prems by fastforce
  ultimately show ?case using Cons.IH by simp
qed

lemma second_piece_key:
  assumes "find_str (key @ '' => '') val = None"
  shows "second_piece (key @ '' => '') ((key @ '' => '') @ val) = Some val"
  using find_str_Some_first [of "[]" "key @ '' => ''" val] assms
  by (simp add: second_piece_def)

lemma first_piece_in_skip:
  "\<forall>l \<in> set pre. find_str pat l = None \<Longrightarrow> first_piece_in pat (pre @ ls) = first_piece_in pat ls"
  by (induction pre) (auto simp: second_piece_def)

section \<open>Properties\<close>

text \<open>The build script accepts exactly the API numbers from PHP 8.0 to PHP 8.5, and for an accepted number
  the flags and the C definitions stack: one for every known version whose number is at most the
  installed one, oldest first.\<close>

theorem version_flags_stack:
  "(case api_try_from n of
      Inr v \<Rightarrow> 20200930 \<le> n \<and> n \<le> 20250925 \<and>
        emit_php_cfg_flags v = map (\<lambda>w. ''cargo:rustc-cfg='' @ cfg_name w) (filter (\<lambda>w. api_number w \<le> n) versions)
    | Inl e \<Rightarrow> e = UnsupportedVersion n 20250925 \<and> (n < 20200930 \<or> 20250925 < n)) \<and>
   add_php_version_defines ds info =
     (case zend_version info of
        Inl e \<Rightarrow> Inl e
      | Inr k \<Rightarrow>
          if 20200930 \<le> k \<and> k \<le> 20250925
          then Inr (ds @ map (\<lambda>w. (define_name w, ''1'')) (filter (\<lambda>w. api_number w \<le> k) versions))
          else Inl (UnsupportedVersion k 20250925))"
proof -
  have "case api_try_from k of
      Inr v \<Rightarrow> 20200930 \<le> k \<and> k \<le> 20250925 \<and> supported_apis v = filter (\<lambda>w. api_number w \<le> k) versions
    | Inl e \<Rightarrow> e = UnsupportedVersion k 20250925 \<and> (k < 20200930 \<or> 20250925 < k)" for k
  proof (cases "api_try_from k")
    case (Inl e)
    then have "\<not> (20200930 \<le> k \<and> k \<le> 20250925)" using api_try_from_ok [of k] by auto
    with Inl show ?thesis by (auto simp: api_try_from_def api_max_def split: if_splits)
  next
    case (Inr v)
    then show ?thesis using api_try_from_ok [of k] supported_apis_of_number [OF Inr] by auto
  qed
  note facts = this
  show ?thesis
    using facts [of n] facts [of "projr (zend_version info)"]
    by (auto simp: emit_php_cfg_flags_def add_php_version_defines_def split: sum.splits)
qed

text \<open>A key of the \<open>php -i\<close> output is read from the first line that holds it: with no earlier line containing
  the key and an arrow, the value is the rest of the line.\<close>

theorem get_key_first_line:
  assumes "str_lines info = pre @ (key @ '' => '' @ val) # post"
    and "\<forall>l \<in> set pre. find_str (key @ '' => '') l = None" and "find_str (key @ '' => '') val = None"
  shows "get_key info key = Some val"
  using assms second_piece_key [of key val] first_piece_in_skip [of pre "key @ '' => ''"]
  by (simp add: get_key_def)

theorem get_key_first_line_witness:
  "get_key (''phpinfo()'' @ [CHR 0x0A] @ ''PHP API => 20240924'' @ [CHR 0x0A]) ''PHP API'' = Some ''20240924''"
proof (rule get_key_first_line)
  show "str_lines (''phpinfo()'' @ [CHR 0x0A] @ ''PHP API => 20240924'' @ [CHR 0x0A]) =
      [''phpinfo()''] @ (''PHP API'' @ '' => '' @ ''20240924'') # []"
    by (simp add: str_lines_def strip_cr_def)
qed (simp_all)

end
