(* ===== verification/HashTable.thy ===== *)
theory HashTable
  imports Coerce "HOL-Library.AList"
begin

text \<open>
  \<open>src/types/array/mod.rs\<close> and \<open>src/types/array/entry.rs\<close>: the array operations and the entry API.
  The hash table itself belongs to the engine: its functions are the fields of a record that every
  operation takes, and what the engine documents of them is a predicate over the ordered list of
  entries a table stands for. A pointer to an element is the element; null is \<open>None\<close>. The value a
  caller passes is the result of its \<open>into_zval\<close>. Elements are opaque: the counting of references
  is the subject of theory \<open>Zval\<close>.
\<close>

section \<open>The engine's interface\<close>

datatype hkey = HIdx u64 | HStr string

record ('h, 'v) hash_api =
  ha_new :: "u32 \<Rightarrow> 'h option"
  ha_count :: "'h \<Rightarrow> u32"
  ha_clean :: "'h \<Rightarrow> 'h"
  ha_index_find :: "'h \<Rightarrow> u64 \<Rightarrow> 'v option"
  ha_str_find :: "'h \<Rightarrow> string \<Rightarrow> 'v option"
  ha_find :: "'h \<Rightarrow> zend_str \<Rightarrow> 'v option"
  ha_index_del :: "'h \<Rightarrow> u64 \<Rightarrow> int \<times> 'h"
  ha_str_del :: "'h \<Rightarrow> string \<Rightarrow> int \<times> 'h"
  ha_del :: "'h \<Rightarrow> zend_str \<Rightarrow> int \<times> 'h"
  ha_index_update :: "'h \<Rightarrow> u64 \<Rightarrow> 'v \<Rightarrow> 'v option \<times> 'h"
  ha_str_update :: "'h \<Rightarrow> string \<Rightarrow> 'v \<Rightarrow> 'v option \<times> 'h"
  ha_update :: "'h \<Rightarrow> zend_str \<Rightarrow> 'v \<Rightarrow> 'v option \<times> 'h"
  ha_next_index_insert :: "'h \<Rightarrow> 'v \<Rightarrow> 'v option \<times> 'h"

section \<open>Operations\<close>

text \<open>\<open>None\<close> is the panic on a failed allocation.\<close>

definition ht_with_capacity :: "('h, 'v) hash_api \<Rightarrow> u32 \<Rightarrow> 'h option" where
  "ht_with_capacity api capacity = ha_new api capacity"

definition ht_new :: "('h, 'v) hash_api \<Rightarrow> 'h option" where
  "ht_new api = ht_with_capacity api HT_MIN_SIZE"

definition ht_len :: "('h, 'v) hash_api \<Rightarrow> 'h \<Rightarrow> nat" where
  "ht_len api h = unat (ha_count api h)"

definition ht_is_empty :: "('h, 'v) hash_api \<Rightarrow> 'h \<Rightarrow> bool" where
  "ht_is_empty api h \<longleftrightarrow> ht_len api h = 0"

definition ht_clear :: "('h, 'v) hash_api \<Rightarrow> 'h \<Rightarrow> 'h" where
  "ht_clear api h = ha_clean api h"

definition ht_get :: "('h, 'v) hash_api \<Rightarrow> 'h \<Rightarrow> array_key \<Rightarrow> 'v option" where
  "ht_get api h key =
     (case key of
        KLong index \<Rightarrow> ha_index_find api h (word_of_int index)
      | KString k \<Rightarrow> ha_str_find api h k
      | KStr k \<Rightarrow> ha_str_find api h k
      | KZendString k \<Rightarrow> ha_find api h k)"

definition ht_get_index :: "('h, 'v) hash_api \<Rightarrow> 'h \<Rightarrow> int \<Rightarrow> 'v option" where
  "ht_get_index api h key = ha_index_find api h (word_of_int key)"

definition ht_has_key :: "('h, 'v) hash_api \<Rightarrow> 'h \<Rightarrow> array_key \<Rightarrow> bool" where
  "ht_has_key api h key =
     (case key of
        KLong index \<Rightarrow> ha_index_find api h (word_of_int index) \<noteq> None
      | KString k \<Rightarrow> ha_str_find api h k \<noteq> None
      | KStr k \<Rightarrow> ha_str_find api h k \<noteq> None
      | KZendString k \<Rightarrow> ha_find api h k \<noteq> None)"

definition ht_remove :: "('h, 'v) hash_api \<Rightarrow> 'h \<Rightarrow> array_key \<Rightarrow> unit option \<times> 'h" where
  "ht_remove api h key =
     (let (result, h') =
        (case key of
           KLong index \<Rightarrow> ha_index_del api h (word_of_int index)
         | KString k \<Rightarrow> ha_str_del api h k
         | KStr k \<Rightarrow> ha_str_del api h k
         | KZendString k \<Rightarrow> ha_del api h k)
      in (if result < 0 then None else Some (), h'))"

definition ht_remove_index :: "('h, 'v) hash_api \<Rightarrow> 'h \<Rightarrow> int \<Rightarrow> unit option \<times> 'h" where
  "ht_remove_index api h key =
     (let (result, h') = ha_index_del api h (word_of_int key) in (if result < 0 then None else Some (), h'))"

definition ht_insert :: "('h, 'v) hash_api \<Rightarrow> 'h \<Rightarrow> array_key \<Rightarrow> error + 'v \<Rightarrow> (error + unit) \<times> 'h" where
  "ht_insert api h key val =
     (case val of
        Inl e \<Rightarrow> (Inl e, h)
      | Inr v \<Rightarrow>
          (Inr (), case key of
             KLong index \<Rightarrow> snd (ha_index_update api h (word_of_int index) v)
           | KString k \<Rightarrow> snd (ha_str_update api h k v)
           | KStr k \<Rightarrow> snd (ha_str_update api h k v)
           | KZendString k \<Rightarrow> snd (ha_update api h k v)))"

definition ht_insert_at_index :: "('h, 'v) hash_api \<Rightarrow> 'h \<Rightarrow> int \<Rightarrow> error + 'v \<Rightarrow> (error + unit) \<times> 'h" where
  "ht_insert_at_index api h key val =
     (case val of
        Inl e \<Rightarrow> (Inl e, h)
      | Inr v \<Rightarrow> (Inr (), snd (ha_index_update api h (word_of_int key) v)))"

definition ht_push :: "('h, 'v) hash_api \<Rightarrow> 'h \<Rightarrow> error + 'v \<Rightarrow> (error + unit) \<times> 'h" where
  "ht_push api h val =
     (case val of Inl e \<Rightarrow> (Inl e, h) | Inr v \<Rightarrow> (Inr (), snd (ha_next_index_insert api h v)))"

section \<open>Entries\<close>

datatype 'h entry = Occupied 'h array_key | Vacant 'h array_key

definition ht_entry :: "('h, 'v) hash_api \<Rightarrow> 'h \<Rightarrow> array_key \<Rightarrow> 'h entry" where
  "ht_entry api h key = (if ht_has_key api h key then Occupied h key else Vacant h key)"

definition get_value_mut :: "('h, 'v) hash_api \<Rightarrow> array_key \<Rightarrow> 'h \<Rightarrow> 'v option" where
  "get_value_mut api key h =
     (case key of
        KLong index \<Rightarrow> ha_index_find api h (word_of_int index)
      | KString k \<Rightarrow> ha_str_find api h k
      | KStr k \<Rightarrow> ha_str_find api h k
      | KZendString k \<Rightarrow> ha_find api h k)"

definition ok_or_invalid :: "'v option \<times> 'h \<Rightarrow> (error + 'v) \<times> 'h" where
  "ok_or_invalid r = (case r of (None, h) \<Rightarrow> (Inl InvalidPointer, h) | (Some v, h) \<Rightarrow> (Inr v, h))"

definition insert_value :: "('h, 'v) hash_api \<Rightarrow> array_key \<Rightarrow> 'h \<Rightarrow> error + 'v \<Rightarrow> (error + 'v) \<times> 'h" where
  "insert_value api key h value =
     (case value of
        Inl e \<Rightarrow> (Inl e, h)
      | Inr val \<Rightarrow>
          ok_or_invalid
            (case key of
               KLong index \<Rightarrow> ha_index_update api h (word_of_int index) val
             | KString k \<Rightarrow> ha_str_update api h k val
             | KStr k \<Rightarrow> ha_str_update api h k val
             | KZendString k \<Rightarrow> ha_update api h k val))"

definition entry_key :: "'h entry \<Rightarrow> array_key" where
  "entry_key e = (case e of Occupied _ k \<Rightarrow> k | Vacant _ k \<Rightarrow> k)"

text \<open>The reference \<open>into_mut\<close> gives and the table it points into.\<close>

definition entry_or_insert_with_key ::
    "('h, 'v) hash_api \<Rightarrow> 'h entry \<Rightarrow> (array_key \<Rightarrow> error + 'v) \<Rightarrow> (error + 'v) \<times> 'h" where
  "entry_or_insert_with_key api e dflt =
     (case e of
        Occupied h k \<Rightarrow> ok_or_invalid (get_value_mut api k h, h)
      | Vacant h k \<Rightarrow> insert_value api k h (dflt k))"

definition entry_or_insert_with :: "('h, 'v) hash_api \<Rightarrow> 'h entry \<Rightarrow> (unit \<Rightarrow> error + 'v) \<Rightarrow> (error + 'v) \<times> 'h" where
  "entry_or_insert_with api e dflt =
     (case e of
        Occupied h k \<Rightarrow> ok_or_invalid (get_value_mut api k h, h)
      | Vacant h k \<Rightarrow> insert_value api k h (dflt ()))"

definition entry_or_insert :: "('h, 'v) hash_api \<Rightarrow> 'h entry \<Rightarrow> error + 'v \<Rightarrow> (error + 'v) \<times> 'h" where
  "entry_or_insert api e dflt =
     (case e of
        Occupied h k \<Rightarrow> ok_or_invalid (get_value_mut api k h, h)
      | Vacant h k \<Rightarrow> insert_value api k h dflt)"

text \<open>\<open>and_modify\<close>: the closure writes through the reference; writing an element in place is the
  engine's update at the same key.\<close>

definition write_through :: "('h, 'v) hash_api \<Rightarrow> array_key \<Rightarrow> 'h \<Rightarrow> 'v \<Rightarrow> 'h" where
  "write_through api key h v = snd (insert_value api key h (Inr v))"

definition entry_and_modify :: "('h, 'v) hash_api \<Rightarrow> 'h entry \<Rightarrow> ('v \<Rightarrow> 'v) \<Rightarrow> 'h entry" where
  "entry_and_modify api e f =
     (case e of
        Occupied h k \<Rightarrow>
          (case get_value_mut api k h of
             Some value \<Rightarrow> Occupied (write_through api k h (f value)) k
           | None \<Rightarrow> Occupied h k)
      | Vacant h k \<Rightarrow> Vacant h k)"

definition occupied_get :: "('h, 'v) hash_api \<Rightarrow> 'h \<Rightarrow> array_key \<Rightarrow> 'v option" where
  "occupied_get api h key = get_value_mut api key h"

definition occupied_insert ::
    "('h, 'v) hash_api \<Rightarrow> 'h \<Rightarrow> array_key \<Rightarrow> error + 'v \<Rightarrow> (error + 'v option) \<times> 'h" where
  "occupied_insert api h key value =
     (let old = occupied_get api h key
      in case insert_value api key h value of
           (Inl e, h') \<Rightarrow> (Inl e, h')
         | (Inr _, h') \<Rightarrow> (Inr old, h'))"

definition occupied_remove_entry ::
    "('h, 'v) hash_api \<Rightarrow> 'h \<Rightarrow> array_key \<Rightarrow> (array_key \<times> 'v option) \<times> 'h" where
  "occupied_remove_entry api h key =
     (let value = occupied_get api h key in ((key, value), snd (ht_remove api h key)))"

definition occupied_remove :: "('h, 'v) hash_api \<Rightarrow> 'h \<Rightarrow> array_key \<Rightarrow> 'v option \<times> 'h" where
  "occupied_remove api h key =
     (let value = occupied_get api h key in (value, snd (ht_remove api h key)))"

text \<open>\<open>or_default\<close>: \<open>null\<close> is \<open>Zval::new()\<close>.\<close>

definition entry_or_default :: "('h, 'v) hash_api \<Rightarrow> 'h entry \<Rightarrow> 'v \<Rightarrow> (error + 'v) \<times> 'h" where
  "entry_or_default api e null =
     (case e of
        Occupied h k \<Rightarrow> ok_or_invalid (get_value_mut api k h, h)
      | Vacant h k \<Rightarrow> insert_value api k h (Inr null))"

section \<open>What the engine promises\<close>

text \<open>\<open>inv\<close> are the tables the engine makes, \<open>ent h\<close> the entries of a table in order, \<open>nxt h\<close> the index the next
  append takes (\<open>None\<close> when the largest index is taken). Update replaces in place or appends, deletion
  answers a negative number exactly when there is nothing to delete, an append that has no index left
  answers null. A table that can take no further entry (the engine then stops the process) is
  outside the contract.\<close>

definition next_after :: "int option \<Rightarrow> int \<Rightarrow> int option" where
  "next_after n i =
     (case n of None \<Rightarrow> None | Some k \<Rightarrow> if i < k then Some k else if i = i64_max then None else Some (i + 1))"

record ('h, 'v) hash_view =
  hv_inv :: "'h \<Rightarrow> bool"
  hv_ent :: "'h \<Rightarrow> (hkey \<times> 'v) list"
  hv_nxt :: "'h \<Rightarrow> int option"

definition hv_room :: "('h, 'v) hash_view \<Rightarrow> 'h \<Rightarrow> bool" where
  "hv_room V h \<longleftrightarrow> hv_inv V h \<and> Suc (length (hv_ent V h)) < 2 ^ 32"

definition updated :: "('h, 'v) hash_view \<Rightarrow> 'h \<Rightarrow> hkey \<Rightarrow> 'v \<Rightarrow> 'v option \<times> 'h \<Rightarrow> bool" where
  "updated V h k v res \<longleftrightarrow>
     (case res of (r, h') \<Rightarrow> r = Some v \<and> hv_inv V h' \<and> hv_ent V h' = AList.update k v (hv_ent V h) \<and>
        (case k of
           HStr _ \<Rightarrow> hv_nxt V h' = hv_nxt V h
         | HIdx i \<Rightarrow> 0 \<le> sint i \<longrightarrow> hv_nxt V h' = next_after (hv_nxt V h) (sint i)))"

definition deleted :: "('h, 'v) hash_view \<Rightarrow> 'h \<Rightarrow> hkey \<Rightarrow> int \<times> 'h \<Rightarrow> bool" where
  "deleted V h k res \<longleftrightarrow>
     (case res of (r, h') \<Rightarrow> (r < 0 \<longleftrightarrow> map_of (hv_ent V h) k = None) \<and> hv_inv V h' \<and>
        hv_ent V h' = AList.delete k (hv_ent V h) \<and> hv_nxt V h' = hv_nxt V h)"

definition appended :: "('h, 'v) hash_view \<Rightarrow> 'h \<Rightarrow> 'v \<Rightarrow> 'v option \<times> 'h \<Rightarrow> bool" where
  "appended V h v res \<longleftrightarrow>
     (case res of (r, h') \<Rightarrow>
        (case hv_nxt V h of
           None \<Rightarrow> r = None \<and> h' = h
         | Some n \<Rightarrow> r = Some v \<and> hv_inv V h' \<and> hv_ent V h' = hv_ent V h @ [(HIdx (word_of_int n), v)] \<and>
             hv_nxt V h' = next_after (Some n) n))"

definition emptied :: "('h, 'v) hash_view \<Rightarrow> 'h \<Rightarrow> bool" where
  "emptied V h \<longleftrightarrow> hv_inv V h \<and> hv_ent V h = [] \<and> hv_nxt V h = Some 0"

definition hash_api_ok :: "('h, 'v) hash_api \<Rightarrow> ('h, 'v) hash_view \<Rightarrow> bool" where
  "hash_api_ok api V \<longleftrightarrow>
     (\<forall>n h. ha_new api n = Some h \<longrightarrow> emptied V h) \<and>
     (\<forall>h. hv_inv V h \<longrightarrow>
        distinct (map fst (hv_ent V h)) \<and> unat (ha_count api h) = length (hv_ent V h) \<and>
        emptied V (ha_clean api h) \<and>
        (\<forall>i. ha_index_find api h i = map_of (hv_ent V h) (HIdx i)) \<and>
        (\<forall>s. ha_str_find api h s = map_of (hv_ent V h) (HStr s)) \<and>
        (\<forall>z. ha_find api h z = map_of (hv_ent V h) (HStr (zs_bytes z))) \<and>
        (\<forall>i. deleted V h (HIdx i) (ha_index_del api h i)) \<and>
        (\<forall>s. deleted V h (HStr s) (ha_str_del api h s)) \<and>
        (\<forall>z. deleted V h (HStr (zs_bytes z)) (ha_del api h z))) \<and>
     (\<forall>h. hv_room V h \<longrightarrow>
        (\<forall>i v. updated V h (HIdx i) v (ha_index_update api h i v)) \<and>
        (\<forall>s v. updated V h (HStr s) v (ha_str_update api h s v)) \<and>
        (\<forall>z v. updated V h (HStr (zs_bytes z)) v (ha_update api h z v)) \<and>
        (\<forall>v. appended V h v (ha_next_index_insert api h v)))"

section \<open>The operations over the entries\<close>

fun hkey_of :: "array_key \<Rightarrow> hkey" where
  "hkey_of (KLong i) = HIdx (word_of_int i)"
| "hkey_of (KString s) = HStr s"
| "hkey_of (KStr s) = HStr s"
| "hkey_of (KZendString z) = HStr (zs_bytes z)"

lemma hash_api_okD:
  assumes "hash_api_ok api V" and "hv_inv V h"
  shows "distinct (map fst (hv_ent V h))" "unat (ha_count api h) = length (hv_ent V h)"
    "emptied V (ha_clean api h)" "ha_index_find api h i = map_of (hv_ent V h) (HIdx i)"
    "ha_str_find api h s = map_of (hv_ent V h) (HStr s)"
    "ha_find api h z = map_of (hv_ent V h) (HStr (zs_bytes z))"
    "deleted V h (HIdx i) (ha_index_del api h i)" "deleted V h (HStr s) (ha_str_del api h s)"
    "deleted V h (HStr (zs_bytes z)) (ha_del api h z)"
  using assms by (simp_all add: hash_api_ok_def)

lemma hash_api_ok_room:
  assumes "hash_api_ok api V" and "hv_room V h"
  shows "updated V h (HIdx i) v (ha_index_update api h i v)" "updated V h (HStr s) v (ha_str_update api h s v)"
    "updated V h (HStr (zs_bytes z)) v (ha_update api h z v)" "appended V h v (ha_next_index_insert api h v)"
  using assms by (simp_all add: hash_api_ok_def)

lemma ht_get_view:
  assumes "hash_api_ok api V" and "hv_inv V h"
  shows "ht_get api h k = map_of (hv_ent V h) (hkey_of k)"
    and "get_value_mut api k h = map_of (hv_ent V h) (hkey_of k)"
    and "ht_has_key api h k \<longleftrightarrow> map_of (hv_ent V h) (hkey_of k) \<noteq> None"
    and "ht_len api h = length (hv_ent V h)"
    and "ht_get_index api h j = map_of (hv_ent V h) (HIdx (word_of_int j))"
  using hash_api_okD [OF assms]
  by (cases k; simp add: ht_get_def get_value_mut_def ht_has_key_def ht_len_def ht_get_index_def)+

lemma ht_insert_view:
  assumes "hash_api_ok api V" and "hv_room V h"
  shows "\<exists>h'. ht_insert api h k (Inr v) = (Inr (), h') \<and> insert_value api k h (Inr v) = (Inr v, h') \<and>
           updated V h (hkey_of k) v (Some v, h')"
  using hash_api_ok_room [OF assms]
  by (cases k) (auto simp: ht_insert_def insert_value_def ok_or_invalid_def updated_def case_prod_unfold
    split: option.splits)

lemma ht_remove_view:
  assumes "hash_api_ok api V" and "hv_inv V h"
  shows "\<exists>h'. ht_remove api h k = (if map_of (hv_ent V h) (hkey_of k) = None then None else Some (), h') \<and>
           hv_inv V h' \<and> hv_ent V h' = AList.delete (hkey_of k) (hv_ent V h) \<and> hv_nxt V h' = hv_nxt V h"
  using hash_api_okD [OF assms]
  by (cases k) (simp_all add: ht_remove_def deleted_def case_prod_unfold)

lemma ht_push_view:
  assumes "hash_api_ok api V" and "hv_room V h"
  shows "case hv_nxt V h of
      None \<Rightarrow> ht_push api h (Inr v) = (Inr (), h)
    | Some n \<Rightarrow> (\<exists>h'. ht_push api h (Inr v) = (Inr (), h') \<and> hv_inv V h' \<and>
        hv_ent V h' = hv_ent V h @ [(HIdx (word_of_int n), v)] \<and> hv_nxt V h' = next_after (Some n) n)"
  using hash_api_ok_room(4) [OF assms, of v]
  by (simp add: ht_push_def appended_def case_prod_unfold split: option.splits)

text \<open>An engine whose tables are lists of entries, with the index of the next append.\<close>

definition lh_update :: "(hkey \<times> 'v) list \<times> int option \<Rightarrow> hkey \<Rightarrow> 'v \<Rightarrow> 'v option \<times> (hkey \<times> 'v) list \<times> int option" where
  "lh_update h k v =
     (case h of (es, n) \<Rightarrow>
        (Some v, AList.update k v es,
         case k of HStr _ \<Rightarrow> n | HIdx i \<Rightarrow> if 0 \<le> sint i then next_after n (sint i) else n))"

definition lh_delete :: "(hkey \<times> 'v) list \<times> int option \<Rightarrow> hkey \<Rightarrow> int \<times> (hkey \<times> 'v) list \<times> int option" where
  "lh_delete h k = (case h of (es, n) \<Rightarrow> (if map_of es k = None then -1 else 0, AList.delete k es, n))"

definition lh_append :: "(hkey \<times> 'v) list \<times> int option \<Rightarrow> 'v \<Rightarrow> 'v option \<times> (hkey \<times> 'v) list \<times> int option" where
  "lh_append h v =
     (case h of (es, n) \<Rightarrow>
        (case n of
           None \<Rightarrow> (None, es, None)
         | Some i \<Rightarrow> (Some v, es @ [(HIdx (word_of_int i), v)], next_after (Some i) i)))"

definition list_api :: "((hkey \<times> 'v) list \<times> int option, 'v) hash_api" where
  "list_api =
     \<lparr>ha_new = \<lambda>_. Some ([], Some 0), ha_count = \<lambda>h. word_of_nat (length (fst h)), ha_clean = \<lambda>_. ([], Some 0),
      ha_index_find = \<lambda>h i. map_of (fst h) (HIdx i), ha_str_find = \<lambda>h s. map_of (fst h) (HStr s),
      ha_find = \<lambda>h z. map_of (fst h) (HStr (zs_bytes z)),
      ha_index_del = \<lambda>h i. lh_delete h (HIdx i), ha_str_del = \<lambda>h s. lh_delete h (HStr s),
      ha_del = \<lambda>h z. lh_delete h (HStr (zs_bytes z)),
      ha_index_update = \<lambda>h i. lh_update h (HIdx i), ha_str_update = \<lambda>h s. lh_update h (HStr s),
      ha_update = \<lambda>h z. lh_update h (HStr (zs_bytes z)), ha_next_index_insert = lh_append\<rparr>"

definition list_inv :: "(hkey \<times> 'v) list \<times> int option \<Rightarrow> bool" where
  "list_inv h \<longleftrightarrow>
     (case h of (es, n) \<Rightarrow> distinct (map fst es) \<and> length es < 2 ^ 32 \<and>
        (case n of None \<Rightarrow> True
         | Some i \<Rightarrow> 0 \<le> i \<and> i \<le> i64_max \<and> (\<forall>j. map_of es (HIdx j) \<noteq> None \<longrightarrow> sint j < i)))"

definition list_view :: "((hkey \<times> 'v) list \<times> int option, 'v) hash_view" where
  "list_view = \<lparr>hv_inv = list_inv, hv_ent = fst, hv_nxt = snd\<rparr>"

lemma list_view_simps [simp]:
  "hv_inv list_view = list_inv" "hv_ent list_view = fst" "hv_nxt list_view = snd"
  by (simp_all add: list_view_def)

lemma length_alist_update: "length (AList.update k v es) \<le> Suc (length es)"
  by (induction es) auto

lemma length_alh_delete: "length (AList.delete k es) \<le> length es"
  by (simp add: AList.delete_eq)

lemma i64_max_bound: "0 < i64_max" "i \<le> i64_max \<Longrightarrow> 0 \<le> i \<Longrightarrow> sint (word_of_int i :: u64) = i"
  by (simp_all add: i64_defs signed_of_int signed_take_bit_int_eq_self)

lemma sint_le_i64_max: "sint (w :: u64) \<le> i64_max"
  using sint_lt [of w] by (simp add: i64_defs)

lemma lh_update_ok:
  assumes "hv_room list_view h"
  shows "updated list_view h k v (lh_update h k v)"
proof -
  obtain es n where h: "h = (es, n)" by (cases h)
  from assms have inv: "list_inv (es, n)" and room: "Suc (length es) < 2 ^ 32"
    by (simp_all add: h hv_room_def list_view_def)
  have "list_inv (snd (lh_update h k v))"
  proof (cases k)
    case (HIdx i)
    have "sint i + 1 \<le> i64_max" if "sint i \<noteq> i64_max" using sint_le_i64_max [of i] that by simp
    then show ?thesis
      using inv room length_alist_update [of k v es]
      by (auto simp: h HIdx lh_update_def list_inv_def next_after_def update_conv' distinct_update
        split: option.splits if_splits) fastforce+
  next
    case (HStr s)
    then show ?thesis
      using inv room length_alist_update [of k v es]
      by (auto simp: h lh_update_def list_inv_def update_conv' distinct_update split: option.splits)
  qed
  then show ?thesis
    by (auto simp: h updated_def lh_update_def list_view_def split: hkey.splits)
qed

lemma lh_append_ok:
  assumes "hv_room list_view h"
  shows "appended list_view h v (lh_append h v)"
proof -
  obtain es n where h: "h = (es, n)" by (cases h)
  from assms have inv: "list_inv (es, n)" and room: "Suc (length es) < 2 ^ 32"
    by (simp_all add: h hv_room_def list_view_def)
  have "list_inv (snd (lh_append h v))"
  proof (cases n)
    case (Some i)
    with inv have i: "0 \<le> i" "i \<le> i64_max" "\<forall>j. map_of es (HIdx j) \<noteq> None \<longrightarrow> sint j < i"
      by (simp_all add: list_inv_def)
    then have w: "sint (word_of_int i :: u64) = i" by (intro i64_max_bound(2))
    with i(3) have fresh: "map_of es (HIdx (word_of_int i)) = None" by (metis less_irrefl)
    then have "HIdx (word_of_int i) \<notin> fst ` set es" by (simp add: map_of_eq_None_iff)
    with inv room i w show ?thesis
      by (auto simp: h Some lh_append_def list_inv_def next_after_def map_add_def
        split: option.splits if_splits)
  qed (use inv in \<open>simp add: h lh_append_def list_inv_def\<close>)
  then show ?thesis
    by (auto simp: h appended_def lh_append_def list_view_def split: option.splits)
qed

lemma list_api_ok: "hash_api_ok list_api list_view"
proof -
  have "deleted list_view h k (lh_delete h k)" if "list_inv h" for h :: "(hkey \<times> 'a) list \<times> int option" and k
    using that length_alh_delete [of k "fst h"]
    by (auto simp: deleted_def lh_delete_def list_view_def list_inv_def distinct_delete delete_conv'
      split: prod.splits option.splits)
  moreover have "list_inv h \<Longrightarrow> distinct (map fst (fst h)) \<and> length (fst h) < 2 ^ 32" for h :: "(hkey \<times> 'a) list \<times> int option"
    by (auto simp: list_inv_def split: prod.splits)
  moreover have "list_inv (([], Some 0) :: (hkey \<times> 'a) list \<times> int option)"
    by (simp add: list_inv_def i64_defs)
  ultimately show ?thesis
    by (simp add: hash_api_ok_def list_api_def emptied_def unat_of_nat lh_update_ok lh_append_ok)
qed

section \<open>Properties\<close>

text \<open>The array operations implement a finite map from PHP keys, ordered by insertion: reading, testing and
  counting agree with the map, an insertion updates it at one key and keeps the order of the rest, a
  removal answers whether the key was there and takes exactly that key out, clearing empties it.\<close>

theorem hash_table_refines_map:
  assumes "hash_api_ok api V" and "hv_room V h"
  shows "ht_get api h k = map_of (hv_ent V h) (hkey_of k) \<and>
    (ht_has_key api h k \<longleftrightarrow> ht_get api h k \<noteq> None) \<and>
    ht_len api h = card (dom (map_of (hv_ent V h))) \<and>
    (\<exists>h'. ht_insert api h k (Inr v) = (Inr (), h') \<and> hv_inv V h' \<and>
       map_of (hv_ent V h') = (map_of (hv_ent V h))(hkey_of k \<mapsto> v) \<and>
       map fst (hv_ent V h') =
         map fst (hv_ent V h) @ (if ht_has_key api h k then [] else [hkey_of k])) \<and>
    (\<exists>h'. ht_remove api h k = (if ht_has_key api h k then Some () else None, h') \<and> hv_inv V h' \<and>
       map_of (hv_ent V h') = (map_of (hv_ent V h))(hkey_of k := None) \<and>
       map fst (hv_ent V h') = removeAll (hkey_of k) (map fst (hv_ent V h))) \<and>
    hv_ent V (ht_clear api h) = [] \<and> ht_insert api h k (Inl e) = (Inl e, h)"
proof -
  have inv: "hv_inv V h" using assms(2) by (simp add: hv_room_def)
  note view = ht_get_view [OF assms(1) inv]
  have d: "distinct (map fst (hv_ent V h))" using hash_api_okD(1) [OF assms(1) inv] .
  then have "card (dom (map_of (hv_ent V h))) = length (hv_ent V h)"
    by (metis distinct_card dom_map_of_conv_image_fst length_map list.set_map)
  moreover obtain h1 where "ht_insert api h k (Inr v) = (Inr (), h1)" "hv_inv V h1"
      "hv_ent V h1 = AList.update (hkey_of k) v (hv_ent V h)"
    using ht_insert_view [OF assms, of k v] by (auto simp: updated_def)
  moreover obtain h2 where "ht_remove api h k = (if map_of (hv_ent V h) (hkey_of k) = None then None else Some (), h2)"
      "hv_inv V h2" "hv_ent V h2 = AList.delete (hkey_of k) (hv_ent V h)"
    using ht_remove_view [OF assms(1) inv, of k] by auto
  moreover have "hv_ent V (ht_clear api h) = []"
    using hash_api_okD(3) [OF assms(1) inv] by (simp add: ht_clear_def emptied_def)
  moreover have "map_of (hv_ent V h) (hkey_of k) = None \<longleftrightarrow> hkey_of k \<notin> set (map fst (hv_ent V h))"
    by (simp add: map_of_eq_None_iff)
  ultimately show ?thesis
    by (simp add: view update_conv' delete_conv' update_keys delete_keys ht_insert_def del: map_of_eq_None_iff set_map)
qed

theorem hash_table_refines_map_witness:
  "ht_get list_api (snd (ht_insert list_api ([(HIdx 0, True)], Some 1) (KLong 7) (Inr False))) (KLong 7) = Some False"
proof -
  have room: "hv_room list_view ([(HIdx 0, True)], Some 1)"
    by (simp add: hv_room_def list_inv_def i64_defs)
  obtain h' where i: "ht_insert list_api ([(HIdx 0, True)], Some 1) (KLong 7) (Inr False) = (Inr (), h')"
    "hv_room list_view h'" "map_of (fst h') (HIdx 7) = Some False"
    using hash_table_refines_map [OF list_api_ok room, of "KLong 7" False InvalidScope]
    by (auto simp: ht_insert_def list_api_def lh_update_def hv_room_def)
  then show ?thesis by (simp add: ht_get_def list_api_def)
qed

text \<open>The entry API updates one key atomically: modifying and then inserting a default leaves at the key the
  modified old value, or the default where there was none, returns it, and touches no other key; a
  default that cannot be converted is an error only on a vacant entry and leaves the table alone.\<close>

theorem entry_upsert:
  assumes "hash_api_ok api V" and "hv_room V h"
  shows "(case entry_or_insert api (entry_and_modify api (ht_entry api h k) f) (Inr d) of (r, h') \<Rightarrow>
      r = Inr (case ht_get api h k of Some v \<Rightarrow> f v | None \<Rightarrow> d) \<and>
      map_of (hv_ent V h') =
        (map_of (hv_ent V h))(hkey_of k \<mapsto> (case ht_get api h k of Some v \<Rightarrow> f v | None \<Rightarrow> d))) \<and>
    entry_or_insert api (ht_entry api h k) (Inl e) =
      (case ht_get api h k of Some v \<Rightarrow> (Inr v, h) | None \<Rightarrow> (Inl e, h))"
    (is "?upsert \<and> ?error")
proof
  have inv: "hv_inv V h" using assms(2) by (simp add: hv_room_def)
  note view = ht_get_view [OF assms(1) inv]
  show ?upsert
  proof (cases "ht_get api h k")
    case (Some v)
    obtain h' where "insert_value api k h (Inr (f v)) = (Inr (f v), h')" "hv_inv V h'"
        "map_of (hv_ent V h') = (map_of (hv_ent V h))(hkey_of k \<mapsto> f v)"
      using ht_insert_view [OF assms, of k "f v"] by (auto simp: updated_def update_conv')
    with Some view ht_get_view(2) [OF assms(1), of h' k] show ?thesis
      by (simp add: ht_entry_def entry_and_modify_def entry_or_insert_def write_through_def ok_or_invalid_def)
  next
    case None
    obtain h' where "insert_value api k h (Inr d) = (Inr d, h')"
        "map_of (hv_ent V h') = (map_of (hv_ent V h))(hkey_of k \<mapsto> d)"
      using ht_insert_view [OF assms, of k d] by (auto simp: updated_def update_conv')
    with None view show ?thesis
      by (simp add: ht_entry_def entry_and_modify_def entry_or_insert_def)
  qed
  show ?error
    using view by (simp add: ht_entry_def entry_or_insert_def ok_or_invalid_def insert_value_def split: option.splits)
qed

theorem entry_upsert_witness:
  "fst (entry_or_insert list_api (entry_and_modify list_api
     (ht_entry list_api ([(HStr ''n'', 5 :: nat)], Some 0) (KStr ''n'')) Suc) (Inr 0)) = Inr 6"
proof -
  have "hv_room list_view ([(HStr ''n'', 5 :: nat)], Some 0)"
    by (simp add: hv_room_def list_inv_def i64_defs)
  from entry_upsert [OF list_api_ok this, where k = "KStr ''n''" and f = Suc and d = 0 and e = InvalidScope] show ?thesis
    by (simp add: ht_get_def list_api_def case_prod_unfold)
qed

text \<open>Appending to an array whose largest index is taken reports success and stores nothing.\<close>

theorem push_full_lost:
  assumes "hash_api_ok api V" and "hv_room V h" and "hv_nxt V h = None"
  shows "ht_push api h (Inr v) = (Inr (), h)"
  using ht_push_view [OF assms(1,2), of v] assms(3) by simp

theorem push_full_lost_witness:
  "let h = snd (ht_insert list_api ([], Some 0) (KLong i64_max) (Inr True))
   in ht_push list_api h (Inr False) = (Inr (), h)"
proof -
  let ?h = "snd (ht_insert list_api ([], Some 0) (KLong i64_max) (Inr True))"
  have w: "sint (word_of_int i64_max :: u64) = i64_max" by (rule i64_max_bound(2)) (simp_all add: i64_defs)
  have "hv_room list_view ?h" "hv_nxt list_view ?h = None"
    using w by (simp_all add: ht_insert_def list_api_def lh_update_def hv_room_def list_inv_def next_after_def i64_max_bound(1) less_imp_le)
       (simp add: i64_defs)?
  from push_full_lost [OF list_api_ok this, of False] show ?thesis by (simp add: Let_def)
qed

end
