(* ===== verification/HashIter.thy ===== *)
theory HashIter
  imports HashTable Args
begin

text \<open>
  \<open>src/types/array/iterators.rs\<close> and \<open>src/types/array/conversions/*.rs\<close>: iterating over an array in both
  directions, the \<open>for\<close> loops of the conversions, and the conversions between arrays and Rust
  collections. The engine's cursor functions are the fields of a second record; their contract is
  over the slots of a table, where a deleted entry leaves a hole until the table is compacted.
\<close>

section \<open>The engine's cursors\<close>

datatype key_type = KeyString | KeyLong | KeyNonExistent

record ('h, 'v) iter_api =
  ia_num_elements :: "'h \<Rightarrow> u32"
  ia_key_type :: "'h \<Rightarrow> nat \<Rightarrow> key_type"
  ia_key_zval :: "'h \<Rightarrow> nat \<Rightarrow> hkey option"
  ia_data :: "'h \<Rightarrow> nat \<Rightarrow> 'v option"
  ia_forward :: "'h \<Rightarrow> nat \<Rightarrow> nat"
  ia_backward :: "'h \<Rightarrow> nat \<Rightarrow> nat"

section \<open>Iterators\<close>

record 'h ht_iter =
  it_ht :: 'h
  it_current_num :: int
  it_end_num :: int
  it_pos :: nat
  it_end_pos :: nat

definition iter_new :: "('h, 'v) hash_api \<Rightarrow> ('h, 'v) iter_api \<Rightarrow> 'h \<Rightarrow> 'h ht_iter" where
  "iter_new hapi api h =
     \<lparr>it_ht = h, it_current_num = 0, it_end_num = int (ht_len hapi h), it_pos = 0,
      it_end_pos = (if 0 < ia_num_elements api h then unat (ia_num_elements api h - 1) else 0)\<rparr>"

text \<open>What a step of an iterator does: it is exhausted, it panics, it reads through a null pointer, or it
  yields an item.\<close>

datatype 'a iter_step = Exhausted | IterPanic | NullDeref | Item 'a

definition next_zval :: "('h, 'v) iter_api \<Rightarrow> 'h ht_iter \<Rightarrow> (hkey \<times> 'v) option \<times> 'h ht_iter" where
  "next_zval api it =
     (if it_end_num it \<le> it_current_num it then (None, it)
      else if ia_key_type api (it_ht it) (it_pos it) = KeyNonExistent then (None, it)
      else
        let key = ia_key_zval api (it_ht it) (it_pos it)
        in case ia_data api (it_ht it) (it_pos it) of
             None \<Rightarrow> (None, it)
           | Some value \<Rightarrow>
               let key = (case key of Some k \<Rightarrow> k | None \<Rightarrow> HIdx (word_of_int (it_current_num it)))
               in (Some (key, value),
                   it\<lparr>it_pos := ia_forward api (it_ht it) (it_pos it), it_current_num := it_current_num it + 1\<rparr>))"

text \<open>\<open>ArrayKey::from_zval\<close> on the zval of a key.\<close>

definition key_of_hkey :: "hkey \<Rightarrow> array_key option" where
  "key_of_hkey k =
     (case k of
        HIdx i \<Rightarrow> key_from_zval (Some (sint i)) None
      | HStr s \<Rightarrow> key_from_zval None (if utf8_valid s then Some s else None))"

definition iter_next :: "('h, 'v) iter_api \<Rightarrow> 'h ht_iter \<Rightarrow> (array_key \<times> 'v) iter_step \<times> 'h ht_iter" where
  "iter_next api it =
     (case next_zval api it of
        (None, it') \<Rightarrow> (Exhausted, it')
      | (Some (k, v), it') \<Rightarrow>
          (case key_of_hkey k of None \<Rightarrow> (IterPanic, it') | Some key \<Rightarrow> (Item (key, v), it')))"

text \<open>\<open>next_back\<close> tests the key type at the front position, as the code does.\<close>

definition iter_next_back :: "('h, 'v) iter_api \<Rightarrow> 'h ht_iter \<Rightarrow> (array_key \<times> 'v) iter_step \<times> 'h ht_iter" where
  "iter_next_back api it =
     (if it_end_num it \<le> it_current_num it then (Exhausted, it)
      else if ia_key_type api (it_ht it) (it_pos it) = KeyNonExistent then (Exhausted, it)
      else
        let key = ia_key_zval api (it_ht it) (it_end_pos it)
        in case ia_data api (it_ht it) (it_end_pos it) of
             None \<Rightarrow> (NullDeref, it)
           | Some value \<Rightarrow>
               let key = (case Option.bind key key_of_hkey of Some k \<Rightarrow> k | None \<Rightarrow> KLong (it_end_num it))
               in (Item (key, value),
                   it\<lparr>it_end_pos := ia_backward api (it_ht it) (it_end_pos it), it_end_num := it_end_num it - 1\<rparr>))"

lemma iter_next_progress:
  "iter_next api it = (Item kv, it') \<Longrightarrow>
     it_current_num it < it_end_num it \<and> it_current_num it' = it_current_num it + 1 \<and> it_end_num it' = it_end_num it"
  by (auto simp: iter_next_def next_zval_def Let_def split: if_splits option.splits)

lemma iter_next_back_progress:
  "iter_next_back api it = (Item kv, it') \<Longrightarrow>
     it_current_num it < it_end_num it \<and> it_current_num it' = it_current_num it \<and> it_end_num it' = it_end_num it - 1"
  by (auto simp: iter_next_back_def Let_def split: if_splits option.splits)

text \<open>A \<open>for\<close> loop over an array that collects results and leaves at the first error; the body also gets
  the number of the round. \<open>None\<close> is a panic.\<close>

function iter_try ::
    "('h, 'v) iter_api \<Rightarrow> (nat \<Rightarrow> array_key \<times> 'v \<Rightarrow> 'e + 'b) \<Rightarrow> 'h ht_iter \<Rightarrow> 'b list \<Rightarrow> ('e + 'b list) option" where
  "iter_try api f it acc =
     (case iter_next api it of
        (Exhausted, _) \<Rightarrow> Some (Inr acc)
      | (Item kv, it') \<Rightarrow>
          (case f (length acc) kv of
             Inl e \<Rightarrow> Some (Inl e)
           | Inr b \<Rightarrow> iter_try api f it' (acc @ [b]))
      | (_, _) \<Rightarrow> None)"
  by auto
termination
  by (relation "measure (\<lambda>(_, _, it, _). nat (it_end_num it - it_current_num it))")
     (auto dest!: sym [where t = "iter_next _ _"] iter_next_progress)

text \<open>A loop over the reversed iterator.\<close>

function iter_rev :: "('h, 'v) iter_api \<Rightarrow> 'h ht_iter \<Rightarrow> (array_key \<times> 'v) list \<Rightarrow> (array_key \<times> 'v) list option" where
  "iter_rev api it acc =
     (case iter_next_back api it of
        (Exhausted, _) \<Rightarrow> Some acc
      | (Item kv, it') \<Rightarrow> iter_rev api it' (acc @ [kv])
      | (_, _) \<Rightarrow> None)"
  by auto
termination
  by (relation "measure (\<lambda>(_, it, _). nat (it_end_num it - it_current_num it))")
     (auto dest!: sym [where t = "iter_next_back _ _"] iter_next_back_progress)

declare iter_try.simps [simp del] iter_rev.simps [simp del]

section \<open>Tests on keys\<close>

definition not_found :: "(unit + 'b) option \<Rightarrow> bool option" where
  "not_found r = map_option (\<lambda>r. case r of Inl _ \<Rightarrow> False | Inr _ \<Rightarrow> True) r"

definition has_numerical_keys :: "('h, 'v) hash_api \<Rightarrow> ('h, 'v) iter_api \<Rightarrow> 'h \<Rightarrow> bool option" where
  "has_numerical_keys hapi api h =
     not_found (iter_try api (\<lambda>_ (k, _). if \<not> key_is_long k then Inl () else Inr ()) (iter_new hapi api h) [])"

definition has_sequential_keys :: "('h, 'v) hash_api \<Rightarrow> ('h, 'v) iter_api \<Rightarrow> 'h \<Rightarrow> bool option" where
  "has_sequential_keys hapi api h =
     not_found (iter_try api (\<lambda>i (k, _). if KLong (int i) \<noteq> k then Inl () else Inr ()) (iter_new hapi api h) [])"

section \<open>Conversions\<close>

text \<open>\<open>unzv\<close> is \<open>from_zval\<close> of the element type, \<open>ty\<close> the type reported of an element that does not convert,
  \<open>key_into\<close> the conversion of a key.\<close>

definition vec_from_table ::
    "('h, 'v) hash_api \<Rightarrow> ('h, 'v) iter_api \<Rightarrow> ('v \<Rightarrow> 't option) \<Rightarrow> ('v \<Rightarrow> data_type) \<Rightarrow> 'h \<Rightarrow> (error + 't list) option" where
  "vec_from_table hapi api unzv ty h =
     iter_try api (\<lambda>_ (_, v). case unzv v of Some t \<Rightarrow> Inr t | None \<Rightarrow> Inl (ZvalConversion (ty v)))
       (iter_new hapi api h) []"

definition pairs_from_table ::
    "('h, 'v) hash_api \<Rightarrow> ('h, 'v) iter_api \<Rightarrow> (array_key \<Rightarrow> error + 'k) \<Rightarrow> ('v \<Rightarrow> 't option) \<Rightarrow> ('v \<Rightarrow> data_type) \<Rightarrow>
     'h \<Rightarrow> (error + ('k \<times> 't) list) option" where
  "pairs_from_table hapi api key_into unzv ty h =
     iter_try api
       (\<lambda>_ (k, v). case key_into k of
          Inl e \<Rightarrow> Inl e
        | Inr key \<Rightarrow> (case unzv v of Some t \<Rightarrow> Inr (key, t) | None \<Rightarrow> Inl (ZvalConversion (ty v))))
       (iter_new hapi api h) []"

text \<open>A map takes the pairs in order, a later one replacing an earlier one of the same key.\<close>

definition map_from_table ::
    "('h, 'v) hash_api \<Rightarrow> ('h, 'v) iter_api \<Rightarrow> (array_key \<Rightarrow> error + 'k) \<Rightarrow> ('v \<Rightarrow> 't option) \<Rightarrow> ('v \<Rightarrow> data_type) \<Rightarrow>
     'h \<Rightarrow> (error + ('k \<rightharpoonup> 't)) option" where
  "map_from_table hapi api key_into unzv ty h =
     map_option (map_sum id (\<lambda>kvs. fold (\<lambda>(k, v) m. m(k \<mapsto> v)) kvs Map.empty))
       (pairs_from_table hapi api key_into unzv ty h)"

definition set_from_table ::
    "('h, 'v) hash_api \<Rightarrow> ('h, 'v) iter_api \<Rightarrow> ('v \<Rightarrow> 't option) \<Rightarrow> ('v \<Rightarrow> data_type) \<Rightarrow> 'h \<Rightarrow> (error + 't set) option" where
  "set_from_table hapi api unzv ty h = map_option (map_sum id set) (vec_from_table hapi api unzv ty h)"

fun push_all :: "('h, 'v) hash_api \<Rightarrow> (error + 'v) list \<Rightarrow> 'h \<Rightarrow> error + 'h" where
  "push_all api [] h = Inr h"
| "push_all api (x # xs) h =
     (case ht_push api h x of (Inl e, _) \<Rightarrow> Inl e | (Inr _, h') \<Rightarrow> push_all api xs h')"

fun insert_all :: "('h, 'v) hash_api \<Rightarrow> (array_key \<times> (error + 'v)) list \<Rightarrow> 'h \<Rightarrow> error + 'h" where
  "insert_all api [] h = Inr h"
| "insert_all api ((k, x) # xs) h =
     (case ht_insert api h k x of (Inl e, _) \<Rightarrow> Inl e | (Inr _, h') \<Rightarrow> insert_all api xs h')"

text \<open>The capacity is converted first; \<open>None\<close> is the panic on a failed allocation.\<close>

definition with_table :: "('h, 'v) hash_api \<Rightarrow> nat \<Rightarrow> ('h \<Rightarrow> error + 'h) \<Rightarrow> (error + 'h) option" where
  "with_table api n body =
     (case u32_try_into n of
        Inl e \<Rightarrow> Some (Inl e)
      | Inr m \<Rightarrow> (case ht_with_capacity api (word_of_nat m) of None \<Rightarrow> None | Some h \<Rightarrow> Some (body h)))"

definition table_from_vec :: "('h, 'v) hash_api \<Rightarrow> ('t \<Rightarrow> error + 'v) \<Rightarrow> 't list \<Rightarrow> (error + 'h) option" where
  "table_from_vec api into xs = with_table api (length xs) (push_all api (map into xs))"

text \<open>\<open>kvs\<close> are the pairs of a vector or of a map in the order of its iterator.\<close>

definition table_from_pairs ::
    "('h, 'v) hash_api \<Rightarrow> ('k \<Rightarrow> array_key) \<Rightarrow> ('t \<Rightarrow> error + 'v) \<Rightarrow> ('k \<times> 't) list \<Rightarrow> (error + 'h) option" where
  "table_from_pairs api key_of into kvs =
     with_table api (length kvs) (insert_all api (map (\<lambda>(k, v). (key_of k, into v)) kvs))"

definition table_from_set :: "('h, 'v) hash_api \<Rightarrow> ('t \<Rightarrow> error + 'v) \<Rightarrow> 't list \<Rightarrow> (error + 'h) option" where
  "table_from_set api into xs =
     with_table api (length xs)
       (insert_all api (map (\<lambda>(i, x). (array_key_from_usize (word_of_nat i), into x)) (enumerate 0 xs)))"

text \<open>An ordered map is its pairs in the order of the keys, an \<open>IndexMap\<close> its pairs in the order of their first
  insertion, an \<open>IndexSet\<close> and an ordered set their elements.\<close>

definition btree_insert :: "'k::linorder \<Rightarrow> 't \<Rightarrow> ('k \<times> 't) list \<Rightarrow> ('k \<times> 't) list" where
  "btree_insert k v m = takeWhile (\<lambda>(k', _). k' < k) m @ (k, v) # dropWhile (\<lambda>(k', _). k' \<le> k) m"

definition btree_map_from_table ::
    "('h, 'v) hash_api \<Rightarrow> ('h, 'v) iter_api \<Rightarrow> (array_key \<Rightarrow> error + 'k::linorder) \<Rightarrow> ('v \<Rightarrow> 't option) \<Rightarrow> ('v \<Rightarrow> data_type) \<Rightarrow>
     'h \<Rightarrow> (error + ('k \<times> 't) list) option" where
  "btree_map_from_table hapi api key_into unzv ty h =
     map_option (map_sum id (\<lambda>kvs. fold (\<lambda>(k, v). btree_insert k v) kvs [])) (pairs_from_table hapi api key_into unzv ty h)"

definition index_map_from_table ::
    "('h, 'v) hash_api \<Rightarrow> ('h, 'v) iter_api \<Rightarrow> (array_key \<Rightarrow> error + 'k) \<Rightarrow> ('v \<Rightarrow> 't option) \<Rightarrow> ('v \<Rightarrow> data_type) \<Rightarrow>
     'h \<Rightarrow> (error + ('k \<times> 't) list) option" where
  "index_map_from_table hapi api key_into unzv ty h =
     map_option (map_sum id (\<lambda>kvs. fold (\<lambda>(k, v). AList.update k v) kvs [])) (pairs_from_table hapi api key_into unzv ty h)"

definition index_set_from_table ::
    "('h, 'v) hash_api \<Rightarrow> ('h, 'v) iter_api \<Rightarrow> ('v \<Rightarrow> 't option) \<Rightarrow> ('v \<Rightarrow> data_type) \<Rightarrow> 'h \<Rightarrow> (error + 't list) option" where
  "index_set_from_table hapi api unzv ty h =
     map_option (map_sum id (\<lambda>xs. fold (\<lambda>x m. if x \<in> set m then m else m @ [x]) xs [])) (vec_from_table hapi api unzv ty h)"

definition btree_set_from_table ::
    "('h, 'v) hash_api \<Rightarrow> ('h, 'v) iter_api \<Rightarrow> ('v \<Rightarrow> 't::linorder option) \<Rightarrow> ('v \<Rightarrow> data_type) \<Rightarrow> 'h \<Rightarrow> (error + 't list) option" where
  "btree_set_from_table hapi api unzv ty h =
     map_option (map_sum id (\<lambda>xs. fold (\<lambda>x m. if x \<in> set m then m else insort x m) xs [])) (vec_from_table hapi api unzv ty h)"

definition table_from_hash_map ::
    "('h, 'v) hash_api \<Rightarrow> ('k \<Rightarrow> array_key) \<Rightarrow> ('t \<Rightarrow> error + 'v) \<Rightarrow> ('k \<times> 't) list \<Rightarrow> (error + 'h) option" where
  "table_from_hash_map api key_of into kvs =
     with_table api (length kvs) (insert_all api (map (\<lambda>(k, v). (key_of k, into v)) kvs))"

definition table_from_btree_map ::
    "('h, 'v) hash_api \<Rightarrow> ('k \<Rightarrow> array_key) \<Rightarrow> ('t \<Rightarrow> error + 'v) \<Rightarrow> ('k \<times> 't) list \<Rightarrow> (error + 'h) option" where
  "table_from_btree_map api key_of into kvs =
     with_table api (length kvs) (insert_all api (map (\<lambda>(k, v). (key_of k, into v)) kvs))"

definition table_from_index_map ::
    "('h, 'v) hash_api \<Rightarrow> ('k \<Rightarrow> array_key) \<Rightarrow> ('t \<Rightarrow> error + 'v) \<Rightarrow> ('k \<times> 't) list \<Rightarrow> (error + 'h) option" where
  "table_from_index_map api key_of into kvs =
     with_table api (length kvs) (insert_all api (map (\<lambda>(k, v). (key_of k, into v)) kvs))"

definition table_from_index_set :: "('h, 'v) hash_api \<Rightarrow> ('t \<Rightarrow> error + 'v) \<Rightarrow> 't list \<Rightarrow> (error + 'h) option" where
  "table_from_index_set api into xs =
     with_table api (length xs)
       (insert_all api (map (\<lambda>(i, x). (array_key_from_usize (word_of_nat i), into x)) (enumerate 0 xs)))"

definition table_from_btree_set :: "('h, 'v) hash_api \<Rightarrow> ('t \<Rightarrow> error + 'v) \<Rightarrow> 't list \<Rightarrow> (error + 'h) option" where
  "table_from_btree_set api into xs =
     with_table api (length xs)
       (insert_all api (map (\<lambda>(i, x). (array_key_from_usize (word_of_nat i), into x)) (enumerate 0 xs)))"

text \<open>\<open>from_zval\<close> of every collection: the zval is an array and it converts. The outer \<open>None\<close> is a panic.\<close>

definition collection_from_zval ::
    "('h \<Rightarrow> (error + 'c) option) \<Rightarrow> ('h, 'o) zheap \<Rightarrow> zval \<Rightarrow> 'c option option" where
  "collection_from_zval try_from heap z =
     (case zv_array heap z of
        None \<Rightarrow> Some None
      | Some arr \<Rightarrow> map_option (\<lambda>r. case r of Inr c \<Rightarrow> Some c | Inl _ \<Rightarrow> None) (try_from arr))"

section \<open>What the engine promises of its cursors\<close>

text \<open>The first occupied slot at or after a position, and the last one before it.\<close>

definition slot_from :: "'a option list \<Rightarrow> nat \<Rightarrow> nat" where
  "slot_from sl p = p + length (takeWhile (\<lambda>x. x = None) (drop p sl))"

fun slot_before :: "'a option list \<Rightarrow> nat \<Rightarrow> nat option" where
  "slot_before sl 0 = None"
| "slot_before sl (Suc p) = (if p < length sl \<and> sl ! p \<noteq> None then Some p else slot_before sl p)"

definition slot_at :: "'a option list \<Rightarrow> nat \<Rightarrow> 'a option" where
  "slot_at sl p = (let q = slot_from sl p in if q < length sl then sl ! q else None)"

definition iter_api_ok :: "('h, 'v) iter_api \<Rightarrow> ('h, 'v) hash_view \<Rightarrow> ('h \<Rightarrow> (hkey \<times> 'v) option list) \<Rightarrow> bool" where
  "iter_api_ok api V slots \<longleftrightarrow>
     (\<forall>h. hv_inv V h \<longrightarrow>
        List.map_filter id (slots h) = hv_ent V h \<and> unat (ia_num_elements api h) = length (hv_ent V h) \<and>
        (\<forall>p. ia_key_type api h p =
           (case slot_at (slots h) p of
              None \<Rightarrow> KeyNonExistent | Some (HIdx _, _) \<Rightarrow> KeyLong | Some (HStr _, _) \<Rightarrow> KeyString)) \<and>
        (\<forall>p. ia_key_zval api h p = map_option fst (slot_at (slots h) p)) \<and>
        (\<forall>p. ia_data api h p = map_option snd (slot_at (slots h) p)) \<and>
        (\<forall>p. ia_forward api h p =
           (let q = slot_from (slots h) p in if q < length (slots h) then slot_from (slots h) (Suc q) else p)) \<and>
        (\<forall>p. ia_backward api h p =
           (if p < length (slots h) then case slot_before (slots h) p of Some q \<Rightarrow> q | None \<Rightarrow> length (slots h) else p)))"

section \<open>Forward iteration\<close>

lemma key_of_hkey_None: "key_of_hkey k = None \<longleftrightarrow> (\<exists>s. k = HStr s \<and> \<not> utf8_valid s)"
  by (auto simp: key_of_hkey_def key_from_zval_def split: hkey.splits)

lemma map_filter_dropWhile_None: "List.map_filter id (dropWhile (\<lambda>x. x = None) xs) = List.map_filter id xs"
  by (induction xs) (auto simp: map_filter_simps)

lemma drop_slot_from: "drop (slot_from sl p) sl = dropWhile (\<lambda>x. x = None) (drop p sl)"
  by (simp add: slot_from_def dropWhile_eq_drop add.commute)

lemma rest_slot_from [simp]: "List.map_filter id (drop (slot_from sl p) sl) = List.map_filter id (drop p sl)"
  by (simp add: drop_slot_from map_filter_dropWhile_None)

lemma slot_at_hd: "slot_at sl p = (case List.map_filter id (drop p sl) of [] \<Rightarrow> None | x # _ \<Rightarrow> Some x)"
proof (cases "drop (slot_from sl p) sl")
  case Nil
  then have "\<not> slot_from sl p < length sl" by simp
  moreover have "List.map_filter id (drop p sl) = []" using rest_slot_from [of sl p] Nil by (simp add: map_filter_simps)
  ultimately show ?thesis by (simp add: slot_at_def)
next
  case (Cons y ys)
  then have q: "slot_from sl p < length sl" "sl ! slot_from sl p = y"
    by (metis drop_eq_Nil list.distinct(1) not_le_imp_less, metis hd_drop_conv_nth drop_eq_Nil list.sel(1) list.distinct(1) not_le_imp_less)
  have "y \<noteq> None" using Cons drop_slot_from [of sl p] hd_dropWhile [of "\<lambda>x. x = None" "drop p sl"] by force
  then obtain x where "y = Some x" by blast
  with Cons have "List.map_filter id (drop p sl) = x # List.map_filter id ys"
    using rest_slot_from [of sl p] by (simp add: map_filter_simps)
  with q \<open>y = Some x\<close> show ?thesis by (simp add: slot_at_def)
qed

lemma slot_from_step:
  assumes "List.map_filter id (drop p sl) = x # es"
  shows "slot_from sl p < length sl" "List.map_filter id (drop (Suc (slot_from sl p)) sl) = es"
proof -
  let ?q = "slot_from sl p"
  have r: "List.map_filter id (drop ?q sl) = x # es" using assms by simp
  then show q: "?q < length sl" by (cases "?q < length sl") (simp_all add: map_filter_simps)
  have "slot_at sl p = Some x" using assms by (simp add: slot_at_hd)
  with q have "sl ! ?q = Some x" by (simp add: slot_at_def)
  with r q show "List.map_filter id (drop (Suc ?q) sl) = es"
    by (simp add: Cons_nth_drop_Suc [symmetric] map_filter_simps)
qed

definition it_rest :: "('h \<Rightarrow> (hkey \<times> 'v) option list) \<Rightarrow> 'h ht_iter \<Rightarrow> (hkey \<times> 'v) list" where
  "it_rest slots it = List.map_filter id (drop (it_pos it) (slots (it_ht it)))"

lemma next_zval_rest:
  assumes "iter_api_ok api V slots" and "hv_inv V (it_ht it)"
    and "it_end_num it - it_current_num it = int (length (it_rest slots it))"
  shows "case it_rest slots it of
      [] \<Rightarrow> next_zval api it = (None, it)
    | kv # es \<Rightarrow>
        (\<exists>it'. next_zval api it = (Some kv, it') \<and>
           it_ht it' = it_ht it \<and> it_rest slots it' = es \<and> it_end_num it' - it_current_num it' = int (length es))"
proof (cases "it_rest slots it")
  case Nil
  with assms(3) show ?thesis by (simp add: next_zval_def)
next
  case (Cons kv es)
  obtain k v where kv: "kv = (k, v)" by (cases kv)
  let ?h = "it_ht it" and ?p = "it_pos it"
  have rest: "List.map_filter id (drop ?p (slots ?h)) = (k, v) # es" using Cons by (simp add: it_rest_def kv)
  then have at: "slot_at (slots ?h) ?p = Some (k, v)" by (simp add: slot_at_hd)
  note step = slot_from_step [OF rest]
  have api: "ia_key_type api ?h ?p \<noteq> KeyNonExistent" "ia_key_zval api ?h ?p = Some k" "ia_data api ?h ?p = Some v"
    "ia_forward api ?h ?p = slot_from (slots ?h) (Suc (slot_from (slots ?h) ?p))"
    using assms(1,2) at step(1) by (auto simp: iter_api_ok_def Let_def split: hkey.splits)
  have num: "it_current_num it < it_end_num it" using assms(3) Cons by simp
  let ?it = "it\<lparr>it_pos := ia_forward api ?h ?p, it_current_num := it_current_num it + 1\<rparr>"
  have "next_zval api it = (Some (k, v), ?it)" using api num by (simp add: next_zval_def Let_def)
  moreover have "it_rest slots ?it = es" using step(2) by (simp add: it_rest_def api(4))
  moreover have "it_end_num ?it - it_current_num ?it = int (length es)" using assms(3) Cons by simp
  ultimately show ?thesis using Cons kv by simp
qed

lemma iter_next_rest:
  assumes "iter_api_ok api V slots" and "hv_inv V (it_ht it)"
    and "it_end_num it - it_current_num it = int (length (it_rest slots it))"
  shows "case it_rest slots it of
      [] \<Rightarrow> iter_next api it = (Exhausted, it)
    | (k, v) # es \<Rightarrow>
        (\<exists>it'. iter_next api it = (case key_of_hkey k of None \<Rightarrow> IterPanic | Some key \<Rightarrow> Item (key, v), it') \<and>
           it_ht it' = it_ht it \<and> it_rest slots it' = es \<and> it_end_num it' - it_current_num it' = int (length es))"
  using next_zval_rest [OF assms] by (auto simp: iter_next_def split: list.splits option.splits)

text \<open>The loop over the entries themselves.\<close>

fun try_all :: "(nat \<Rightarrow> array_key \<times> 'v \<Rightarrow> 'e + 'b) \<Rightarrow> (hkey \<times> 'v) list \<Rightarrow> 'b list \<Rightarrow> ('e + 'b list) option" where
  "try_all f [] acc = Some (Inr acc)"
| "try_all f ((k, v) # es) acc =
     (case key_of_hkey k of
        None \<Rightarrow> None
      | Some key \<Rightarrow> (case f (length acc) (key, v) of Inl e \<Rightarrow> Some (Inl e) | Inr b \<Rightarrow> try_all f es (acc @ [b])))"

lemma iter_try_rest:
  assumes "iter_api_ok api V slots" and "hv_inv V (it_ht it)"
    and "it_end_num it - it_current_num it = int (length (it_rest slots it))"
  shows "iter_try api f it acc = try_all f (it_rest slots it) acc"
  using assms(2,3)
proof (induction "it_rest slots it" arbitrary: it acc)
  case Nil
  with iter_next_rest [OF assms(1) Nil.prems] show ?case by (subst iter_try.simps) (simp flip: Nil.hyps)
next
  case (Cons kv es)
  obtain k v where kv: "kv = (k, v)" by (cases kv)
  from iter_next_rest [OF assms(1) Cons.prems] obtain it' where
    n: "iter_next api it = (case key_of_hkey k of None \<Rightarrow> IterPanic | Some key \<Rightarrow> Item (key, v), it')"
    "it_ht it' = it_ht it" "it_rest slots it' = es" "it_end_num it' - it_current_num it' = int (length es)"
    by (auto simp: Cons.hyps(2) [symmetric] kv)
  then have "iter_try api f it' acc' = try_all f es acc'" for acc'
    using Cons.hyps(1) [of it'] Cons.prems(1) by simp
  with n(1) show ?case
    by (subst iter_try.simps) (simp add: Cons.hyps(2) [symmetric] kv split: option.splits sum.splits)
qed

lemma iter_try_new:
  assumes "hash_api_ok hapi V" and "iter_api_ok api V slots" and "hv_inv V h"
  shows "iter_try api f (iter_new hapi api h) acc = try_all f (hv_ent V h) acc"
proof -
  have e: "it_rest slots (iter_new hapi api h) = hv_ent V h"
    using assms(2,3) by (simp add: iter_new_def it_rest_def iter_api_ok_def)
  show ?thesis
    using iter_try_rest [OF assms(2), of "iter_new hapi api h" f acc] assms(3) ht_get_view(4) [OF assms(1,3)] e
    by (simp add: iter_new_def)
qed

section \<open>Tables built by the conversions\<close>

fun idx_entries :: "int \<Rightarrow> 'v list \<Rightarrow> (hkey \<times> 'v) list" where
  "idx_entries n [] = []"
| "idx_entries n (v # vs) = (HIdx (word_of_int n), v) # idx_entries (n + 1) vs"

lemma length_idx_entries [simp]: "length (idx_entries n vs) = length vs"
  by (induction vs arbitrary: n) auto

lemma push_all_view:
  assumes "hash_api_ok api V"
  shows "hv_inv V h \<Longrightarrow> hv_nxt V h = Some n \<Longrightarrow> n + int (length vs) \<le> i64_max \<Longrightarrow>
    length (hv_ent V h) + length vs < 2 ^ 32 \<Longrightarrow>
    \<exists>h'. push_all api (map Inr vs) h = Inr h' \<and> hv_inv V h' \<and> hv_ent V h' = hv_ent V h @ idx_entries n vs"
proof (induction vs arbitrary: h n)
  case (Cons v vs)
  have "hv_room V h" using Cons.prems by (simp add: hv_room_def)
  from ht_push_view [OF assms this, of v] Cons.prems obtain h1 where
    h1: "ht_push api h (Inr v) = (Inr (), h1)" "hv_inv V h1" "hv_nxt V h1 = Some (n + 1)"
      "hv_ent V h1 = hv_ent V h @ [(HIdx (word_of_int n), v)]"
    by (auto simp: next_after_def)
  with Cons.IH [of h1 "n + 1"] Cons.prems show ?case by (auto simp: add.assoc)
qed simp

lemma alist_update_new: "k \<notin> fst ` set es \<Longrightarrow> AList.update k v es = es @ [(k, v)]"
  by (induction es) auto

lemma insert_all_view:
  assumes "hash_api_ok api V"
  shows "hv_inv V h \<Longrightarrow> distinct (map fst (hv_ent V h) @ map (hkey_of \<circ> fst) kvs) \<Longrightarrow>
    length (hv_ent V h) + length kvs < 2 ^ 32 \<Longrightarrow>
    \<exists>h'. insert_all api (map (\<lambda>(k, v). (k, Inr v)) kvs) h = Inr h' \<and> hv_inv V h' \<and>
      hv_ent V h' = hv_ent V h @ map (\<lambda>(k, v). (hkey_of k, v)) kvs"
proof (induction kvs arbitrary: h)
  case (Cons kv kvs)
  obtain k v where kv: "kv = (k, v)" by (cases kv)
  have "hv_room V h" using Cons.prems by (simp add: hv_room_def)
  from ht_insert_view [OF assms this, of k v] obtain h1 where
    h1: "ht_insert api h k (Inr v) = (Inr (), h1)" "hv_inv V h1"
      "hv_ent V h1 = AList.update (hkey_of k) v (hv_ent V h)"
    by (auto simp: updated_def)
  moreover have "hkey_of k \<notin> fst ` set (hv_ent V h)" using Cons.prems kv by auto
  ultimately have "hv_ent V h1 = hv_ent V h @ [(hkey_of k, v)]" by (simp add: alist_update_new)
  with Cons.IH [of h1] Cons.prems h1(1,2) kv show ?case by auto
qed simp

lemma with_table_ok:
  assumes "hash_api_ok api V" and "n < 2 ^ 32" and "ha_new api (word_of_nat n) \<noteq> None"
  obtains h where "with_table api n body = Some (body h)" "emptied V h"
  using assms by (auto simp: with_table_def u32_try_into_def ht_with_capacity_def hash_api_ok_def)

lemma table_from_vec_ok:
  assumes "hash_api_ok api V" and "length xs < 2 ^ 32" and "ha_new api (word_of_nat (length xs)) \<noteq> None"
    and "\<forall>x \<in> set xs. into x = Inr (val x)"
  obtains h where "table_from_vec api into xs = Some (Inr h)" "hv_inv V h" "hv_ent V h = idx_entries 0 (map val xs)"
proof -
  obtain h0 where h0: "table_from_vec api into xs = Some (push_all api (map into xs) h0)" "emptied V h0"
    using with_table_ok [OF assms(1-3)] unfolding table_from_vec_def by metis
  have m: "map into xs = map Inr (map val xs)" using assms(4) by simp
  obtain h where "push_all api (map Inr (map val xs)) h0 = Inr h" "hv_inv V h"
      "hv_ent V h = idx_entries 0 (map val xs)"
    using push_all_view [OF assms(1), of h0 0 "map val xs"] h0(2) assms(2)
    by (auto simp: emptied_def i64_defs)
  then show ?thesis by (intro that) (simp_all only: h0(1) m)
qed

lemma table_from_pairs_ok:
  assumes "hash_api_ok api V" and "length kvs < 2 ^ 32" and "ha_new api (word_of_nat (length kvs)) \<noteq> None"
    and "\<forall>(k, t) \<in> set kvs. into t = Inr (val t)" and "distinct (map (\<lambda>(k, t). hkey_of (key_of k)) kvs)"
  obtains h where "table_from_pairs api key_of into kvs = Some (Inr h)" "hv_inv V h"
    "hv_ent V h = map (\<lambda>(k, t). (hkey_of (key_of k), val t)) kvs"
proof -
  let ?kvs = "map (\<lambda>(k, t). (key_of k, val t)) kvs"
  obtain h0 where h0: "table_from_pairs api key_of into kvs =
      Some (insert_all api (map (\<lambda>(k, v). (key_of k, into v)) kvs) h0)" "emptied V h0"
    using with_table_ok [OF assms(1-3)] unfolding table_from_pairs_def by metis
  have m: "map (\<lambda>(k, v). (key_of k, into v)) kvs = map (\<lambda>(k, v). (k, Inr v)) ?kvs" using assms(4) by auto
  have "distinct (map (hkey_of \<circ> fst) ?kvs)" using assms(5) by (simp add: case_prod_unfold comp_def)
  then obtain h where "insert_all api (map (\<lambda>(k, v). (k, Inr v)) ?kvs) h0 = Inr h" "hv_inv V h"
      "hv_ent V h = map (\<lambda>(k, v). (hkey_of k, v)) ?kvs"
    using insert_all_view [OF assms(1), of h0 ?kvs] h0(2) assms(2) by (auto simp: emptied_def)
  then show ?thesis using that h0(1) unfolding m by (simp add: case_prod_unfold comp_def)
qed

lemma try_all_vec:
  assumes "\<forall>x \<in> set xs. unzv (val x) = Some x"
  shows "try_all (\<lambda>_ (_, v). case unzv v of Some t \<Rightarrow> Inr t | None \<Rightarrow> Inl (err v)) (idx_entries n (map val xs)) acc =
    Some (Inr (acc @ xs))"
  using assms by (induction xs arbitrary: n acc) (auto simp: key_of_hkey_def key_from_zval_def)

lemma try_all_sequential:
  assumes "int (length acc + length vs) \<le> i64_max"
  shows "try_all (\<lambda>i (k, _). if KLong (int i) \<noteq> k then Inl () else Inr ()) (idx_entries (int (length acc)) vs) acc =
    Some (Inr (acc @ replicate (length vs) ()))"
  using assms
proof (induction vs arbitrary: acc)
  case (Cons v vs)
  have "sint (word_of_int (int (length acc)) :: u64) = int (length acc)"
    using Cons.prems by (intro i64_max_bound(2)) simp_all
  moreover have "int (length (acc @ [()])) = int (length acc) + 1" by simp
  ultimately show ?case
    using Cons.IH [of "acc @ [()]"] Cons.prems by (simp add: key_of_hkey_def key_from_zval_def del: of_nat_Suc)
      (simp add: add.commute)
qed simp

lemma try_all_pairs:
  assumes "\<forall>(k, t) \<in> set kvs. \<exists>key. key_of_hkey (hkey_of (key_of k)) = Some key \<and> key_into key = Inr k"
    and "\<forall>(k, t) \<in> set kvs. unzv (val t) = Some t"
  shows "try_all (\<lambda>_ (k, v). case key_into k of
            Inl e \<Rightarrow> Inl e
          | Inr key \<Rightarrow> (case unzv v of Some t \<Rightarrow> Inr (key, t) | None \<Rightarrow> Inl (err v)))
          (map (\<lambda>(k, t). (hkey_of (key_of k), val t)) kvs) acc = Some (Inr (acc @ kvs))"
  using assms by (induction kvs arbitrary: acc) auto

lemma try_all_collect:
  "try_all (\<lambda>_. Inr) es acc =
     (if \<forall>(k, v) \<in> set es. key_of_hkey k \<noteq> None
      then Some (Inr (acc @ map (\<lambda>(k, v). (the (key_of_hkey k), v)) es)) else None)"
proof (induction es arbitrary: acc)
  case (Cons kv es)
  then show ?case by (cases kv; cases "key_of_hkey (fst kv)") auto
qed simp

lemma fold_map_upd: "distinct (map fst kvs) \<Longrightarrow> fold (\<lambda>(k, v) m. m(k \<mapsto> v)) kvs m = m ++ map_of kvs"
proof (induction kvs arbitrary: m)
  case (Cons kv kvs)
  obtain k v where kv: "kv = (k, v)" by (cases kv)
  from Cons.prems have "map_of kvs k = None" by (simp add: kv map_of_eq_None_iff)
  with Cons show ?case by (auto simp: kv map_add_def fun_eq_iff split: option.splits)
qed simp

lemma update_fresh: "k \<notin> fst ` set m \<Longrightarrow> AList.update k v m = m @ [(k, v)]"
  by (induction m) auto

lemma fold_update_distinct:
  assumes "distinct (map fst (m @ kvs))"
  shows "fold (\<lambda>(k, v). AList.update k v) kvs m = m @ kvs"
  using assms
proof (induction kvs arbitrary: m)
  case (Cons kv kvs)
  then show ?case by (cases kv) (simp add: update_fresh image_iff)
qed simp

lemma btree_insert_last: "\<forall>(k', _) \<in> set m. k' < k \<Longrightarrow> btree_insert k v m = m @ [(k, v)]"
  by (induction m) (auto simp: btree_insert_def)

lemma fold_btree_sorted:
  assumes "sorted_wrt (<) (map fst (m @ kvs))"
  shows "fold (\<lambda>(k, v). btree_insert k v) kvs m = m @ kvs"
  using assms
proof (induction kvs arbitrary: m)
  case (Cons kv kvs)
  obtain k v where kv: "kv = (k, v)" by (cases kv)
  from Cons.prems have "\<forall>(k', _) \<in> set m. k' < k" by (force simp: kv sorted_wrt_append)
  with Cons show ?case by (simp add: kv btree_insert_last)
qed simp

text \<open>The cursor functions of an engine whose slots are known.\<close>

definition slots_api :: "('h \<Rightarrow> (hkey \<times> 'v) option list) \<Rightarrow> ('h, 'v) iter_api" where
  "slots_api slots =
     \<lparr>ia_num_elements = \<lambda>h. word_of_nat (length (List.map_filter id (slots h))),
      ia_key_type = \<lambda>h p. (case slot_at (slots h) p of
         None \<Rightarrow> KeyNonExistent | Some (HIdx _, _) \<Rightarrow> KeyLong | Some (HStr _, _) \<Rightarrow> KeyString),
      ia_key_zval = \<lambda>h p. map_option fst (slot_at (slots h) p),
      ia_data = \<lambda>h p. map_option snd (slot_at (slots h) p),
      ia_forward = \<lambda>h p. (let q = slot_from (slots h) p
         in if q < length (slots h) then slot_from (slots h) (Suc q) else p),
      ia_backward = \<lambda>h p. (if p < length (slots h)
         then case slot_before (slots h) p of Some q \<Rightarrow> q | None \<Rightarrow> length (slots h) else p)\<rparr>"

lemma slots_api_ok:
  assumes "\<And>h. hv_inv V h \<Longrightarrow> List.map_filter id (slots h) = hv_ent V h \<and> length (hv_ent V h) < 2 ^ 32"
  shows "iter_api_ok (slots_api slots) V slots"
  using assms by (simp add: iter_api_ok_def slots_api_def unat_of_nat)

lemma map_filter_Some [simp]: "List.map_filter id (map Some xs) = xs"
  by (induction xs) (simp_all add: map_filter_simps)

lemma packed_api_ok: "iter_api_ok (slots_api (\<lambda>h. map Some (fst h))) list_view (\<lambda>h. map Some (fst h))"
  by (rule slots_api_ok) (auto simp: list_inv_def)

section \<open>Backward iteration\<close>

lemma slot_from_packed: "p \<le> length es \<Longrightarrow> slot_from (map Some es) p = p"
proof -
  have "takeWhile (\<lambda>x. x = None) (map Some ys) = []" for ys :: "'a list" by (cases ys) auto
  then show ?thesis by (simp add: slot_from_def drop_map)
qed

lemma slot_at_packed: "p < length es \<Longrightarrow> slot_at (map Some es) p = Some (es ! p)"
  by (simp add: slot_at_def slot_from_packed)

lemma next_back_packed:
  assumes "iter_api_ok api V slots" and "hv_inv V h" and "slots h = map Some (hv_ent V h)" and "n < length (hv_ent V h)"
    and "key_of_hkey (fst (hv_ent V h ! n)) = Some key"
    and "it_ht it = h" "it_current_num it = 0" "it_pos it = 0" "it_end_num it = int (Suc n)" "it_end_pos it = n"
  shows "\<exists>it'. iter_next_back api it = (Item (key, snd (hv_ent V h ! n)), it') \<and> it_ht it' = h \<and>
     it_current_num it' = 0 \<and> it_pos it' = 0 \<and> it_end_num it' = int n \<and> (0 < n \<longrightarrow> it_end_pos it' = n - 1)"
proof -
  let ?es = "hv_ent V h"
  have at: "slot_at (slots h) n = Some (?es ! n)" "slot_at (slots h) 0 = Some (?es ! 0)"
    unfolding assms(3) using assms(4) by (intro slot_at_packed; linarith)+
  have "ia_key_type api h 0 \<noteq> KeyNonExistent" "ia_key_zval api h n = Some (fst (?es ! n))"
    "ia_data api h n = Some (snd (?es ! n))"
    using assms(1,2) at by (auto simp: iter_api_ok_def split: prod.splits hkey.splits)
  moreover have "0 < n \<longrightarrow> ia_backward api h n = n - 1"
    using assms(1-4) by (cases n) (simp_all add: iter_api_ok_def)
  ultimately show ?thesis
    using assms(5-10) by (simp add: iter_next_back_def Let_def)
qed

lemma iter_rev_packed_from:
  assumes "iter_api_ok api V slots" and "hv_inv V h" and "slots h = map Some (hv_ent V h)"
    and "\<forall>(k, v) \<in> set (hv_ent V h). key_of_hkey k \<noteq> None"
  shows "n \<le> length (hv_ent V h) \<Longrightarrow> it_ht it = h \<Longrightarrow> it_current_num it = 0 \<Longrightarrow> it_pos it = 0 \<Longrightarrow>
    it_end_num it = int n \<Longrightarrow> (0 < n \<longrightarrow> it_end_pos it = n - 1) \<Longrightarrow>
    iter_rev api it acc = Some (acc @ rev (map (\<lambda>(k, v). (the (key_of_hkey k), v)) (take n (hv_ent V h))))"
proof (induction n arbitrary: it acc)
  case 0
  then show ?case by (subst iter_rev.simps) (simp add: iter_next_back_def)
next
  case (Suc n)
  let ?e = "hv_ent V h ! n"
  have "?e \<in> set (hv_ent V h)" using Suc.prems(1) by simp
  with assms(4) obtain key where key: "key_of_hkey (fst ?e) = Some key" by (cases ?e) auto
  from Suc.prems have "it_end_pos it = n" "n < length (hv_ent V h)" by simp_all
  from next_back_packed [OF assms(1-3) this(2) key Suc.prems(2-5) this(1)] obtain it' where
    it': "iter_next_back api it = (Item (key, snd ?e), it')" "it_ht it' = h" "it_current_num it' = 0" "it_pos it' = 0"
      "it_end_num it' = int n" "0 < n \<longrightarrow> it_end_pos it' = n - 1" by blast
  have "take (Suc n) (hv_ent V h) = take n (hv_ent V h) @ [?e]"
    using Suc.prems(1) by (simp add: take_Suc_conv_app_nth)
  moreover have "(case ?e of (k, v) \<Rightarrow> (the (key_of_hkey k), v)) = (key, snd ?e)" using key by (simp add: case_prod_unfold)
  ultimately show ?case
    using Suc.IH [OF _ it'(2-6)] Suc.prems(1) it'(1) by (subst iter_rev.simps) simp
qed

lemma pairs_table_roundtrip:
  assumes "hash_api_ok hapi V" and "iter_api_ok api V slots" and "length kvs < 2 ^ 32"
    and "ha_new hapi (word_of_nat (length kvs)) \<noteq> None" and "distinct (map fst kvs)"
    and "\<forall>(k, t) \<in> set kvs. into t = Inr (val t) \<and> unzv (val t) = Some t"
    and "\<forall>(k, t) \<in> set kvs. \<exists>key. key_of_hkey (hkey_of (key_of k)) = Some key \<and> key_into key = Inr k"
  shows "\<exists>h. table_from_pairs hapi key_of into kvs = Some (Inr h) \<and>
             pairs_from_table hapi api key_into unzv ty h = Some (Inr kvs)"
proof -
  have "inj_on (\<lambda>(k, t). hkey_of (key_of k)) (set kvs)"
  proof (rule inj_onI, clarify)
    fix k t k' t' assume in_kvs: "(k, t) \<in> set kvs" "(k', t') \<in> set kvs" and eq: "hkey_of (key_of k) = hkey_of (key_of k')"
    obtain key key' where "key_of_hkey (hkey_of (key_of k)) = Some key" "key_into key = Inr k"
        "key_of_hkey (hkey_of (key_of k')) = Some key'" "key_into key' = Inr k'"
      using assms(7) in_kvs by blast
    then have "k = k'" using eq by simp
    with assms(5) in_kvs show "k = k' \<and> t = t'" by (metis eq_key_imp_eq_value)
  qed
  moreover have "distinct kvs" using assms(5) by (simp add: distinct_map)
  ultimately have d: "distinct (map (\<lambda>(k, t). hkey_of (key_of k)) kvs)" by (simp add: distinct_map)
  obtain h where h: "table_from_pairs hapi key_of into kvs = Some (Inr h)" "hv_inv V h"
      "hv_ent V h = map (\<lambda>(k, t). (hkey_of (key_of k), val t)) kvs"
  proof -
    have "\<forall>(k, t) \<in> set kvs. into t = Inr (val t)" using assms(6) by auto
    from table_from_pairs_ok [OF assms(1,3,4) this d] that show thesis by blast
  qed
  have p: "pairs_from_table hapi api key_into unzv ty h = Some (Inr kvs)"
  proof -
    have "\<forall>(k, t) \<in> set kvs. unzv (val t) = Some t" using assms(6) by auto
    with assms(7) have "try_all (\<lambda>_ (k, v). case key_into k of
            Inl e \<Rightarrow> Inl e
          | Inr key \<Rightarrow> (case unzv v of Some t \<Rightarrow> Inr (key, t) | None \<Rightarrow> Inl (ZvalConversion (ty v))))
          (map (\<lambda>(k, t). (hkey_of (key_of k), val t)) kvs) [] = Some (Inr ([] @ kvs))"
      by (intro try_all_pairs)
    then show ?thesis
      by (simp add: pairs_from_table_def iter_try_new [OF assms(1,2) h(2)] h(3))
  qed
  with h(1) show ?thesis by auto
qed

section \<open>Properties\<close>

text \<open>C16. Iterating over an array visits every entry once, in insertion order, whatever holes deletions left:
  a loop that collects keys and values gives exactly the entries, provided every string key is
  UTF-8, and panics on an array with any other key.\<close>

theorem array_iteration_complete:
  assumes "hash_api_ok hapi V" and "iter_api_ok api V slots" and "hv_inv V h"
  shows "iter_try api (\<lambda>_. Inr) (iter_new hapi api h) [] =
    (if \<forall>s v. (HStr s, v) \<in> set (hv_ent V h) \<longrightarrow> utf8_valid s
     then Some (Inr (map (\<lambda>(k, v). (case k of HIdx i \<Rightarrow> KLong (sint i) | HStr s \<Rightarrow> KString s, v)) (hv_ent V h)))
     else None)"
proof -
  let ?ok = "\<forall>s v. (HStr s, v) \<in> set (hv_ent V h) \<longrightarrow> utf8_valid s"
  have "(\<forall>(k, v) \<in> set (hv_ent V h). key_of_hkey k \<noteq> None) \<longleftrightarrow> ?ok"
    by (auto simp: key_of_hkey_None)
  moreover have "map (\<lambda>(k, v). (the (key_of_hkey k), v)) (hv_ent V h) =
      map (\<lambda>(k, v). (case k of HIdx i \<Rightarrow> KLong (sint i) | HStr s \<Rightarrow> KString s, v)) (hv_ent V h)" if ?ok
    using that by (fastforce simp: key_of_hkey_def key_from_zval_def split: hkey.splits)
  ultimately show ?thesis unfolding iter_try_new [OF assms] try_all_collect by (simp only: append_Nil split: if_split) blast
qed

theorem array_iteration_complete_witness:
  "iter_try (slots_api (\<lambda>h. map Some (fst h))) (\<lambda>_. Inr)
     (iter_new list_api (slots_api (\<lambda>h. map Some (fst h))) ([(HStr [CHR 0xFF], 1 :: nat)], Some 0)) [] =
   (None :: (unit + (array_key \<times> nat) list) option)"
proof -
  have "hv_inv list_view ([(HStr [CHR 0xFF], 1 :: nat)], Some 0)" by (simp add: list_inv_def i64_defs)
  moreover have "\<not> utf8_valid [CHR 0xFF]"
    by (simp add: utf8_valid.simps utf8_next_def utf8_width_def)
  ultimately show ?thesis
    using array_iteration_complete [OF list_api_ok packed_api_ok, of "([(HStr [CHR 0xFF], 1 :: nat)], Some 0)"] by auto
qed

text \<open>C19. A vector survives the conversion to an array and back, and the array is a list: its keys are
  numbered from zero.\<close>

theorem vec_table_roundtrip:
  assumes "hash_api_ok hapi V" and "iter_api_ok api V slots" and "length xs < 2 ^ 32"
    and "ha_new hapi (word_of_nat (length xs)) \<noteq> None"
    and "\<forall>x \<in> set xs. into x = Inr (val x) \<and> unzv (val x) = Some x"
  shows "\<exists>h. table_from_vec hapi into xs = Some (Inr h) \<and> vec_from_table hapi api unzv ty h = Some (Inr xs) \<and>
             has_sequential_keys hapi api h = Some True \<and> ht_len hapi h = length xs"
proof -
  obtain h where h: "table_from_vec hapi into xs = Some (Inr h)" "hv_inv V h" "hv_ent V h = idx_entries 0 (map val xs)"
    using table_from_vec_ok [OF assms(1,3,4), of into val] assms(5) by auto
  have "vec_from_table hapi api unzv ty h = Some (Inr xs)"
    using try_all_vec [of xs unzv val _ 0 "[]"] assms(5)
    by (simp add: vec_from_table_def iter_try_new [OF assms(1,2) h(2)] h(3))
  moreover have "has_sequential_keys hapi api h = Some True"
    using try_all_sequential [of "[]" "map val xs"] assms(3)
    by (simp add: has_sequential_keys_def iter_try_new [OF assms(1,2) h(2)] h(3) not_found_def i64_defs)
  ultimately show ?thesis using h ht_get_view(4) [OF assms(1) h(2)] by auto
qed

theorem vec_table_roundtrip_witness:
  "\<exists>h. table_from_vec list_api Inr [True, False] = Some (Inr h) \<and>
     vec_from_table list_api (slots_api (\<lambda>h. map Some (fst h))) Some (\<lambda>_. DtBool) h = Some (Inr [True, False])"
  using vec_table_roundtrip [OF list_api_ok packed_api_ok, of "[True, False]" Inr id Some "\<lambda>_. DtBool"]
  by (auto simp: list_api_def)

text \<open>Pairs, and the maps they stand for, survive the conversion to an array and back when their keys do:
  when the key read back from the array for each key is that key again. An \<open>IndexMap\<close> keeps the order too.\<close>

theorem map_table_roundtrip:
  assumes "hash_api_ok hapi V" and "iter_api_ok api V slots" and "length kvs < 2 ^ 32"
    and "ha_new hapi (word_of_nat (length kvs)) \<noteq> None" and "distinct (map fst kvs)"
    and "\<forall>(k, t) \<in> set kvs. into t = Inr (val t) \<and> unzv (val t) = Some t"
    and "\<forall>(k, t) \<in> set kvs. \<exists>key. key_of_hkey (hkey_of (key_of k)) = Some key \<and> key_into key = Inr k"
  shows "\<exists>h. table_from_pairs hapi key_of into kvs = Some (Inr h) \<and>
             pairs_from_table hapi api key_into unzv ty h = Some (Inr kvs) \<and>
             map_from_table hapi api key_into unzv ty h = Some (Inr (map_of kvs)) \<and>
             table_from_index_map hapi key_of into kvs = Some (Inr h) \<and>
             index_map_from_table hapi api key_into unzv ty h = Some (Inr kvs)"
proof -
  from pairs_table_roundtrip [OF assms] obtain h where "table_from_pairs hapi key_of into kvs = Some (Inr h)"
    "pairs_from_table hapi api key_into unzv ty h = Some (Inr kvs)" by blast
  then show ?thesis
    using assms(5)
    by (auto simp: map_from_table_def index_map_from_table_def table_from_index_map_def table_from_pairs_def fold_map_upd
        fold_update_distinct)
qed

theorem map_table_roundtrip_witness:
  "\<exists>h. table_from_pairs list_api array_key_from_string Inr [(''7'', True), (''a'', False)] = Some (Inr h) \<and>
     pairs_from_table list_api (slots_api (\<lambda>h. map Some (fst h))) string_try_from_key Some (\<lambda>_. DtBool) h =
       Some (Inr [(''7'', True), (''a'', False)])"
proof -
  have "array_key_from_string ''7'' = KLong 7" "array_key_from_string ''a'' = KString ''a''" "show_int 7 = ''7''"
    by (simp_all add: array_key_from_string_def i64_from_str_def is_ascii_digit_def digits_val_def digit_val_def
      i64_defs Let_def show_int_def show_nat_digit digit_char_def)
  moreover have "sint (7 :: u64) = 7" "utf8_valid ''a''"
    by (simp_all add: utf8_valid_ascii)
  ultimately show ?thesis
    using map_table_roundtrip [OF list_api_ok packed_api_ok, of "[(''7'', True), (''a'', False)]" Inr id Some
      array_key_from_string string_try_from_key "\<lambda>_. DtBool"]
    by (auto simp: list_api_def key_of_hkey_def key_from_zval_def string_try_from_key_def)
qed




text \<open>An ordered map survives the conversion to an array and back under the same condition.\<close>

theorem btree_map_roundtrip:
  assumes "hash_api_ok hapi V" and "iter_api_ok api V slots" and "length kvs < 2 ^ 32"
    and "ha_new hapi (word_of_nat (length kvs)) \<noteq> None" and "sorted_wrt (<) (map fst kvs)"
    and "\<forall>(k, t) \<in> set kvs. into t = Inr (val t) \<and> unzv (val t) = Some t"
    and "\<forall>(k, t) \<in> set kvs. \<exists>key. key_of_hkey (hkey_of (key_of k)) = Some key \<and> key_into key = Inr k"
  shows "\<exists>h. table_from_btree_map hapi key_of into kvs = Some (Inr h) \<and>
             btree_map_from_table hapi api key_into unzv ty h = Some (Inr kvs)"
proof -
  have "distinct (map fst kvs)" using assms(5) by (simp add: strict_sorted_iff)
  from pairs_table_roundtrip [OF assms(1-4) this assms(6,7)] obtain h where
    "table_from_pairs hapi key_of into kvs = Some (Inr h)" "pairs_from_table hapi api key_into unzv ty h = Some (Inr kvs)" by blast
  then show ?thesis
    using fold_btree_sorted [of "[]" kvs] assms(5)
    by (simp add: btree_map_from_table_def table_from_btree_map_def table_from_pairs_def)
qed

theorem btree_map_roundtrip_witness:
  "\<exists>h. table_from_btree_map list_api KLong Inr [(1, True), (2, False)] = Some (Inr h) \<and>
     btree_map_from_table list_api (slots_api (\<lambda>h. map Some (fst h))) i64_try_from_key Some (\<lambda>_. DtBool) h =
       Some (Inr [(1, True), (2, False)])"
  using btree_map_roundtrip [OF list_api_ok packed_api_ok, of "[(1, True), (2, False)]" Inr id Some KLong i64_try_from_key "\<lambda>_. DtBool"]
  by (auto simp: list_api_def key_of_hkey_def key_from_zval_def i64_try_from_key_def)

text \<open>Iterating backwards gives the entries in reverse as long as no deletion left a hole.\<close>

theorem array_reverse_packed:
  assumes "hash_api_ok hapi V" and "iter_api_ok api V slots" and "hv_inv V h" and "slots h = map Some (hv_ent V h)"
    and "\<forall>(k, v) \<in> set (hv_ent V h). key_of_hkey k \<noteq> None"
  shows "iter_rev api (iter_new hapi api h) [] =
    Some (rev (map (\<lambda>(k, v). (the (key_of_hkey k), v)) (hv_ent V h)))"
proof -
  have n: "unat (ia_num_elements api h) = length (hv_ent V h)"
    using assms(2,3) by (simp add: iter_api_ok_def)
  have "unat (ia_num_elements api h - 1) = length (hv_ent V h) - 1" if "0 < ia_num_elements api h"
    using that n by (metis unat_minus_one word_neq_0_conv)
  moreover have "0 < ia_num_elements api h" if "0 < length (hv_ent V h)"
    using that n by (metis unat_0 word_neq_0_conv less_irrefl)
  ultimately show ?thesis
    using iter_rev_packed_from [OF assms(2-5), of "length (hv_ent V h)" "iter_new hapi api h" "[]"]
      ht_get_view(4) [OF assms(1,3)] by (simp add: iter_new_def)
qed

theorem array_reverse_packed_witness:
  "iter_rev (slots_api (\<lambda>h. map Some (fst h)))
     (iter_new list_api (slots_api (\<lambda>h. map Some (fst h))) ([(HIdx 0, 3 :: nat), (HIdx 1, 4)], Some 2)) [] =
   Some [(KLong 1, 4), (KLong 0, 3)]"
proof -
  have "hv_inv list_view ([(HIdx 0, 3 :: nat), (HIdx 1, 4)], Some 2)" by (simp add: list_inv_def i64_defs)
  from array_reverse_packed [OF list_api_ok packed_api_ok this] show ?thesis
    by (simp add: key_of_hkey_def key_from_zval_def)
qed

text \<open>On an array with a hole the reversed iterator starts at the wrong entry and then reads through a null
  pointer: here the first of three slots was deleted, the first item is the second slot instead of
  the last, and the step after it has no element to point to.\<close>

theorem array_reverse_hole:
  assumes "iter_api_ok api V slots" and "hv_inv V h" and "ht_len hapi h = 2"
    and "slots h = [None, Some (HIdx 1, a), Some (HIdx 2, b)]"
  shows "\<exists>it'. iter_next_back api (iter_new hapi api h) = (Item (KLong 1, a), it') \<and>
               fst (iter_next_back api it') = NullDeref"
proof -
  have e: "hv_ent V h = [(HIdx 1, a), (HIdx 2, b)]"
  proof -
    have "hv_ent V h = List.map_filter id (slots h)" using assms(1,2) by (simp add: iter_api_ok_def)
    then show ?thesis by (simp add: assms(4) map_filter_simps)
  qed
  then have "unat (ia_num_elements api h) = 2" using assms(1,2) by (simp add: iter_api_ok_def)
  then have num: "ia_num_elements api h = 2" by (simp add: word_unat_eq_iff)
  have at: "slot_at (slots h) 0 = Some (HIdx 1, a)" "slot_at (slots h) 1 = Some (HIdx 1, a)" "slot_at (slots h) 3 = None"
    by (simp_all add: assms(4) slot_at_def slot_from_def)
  have api: "ia_key_type api h 0 = KeyLong" "ia_key_zval api h 1 = Some (HIdx 1)" "ia_data api h 1 = Some a"
    "ia_data api h 3 = None" "ia_backward api h 1 = 3"
    using assms(1,2) at by (simp_all add: iter_api_ok_def assms(4) numeral_3_eq_3)
  let ?it = "iter_new hapi api h"
  have "iter_next_back api ?it = (Item (KLong 1, a), ?it\<lparr>it_end_pos := 3, it_end_num := 1\<rparr>)"
    using api assms(3) num by (simp add: iter_next_back_def iter_new_def key_of_hkey_def key_from_zval_def)
  moreover have "fst (iter_next_back api (?it\<lparr>it_end_pos := 3, it_end_num := 1\<rparr>)) = NullDeref"
    using api by (simp add: iter_next_back_def iter_new_def)
  ultimately show ?thesis by blast
qed

text \<open>Tables that are their slots, with holes.\<close>

definition holes_view :: "((hkey \<times> nat) option list, nat) hash_view" where
  "holes_view = \<lparr>hv_inv = \<lambda>h. length h < 2 ^ 32, hv_ent = List.map_filter id, hv_nxt = \<lambda>_. None\<rparr>"

definition holes_api :: "((hkey \<times> nat) option list, nat) hash_api" where
  "holes_api =
     \<lparr>ha_new = \<lambda>_. Some [], ha_count = \<lambda>h. word_of_nat (length (List.map_filter id h)), ha_clean = \<lambda>_. [],
      ha_index_find = \<lambda>h i. map_of (List.map_filter id h) (HIdx i),
      ha_str_find = \<lambda>h s. map_of (List.map_filter id h) (HStr s),
      ha_find = \<lambda>h z. map_of (List.map_filter id h) (HStr (zs_bytes z)),
      ha_index_del = \<lambda>h _. (-1, h), ha_str_del = \<lambda>h _. (-1, h), ha_del = \<lambda>h _. (-1, h),
      ha_index_update = \<lambda>h _ _. (None, h), ha_str_update = \<lambda>h _ _. (None, h), ha_update = \<lambda>h _ _. (None, h),
      ha_next_index_insert = \<lambda>h _. (None, h)\<rparr>"

theorem array_reverse_hole_witness:
  "\<exists>it'. iter_next_back (slots_api id) (iter_new holes_api (slots_api id) [None, Some (HIdx 1, 7), Some (HIdx 2, 8)]) =
      (Item (KLong 1, 7), it') \<and> fst (iter_next_back (slots_api id) it') = NullDeref"
proof (rule array_reverse_hole)
  have "length (List.map_filter id xs) \<le> length xs" for xs :: "(hkey \<times> nat) option list"
    by (induction xs) (auto simp: map_filter_simps split: option.splits)
  then show "iter_api_ok (slots_api id) holes_view id"
    by (intro slots_api_ok) (auto simp: holes_view_def intro: le_less_trans)
qed (simp_all add: holes_view_def holes_api_def ht_len_def map_filter_simps)

end
