(* ===== verification/ClassObject.thy ===== *)
theory ClassObject
  imports HashTable Args Bailout "HOL-Library.Multiset"
begin

text \<open>
  \<open>src/class.rs\<close>, \<open>src/internal/property.rs\<close>, \<open>src/types/class_object.rs\<close>, \<open>src/exception.rs\<close> and the object
  creation of \<open>src/builders/class.rs\<close>: the metadata of a class implemented in Rust, the objects that
  carry a Rust value, and throwing. Class entries, handler tables and metadata are addresses, null
  is 0. The engine's view of the class hierarchy and its \<open>Debug\<close> renderings are a record; the part of
  the engine's state the code reads or changes is another, everything else its last field.
\<close>

unbundle bit_operations_syntax

section \<open>Exceptions\<close>

record ce_api =
  ca_flags :: "nat \<Rightarrow> u32"
  ca_exception :: nat
  ca_instanceof :: "nat \<Rightarrow> nat \<Rightarrow> bool"
  ca_debug_zflags :: "u32 \<Rightarrow> string"
  ca_debug_cflags :: "u32 \<Rightarrow> string"
  ca_debug_obj :: "nat \<Rightarrow> string"
  ca_debug_error :: "error \<Rightarrow> string"

record php_exception =
  ex_message :: string
  ex_code :: int
  ex_ce :: nat
  ex_object :: "zval option"

datatype thrown = ThrownNew nat int string | ThrownObject zval | ThrownError string

text \<open>\<open>en_execute_data\<close> are the executor globals: a null pointer, or the current call frame, null or with
  its function, null or with its scope.\<close>

record 'w eng =
  en_execute_data :: "nat option option option"
  en_thrown :: "thrown list"
  en_other :: 'w

definition exception_new :: "string \<Rightarrow> int \<Rightarrow> nat \<Rightarrow> php_exception" where
  "exception_new message code ex = \<lparr>ex_message = message, ex_code = code, ex_ce = ex, ex_object = None\<rparr>"

definition exception_default :: "ce_api \<Rightarrow> string \<Rightarrow> php_exception" where
  "exception_default ca message = exception_new message 0 (ca_exception ca)"

definition exception_set_object :: "zval option \<Rightarrow> php_exception \<Rightarrow> php_exception" where
  "exception_set_object obj e = e\<lparr>ex_object := obj\<rparr>"

definition exception_with_object :: "zval \<Rightarrow> php_exception \<Rightarrow> php_exception" where
  "exception_with_object obj e = e\<lparr>ex_object := Some obj\<rparr>"

definition exception_from_error :: "ce_api \<Rightarrow> error \<Rightarrow> php_exception" where
  "exception_from_error ca err =
     exception_default ca (error_display (ca_debug_zflags ca) (ca_debug_cflags ca) (ca_debug_obj ca) err)"

definition log_thrown :: "thrown \<Rightarrow> 'w eng \<Rightarrow> 'w eng" where
  "log_thrown t e = e\<lparr>en_thrown := en_thrown e @ [t]\<rparr>"

definition throw_with_code :: "ce_api \<Rightarrow> nat \<Rightarrow> int \<Rightarrow> string \<Rightarrow> 'w eng \<Rightarrow> (error + unit) \<times> 'w eng" where
  "throw_with_code ca ex code message e =
     (let flags = ca_flags ca ex
      in if flags_contain flags ZEND_ACC_INTERFACE \<or> flags_contain flags ZEND_ACC_ABSTRACT
         then (Inl (InvalidException flags), e)
         else (case cstring_new message of
                 None \<Rightarrow> (Inl InvalidCString, e)
               | Some m \<Rightarrow> (Inr (), log_thrown (ThrownNew ex code m) e)))"

definition throw_plain :: "ce_api \<Rightarrow> nat \<Rightarrow> string \<Rightarrow> 'w eng \<Rightarrow> (error + unit) \<times> 'w eng" where
  "throw_plain ca ex message e = throw_with_code ca ex 0 message e"

definition throw_object :: "zval \<Rightarrow> 'w eng \<Rightarrow> (error + unit) \<times> 'w eng" where
  "throw_object z e = (Inr (), log_thrown (ThrownObject z) e)"

definition exception_throw :: "ce_api \<Rightarrow> php_exception \<Rightarrow> 'w eng \<Rightarrow> (error + unit) \<times> 'w eng" where
  "exception_throw ca ex e =
     (case ex_object ex of
        Some z \<Rightarrow> throw_object z e
      | None \<Rightarrow> throw_with_code ca (ex_ce ex) (ex_code ex) (ex_message ex) e)"

section \<open>Class metadata\<close>

text \<open>The getter and the setter of a property run the user's code: they may change the engine's state and
  fail with an exception. The getter writes into the zval it is given. The descriptive fields of a
  property are those of \<open>property_desc\<close> in theory \<open>Describe\<close>.\<close>

record ('t, 'w) property_descriptor =
  rp_name :: string
  rp_mangled_name :: string
  rp_get :: "('t \<Rightarrow> zval \<Rightarrow> 'w eng \<Rightarrow> (php_exception option \<times> zval) \<times> 'w eng) option"
  rp_set :: "('t \<Rightarrow> zval \<Rightarrow> 'w eng \<Rightarrow> (php_exception option \<times> 't) \<times> 'w eng) option"
  rp_flags :: u32

datatype 't constructor_result = CtorOk 't | CtorException php_exception | CtorArgError

text \<open>An implementation of \<open>RegisteredClass\<close> with its metadata: \<open>rg_meta\<close> and \<open>rg_handlers\<close> are the addresses
  of the metadata and of the handler table inside it, \<open>rg_ce\<close> the stored class entry.\<close>

record ('t, 'w) registered =
  rg_class_name :: string
  rg_field_properties :: "('t, 'w) property_descriptor list"
  rg_method_properties :: "('t, 'w) property_descriptor list"
  rg_meta :: nat
  rg_handlers :: nat
  rg_ce :: nat
  rg_clone_obj :: "'t \<Rightarrow> 't option"
  rg_default_init :: "'t option"
  rg_constructor :: "('w eng \<Rightarrow> 't constructor_result run \<times> 'w eng) option"

definition has_ce :: "('t, 'w) registered \<Rightarrow> bool" where
  "has_ce rg \<longleftrightarrow> rg_ce rg \<noteq> 0"

text \<open>\<open>None\<close> is the panic.\<close>

definition meta_ce :: "('t, 'w) registered \<Rightarrow> nat option" where
  "meta_ce rg = (if rg_ce rg = 0 then None else Some (rg_ce rg))"

definition set_ce :: "nat \<Rightarrow> ('t, 'w) registered \<Rightarrow> ('t, 'w) registered option" where
  "set_ce ce rg = (if rg_ce rg = 0 then Some (rg\<lparr>rg_ce := ce\<rparr>) else None)"

definition find_property :: "('t, 'w) registered \<Rightarrow> string \<Rightarrow> ('t, 'w) property_descriptor option" where
  "find_property rg n =
     (case find (\<lambda>p. rp_name p = n) (rg_field_properties rg) of
        Some p \<Rightarrow> Some p
      | None \<Rightarrow> find (\<lambda>p. rp_name p = n) (rg_method_properties rg))"

definition all_properties :: "('t, 'w) registered \<Rightarrow> ('t, 'w) property_descriptor list" where
  "all_properties rg = rg_field_properties rg @ rg_method_properties rg"

definition method_mangled_names :: "('t, 'w) registered \<Rightarrow> string list" where
  "method_mangled_names rg =
     map (\<lambda>desc.
       if flags_contain (rp_flags desc) ZEND_ACC_PRIVATE
       then [CHR 0x00] @ rg_class_name rg @ [CHR 0x00] @ rp_name desc
       else if flags_contain (rp_flags desc) ZEND_ACC_PROTECTED
       then [CHR 0x00] @ ''*'' @ [CHR 0x00] @ rp_name desc
       else rp_name desc) (rg_method_properties rg)"

definition exception_from_class :: "('t, 'w) registered \<Rightarrow> string \<Rightarrow> php_exception option" where
  "exception_from_class rg message = map_option (exception_new message 0) (meta_ce rg)"

section \<open>Class objects\<close>

text \<open>An object: the class of the object, its handler table, and the Rust value in front of it. An object
  with other handlers has no such value; nothing reads the field then. \<open>Crash\<close> is a panic, or a
  null pointer followed, in a function the engine calls.\<close>

record 't class_object =
  co_obj :: "'t option"
  co_ce :: nat
  co_handlers :: nat

datatype 'a outcome = Done 'a | Crash

definition instance_of :: "ce_api \<Rightarrow> nat \<Rightarrow> nat \<Rightarrow> bool" where
  "instance_of ca c other \<longleftrightarrow> c = other \<or> ca_instanceof ca c other"

definition internal_from_zend_obj ::
    "ce_api \<Rightarrow> ('t, 'w) registered \<Rightarrow> bool \<Rightarrow> 't class_object \<Rightarrow> 't class_object option outcome" where
  "internal_from_zend_obj ca rg require_initialized std =
     (if co_handlers std \<noteq> rg_handlers rg then Done None
      else case meta_ce rg of
             None \<Rightarrow> Crash
           | Some ce \<Rightarrow>
               if \<not> instance_of ca (co_ce std) ce then Done None
               else if require_initialized \<and> co_obj std = None then Done None
               else Done (Some std))"

definition from_zend_obj :: "ce_api \<Rightarrow> ('t, 'w) registered \<Rightarrow> 't class_object \<Rightarrow> 't class_object option outcome" where
  "from_zend_obj ca rg std = internal_from_zend_obj ca rg True std"

definition from_zend_obj_mut_uninit ::
    "ce_api \<Rightarrow> ('t, 'w) registered \<Rightarrow> 't class_object \<Rightarrow> 't class_object option outcome" where
  "from_zend_obj_mut_uninit ca rg std = internal_from_zend_obj ca rg False std"

text \<open>The objects of the class by address. \<open>oh_made\<close> and \<open>oh_dropped\<close> record the Rust values that came into
  being and those whose destructor ran.\<close>

record 't obj_heap =
  oh_objs :: "nat \<rightharpoonup> 't class_object"
  oh_made :: "'t list"
  oh_dropped :: "'t list"

definition made :: "'t \<Rightarrow> 't obj_heap \<Rightarrow> 't obj_heap" where
  "made t s = s\<lparr>oh_made := oh_made s @ [t]\<rparr>"

definition drop_value :: "'t option \<Rightarrow> 't obj_heap \<Rightarrow> 't obj_heap" where
  "drop_value v s = (case v of None \<Rightarrow> s | Some t \<Rightarrow> s\<lparr>oh_dropped := oh_dropped s @ [t]\<rparr>)"

text \<open>The engine's allocator is an argument; it may fail.\<close>

definition internal_new ::
    "('t obj_heap \<Rightarrow> nat option) \<Rightarrow> ('t, 'w) registered \<Rightarrow> 't option \<Rightarrow> nat option \<Rightarrow> 't obj_heap \<Rightarrow> (nat \<times> 't obj_heap) outcome" where
  "internal_new alloc rg val ce s =
     (case (case ce of Some c \<Rightarrow> Some c | None \<Rightarrow> meta_ce rg) of
        None \<Rightarrow> Crash
      | Some c \<Rightarrow>
          (case alloc s of
             None \<Rightarrow> Crash
           | Some a \<Rightarrow>
               Done (a, s\<lparr>oh_objs := (oh_objs s)(a \<mapsto> \<lparr>co_obj = val, co_ce = c, co_handlers = rg_handlers rg\<rparr>)\<rparr>)))"

definition class_object_new ::
    "('t obj_heap \<Rightarrow> nat option) \<Rightarrow> ('t, 'w) registered \<Rightarrow> 't \<Rightarrow> 't obj_heap \<Rightarrow> (nat \<times> 't obj_heap) outcome" where
  "class_object_new alloc rg val s = internal_new alloc rg (Some val) None s"

definition class_object_new_uninit ::
    "('t obj_heap \<Rightarrow> nat option) \<Rightarrow> ('t, 'w) registered \<Rightarrow> nat option \<Rightarrow> 't obj_heap \<Rightarrow> (nat \<times> 't obj_heap) outcome" where
  "class_object_new_uninit alloc rg ce s = internal_new alloc rg None ce s"

definition initialize :: "nat \<Rightarrow> 't \<Rightarrow> 't obj_heap \<Rightarrow> 't option \<times> 't obj_heap" where
  "initialize a val s =
     (case oh_objs s a of
        None \<Rightarrow> (None, s)
      | Some obj \<Rightarrow> (co_obj obj, s\<lparr>oh_objs := (oh_objs s)(a \<mapsto> obj\<lparr>co_obj := Some val\<rparr>)\<rparr>))"

section \<open>Creation and construction\<close>

definition create_object ::
    "('t obj_heap \<Rightarrow> nat option) \<Rightarrow> ('t, 'w) registered \<Rightarrow> nat \<Rightarrow> 't obj_heap \<Rightarrow> (nat \<times> 't obj_heap) outcome" where
  "create_object alloc rg ce s =
     (case rg_default_init rg of
        Some instance' \<Rightarrow> class_object_new alloc rg instance' (made instance' s)
      | None \<Rightarrow> class_object_new_uninit alloc rg (if ce = 0 then None else Some ce) s)"

definition throw_or_panic :: "ce_api \<Rightarrow> php_exception \<Rightarrow> string \<Rightarrow> 'w eng \<Rightarrow> unit run \<times> 'w eng" where
  "throw_or_panic ca ex msg e =
     (case exception_throw ca ex e of (Inr _, e') \<Rightarrow> (Returns (), e') | (Inl _, e') \<Rightarrow> (Panics msg, e'))"

text \<open>\<open>ExecuteData::get_object_uninit\<close>: the address of \<open>this\<close> when it is an object of the class.\<close>

definition get_object_uninit ::
    "ce_api \<Rightarrow> ('t, 'w) registered \<Rightarrow> 't obj_heap \<Rightarrow> nat option \<Rightarrow> nat option outcome" where
  "get_object_uninit ca rg s this =
     (case this of
        None \<Rightarrow> Done None
      | Some a \<Rightarrow>
          (case oh_objs s a of
             None \<Rightarrow> Done None
           | Some obj \<Rightarrow>
               (case from_zend_obj_mut_uninit ca rg obj of
                  Crash \<Rightarrow> Crash | Done None \<Rightarrow> Done None | Done (Some _) \<Rightarrow> Done (Some a))))"

text \<open>The closure under \<open>try_catch\<close>; \<open>this\<close> is the address of the object the call frame holds. A value that is not
  stored is dropped where it goes out of scope.\<close>

definition constructor_body ::
    "ce_api \<Rightarrow> ('t, 'w) registered \<Rightarrow> nat option \<Rightarrow> 't obj_heap \<times> 'w eng \<Rightarrow> unit run \<times> 't obj_heap \<times> 'w eng" where
  "constructor_body ca rg this se =
     (case se of (s, e) \<Rightarrow>
        (case rg_constructor rg of
           None \<Rightarrow>
             (let (r, e') = throw_or_panic ca (exception_default ca ''You cannot instantiate this class from PHP.'')
                              ''Failed to throw exception when constructing class'' e
              in (r, s, e'))
         | Some f \<Rightarrow>
             (case f e of
                (Bails, e') \<Rightarrow> (Bails, s, e')
              | (Panics m, e') \<Rightarrow> (Panics m, s, e')
              | (Returns CtorArgError, e') \<Rightarrow> (Returns (), s, e')
              | (Returns (CtorException ex), e') \<Rightarrow>
                  (let (r, e'') = throw_or_panic ca ex ''Failed to throw exception while constructing class'' e'
                   in (r, s, e''))
              | (Returns (CtorOk t), e') \<Rightarrow>
                  (let s = made t s
                   in case get_object_uninit ca rg s this of
                        Crash \<Rightarrow> (Panics ''Attempted to retrieve class entry before it has been stored.'', drop_value (Some t) s, e')
                      | Done None \<Rightarrow>
                          (let (r, e'') = throw_or_panic ca
                                 (exception_default ca ''Failed to retrieve reference to `this` object.'')
                                 ''Failed to throw exception while constructing class'' e'
                           in (r, drop_value (Some t) s, e''))
                      | Done (Some a) \<Rightarrow>
                          (let (old, s') = initialize a t s in (Returns (), drop_value old s', e'))))))"

definition class_constructor ::
    "ce_api \<Rightarrow> ('t, 'w) registered \<Rightarrow> nat option \<Rightarrow> 't obj_heap \<times> 'w eng \<Rightarrow> unit run \<times> 't obj_heap \<times> 'w eng" where
  "class_constructor ca rg this se =
     (case constructor_body ca rg this se of (r, se') \<Rightarrow>
        (case do_try_catch r of
           TryOk u \<Rightarrow> (Returns u, se')
         | CatchError \<Rightarrow> (Bails, se')
         | ResumesPanic m \<Rightarrow> (Panics m, se')))"

end
