(* ===== verification/ObjHandlers.thy ===== *)
theory ObjHandlers
  imports ClassObject
begin

text \<open>
  \<open>src/zend/handlers.rs\<close>: the object handlers of a class implemented in Rust. The standard handlers of the
  engine and its truth test are the fields of a record. The engine reaches a handler through the
  object, so the object pointer is not null; a property name, a value and a return slot are \<open>None\<close>
  when their pointer is null. A property cache slot is null or two words, the pointer to a
  descriptor (null or the descriptor) and the guard.
\<close>

type_synonym ('t, 'w) cache = "(('t, 'w) property_descriptor option \<times> nat) option"

record ('t, 'h, 'w) std_api =
  sa_read :: "'t class_object \<Rightarrow> zend_str option \<Rightarrow> int \<Rightarrow> ('t, 'w) cache \<Rightarrow> zval option \<Rightarrow> 'w eng \<Rightarrow> zval \<times> ('t, 'w) cache \<times> 'w eng"
  sa_write :: "'t class_object \<Rightarrow> zend_str option \<Rightarrow> zval option \<Rightarrow> ('t, 'w) cache \<Rightarrow> 'w eng \<Rightarrow> zval option \<times> ('t, 'w) cache \<times> 'w eng"
  sa_has :: "'t class_object \<Rightarrow> zend_str option \<Rightarrow> int \<Rightarrow> ('t, 'w) cache \<Rightarrow> 'w eng \<Rightarrow> int \<times> ('t, 'w) cache \<times> 'w eng"
  sa_get_properties :: "'t class_object \<Rightarrow> 'w eng \<Rightarrow> 'h option \<times> 'w eng"
  sa_is_true :: "zval \<Rightarrow> bool"

section \<open>Resolving a property\<close>

definition resolve_miss ::
    "ce_api \<Rightarrow> ('t, 'w) registered \<Rightarrow> zend_str option \<Rightarrow> ('t, 'w) cache \<Rightarrow>
     (php_exception + ('t, 'w) property_descriptor option) \<times> ('t, 'w) cache" where
  "resolve_miss ca rg member cache =
     (case member of
        None \<Rightarrow> (Inl (exception_default ca ''Invalid property name pointer given''), cache)
      | Some prop_name \<Rightarrow>
          (case fst (zs_as_str prop_name) of
             Inl err \<Rightarrow> (Inl (exception_from_error ca err), cache)
           | Inr n \<Rightarrow>
               (case find_property rg n of
                  None \<Rightarrow> (Inr None, cache)
                | Some d \<Rightarrow> (Inr (Some d), map_option (\<lambda>_. (Some d, rg_meta rg)) cache))))"

definition resolve_property ::
    "ce_api \<Rightarrow> ('t, 'w) registered \<Rightarrow> zend_str option \<Rightarrow> ('t, 'w) cache \<Rightarrow>
     ((php_exception + ('t, 'w) property_descriptor option) \<times> ('t, 'w) cache) outcome" where
  "resolve_property ca rg member cache =
     (case cache of
        Some (slot, guard) \<Rightarrow>
          if guard = rg_meta rg
          then (case slot of Some d \<Rightarrow> Done (Inr (Some d), cache) | None \<Rightarrow> Crash)
          else Done (resolve_miss ca rg member cache)
      | None \<Rightarrow> Done (resolve_miss ca rg member cache))"

section \<open>Access\<close>

definition get_calling_scope :: "'w eng \<Rightarrow> nat" where
  "get_calling_scope e =
     (case en_execute_data e of
        None \<Rightarrow> 0
      | Some None \<Rightarrow> 0
      | Some (Some None) \<Rightarrow> 0
      | Some (Some (Some scope)) \<Rightarrow> scope)"

definition check_property_access :: "ce_api \<Rightarrow> u32 \<Rightarrow> nat \<Rightarrow> 'w eng \<Rightarrow> bool" where
  "check_property_access ca flags object_ce e =
     (if \<not> flags_contain flags ZEND_ACC_PRIVATE \<and> \<not> flags_contain flags ZEND_ACC_PROTECTED then True
      else
        let calling_scope = get_calling_scope e
        in if flags_contain flags ZEND_ACC_PRIVATE then calling_scope = object_ce
           else if flags_contain flags ZEND_ACC_PROTECTED
           then (if calling_scope = 0 then False
                 else if calling_scope = object_ce then True
                 else ca_instanceof ca calling_scope object_ce \<or> ca_instanceof ca object_ce calling_scope)
           else True)"

text \<open>\<open>None\<close> is the panic on a message with a NUL byte.\<close>

definition throw_property_access_error :: "string \<Rightarrow> string \<Rightarrow> bool \<Rightarrow> 'w eng \<Rightarrow> 'w eng option" where
  "throw_property_access_error class_name prop_name is_private e =
     map_option (\<lambda>m. log_thrown (ThrownError m) e)
       (cstring_new (''Cannot access '' @ (if is_private then ''private'' else ''protected'') @ '' property '' @
          class_name @ ''::$'' @ prop_name))"

definition access_denied ::
    "ce_api \<Rightarrow> ('t, 'w) registered \<Rightarrow> ('t, 'w) property_descriptor \<Rightarrow> zend_str option \<Rightarrow> 'w eng \<Rightarrow>
     ((php_exception + unit) \<times> 'w eng) outcome" where
  "access_denied ca rg p member e =
     (case member of
        None \<Rightarrow> Done (Inl (exception_default ca ''Invalid property name pointer given''), e)
      | Some prop_name \<Rightarrow>
          (case fst (zs_as_str prop_name) of
             Inl err \<Rightarrow> Done (Inl (exception_from_error ca err), e)
           | Inr n \<Rightarrow>
               (case throw_property_access_error (rg_class_name rg) n (flags_contain (rp_flags p) ZEND_ACC_PRIVATE) e of
                  None \<Rightarrow> Crash
                | Some e' \<Rightarrow> Done (Inr (), e'))))"

section \<open>Reading\<close>

text \<open>Setting a zval to null changes its type word; the bits of the value stay and carry nothing.\<close>

definition nulled :: "zval \<Rightarrow> zval" where
  "nulled z = z\<lparr>zv_type_info := IS_NULL\<rparr>"

definition read_internal ::
    "ce_api \<Rightarrow> ('t, 'h, 'w) std_api \<Rightarrow> ('t, 'w) registered \<Rightarrow> 't class_object \<Rightarrow> zend_str option \<Rightarrow> int \<Rightarrow>
     ('t, 'w) cache \<Rightarrow> zval option \<Rightarrow> 'w eng \<Rightarrow> ((php_exception + zval) \<times> ('t, 'w) cache \<times> 'w eng) outcome" where
  "read_internal ca sa rg obj member type cache rv e =
     (case resolve_property ca rg member cache of
        Crash \<Rightarrow> Crash
      | Done (Inl ex, cache) \<Rightarrow> Done (Inl ex, cache, e)
      | Done (Inr prop, cache) \<Rightarrow>
          (case rv of
             None \<Rightarrow> Done (Inl (exception_default ca ''Invalid return zval given''), cache, e)
           | Some rv \<Rightarrow>
               let rv = nulled rv
               in case prop of
                    None \<Rightarrow> (let (z, cache, e) = sa_read sa obj member type cache (Some rv) e in Done (Inr z, cache, e))
                  | Some p \<Rightarrow>
                      if \<not> check_property_access ca (rp_flags p) (co_ce obj) e
                      then (case access_denied ca rg p member e of
                              Crash \<Rightarrow> Crash
                            | Done (Inl ex, e) \<Rightarrow> Done (Inl ex, cache, e)
                            | Done (Inr _, e) \<Rightarrow> Done (Inr rv, cache, e))
                      else (case rp_get p of
                              None \<Rightarrow> Done (Inl (exception_default ca ''No getter available for this property.''), cache, e)
                            | Some getter \<Rightarrow>
                                (case co_obj obj of
                                   None \<Rightarrow> Crash
                                 | Some t \<Rightarrow>
                                     (case getter t rv e of
                                        ((Some ex, _), e) \<Rightarrow> Done (Inl ex, cache, e)
                                      | ((None, z), e) \<Rightarrow> Done (Inr z, cache, e))))))"

definition read_property ::
    "ce_api \<Rightarrow> ('t, 'h, 'w) std_api \<Rightarrow> ('t, 'w) registered \<Rightarrow> 't class_object \<Rightarrow> zend_str option \<Rightarrow> int \<Rightarrow>
     ('t, 'w) cache \<Rightarrow> zval option \<Rightarrow> 'w eng \<Rightarrow> (zval \<times> ('t, 'w) cache \<times> 'w eng) outcome" where
  "read_property ca sa rg object member type cache rv e =
     (case from_zend_obj ca rg object of
        Crash \<Rightarrow> Crash
      | Done None \<Rightarrow> Done (sa_read sa object member type cache rv e)
      | Done (Some obj) \<Rightarrow>
          (case read_internal ca sa rg obj member type cache rv e of
             Crash \<Rightarrow> Crash
           | Done (Inr z, cache, e) \<Rightarrow> Done (z, cache, e)
           | Done (Inl ex, cache, e) \<Rightarrow>
               (let (_, e) = exception_throw ca ex e
                in case rv of None \<Rightarrow> Crash | Some rv \<Rightarrow> Done (nulled rv, cache, e))))"

section \<open>Writing\<close>

text \<open>The result is the value pointer handed back, the object after the setter, the cache and the engine's
  state.\<close>

definition write_internal ::
    "ce_api \<Rightarrow> ('t, 'h, 'w) std_api \<Rightarrow> ('t, 'w) registered \<Rightarrow> 't class_object \<Rightarrow> zend_str option \<Rightarrow> zval option \<Rightarrow>
     ('t, 'w) cache \<Rightarrow> 'w eng \<Rightarrow> ((php_exception + zval option) \<times> 't class_object \<times> ('t, 'w) cache \<times> 'w eng) outcome" where
  "write_internal ca sa rg obj member val cache e =
     (case resolve_property ca rg member cache of
        Crash \<Rightarrow> Crash
      | Done (Inl ex, cache) \<Rightarrow> Done (Inl ex, obj, cache, e)
      | Done (Inr prop, cache) \<Rightarrow>
          (case val of
             None \<Rightarrow> Done (Inl (exception_default ca ''Invalid return zval given''), obj, cache, e)
           | Some z \<Rightarrow>
               (case prop of
                  None \<Rightarrow> (let (r, cache, e) = sa_write sa obj member val cache e in Done (Inr r, obj, cache, e))
                | Some p \<Rightarrow>
                    if \<not> check_property_access ca (rp_flags p) (co_ce obj) e
                    then (case access_denied ca rg p member e of
                            Crash \<Rightarrow> Crash
                          | Done (Inl ex, e) \<Rightarrow> Done (Inl ex, obj, cache, e)
                          | Done (Inr _, e) \<Rightarrow> Done (Inr val, obj, cache, e))
                    else (case rp_set p of
                            None \<Rightarrow> Done (Inl (exception_default ca ''No setter available for this property.''), obj, cache, e)
                          | Some setter \<Rightarrow>
                              (case co_obj obj of
                                 None \<Rightarrow> Crash
                               | Some t \<Rightarrow>
                                   (case setter t z e of
                                      ((Some ex, t'), e) \<Rightarrow> Done (Inl ex, obj\<lparr>co_obj := Some t'\<rparr>, cache, e)
                                    | ((None, t'), e) \<Rightarrow> Done (Inr val, obj\<lparr>co_obj := Some t'\<rparr>, cache, e)))))))"

definition write_property ::
    "ce_api \<Rightarrow> ('t, 'h, 'w) std_api \<Rightarrow> ('t, 'w) registered \<Rightarrow> 't class_object \<Rightarrow> zend_str option \<Rightarrow> zval option \<Rightarrow>
     ('t, 'w) cache \<Rightarrow> 'w eng \<Rightarrow> (zval option \<times> 't class_object \<times> ('t, 'w) cache \<times> 'w eng) outcome" where
  "write_property ca sa rg object member val cache e =
     (case from_zend_obj ca rg object of
        Crash \<Rightarrow> Crash
      | Done None \<Rightarrow> (let (r, cache, e) = sa_write sa object member val cache e in Done (r, object, cache, e))
      | Done (Some obj) \<Rightarrow>
          (case write_internal ca sa rg obj member val cache e of
             Crash \<Rightarrow> Crash
           | Done (Inr r, obj, cache, e) \<Rightarrow> Done (r, obj, cache, e)
           | Done (Inl ex, obj, cache, e) \<Rightarrow> (let (_, e) = exception_throw ca ex e in Done (val, obj, cache, e))))"

section \<open>Testing\<close>

definition call_getter ::
    "ce_api \<Rightarrow> ('t, 'w) property_descriptor \<Rightarrow> 't class_object \<Rightarrow> 'w eng \<Rightarrow> ((php_exception + zval) \<times> 'w eng) outcome" where
  "call_getter ca p obj e =
     (case rp_get p of
        None \<Rightarrow> Done (Inl (exception_default ca ''No getter available for this property.''), e)
      | Some getter \<Rightarrow>
          (case co_obj obj of
             None \<Rightarrow> Crash
           | Some t \<Rightarrow>
               (case getter t zval_new e of
                  ((Some ex, _), e) \<Rightarrow> Done (Inl ex, e)
                | ((None, z), e) \<Rightarrow> Done (Inr z, e))))"

definition has_internal ::
    "ce_api \<Rightarrow> ('t, 'h, 'w) std_api \<Rightarrow> ('t, 'w) registered \<Rightarrow> 't class_object \<Rightarrow> zend_str option \<Rightarrow> int \<Rightarrow>
     ('t, 'w) cache \<Rightarrow> 'w eng \<Rightarrow> ((php_exception + int) \<times> ('t, 'w) cache \<times> 'w eng) outcome" where
  "has_internal ca sa rg obj member has_set_exists cache e =
     (case resolve_property ca rg member cache of
        Crash \<Rightarrow> Crash
      | Done (Inl ex, cache) \<Rightarrow> Done (Inl ex, cache, e)
      | Done (Inr prop, cache) \<Rightarrow>
          let std = (\<lambda>e. let (r, cache, e) = sa_has sa obj member has_set_exists cache e in Done (Inr r, cache, e));
              test = (\<lambda>holds. case prop of
                        None \<Rightarrow> std e
                      | Some p \<Rightarrow>
                          (case call_getter ca p obj e of
                             Crash \<Rightarrow> Crash
                           | Done (Inl ex, e) \<Rightarrow> Done (Inl ex, cache, e)
                           | Done (Inr z, e) \<Rightarrow> if holds z then Done (Inr 1, cache, e) else std e))
          in if has_set_exists = 0 then test (\<lambda>z. \<not> is_null z)
             else if has_set_exists = 1 then test (sa_is_true sa)
             else if has_set_exists = 2 then (if prop \<noteq> None then Done (Inr 1, cache, e) else std e)
             else Done (Inl (exception_default ca
                    ''Invalid value given for `has_set_exists` in struct `has_property` function.''), cache, e))"

definition has_property ::
    "ce_api \<Rightarrow> ('t, 'h, 'w) std_api \<Rightarrow> ('t, 'w) registered \<Rightarrow> 't class_object \<Rightarrow> zend_str option \<Rightarrow> int \<Rightarrow>
     ('t, 'w) cache \<Rightarrow> 'w eng \<Rightarrow> (int \<times> ('t, 'w) cache \<times> 'w eng) outcome" where
  "has_property ca sa rg object member has_set_exists cache e =
     (case from_zend_obj ca rg object of
        Crash \<Rightarrow> Crash
      | Done None \<Rightarrow> Done (sa_has sa object member has_set_exists cache e)
      | Done (Some obj) \<Rightarrow>
          (case has_internal ca sa rg obj member has_set_exists cache e of
             Crash \<Rightarrow> Crash
           | Done (Inr r, cache, e) \<Rightarrow> Done (r, cache, e)
           | Done (Inl ex, cache, e) \<Rightarrow> (let (_, e) = exception_throw ca ex e in Done (0, cache, e))))"

section \<open>Listing\<close>

text \<open>One loop of \<open>get_properties\<close> over descriptors with the names under which their values are inserted.\<close>

fun insert_properties ::
    "ce_api \<Rightarrow> ('h, zval) hash_api \<Rightarrow> 't \<Rightarrow> (('t, 'w) property_descriptor \<times> string) list \<Rightarrow> 'h \<Rightarrow> 'w eng \<Rightarrow>
     php_exception option \<times> 'h \<times> 'w eng" where
  "insert_properties ca ha t [] props e = (None, props, e)"
| "insert_properties ca ha t ((desc, key) # ds) props e =
     (case rp_get desc of
        None \<Rightarrow> insert_properties ca ha t ds props e
      | Some getter \<Rightarrow>
          (case getter t zval_new e of
             ((Some _, _), e) \<Rightarrow> insert_properties ca ha t ds props e
           | ((None, zv), e) \<Rightarrow>
               (case ht_insert ha props (array_key_from_str key) (Inr zv) of
                  (Inr _, props) \<Rightarrow> insert_properties ca ha t ds props e
                | (Inl err, props) \<Rightarrow>
                    (Some (exception_default ca
                       (''Failed to insert value into properties hashtable: '' @ ca_debug_error ca err)), props, e))))"

definition get_properties_internal ::
    "ce_api \<Rightarrow> ('h, zval) hash_api \<Rightarrow> ('t, 'w) registered \<Rightarrow> 't \<Rightarrow> 'h \<Rightarrow> 'w eng \<Rightarrow> php_exception option \<times> 'h \<times> 'w eng" where
  "get_properties_internal ca ha rg t props e =
     (case insert_properties ca ha t (map (\<lambda>d. (d, rp_mangled_name d)) (rg_field_properties rg)) props e of
        (Some ex, props, e) \<Rightarrow> (Some ex, props, e)
      | (None, props, e) \<Rightarrow>
          insert_properties ca ha t (zip (rg_method_properties rg) (method_mangled_names rg)) props e)"

definition get_properties ::
    "ce_api \<Rightarrow> ('t, 'h, 'w) std_api \<Rightarrow> ('h, zval) hash_api \<Rightarrow> ('t, 'w) registered \<Rightarrow> 't class_object \<Rightarrow> 'w eng \<Rightarrow>
     ('h \<times> 'w eng) outcome" where
  "get_properties ca sa ha rg object e =
     (case sa_get_properties sa object e of (props, e) \<Rightarrow>
        (case (case props of Some p \<Rightarrow> Some p | None \<Rightarrow> ht_new ha) of
           None \<Rightarrow> Crash
         | Some props \<Rightarrow>
             (case from_zend_obj ca rg object of
                Crash \<Rightarrow> Crash
              | Done None \<Rightarrow> Done (props, e)
              | Done (Some obj) \<Rightarrow>
                  (case co_obj obj of
                     None \<Rightarrow> Crash
                   | Some t \<Rightarrow>
                       (case get_properties_internal ca ha rg t props e of
                          (None, props, e) \<Rightarrow> Done (props, e)
                        | (Some ex, props, e) \<Rightarrow> (let (_, e) = exception_throw ca ex e in Done (props, e)))))))"

section \<open>Freeing and cloning\<close>

text \<open>\<open>zend_object_std_dtor\<close> and the release of the memory are the engine's; here the object leaves the heap.\<close>

definition free_obj :: "ce_api \<Rightarrow> ('t, 'w) registered \<Rightarrow> nat \<Rightarrow> 't obj_heap \<Rightarrow> 't obj_heap outcome" where
  "free_obj ca rg a s =
     (case oh_objs s a of
        None \<Rightarrow> Done s
      | Some object \<Rightarrow>
          (case from_zend_obj ca rg object of
             Crash \<Rightarrow> Crash
           | Done r \<Rightarrow>
               (let s = (case r of Some obj \<Rightarrow> drop_value (co_obj obj) s | None \<Rightarrow> s)
                in Done (s\<lparr>oh_objs := (oh_objs s)(a := None)\<rparr>))))"

definition clone_obj ::
    "('t obj_heap \<Rightarrow> nat option) \<Rightarrow> ce_api \<Rightarrow> ('t, 'w) registered \<Rightarrow> 't class_object \<Rightarrow> 't obj_heap \<times> 'w eng \<Rightarrow>
     (nat \<times> 't obj_heap \<times> 'w eng) outcome" where
  "clone_obj alloc ca rg object se =
     (case se of (s, e) \<Rightarrow>
        (case from_zend_obj ca rg object of
           Crash \<Rightarrow> Crash
         | Done old \<Rightarrow>
             (let cloned_val = Option.bind (Option.bind old co_obj) (rg_clone_obj rg)
              in case cloned_val of
                   Some val \<Rightarrow>
                     (case class_object_new alloc rg val (made val s) of
                        Crash \<Rightarrow> Crash
                      | Done (a, s) \<Rightarrow> Done (a, s, e))
                 | None \<Rightarrow>
                     (case cstring_new (''Trying to clone an uncloneable object of class '' @ rg_class_name rg) of
                        None \<Rightarrow> Crash
                      | Some msg \<Rightarrow>
                          (case class_object_new_uninit alloc rg None s of
                             Crash \<Rightarrow> Crash
                           | Done (a, s) \<Rightarrow> Done (a, s, log_thrown (ThrownError msg) e))))))"

section \<open>Life cycle\<close>

text \<open>What the engine does with the objects of a class: it creates them (for the class or a subclass), runs their
  constructor, clones and frees them, in any order.\<close>

inductive obj_step ::
    "('t obj_heap \<Rightarrow> nat option) \<Rightarrow> ce_api \<Rightarrow> ('t, 'w) registered \<Rightarrow> 't obj_heap \<times> 'w eng \<Rightarrow> 't obj_heap \<times> 'w eng \<Rightarrow> bool"
  for alloc ca rg where
  Create: "instance_of ca ce (rg_ce rg) \<Longrightarrow> create_object alloc rg ce s = Done (a, s') \<Longrightarrow> obj_step alloc ca rg (s, e) (s', e)"
| Construct: "class_constructor ca rg this (s, e) = (r, s', e') \<Longrightarrow> obj_step alloc ca rg (s, e) (s', e')"
| Clone: "oh_objs s a = Some obj \<Longrightarrow> clone_obj alloc ca rg obj (s, e) = Done (b, s', e') \<Longrightarrow> obj_step alloc ca rg (s, e) (s', e')"
| Free: "free_obj ca rg a s = Done s' \<Longrightarrow> obj_step alloc ca rg (s, e) (s', e)"

definition heap_init :: "'t obj_heap" where
  "heap_init = \<lparr>oh_objs = (\<lambda>_. None), oh_made = [], oh_dropped = []\<rparr>"

text \<open>The documented behaviour of the allocator: the address is not in use.\<close>

definition alloc_ok :: "('t obj_heap \<Rightarrow> nat option) \<Rightarrow> bool" where
  "alloc_ok alloc \<longleftrightarrow> (\<forall>s a. alloc s = Some a \<longrightarrow> oh_objs s a = None)"

definition held :: "'t class_object \<Rightarrow> 't multiset" where
  "held obj = (case co_obj obj of None \<Rightarrow> {#} | Some t \<Rightarrow> {#t#})"

definition live :: "(nat \<rightharpoonup> 't class_object) \<Rightarrow> 't multiset" where
  "live objs = (\<Sum>a \<in> dom objs. held (the (objs a)))"

lemma live_empty [simp]: "live (\<lambda>_. None) = {#}"
  by (simp add: live_def)

lemma live_fresh:
  assumes "finite (dom objs)" and "objs a = None"
  shows "live (objs(a \<mapsto> obj)) = held obj + live objs"
proof -
  have "a \<notin> dom objs" using assms(2) by auto
  moreover from this have "(\<Sum>b \<in> dom objs. held (the ((objs(a \<mapsto> obj)) b))) = live objs"
    unfolding live_def by (intro sum.cong) auto
  ultimately show ?thesis using assms(1) unfolding live_def by simp
qed

lemma live_remove:
  assumes "finite (dom objs)" and "objs a = Some obj"
  shows "live objs = held obj + live (objs(a := None))"
proof -
  have "finite (dom (objs(a := None)))" using assms(1) by simp
  from live_fresh [OF this, of a obj] show ?thesis using assms(2) by (simp add: fun_upd_idem)
qed

lemma live_replace:
  assumes "finite (dom objs)" and "objs a = Some obj"
  shows "live (objs(a \<mapsto> obj')) + held obj = live objs + held obj'"
proof -
  have "finite (dom (objs(a := None)))" using assms(1) by simp
  from live_fresh [OF this, of a obj'] live_remove [OF assms] show ?thesis by (simp add: ac_simps)
qed

lemma drop_value_fields [simp]:
  "oh_objs (drop_value v s) = oh_objs s" "oh_made (drop_value v s) = oh_made s"
  "mset (oh_dropped (drop_value (co_obj obj) s)) = mset (oh_dropped s) + held obj"
  "mset (oh_dropped (drop_value (Some t) s)) = add_mset t (mset (oh_dropped s))"
  by (simp_all add: drop_value_def held_def split: option.split)

definition heap_ok :: "ce_api \<Rightarrow> ('t, 'w) registered \<Rightarrow> 't obj_heap \<Rightarrow> bool" where
  "heap_ok ca rg s \<longleftrightarrow>
     finite (dom (oh_objs s)) \<and>
     (\<forall>a obj. oh_objs s a = Some obj \<longrightarrow> co_handlers obj = rg_handlers rg \<and> instance_of ca (co_ce obj) (rg_ce rg)) \<and>
     mset (oh_made s) = mset (oh_dropped s) + live (oh_objs s)"

lemma heap_okD:
  assumes "heap_ok ca rg s"
  shows "finite (dom (oh_objs s))" "mset (oh_made s) = mset (oh_dropped s) + live (oh_objs s)"
    and "oh_objs s a = Some obj \<Longrightarrow> co_handlers obj = rg_handlers rg"
    and "oh_objs s a = Some obj \<Longrightarrow> instance_of ca (co_ce obj) (rg_ce rg)"
  using assms by (auto simp: heap_ok_def)

lemma heap_ok_init: "heap_ok ca rg heap_init"
  by (simp add: heap_ok_def heap_init_def)

lemma instance_of_refl [simp]: "instance_of ca c c"
  by (simp add: instance_of_def)

lemma internal_new_Done:
  assumes "internal_new alloc rg val ce s = Done (a, s')" and "alloc_ok alloc" and "rg_ce rg \<noteq> 0"
  shows "oh_objs s a = None" and "s' = s\<lparr>oh_objs := (oh_objs s)(a \<mapsto>
    \<lparr>co_obj = val, co_ce = (case ce of Some c \<Rightarrow> c | None \<Rightarrow> rg_ce rg), co_handlers = rg_handlers rg\<rparr>)\<rparr>"
  using assms by (auto simp: internal_new_def meta_ce_def alloc_ok_def split: option.splits)

text \<open>A new object: the value that was made for it, if any, is the one it holds.\<close>

lemma heap_ok_new:
  assumes "heap_ok ca rg s" and "alloc_ok alloc" and "rg_ce rg \<noteq> 0"
    and "internal_new alloc rg val ce (s\<lparr>oh_made := oh_made s @ ms\<rparr>) = Done (a, s')"
    and "ms = (case val of Some t \<Rightarrow> [t] | None \<Rightarrow> [])"
    and "\<And>c. ce = Some c \<Longrightarrow> instance_of ca c (rg_ce rg)"
  shows "heap_ok ca rg s'"
proof -
  let ?c = "case ce of Some c \<Rightarrow> c | None \<Rightarrow> rg_ce rg"
  let ?o = "\<lparr>co_obj = val, co_ce = ?c, co_handlers = rg_handlers rg\<rparr>"
  have s': "s' = s\<lparr>oh_made := oh_made s @ ms, oh_objs := (oh_objs s)(a \<mapsto> ?o)\<rparr>" "oh_objs s a = None"
    using internal_new_Done [OF assms(4,2,3)] by simp_all
  moreover have "instance_of ca ?c (rg_ce rg)" using assms(6) by (simp split: option.split)
  moreover have "held ?o = mset ms" by (simp add: held_def assms(5) split: option.split)
  ultimately show ?thesis
    using assms(1) live_fresh [OF heap_okD(1) [OF assms(1)] s'(2), of ?o] by (auto simp: heap_ok_def)
qed

lemma heap_ok_initialize:
  assumes "heap_ok ca rg s" and "oh_objs s a = Some obj" and "initialize a t (made t s) = (old, s')"
  shows "heap_ok ca rg (drop_value old s')"
proof -
  have s': "old = co_obj obj" "s' = s\<lparr>oh_made := oh_made s @ [t], oh_objs := (oh_objs s)(a \<mapsto> obj\<lparr>co_obj := Some t\<rparr>)\<rparr>"
    using assms(2,3) by (simp_all add: initialize_def made_def)
  have "live ((oh_objs s)(a \<mapsto> obj\<lparr>co_obj := Some t\<rparr>)) + held obj = add_mset t (live (oh_objs s))"
    using live_replace [OF heap_okD(1) [OF assms(1)] assms(2), of "obj\<lparr>co_obj := Some t\<rparr>"] by (simp add: held_def)
  then show ?thesis
    using assms(1,2) unfolding s' heap_ok_def by (auto simp: ac_simps)
qed

lemma heap_ok_made_dropped: "heap_ok ca rg s \<Longrightarrow> heap_ok ca rg (drop_value (Some t) (made t s))"
  by (simp add: heap_ok_def made_def)

lemma get_object_uninit_cases:
  "get_object_uninit ca rg s this = Done (Some a) \<Longrightarrow> this = Some a \<and> (\<exists>obj. oh_objs s a = Some obj)"
  by (auto simp: get_object_uninit_def split: option.splits outcome.splits)

lemma heap_ok_constructor:
  assumes "heap_ok ca rg s" and "constructor_body ca rg this (s, e) = (r, s', e')"
  shows "heap_ok ca rg s'"
proof (cases "rg_constructor rg")
  case None
  with assms show ?thesis by (auto simp: constructor_body_def split: prod.splits)
next
  case (Some f)
  obtain res e1 where f: "f e = (res, e1)" by (cases "f e")
  show ?thesis
  proof (cases "\<exists>t. res = Returns (CtorOk t)")
    case False
    with assms Some f show ?thesis
      by (auto simp: constructor_body_def split: prod.splits run.splits constructor_result.splits)
  next
    case True
    then obtain t where t: "res = Returns (CtorOk t)" by blast
    show ?thesis
    proof (cases "\<exists>a. get_object_uninit ca rg (made t s) this = Done (Some a)")
      case True
      then obtain a where a: "get_object_uninit ca rg (made t s) this = Done (Some a)" by blast
      then obtain obj where "oh_objs s a = Some obj" by (auto dest: get_object_uninit_cases simp: made_def)
      moreover have "s' = (let (old, s1) = initialize a t (made t s) in drop_value old s1)"
        using assms(2) Some f t a by (simp add: constructor_body_def split: prod.splits)
      ultimately show ?thesis using heap_ok_initialize [OF assms(1), of a obj t] by (simp split: prod.splits)
    next
      case False
      with assms Some f t heap_ok_made_dropped [OF assms(1), of t] show ?thesis
        by (auto simp: constructor_body_def Let_def split: prod.splits outcome.splits option.splits)
    qed
  qed
qed

lemma class_constructor_state:
  "class_constructor ca rg this se = (r, se') \<Longrightarrow> \<exists>r'. constructor_body ca rg this se = (r', se')"
  by (auto simp: class_constructor_def split: prod.splits caught.splits)

lemma from_zend_obj_own:
  assumes "heap_ok ca rg s" and "rg_ce rg \<noteq> 0" and "oh_objs s a = Some obj"
  shows "from_zend_obj ca rg obj = Done (if co_obj obj = None then None else Some obj)"
  using heap_okD(3,4) [OF assms(1,3)] assms(2)
  by (simp add: from_zend_obj_def internal_from_zend_obj_def meta_ce_def)

lemma heap_ok_free:
  assumes "heap_ok ca rg s" and "rg_ce rg \<noteq> 0" and "free_obj ca rg a s = Done s'"
  shows "heap_ok ca rg s'"
proof (cases "oh_objs s a")
  case None
  with assms show ?thesis by (simp add: free_obj_def)
next
  case (Some obj)
  note own = from_zend_obj_own [OF assms(1,2) Some]
  have "s' = (drop_value (co_obj obj) s)\<lparr>oh_objs := (oh_objs s)(a := None)\<rparr>"
    using assms(3) Some own by (cases "co_obj obj") (auto simp: free_obj_def drop_value_def)
  then show ?thesis
    using assms(1) live_remove [OF heap_okD(1) [OF assms(1)] Some] by (auto simp: heap_ok_def ac_simps)
qed

lemma clone_obj_cases:
  assumes "clone_obj alloc ca rg obj (s, e) = Done (b, s', e')"
  shows "(\<exists>v. Option.bind (co_obj obj) (rg_clone_obj rg) = Some v \<and>
      internal_new alloc rg (Some v) None (made v s) = Done (b, s') \<and> e' = e) \<or>
    (internal_new alloc rg None None s = Done (b, s') \<and> (\<exists>m. e' = log_thrown (ThrownError m) e))"
proof (cases "from_zend_obj ca rg obj")
  case (Done old)
  then have old: "old = None \<or> old = Some obj"
    by (auto simp: from_zend_obj_def internal_from_zend_obj_def split: option.splits if_splits)
  show ?thesis
  proof (cases "Option.bind (Option.bind old co_obj) (rg_clone_obj rg)")
    case None
    with assms Done show ?thesis
      by (auto simp: clone_obj_def class_object_new_uninit_def split: outcome.splits option.splits)
  next
    case (Some v)
    with assms Done old show ?thesis
      by (auto simp: clone_obj_def class_object_new_def split: outcome.splits)
  qed
qed (use assms in \<open>simp add: clone_obj_def\<close>)

lemma heap_ok_clone:
  assumes "heap_ok ca rg s" and "alloc_ok alloc" and "rg_ce rg \<noteq> 0"
    and "clone_obj alloc ca rg obj (s, e) = Done (b, s', e')"
  shows "heap_ok ca rg s'"
proof -
  note new = heap_ok_new [OF assms(1-3), where ce = None]
  from clone_obj_cases [OF assms(4)] show ?thesis
  proof (elim disjE exE conjE)
    fix v assume "internal_new alloc rg (Some v) None (made v s) = Done (b, s')"
    then show ?thesis by (intro new [where val = "Some v" and ms = "[v]"]) (simp_all add: made_def)
  next
    assume "internal_new alloc rg None None s = Done (b, s')"
    then show ?thesis by (intro new [where val = None and ms = "[]"]) simp_all
  qed
qed

lemma heap_ok_create:
  assumes "heap_ok ca rg s" and "alloc_ok alloc" and "rg_ce rg \<noteq> 0"
    and "instance_of ca ce (rg_ce rg)" and "create_object alloc rg ce s = Done (a, s')"
  shows "heap_ok ca rg s'"
proof -
  note new = heap_ok_new [OF assms(1-3)]
  show ?thesis
    using assms(4,5) new [where val = None and ce = "Some c" for c] new [where val = None and ce = None]
      new [where val = "Some v" and ce = None for v]
    by (auto simp: create_object_def class_object_new_def class_object_new_uninit_def made_def
        split: option.splits if_splits)
qed

lemma heap_ok_step:
  assumes "obj_step alloc ca rg se se'" and "heap_ok ca rg (fst se)" and "alloc_ok alloc" and "rg_ce rg \<noteq> 0"
  shows "heap_ok ca rg (fst se')"
  using assms
proof (induction rule: obj_step.induct)
  case (Create ce s a s' e)
  then show ?case using heap_ok_create by (metis fst_conv)
next
  case (Construct this s e r s' e')
  then show ?case using class_constructor_state heap_ok_constructor by (metis fst_conv)
next
  case (Clone s a obj e b s' e')
  then show ?case using heap_ok_clone by (metis fst_conv)
next
  case (Free a s s' e)
  then show ?case using heap_ok_free by (metis fst_conv)
qed

lemma heap_ok_reach:
  assumes "(obj_step alloc ca rg)\<^sup>*\<^sup>* (heap_init, e0) se" and "alloc_ok alloc" and "rg_ce rg \<noteq> 0"
  shows "heap_ok ca rg (fst se)"
  using assms(1)
proof (induction rule: rtranclp_induct)
  case base
  then show ?case by (simp add: heap_ok_init)
next
  case (step y z)
  then show ?case using heap_ok_step assms(2,3) by blast
qed

section \<open>Property access\<close>

definition cache_ok :: "('t, 'w) registered \<Rightarrow> string \<Rightarrow> ('t, 'w) cache \<Rightarrow> bool" where
  "cache_ok rg n cache \<longleftrightarrow>
     (case cache of
        None \<Rightarrow> True
      | Some (slot, guard) \<Rightarrow> guard = rg_meta rg \<longrightarrow> slot \<noteq> None \<and> slot = find_property rg n)"

lemma resolve_property_ok:
  assumes "fst (zs_as_str name) = Inr n" and "cache_ok rg n cache"
  shows "resolve_property ca rg (Some name) cache =
    Done (Inr (find_property rg n),
      if find_property rg n = None then cache else map_option (\<lambda>_. (find_property rg n, rg_meta rg)) cache)"
proof (cases "\<exists>slot. cache = Some (slot, rg_meta rg)")
  case True
  with assms(2) show ?thesis by (auto simp: resolve_property_def cache_ok_def)
next
  case False
  then have "resolve_property ca rg (Some name) cache = Done (resolve_miss ca rg (Some name) cache)"
    by (auto simp: resolve_property_def split: option.splits)
  then show ?thesis by (simp add: resolve_miss_def assms(1) split: option.splits)
qed

text \<open>An object of the class with its Rust value.\<close>

definition backed :: "ce_api \<Rightarrow> ('t, 'w) registered \<Rightarrow> 't class_object \<Rightarrow> 't \<Rightarrow> bool" where
  "backed ca rg obj t \<longleftrightarrow>
     co_handlers obj = rg_handlers rg \<and> rg_ce rg \<noteq> 0 \<and> instance_of ca (co_ce obj) (rg_ce rg) \<and> co_obj obj = Some t"

lemma backed_from_zend_obj: "backed ca rg obj t \<Longrightarrow> from_zend_obj ca rg obj = Done (Some obj)"
  by (simp add: backed_def from_zend_obj_def internal_from_zend_obj_def meta_ce_def)

lemma backed_obj: "backed ca rg obj t \<Longrightarrow> co_obj obj = Some t"
  by (simp add: backed_def)

lemma backed_update: "backed ca rg obj t \<Longrightarrow> backed ca rg (obj\<lparr>co_obj := Some t'\<rparr>) t'"
  by (simp add: backed_def)

lemma check_property_access_cong:
  "en_execute_data e' = en_execute_data e \<Longrightarrow> check_property_access ca flags ce e' = check_property_access ca flags ce e"
  by (simp add: check_property_access_def get_calling_scope_def)

text \<open>The property named \<open>n\<close>, whatever the cache holds.\<close>

lemma read_property_found:
  assumes "backed ca rg obj t" and "fst (zs_as_str name) = Inr n" and "cache_ok rg n cache" and "find_property rg n = Some p"
  shows "read_property ca sa rg obj (Some name) type cache (Some rv) e =
    (let cache = map_option (\<lambda>_. (Some p, rg_meta rg)) cache
     in if \<not> check_property_access ca (rp_flags p) (co_ce obj) e
        then (case throw_property_access_error (rg_class_name rg) n (flags_contain (rp_flags p) ZEND_ACC_PRIVATE) e of
                None \<Rightarrow> Crash | Some e \<Rightarrow> Done (nulled rv, cache, e))
        else (case rp_get p of
                None \<Rightarrow> Done (nulled rv, cache,
                  snd (exception_throw ca (exception_default ca ''No getter available for this property.'') e))
              | Some getter \<Rightarrow>
                  (case getter t (nulled rv) e of
                     ((Some ex, _), e) \<Rightarrow> Done (nulled rv, cache, snd (exception_throw ca ex e))
                   | ((None, z), e) \<Rightarrow> Done (z, cache, e))))"
  using backed_from_zend_obj [OF assms(1)] backed_obj [OF assms(1)] resolve_property_ok [OF assms(2,3)] assms(2,4)
  by (auto simp: read_property_def read_internal_def access_denied_def Let_def nulled_def case_prod_unfold split: option.splits)

lemma write_property_found:
  assumes "backed ca rg obj t" and "fst (zs_as_str name) = Inr n" and "cache_ok rg n cache" and "find_property rg n = Some p"
  shows "write_property ca sa rg obj (Some name) (Some z) cache e =
    (let cache = map_option (\<lambda>_. (Some p, rg_meta rg)) cache
     in if \<not> check_property_access ca (rp_flags p) (co_ce obj) e
        then (case throw_property_access_error (rg_class_name rg) n (flags_contain (rp_flags p) ZEND_ACC_PRIVATE) e of
                None \<Rightarrow> Crash | Some e \<Rightarrow> Done (Some z, obj, cache, e))
        else (case rp_set p of
                None \<Rightarrow> Done (Some z, obj, cache,
                  snd (exception_throw ca (exception_default ca ''No setter available for this property.'') e))
              | Some setter \<Rightarrow>
                  (case setter t z e of
                     ((Some ex, t'), e) \<Rightarrow> Done (Some z, obj\<lparr>co_obj := Some t'\<rparr>, cache, snd (exception_throw ca ex e))
                   | ((None, t'), e) \<Rightarrow> Done (Some z, obj\<lparr>co_obj := Some t'\<rparr>, cache, e))))"
  using backed_from_zend_obj [OF assms(1)] backed_obj [OF assms(1)] resolve_property_ok [OF assms(2,3)] assms(2,4)
  by (auto simp: write_property_def write_internal_def access_denied_def Let_def case_prod_unfold split: option.splits)

lemma cache_ok_filled: "find_property rg n = Some p \<Longrightarrow> cache_ok rg n (map_option (\<lambda>_. (Some p, rg_meta rg)) cache)"
  by (auto simp: cache_ok_def split: option.splits)

text \<open>The entries \<open>get_properties\<close> adds: the readable properties whose getter succeeds, under their keys.\<close>

definition listed ::
    "(('t, 'w) property_descriptor \<Rightarrow> php_exception option \<times> zval) \<Rightarrow> (('t, 'w) property_descriptor \<times> string) list \<Rightarrow>
     (hkey \<times> zval) list" where
  "listed val ds =
     map (\<lambda>(d, key). (hkey_of (array_key_from_str key), snd (val d)))
       (filter (\<lambda>(d, _). rp_get d \<noteq> None \<and> fst (val d) = None) ds)"

definition update_all :: "(hkey \<times> 'v) list \<Rightarrow> (hkey \<times> 'v) list \<Rightarrow> (hkey \<times> 'v) list" where
  "update_all es ent = fold (\<lambda>(k, v). AList.update k v) es ent"

lemma length_update_le: "length (AList.update k v ent) \<le> Suc (length ent)"
  by (induction ent) auto

lemma insert_properties_view:
  assumes "hash_api_ok ha V" and "hv_inv V props" and "length (hv_ent V props) + length ds < 2 ^ 32"
    and "\<And>d g e. d \<in> fst ` set ds \<Longrightarrow> rp_get d = Some g \<Longrightarrow> g t zval_new e = (val d, e)"
  shows "\<exists>props'. insert_properties ca ha t ds props e = (None, props', e) \<and> hv_inv V props' \<and>
    hv_ent V props' = update_all (listed val ds) (hv_ent V props) \<and>
    length (hv_ent V props') \<le> length (hv_ent V props) + length ds"
  using assms(2-4)
proof (induction ds arbitrary: props)
  case Nil
  then show ?case by (simp add: listed_def update_all_def)
next
  case (Cons dk ds)
  obtain d key where dk: "dk = (d, key)" by (cases dk)
  have room: "hv_room V props" using Cons.prems(1,2) by (simp add: hv_room_def)
  have getter: "g t zval_new e = (val d, e)" if "rp_get d = Some g" for g e
    using Cons.prems(3) [of d g e] that dk by simp
  show ?case
  proof (cases "rp_get d \<noteq> None \<and> fst (val d) = None")
    case False
    have "insert_properties ca ha t (dk # ds) props e = insert_properties ca ha t ds props e"
    proof (cases "rp_get d")
      case (Some g)
      with False getter [OF Some, of e] show ?thesis by (cases "val d") (auto simp: dk)
    qed (simp add: dk)
    moreover have "listed val (dk # ds) = listed val ds" using False by (auto simp: listed_def dk)
    ultimately show ?thesis using Cons.IH [OF Cons.prems(1)] Cons.prems(2,3) by fastforce
  next
    case True
    obtain h' where h': "ht_insert ha props (array_key_from_str key) (Inr (snd (val d))) = (Inr (), h')" "hv_inv V h'"
        "hv_ent V h' = AList.update (hkey_of (array_key_from_str key)) (snd (val d)) (hv_ent V props)"
      using ht_insert_view [OF assms(1) room, of "array_key_from_str key" "snd (val d)"] by (auto simp: updated_def)
    have len: "length (hv_ent V h') \<le> Suc (length (hv_ent V props))" unfolding h'(3) by (rule length_update_le)
    have "insert_properties ca ha t (dk # ds) props e = insert_properties ca ha t ds h' e"
      using True getter [of _ e] h'(1) by (cases "val d") (auto simp: dk)
    moreover have "update_all (listed val (dk # ds)) (hv_ent V props) = update_all (listed val ds) (hv_ent V h')"
      using True by (simp add: listed_def update_all_def dk h'(3))
    moreover have "length (hv_ent V h') + length ds < 2 ^ 32" using len Cons.prems(2) by simp
    ultimately show ?thesis using Cons.IH [OF h'(2)] Cons.prems(3) len by fastforce
  qed
qed

section \<open>Properties\<close>

text \<open>A class with one private property, an integer.\<close>

definition demo_property :: "u32 \<Rightarrow> (nat, unit) property_descriptor" where
  "demo_property flags = \<lparr>rp_name = ''n'', rp_mangled_name = ''n'',
     rp_get = Some (\<lambda>t z e. ((None, z\<lparr>zv_value := word_of_nat t, zv_type_info := IS_LONG\<rparr>), e)),
     rp_set = Some (\<lambda>t z e. ((None, unat (zv_value z)), e)), rp_flags = flags\<rparr>"

definition demo_class :: "u32 \<Rightarrow> nat option \<Rightarrow> (nat, unit) registered" where
  "demo_class flags dflt = \<lparr>rg_class_name = ''A'', rg_field_properties = [demo_property flags], rg_method_properties = [],
     rg_meta = 1, rg_handlers = 2, rg_ce = 3, rg_clone_obj = Some, rg_default_init = dflt,
     rg_constructor = Some (\<lambda>e. (Returns (CtorOk 7), e))\<rparr>"

definition demo_ca :: ce_api where
  "demo_ca = \<lparr>ca_flags = (\<lambda>_. 0), ca_exception = 9, ca_instanceof = (\<lambda>a b. a = 4 \<and> b = 3), ca_debug_zflags = (\<lambda>_. []),
     ca_debug_cflags = (\<lambda>_. []), ca_debug_obj = (\<lambda>_. []), ca_debug_error = (\<lambda>_. [])\<rparr>"

definition demo_eng :: "nat \<Rightarrow> unit eng" where
  "demo_eng scope = \<lparr>en_execute_data = Some (Some (Some scope)), en_thrown = [], en_other = ()\<rparr>"

definition demo_alloc :: "'t obj_heap \<Rightarrow> nat option" where
  "demo_alloc s = find (\<lambda>a. oh_objs s a = None) [1, 2, 3]"

definition demo_name :: zend_str where
  "demo_name = \<lparr>zs_bytes = ''n'', zs_interned = False, zs_known_utf8 = False\<rparr>"

definition demo_sa_tables :: "'h \<Rightarrow> (nat, 'h, unit) std_api" where
  "demo_sa_tables h = \<lparr>sa_read = (\<lambda>_ _ _ c _ e. (zval_new, c, e)), sa_write = (\<lambda>_ _ z c e. (z, c, e)),
     sa_has = (\<lambda>_ _ _ c e. (0, c, e)), sa_get_properties = (\<lambda>_ e. (Some h, e)), sa_is_true = is_true\<rparr>"

lemma demo_alloc_ok: "alloc_ok demo_alloc"
  by (auto simp: alloc_ok_def demo_alloc_def split: if_splits)

lemma demo_name_str: "fst (zs_as_str demo_name) = Inr ''n''"
  by (simp add: demo_name_def zs_as_str_def) code_simp

lemma demo_find: "find_property (demo_class flags d) ''n'' = Some (demo_property flags)"
  by (simp add: find_property_def demo_class_def demo_property_def)

lemma demo_backed:
  "c = 3 \<or> c = 4 \<Longrightarrow> backed demo_ca (demo_class flags d) \<lparr>co_obj = Some t, co_ce = c, co_handlers = 2\<rparr> t"
  by (auto simp: backed_def demo_class_def demo_ca_def instance_of_def)

text \<open>C10. Whatever the engine does with the objects of a class, every Rust value made for one is dropped exactly once
  or still held by exactly one object; when the last object is freed, all have been dropped.\<close>

theorem object_values_linear:
  assumes "alloc_ok alloc" and "rg_ce rg \<noteq> 0" and "(obj_step alloc ca rg)\<^sup>*\<^sup>* (heap_init, e0) (s, e)"
  shows "mset (oh_made s) = mset (oh_dropped s) + live (oh_objs s) \<and>
    ((\<forall>a. oh_objs s a = None) \<longrightarrow> mset (oh_made s) = mset (oh_dropped s)) \<and>
    (\<forall>a. free_obj ca rg a s \<noteq> Crash)"
proof -
  have ok: "heap_ok ca rg s" using heap_ok_reach [OF assms(3,1,2)] by simp
  then have eq: "mset (oh_made s) = mset (oh_dropped s) + live (oh_objs s)" by (rule heap_okD)
  moreover have "live (oh_objs s) = {#}" if "\<forall>a. oh_objs s a = None"
    using that by (simp add: live_def dom_def)
  moreover have "free_obj ca rg a s \<noteq> Crash" for a
  proof (cases "oh_objs s a")
    case (Some obj)
    from from_zend_obj_own [OF ok assms(2) this] Some show ?thesis by (simp add: free_obj_def)
  qed (simp add: free_obj_def)
  ultimately show ?thesis by simp
qed

text \<open>An object created with a default value, constructed anew and freed.\<close>

theorem object_values_linear_witness:
  "\<exists>s e. (obj_step demo_alloc demo_ca (demo_class 0 (Some 5)))\<^sup>*\<^sup>* (heap_init, demo_eng 0) (s, e) \<and>
     oh_made s = [5, 7] \<and> mset (oh_made s) = mset (oh_dropped s)"
proof -
  let ?rg = "demo_class 0 (Some 5)" and ?e = "demo_eng 0"
  let ?o = "\<lambda>t. \<lparr>co_obj = Some t, co_ce = 3, co_handlers = 2\<rparr>"
  let ?s1 = "\<lparr>oh_objs = [1 \<mapsto> ?o 5], oh_made = [5], oh_dropped = []\<rparr>"
  let ?s2 = "\<lparr>oh_objs = [1 \<mapsto> ?o 7], oh_made = [5, 7], oh_dropped = [5]\<rparr>"
  let ?s3 = "\<lparr>oh_objs = (\<lambda>_. None), oh_made = [5, 7], oh_dropped = [5, 7]\<rparr>"
  note defs = demo_class_def create_object_def class_object_new_def internal_new_def made_def meta_ce_def heap_init_def
    demo_alloc_def
  have "obj_step demo_alloc demo_ca ?rg (heap_init, ?e) (?s1, ?e)"
    by (rule obj_step.Create [where ce = 3 and a = 1]) (simp_all add: defs)
  moreover have "obj_step demo_alloc demo_ca ?rg (?s1, ?e) (?s2, ?e)"
    by (rule obj_step.Construct [where this = "Some 1" and r = "Returns ()"])
      (simp add: defs class_constructor_def constructor_body_def get_object_uninit_def from_zend_obj_mut_uninit_def
        internal_from_zend_obj_def initialize_def drop_value_def do_try_catch_def panic_wrapper_def)
  moreover have "obj_step demo_alloc demo_ca ?rg (?s2, ?e) (?s3, ?e)"
    by (rule obj_step.Free [where a = 1])
      (simp add: defs free_obj_def from_zend_obj_def internal_from_zend_obj_def drop_value_def)
  ultimately have run: "(obj_step demo_alloc demo_ca ?rg)\<^sup>*\<^sup>* (heap_init, ?e) (?s3, ?e)"
    by (meson converse_rtranclp_into_rtranclp rtranclp.rtrancl_refl)
  from object_values_linear [OF demo_alloc_ok _ run] have "mset (oh_made ?s3) = mset (oh_dropped ?s3)"
    by (simp add: demo_class_def)
  with run show ?thesis by (intro exI [of _ ?s3] exI [of _ ?e]) simp
qed

text \<open>C26. The property cache changes no answer: whichever classes of a program resolve a property name through one cache
  slot and in whichever order, each gets what a search of its own properties gives, and the slot stays
  valid for all of them.\<close>

theorem property_cache_transparent:
  assumes "\<And>r r'. r \<in> C \<Longrightarrow> r' \<in> C \<Longrightarrow> rg_meta r = rg_meta r' \<Longrightarrow> r = r'"
    and "fst (zs_as_str name) = Inr n" and "\<And>r. r \<in> C \<Longrightarrow> cache_ok r n cache" and "rg \<in> C"
  shows "\<exists>cache'. resolve_property ca rg (Some name) cache = Done (Inr (find_property rg n), cache') \<and>
    (\<forall>r \<in> C. cache_ok r n cache') \<and> (cache' = None \<longleftrightarrow> cache = None)"
proof -
  let ?c = "if find_property rg n = None then cache else map_option (\<lambda>_. (find_property rg n, rg_meta rg)) cache"
  have "cache_ok r n ?c" if "r \<in> C" for r
    using assms(1) [OF that assms(4)] assms(3) [OF that] by (auto simp: cache_ok_def split: option.splits)
  with resolve_property_ok [OF assms(2) assms(3) [OF assms(4)], of ca] show ?thesis by auto
qed

theorem property_cache_transparent_witness:
  "\<exists>cache'. resolve_property demo_ca (demo_class 0 None) (Some demo_name) (Some (None, 0)) =
     Done (Inr (Some (demo_property 0)), cache')"
proof -
  have "cache_ok (demo_class 0 None) ''n'' (Some (None, 0))" by (simp add: cache_ok_def demo_class_def)
  then show ?thesis
    using property_cache_transparent [of "{demo_class 0 None}" demo_name "''n''" "Some (None, 0)" "demo_class 0 None" demo_ca]
    by (auto simp: demo_name_str demo_find)
qed

text \<open>C11. A property written by the setter is what the getter reads back, through the same cache slot, when the getter
  returns what the setter stored and the setter does not change the calling frame.\<close>

theorem property_write_read:
  assumes "backed ca rg obj t" and "fst (zs_as_str name) = Inr n" and "cache_ok rg n cache"
    and "find_property rg n = Some p" and "check_property_access ca (rp_flags p) (co_ce obj) e"
    and "rp_set p = Some setter" and "rp_get p = Some getter"
    and "setter t z e = ((None, t'), e')" and "en_execute_data e' = en_execute_data e"
    and "getter t' (nulled rv) e' = ((None, z), e'')"
  shows "\<exists>obj' cache'. write_property ca sa rg obj (Some name) (Some z) cache e = Done (Some z, obj', cache', e') \<and>
    backed ca rg obj' t' \<and> co_ce obj' = co_ce obj \<and>
    read_property ca sa rg obj' (Some name) type cache' (Some rv) e' = Done (z, cache', e'')"
proof -
  let ?obj = "obj\<lparr>co_obj := Some t'\<rparr>" and ?cache = "map_option (\<lambda>_. (Some p, rg_meta rg)) cache"
  have "write_property ca sa rg obj (Some name) (Some z) cache e = Done (Some z, ?obj, ?cache, e')"
    using assms(5,6,8) by (simp add: write_property_found [OF assms(1-4)])
  moreover have b: "backed ca rg ?obj t'" using assms(1) by (rule backed_update)
  moreover have "read_property ca sa rg ?obj (Some name) type ?cache (Some rv) e' = Done (z, ?cache, e'')"
    using assms(5,7,10) check_property_access_cong [OF assms(9)]
    by (simp add: read_property_found [OF b assms(2) cache_ok_filled [OF assms(4)] assms(4)] Let_def option.map_comp comp_def)
  ultimately show ?thesis by (intro exI [of _ ?obj] exI [of _ ?cache]) simp
qed

theorem property_write_read_witness:
  "\<exists>obj' cache'. write_property demo_ca (demo_sa_tables ()) (demo_class 0 None) \<lparr>co_obj = Some 1, co_ce = 3, co_handlers = 2\<rparr> (Some demo_name)
      (Some (zval_new\<lparr>zv_value := 42, zv_type_info := IS_LONG\<rparr>)) None (demo_eng 0) =
    Done (Some (zval_new\<lparr>zv_value := 42, zv_type_info := IS_LONG\<rparr>), obj', cache', demo_eng 0) \<and>
    read_property demo_ca (demo_sa_tables ()) (demo_class 0 None) obj' (Some demo_name) 0 cache' (Some zval_new) (demo_eng 0) =
      Done (zval_new\<lparr>zv_value := 42, zv_type_info := IS_LONG\<rparr>, cache', demo_eng 0)"
proof -
  note * = property_write_read [OF demo_backed [of 3 0 None 1] demo_name_str _ demo_find, where e = "demo_eng 0" and
      e' = "demo_eng 0" and e'' = "demo_eng 0" and t' = 42 and rv = zval_new and cache = None and
      z = "zval_new\<lparr>zv_value := 42, zv_type_info := IS_LONG\<rparr>" and sa = "demo_sa_tables ()" and type = 0]
  show ?thesis
    using * by (fastforce simp: cache_ok_def demo_property_def check_property_access_def flags_contain_def zend_consts nulled_def zval_new_def)
qed

text \<open>C12. Reading or writing a property from a scope its visibility forbids runs no user code: both throw exactly
  the error naming the property and change nothing else of the engine, reading gives null, and writing leaves the object as
  it is. (Testing a property is not guarded: see \<open>isset_ignores_visibility\<close>.)\<close>

theorem denied_access_inert:
  assumes "backed ca rg obj t" and "fst (zs_as_str name) = Inr n" and "cache_ok rg n cache"
    and "find_property rg n = Some p" and "\<not> check_property_access ca (rp_flags p) (co_ce obj) e"
    and "CHR 0x00 \<notin> set (rg_class_name rg) \<union> set n"
  shows "\<exists>cache' e'. read_property ca sa rg obj (Some name) type cache (Some rv) e = Done (nulled rv, cache', e') \<and>
    write_property ca sa rg obj (Some name) (Some z) cache e = Done (Some z, obj, cache', e') \<and>
    e' = e\<lparr>en_thrown := en_thrown e @ [ThrownError (''Cannot access '' @
      (if flags_contain (rp_flags p) ZEND_ACC_PRIVATE then ''private'' else ''protected'') @
      '' property '' @ rg_class_name rg @ ''::$'' @ n)]\<rparr>"
  using assms(5,6)
  by (simp add: read_property_found [OF assms(1-4)] write_property_found [OF assms(1-4)] throw_property_access_error_def
      cstring_new_def log_thrown_def Let_def)

theorem denied_access_inert_witness:
  "\<exists>cache' e'. read_property demo_ca (demo_sa_tables ()) (demo_class ZEND_ACC_PRIVATE None) \<lparr>co_obj = Some 1, co_ce = 3, co_handlers = 2\<rparr>
      (Some demo_name) 0 None (Some zval_new) (demo_eng 0) = Done (nulled zval_new, cache', e') \<and>
    en_thrown e' = [ThrownError ''Cannot access private property A::$n'']"
proof -
  have "\<not> check_property_access demo_ca (rp_flags (demo_property ZEND_ACC_PRIVATE)) 3 (demo_eng 0)"
    by (simp add: check_property_access_def demo_property_def demo_eng_def get_calling_scope_def)
  from denied_access_inert [OF demo_backed [of 3 ZEND_ACC_PRIVATE None 1] demo_name_str _ demo_find, of None, where e = "demo_eng 0" and
      rv = zval_new and z = zval_new and sa = "demo_sa_tables ()" and type = 0] this show ?thesis
    by (auto simp: cache_ok_def demo_class_def demo_property_def demo_eng_def)
qed

text \<open>A private property belongs to the class of the object, not to the class that declares it: on an object of a
  subclass the declaring class itself is refused, and the subclass is let in.\<close>

theorem private_follows_object_class:
  assumes "backed ca rg obj t" and "fst (zs_as_str name) = Inr n" and "cache_ok rg n cache"
    and "find_property rg n = Some p" and "flags_contain (rp_flags p) ZEND_ACC_PRIVATE" and "rp_get p = Some getter"
    and "\<And>e. getter t (nulled rv) e = ((None, v), e)" and "co_ce obj \<noteq> rg_ce rg"
    and "CHR 0x00 \<notin> set (rg_class_name rg) \<union> set n"
  shows "(get_calling_scope e = co_ce obj \<longrightarrow>
      (\<exists>cache'. read_property ca sa rg obj (Some name) type cache (Some rv) e = Done (v, cache', e))) \<and>
    (get_calling_scope e = rg_ce rg \<longrightarrow>
      (\<exists>cache' m. read_property ca sa rg obj (Some name) type cache (Some rv) e =
        Done (nulled rv, cache', log_thrown (ThrownError m) e)))"
  using assms(5-9)
  by (auto simp: read_property_found [OF assms(1-4)] check_property_access_def throw_property_access_error_def cstring_new_def
      Let_def)

theorem private_follows_object_class_witness:
  "(\<exists>cache'. read_property demo_ca (demo_sa_tables ()) (demo_class ZEND_ACC_PRIVATE None) \<lparr>co_obj = Some 1, co_ce = 4, co_handlers = 2\<rparr>
      (Some demo_name) 0 None (Some zval_new) (demo_eng 4) =
      Done (zval_new\<lparr>zv_value := 1, zv_type_info := IS_LONG\<rparr>, cache', demo_eng 4)) \<and>
   (\<exists>cache' m. read_property demo_ca (demo_sa_tables ()) (demo_class ZEND_ACC_PRIVATE None) \<lparr>co_obj = Some 1, co_ce = 4, co_handlers = 2\<rparr>
      (Some demo_name) 0 None (Some zval_new) (demo_eng 3) = Done (nulled zval_new, cache', log_thrown (ThrownError m) (demo_eng 3)))"
proof -
  note * = private_follows_object_class [OF demo_backed [of 4 ZEND_ACC_PRIVATE None 1] demo_name_str _ demo_find, of None _ zval_new
      "zval_new\<lparr>zv_value := 1, zv_type_info := IS_LONG\<rparr>" "demo_eng c" "demo_sa_tables ()" 0 for c]
  show ?thesis
    using * [of _ 3] * [of _ 4] by (simp add: cache_ok_def demo_class_def demo_property_def demo_eng_def get_calling_scope_def nulled_def)
qed

text \<open>Testing a property does not look at its visibility: \<open>property_exists\<close>-style tests answer yes for a declared
  property and \<open>isset\<close> runs its getter, from any scope, where reading it would be refused.\<close>

theorem isset_ignores_visibility:
  assumes "backed ca rg obj t" and "fst (zs_as_str name) = Inr n" and "cache_ok rg n cache"
    and "find_property rg n = Some p" and "rp_get p = Some getter" and "\<And>e. getter t zval_new e = ((None, v), e)"
    and "\<not> is_null v"
  shows "\<exists>cache'. has_property ca sa rg obj (Some name) 2 cache e = Done (1, cache', e) \<and>
    has_property ca sa rg obj (Some name) 0 cache e = Done (1, cache', e)"
  using backed_from_zend_obj [OF assms(1)] backed_obj [OF assms(1)] resolve_property_ok [OF assms(2,3), of ca] assms(4-7)
  by (simp add: has_property_def has_internal_def call_getter_def)

theorem isset_ignores_visibility_witness:
  "\<exists>cache'. has_property demo_ca (demo_sa_tables ()) (demo_class ZEND_ACC_PRIVATE None) \<lparr>co_obj = Some 1, co_ce = 3, co_handlers = 2\<rparr>
      (Some demo_name) 0 None (demo_eng 0) = Done (1, cache', demo_eng 0)"
proof -
  have "\<not> is_null (zval_new\<lparr>zv_value := 1, zv_type_info := IS_LONG\<rparr>)" by code_simp
  then show ?thesis
    using isset_ignores_visibility [OF demo_backed [of 3 ZEND_ACC_PRIVATE None 1] demo_name_str _ demo_find, of None _
        "zval_new\<lparr>zv_value := 1, zv_type_info := IS_LONG\<rparr>" "demo_sa_tables ()" "demo_eng 0"]
    by (auto simp: cache_ok_def demo_property_def)
qed

text \<open>C27. Listing the properties of an object gives the standard ones overlaid with every readable property of the
  Rust value, fields before methods, under its mangled name.\<close>

theorem get_properties_complete:
  assumes "backed ca rg obj t" and "hash_api_ok ha V" and "sa_get_properties sa obj e = (Some props, e')" and "hv_inv V props"
    and "length (hv_ent V props) + length (all_properties rg) < 2 ^ 32"
    and "\<And>d g e. d \<in> set (all_properties rg) \<Longrightarrow> rp_get d = Some g \<Longrightarrow> g t zval_new e = (val d, e)"
  shows "\<exists>props'. get_properties ca sa ha rg obj e = Done (props', e') \<and>
    hv_ent V props' = update_all
      (listed val (zip (all_properties rg) (map rp_mangled_name (rg_field_properties rg) @ method_mangled_names rg)))
      (hv_ent V props)"
proof -
  let ?fs = "map (\<lambda>d. (d, rp_mangled_name d)) (rg_field_properties rg)"
  let ?ms = "zip (rg_method_properties rg) (method_mangled_names rg)"
  have len: "length (all_properties rg) = length ?fs + length ?ms"
    by (simp add: all_properties_def method_mangled_names_def)
  obtain p1 where p1: "insert_properties ca ha t ?fs props e' = (None, p1, e')" "hv_inv V p1"
      "hv_ent V p1 = update_all (listed val ?fs) (hv_ent V props)" "length (hv_ent V p1) \<le> length (hv_ent V props) + length ?fs"
    using insert_properties_view [OF assms(2,4), of ?fs t val ca e'] assms(5,6) len
    by (auto simp: all_properties_def image_image)
  have "d \<in> set (all_properties rg)" if "d \<in> fst ` set ?ms" for d
    using that by (auto simp: all_properties_def dest: set_zip_leftD)
  then obtain p2 where p2: "insert_properties ca ha t ?ms p1 e' = (None, p2, e')"
      "hv_ent V p2 = update_all (listed val ?ms) (hv_ent V p1)"
    using insert_properties_view [OF assms(2) p1(2), of ?ms t val ca e'] assms(5,6) len p1(4) by force
  have "zip (all_properties rg) (map rp_mangled_name (rg_field_properties rg) @ method_mangled_names rg) = ?fs @ ?ms"
    by (simp add: all_properties_def zip_append zip_map2 zip_same_conv_map)
  moreover have "listed val (?fs @ ?ms) = listed val ?fs @ listed val ?ms" by (simp add: listed_def)
  ultimately show ?thesis
    using p1(1,3) p2 assms(3) backed_from_zend_obj [OF assms(1)] backed_obj [OF assms(1)]
    by (simp add: get_properties_def get_properties_internal_def update_all_def)
qed

text \<open>An object is created with the class asked for only when the class has no default value: with one, and always
  when cloning, the new object has the registered class, whatever subclass was asked for or cloned. A
  clone is never the original; one that cannot be made is an object without a Rust value, with an error thrown.\<close>

theorem created_object_class:
  assumes "alloc_ok alloc" and "rg_ce rg \<noteq> 0"
  shows "(create_object alloc rg ce s = Done (a, s1) \<longrightarrow> (\<exists>obj. oh_objs s1 a = Some obj \<and>
      co_ce obj = (if rg_default_init rg = None \<and> ce \<noteq> 0 then ce else rg_ce rg) \<and> co_obj obj = rg_default_init rg)) \<and>
    (oh_objs s a = Some old \<and> clone_obj alloc ca rg old (s, e) = Done (b, s2, e') \<longrightarrow>
      b \<noteq> a \<and> oh_objs s2 a = Some old \<and> (\<exists>new. oh_objs s2 b = Some new \<and> co_ce new = rg_ce rg \<and>
        (if co_obj new = None then \<exists>m. e' = log_thrown (ThrownError m) e
         else e' = e \<and> co_obj new = Option.bind (co_obj old) (rg_clone_obj rg))))"
    (is "?create \<and> ?clone")
proof
  show ?create
    using assms(2)
    by (auto simp: create_object_def class_object_new_def class_object_new_uninit_def internal_new_def made_def meta_ce_def
        split: option.splits if_splits)
  show ?clone
  proof (intro impI)
    assume old: "oh_objs s a = Some old \<and> clone_obj alloc ca rg old (s, e) = Done (b, s2, e')"
    note new = internal_new_Done [OF _ assms, where ce = None]
    from old consider
        v where "Option.bind (co_obj old) (rg_clone_obj rg) = Some v" "internal_new alloc rg (Some v) None (made v s) = Done (b, s2)" "e' = e"
      | m where "internal_new alloc rg None None s = Done (b, s2)" "e' = log_thrown (ThrownError m) e"
      using clone_obj_cases by blast
    then show "b \<noteq> a \<and> oh_objs s2 a = Some old \<and> (\<exists>new. oh_objs s2 b = Some new \<and> co_ce new = rg_ce rg \<and>
        (if co_obj new = None then \<exists>m. e' = log_thrown (ThrownError m) e
         else e' = e \<and> co_obj new = Option.bind (co_obj old) (rg_clone_obj rg)))"
    proof cases
      case 1
      with new [OF 1(2)] old show ?thesis by (auto simp: made_def)
    next
      case 2
      with new [OF 2(1)] old show ?thesis by auto
    qed
  qed
qed

text \<open>A subclass of a class with a default value: the object made for it is not one of the subclass.\<close>

theorem created_object_class_witness:
  "\<exists>a s1 obj. create_object demo_alloc (demo_class 0 (Some 5)) 4 heap_init = Done (a, s1) \<and> oh_objs s1 a = Some obj \<and> co_ce obj = 3"
proof -
  have "rg_ce (demo_class 0 (Some 5)) \<noteq> 0" by (simp add: demo_class_def)
  moreover have "\<exists>a s1. create_object demo_alloc (demo_class 0 (Some 5)) 4 heap_init = Done (a, s1)"
    by (simp add: create_object_def demo_class_def class_object_new_def internal_new_def made_def meta_ce_def heap_init_def demo_alloc_def)
  ultimately show ?thesis
    using created_object_class [OF demo_alloc_ok, of "demo_class 0 (Some 5)" 4 heap_init _ _ undefined demo_ca undefined undefined undefined]
    by (fastforce simp: demo_class_def)
qed

text \<open>The demonstration class on the engine table of theory \<open>HashTable\<close>.\<close>

theorem get_properties_complete_witness:
  "\<exists>props'. get_properties demo_ca (demo_sa_tables ([], Some 0)) list_api (demo_class 0 None)
      \<lparr>co_obj = Some 1, co_ce = 3, co_handlers = 2\<rparr> (demo_eng 0) = Done (props', demo_eng 0) \<and>
    hv_ent list_view props' = [(HStr ''n'', zval_new\<lparr>zv_value := 1, zv_type_info := IS_LONG\<rparr>)]"
proof -
  let ?rg = "demo_class 0 None" and ?z = "zval_new\<lparr>zv_value := 1, zv_type_info := IS_LONG\<rparr>"
  have props: "all_properties ?rg = [demo_property 0]" "rg_field_properties ?rg = [demo_property 0]" "method_mangled_names ?rg = []"
    by (simp_all add: all_properties_def method_mangled_names_def demo_class_def)
  have key: "array_key_from_str ''n'' = KStr ''n''" by code_simp
  have listed: "update_all (listed (\<lambda>_. (None, ?z)) (zip (all_properties ?rg)
      (map rp_mangled_name (rg_field_properties ?rg) @ method_mangled_names ?rg))) [] = [(HStr ''n'', ?z)]"
    by (simp add: props listed_def update_all_def key demo_property_def)
  have inv: "hv_inv list_view (([], Some 0) :: (hkey \<times> zval) list \<times> int option)" by (simp add: list_inv_def i64_defs)
  have sa: "sa_get_properties (demo_sa_tables ([], Some 0)) \<lparr>co_obj = Some 1, co_ce = 3, co_handlers = 2\<rparr> (demo_eng 0) =
      (Some (([], Some 0) :: (hkey \<times> zval) list \<times> int option), demo_eng 0)"
    by (simp add: demo_sa_tables_def)
  have getter: "g 1 zval_new e = ((None, ?z), e)" if "d \<in> set (all_properties ?rg)" "rp_get d = Some g" for d g e
    using that by (auto simp: props demo_property_def)
  have "backed demo_ca ?rg \<lparr>co_obj = Some 1, co_ce = 3, co_handlers = 2\<rparr> 1" by (rule demo_backed) simp
  from get_properties_complete [OF this list_api_ok sa inv, where val = "\<lambda>_. (None, ?z)"] getter listed show ?thesis
    by (simp add: props(1) del: map_append)
qed

end
