(* ===== verification/Register.thy ===== *)
theory Register
  imports Describe
begin

text \<open>
  The registering parts of \<open>src/builders/class.rs\<close>, \<open>src/builders/enum_builder.rs\<close> and \<open>src/builders/module.rs\<close>, and
  \<open>src/constant.rs\<close>: what an extension tells the engine when it is loaded. The calls into the engine are events
  of a log, in order; a step continues, fails with an error or panics, each with the log so far. What
  the engine answers and the values the extension computes on the way are fields of an environment.
  The builders are those of theory \<open>Describe\<close>; a class is known by its name.
\<close>

unbundle bit_operations_syntax

section \<open>Calls into the engine\<close>

datatype reg_event =
    RegConstant string int
  | RegInterface string "function_entry list"
  | RegClass string "string option" "function_entry list"
  | DenySerialize string
  | ImplementInterface string string
  | DeclareProperty string string u32
  | DeclareClassConstant string string
  | SetCreateObject string
  | StoreClassEntry string
  | RegEnum string data_type "function_entry list"
  | AddCase string string "discriminant option"
  | StartObservers

datatype reg = RegOk "reg_event list" | RegErr error "reg_event list" | RegPanic "reg_event list"

fun reg_then :: "reg \<Rightarrow> (reg_event list \<Rightarrow> reg) \<Rightarrow> reg" where
  "reg_then (RegOk log) f = f log"
| "reg_then (RegErr e log) f = RegErr e log"
| "reg_then (RegPanic log) f = RegPanic log"

definition emit :: "reg_event \<Rightarrow> reg_event list \<Rightarrow> reg" where
  "emit ev log = RegOk (log @ [ev])"

fun reg_each :: "('a \<Rightarrow> reg_event list \<Rightarrow> reg) \<Rightarrow> 'a list \<Rightarrow> reg_event list \<Rightarrow> reg" where
  "reg_each f [] log = RegOk log"
| "reg_each f (x # xs) log = reg_then (f x log) (reg_each f xs)"

text \<open>\<open>expect\<close>.\<close>

fun expect :: "reg \<Rightarrow> reg" where
  "expect (RegErr e log) = RegPanic log"
| "expect r = r"

text \<open>Whether the engine makes the class, which entries are interfaces, and how the closures for the default value
  of a property, for a class constant, for an enum value and for a global constant end.\<close>

record reg_env =
  re_class_made :: "string \<Rightarrow> bool"
  re_is_interface :: "string \<Rightarrow> bool"
  re_default :: "class_property \<Rightarrow> error option"
  re_class_constant :: "string \<Rightarrow> error option"
  re_enum_value :: "discriminant \<Rightarrow> error option"
  re_constant :: "string \<Rightarrow> error option"

definition function_entry_end :: function_entry where
  "function_entry_end = \<lparr>fe_fname = None, fe_handler = None, fe_arg_info = [], fe_num_args = 0, fe_flags = 0\<rparr>"

definition build_methods :: "bool \<Rightarrow> ('z function_builder \<times> u32) list \<Rightarrow> error + function_entry list" where
  "build_methods php83 methods =
     (case result_collect (map (\<lambda>(m, flags).
             case fb_build php83 m of Inl e \<Rightarrow> Inl e | Inr fe \<Rightarrow> Inr (fe\<lparr>fe_flags := fe_flags fe OR flags\<rparr>)) methods) of
        Inl e \<Rightarrow> Inl e
      | Inr fes \<Rightarrow> Inr (fes @ [function_entry_end]))"

section \<open>Classes\<close>

definition declare_property :: "reg_env \<Rightarrow> string \<Rightarrow> class_property \<Rightarrow> reg_event list \<Rightarrow> reg" where
  "declare_property env cls p log =
     (case re_default env p of
        Some e \<Rightarrow> RegErr e log
      | None \<Rightarrow>
          (case cstring_new (cp_name p) of
             None \<Rightarrow> RegErr InvalidCString log
           | Some n \<Rightarrow>
               if unat (cp_flags p) < 2 ^ 31 then emit (DeclareProperty cls n (cp_flags p)) log
               else RegErr IntegerOverflow log))"

definition declare_class_constant :: "reg_env \<Rightarrow> string \<Rightarrow> string \<times> string list \<times> string \<Rightarrow> reg_event list \<Rightarrow> reg" where
  "declare_class_constant env cls k log =
     (case k of (n, _, _) \<Rightarrow>
        (case re_class_constant env n of
           Some e \<Rightarrow> RegErr e log
         | None \<Rightarrow>
             (case cstring_new n of
                None \<Rightarrow> RegErr InvalidCString log
              | Some n \<Rightarrow> emit (DeclareClassConstant cls n) log)))"

definition class_register :: "bool \<Rightarrow> reg_env \<Rightarrow> 'z class_builder \<Rightarrow> reg_event list \<Rightarrow> reg" where
  "class_register php83 env b log =
     (case build_methods php83 (cb_methods b) of
        Inl e \<Rightarrow> RegErr e log
      | Inr methods \<Rightarrow>
          let cls = cb_name b;
              log = log @ [if flags_contain (cb_ce_flags b) ZEND_ACC_INTERFACE then RegInterface cls methods
                           else RegClass cls (cb_extends b) methods]
          in if \<not> re_class_made env cls then RegErr InvalidPointer log
             else
               let log = (if cb_object_override b then log @ [DenySerialize cls] else log)
               in reg_then (reg_each (\<lambda>iface log.
                     if re_is_interface env iface then emit (ImplementInterface cls iface) log else RegPanic log)
                     (cb_interfaces b) log) (\<lambda>log.
                  reg_then (reg_each (declare_property env cls) (cb_properties b) log) (\<lambda>log.
                  reg_then (reg_each (declare_class_constant env cls) (cb_constants b) log) (\<lambda>log.
                    let log = (if cb_object_override b then log @ [SetCreateObject cls] else log)
                    in if cb_register b then emit (StoreClassEntry cls) log else RegPanic log))))"

section \<open>Enums\<close>

definition add_case :: "reg_env \<Rightarrow> string \<Rightarrow> enum_case \<Rightarrow> reg_event list \<Rightarrow> reg" where
  "add_case env cls c log =
     (case Option.bind (cs_discriminant c) (re_enum_value env) of
        Some e \<Rightarrow> RegErr e log
      | None \<Rightarrow> emit (AddCase cls (cs_name c) (cs_discriminant c)) log)"

definition enum_register :: "bool \<Rightarrow> reg_env \<Rightarrow> 'z enum_builder \<Rightarrow> reg_event list \<Rightarrow> reg" where
  "enum_register php83 env b log =
     (case build_methods php83 (eb_methods b) of
        Inl e \<Rightarrow> RegErr e log
      | Inr methods \<Rightarrow>
          (case cstring_new (eb_name b) of
             None \<Rightarrow> RegErr InvalidCString log
           | Some cls \<Rightarrow>
               if 2 ^ 8 \<le> unat (as_u32 (eb_datatype b)) then RegErr IntegerOverflow log
               else
                 let log = log @ [RegEnum cls (eb_datatype b) methods]
                 in reg_then (reg_each (add_case env cls) (eb_cases b) log) (\<lambda>log.
                      if eb_register b then emit (StoreClassEntry cls) log else RegPanic log)))"

section \<open>Modules\<close>

definition register_constant :: "reg_env \<Rightarrow> int \<Rightarrow> string \<Rightarrow> reg_event list \<Rightarrow> reg" where
  "register_constant env mod_num n log =
     (case cstring_new n of
        None \<Rightarrow> RegErr InvalidCString log
      | Some n \<Rightarrow>
          (case re_constant env n of Some e \<Rightarrow> RegErr e log | None \<Rightarrow> emit (RegConstant n mod_num) log))"

record 'z startup_state =
  ms_constants :: "string list"
  ms_classes :: "'z class_builder list"
  ms_interfaces :: "'z class_builder list"
  ms_enums :: "'z enum_builder list"

text \<open>\<open>observer\<close> is the feature of that name.\<close>

definition module_startup :: "bool \<Rightarrow> bool \<Rightarrow> reg_env \<Rightarrow> int \<Rightarrow> 'z startup_state \<Rightarrow> reg_event list \<Rightarrow> reg" where
  "module_startup php83 observer env mod_num m log =
     reg_then (reg_each (register_constant env mod_num) (ms_constants m) log) (\<lambda>log.
     reg_then (reg_each (\<lambda>c log. expect (class_register php83 env c log)) (ms_interfaces m) log) (\<lambda>log.
     reg_then (reg_each (\<lambda>c log. expect (class_register php83 env c log)) (ms_classes m) log) (\<lambda>log.
     reg_then (reg_each (\<lambda>c log. expect (enum_register php83 env c log)) (ms_enums m) log) (\<lambda>log.
       if observer then emit StartObservers log else RegOk log))))"

text \<open>The fields of the entry that are constants of the build or start as zero are left out.\<close>

record zend_module_entry =
  me_name :: string
  me_version :: string
  me_functions :: "function_entry list"
  me_startup :: "nat option"
  me_shutdown :: "nat option"
  me_request_startup :: "nat option"
  me_request_shutdown :: "nat option"
  me_info :: "nat option"
  me_globals_size :: nat
  me_globals_ptr :: nat
  me_globals_ctor :: "nat option"
  me_globals_dtor :: "nat option"
  me_post_deactivate :: "nat option"

definition module_try_from :: "bool \<Rightarrow> 'z module_builder \<Rightarrow> error + zend_module_entry \<times> 'z startup_state" where
  "module_try_from php83 b =
     (case result_collect (map (fb_build php83) (mb_functions b)) of
        Inl e \<Rightarrow> Inl e
      | Inr functions \<Rightarrow>
          (case cstring_new (mb_name b) of
             None \<Rightarrow> Inl InvalidCString
           | Some n \<Rightarrow>
               (case cstring_new (mb_version b) of
                  None \<Rightarrow> Inl InvalidCString
                | Some v \<Rightarrow>
                    Inr (\<lparr>me_name = n, me_version = v, me_functions = functions @ [function_entry_end],
                          me_startup = mb_startup_func b, me_shutdown = mb_shutdown_func b,
                          me_request_startup = mb_request_startup_func b, me_request_shutdown = mb_request_shutdown_func b,
                          me_info = mb_info_func b, me_globals_size = mb_globals_size b, me_globals_ptr = mb_globals_ptr b,
                          me_globals_ctor = mb_globals_ctor b, me_globals_dtor = mb_globals_dtor b,
                          me_post_deactivate = mb_post_deactivate_func b\<rparr>,
                         \<lparr>ms_constants = map fst (mb_constants b), ms_classes = mb_classes b,
                          ms_interfaces = mb_interfaces b, ms_enums = mb_enums b\<rparr>))))"

section \<open>What a successful registration emits\<close>

lemma reg_then_Ok: "reg_then r f = RegOk log' \<longleftrightarrow> (\<exists>log. r = RegOk log \<and> f log = RegOk log')"
  by (cases r) auto

lemma expect_Ok [simp]: "expect r = RegOk log \<longleftrightarrow> r = RegOk log"
  by (cases r) auto

lemma emit_Ok [simp]: "emit ev log = RegOk log' \<longleftrightarrow> log' = log @ [ev]"
  by (auto simp: emit_def)

lemma reg_each_Ok:
  assumes "reg_each f xs log = RegOk log'" and "\<And>x log log'. x \<in> set xs \<Longrightarrow> f x log = RegOk log' \<Longrightarrow> log' = log @ ev x"
  shows "log' = log @ concat (map ev xs)"
  using assms
proof (induction xs arbitrary: log)
  case (Cons x xs)
  from Cons.prems(1) obtain log1 where "f x log = RegOk log1" "reg_each f xs log1 = RegOk log'"
    by (auto simp: reg_then_Ok)
  with Cons.IH [of log1] Cons.prems(2) show ?case by fastforce
qed simp

lemma reg_each_done: "reg_each f xs log = RegOk log' \<Longrightarrow> x \<in> set xs \<Longrightarrow> \<exists>l l'. f x l = RegOk l'"
  by (induction xs arbitrary: log) (auto simp: reg_then_Ok)

definition method_entries :: "bool \<Rightarrow> ('z function_builder \<times> u32) list \<Rightarrow> function_entry list" where
  "method_entries php83 ms = (case build_methods php83 ms of Inr es \<Rightarrow> es | Inl _ \<Rightarrow> [])"

definition class_events :: "bool \<Rightarrow> 'z class_builder \<Rightarrow> reg_event list" where
  "class_events php83 b =
     [if flags_contain (cb_ce_flags b) ZEND_ACC_INTERFACE then RegInterface (cb_name b) (method_entries php83 (cb_methods b))
      else RegClass (cb_name b) (cb_extends b) (method_entries php83 (cb_methods b))] @
     (if cb_object_override b then [DenySerialize (cb_name b)] else []) @
     map (ImplementInterface (cb_name b)) (cb_interfaces b) @
     map (\<lambda>p. DeclareProperty (cb_name b) (cp_name p) (cp_flags p)) (cb_properties b) @
     map (\<lambda>k. DeclareClassConstant (cb_name b) (fst k)) (cb_constants b) @
     (if cb_object_override b then [SetCreateObject (cb_name b)] else []) @ [StoreClassEntry (cb_name b)]"

definition enum_events :: "bool \<Rightarrow> 'z enum_builder \<Rightarrow> reg_event list" where
  "enum_events php83 b =
     [RegEnum (eb_name b) (eb_datatype b) (method_entries php83 (eb_methods b))] @
     map (\<lambda>c. AddCase (eb_name b) (cs_name c) (cs_discriminant c)) (eb_cases b) @ [StoreClassEntry (eb_name b)]"

lemma cstring_new_Some: "cstring_new s = Some t \<Longrightarrow> t = s"
  by (auto simp: cstring_new_def split: if_splits)

lemma concat_single [simp]: "concat (map (\<lambda>x. [f x]) xs) = map f xs"
  by (induction xs) auto

lemma reg_each_single:
  assumes "reg_each f xs log = RegOk log'" and "\<And>x log log'. x \<in> set xs \<Longrightarrow> f x log = RegOk log' \<Longrightarrow> log' = log @ [ev x]"
  shows "log' = log @ map ev xs"
  using reg_each_Ok [OF assms(1), of "\<lambda>x. [ev x]"] assms(2) by simp

lemma class_register_Ok:
  assumes "class_register php83 env b log = RegOk log'"
  shows "log' = log @ class_events php83 b" "\<exists>ms. build_methods php83 (cb_methods b) = Inr ms"
proof -
  obtain ms where ms: "build_methods php83 (cb_methods b) = Inr ms"
    using assms by (auto simp: class_register_def split: sum.splits)
  then show "\<exists>ms. build_methods php83 (cb_methods b) = Inr ms" ..
  define log1 where "log1 = log @ [if flags_contain (cb_ce_flags b) ZEND_ACC_INTERFACE then RegInterface (cb_name b) ms
                           else RegClass (cb_name b) (cb_extends b) ms] @ (if cb_object_override b then [DenySerialize (cb_name b)] else [])"
  obtain l2 l3 l4 where l: "reg_each (\<lambda>iface log.
          if re_is_interface env iface then emit (ImplementInterface (cb_name b) iface) log else RegPanic log)
          (cb_interfaces b) log1 = RegOk l2"
      "reg_each (declare_property env (cb_name b)) (cb_properties b) l2 = RegOk l3"
      "reg_each (declare_class_constant env (cb_name b)) (cb_constants b) l3 = RegOk l4"
      "log' = l4 @ (if cb_object_override b then [SetCreateObject (cb_name b)] else []) @ [StoreClassEntry (cb_name b)]"
    using assms ms
    by (auto simp: class_register_def log1_def Let_def reg_then_Ok split: if_splits)
  have "l2 = log1 @ map (ImplementInterface (cb_name b)) (cb_interfaces b)"
    by (rule reg_each_single [OF l(1)]) (simp split: if_splits)
  moreover have "l3 = l2 @ map (\<lambda>p. DeclareProperty (cb_name b) (cp_name p) (cp_flags p)) (cb_properties b)"
    by (rule reg_each_single [OF l(2)]) (auto simp: declare_property_def dest: cstring_new_Some split: option.splits if_splits)
  moreover have "l4 = l3 @ map (\<lambda>k. DeclareClassConstant (cb_name b) (fst k)) (cb_constants b)"
    by (rule reg_each_single [OF l(3)]) (auto simp: declare_class_constant_def dest: cstring_new_Some split: option.splits prod.splits)
  ultimately show "log' = log @ class_events php83 b"
    by (simp add: class_events_def l(4) log1_def method_entries_def ms)
qed

lemma enum_register_Ok:
  assumes "enum_register php83 env b log = RegOk log'"
  shows "log' = log @ enum_events php83 b"
proof -
  obtain ms where ms: "build_methods php83 (eb_methods b) = Inr ms"
    using assms by (auto simp: enum_register_def split: sum.splits)
  obtain l2 where l: "reg_each (add_case env (eb_name b)) (eb_cases b) (log @ [RegEnum (eb_name b) (eb_datatype b) ms]) = RegOk l2"
      "log' = l2 @ [StoreClassEntry (eb_name b)]"
    using assms ms
    by (auto simp: enum_register_def Let_def reg_then_Ok split: if_splits option.splits dest!: cstring_new_Some)
  have "l2 = (log @ [RegEnum (eb_name b) (eb_datatype b) ms]) @ map (\<lambda>c. AddCase (eb_name b) (cs_name c) (cs_discriminant c)) (eb_cases b)"
    by (rule reg_each_single [OF l(1)]) (simp add: add_case_def split: option.splits)
  then show ?thesis by (simp add: enum_events_def l(2) method_entries_def ms)
qed

lemma module_startup_Ok:
  assumes "module_startup php83 observer env mod_num m log0 = RegOk log"
  shows "log = log0 @ map (\<lambda>n. RegConstant n mod_num) (ms_constants m) @ concat (map (class_events php83) (ms_interfaces m)) @
    concat (map (class_events php83) (ms_classes m)) @ concat (map (enum_events php83) (ms_enums m)) @
    (if observer then [StartObservers] else [])"
    and "\<forall>c \<in> set (ms_interfaces m @ ms_classes m). \<exists>es. build_methods php83 (cb_methods c) = Inr es"
proof -
  obtain l1 l2 l3 l4 where l: "reg_each (register_constant env mod_num) (ms_constants m) log0 = RegOk l1"
      "reg_each (\<lambda>c log. expect (class_register php83 env c log)) (ms_interfaces m) l1 = RegOk l2"
      "reg_each (\<lambda>c log. expect (class_register php83 env c log)) (ms_classes m) l2 = RegOk l3"
      "reg_each (\<lambda>c log. expect (enum_register php83 env c log)) (ms_enums m) l3 = RegOk l4"
      "log = l4 @ (if observer then [StartObservers] else [])"
    using assms by (auto simp: module_startup_def reg_then_Ok split: if_splits)
  have "l1 = log0 @ map (\<lambda>n. RegConstant n mod_num) (ms_constants m)"
    by (rule reg_each_single [OF l(1)]) (auto simp: register_constant_def dest: cstring_new_Some split: option.splits)
  moreover have "l2 = l1 @ concat (map (class_events php83) (ms_interfaces m))"
    by (rule reg_each_Ok [OF l(2)]) (auto dest: class_register_Ok(1))
  moreover have "l3 = l2 @ concat (map (class_events php83) (ms_classes m))"
    by (rule reg_each_Ok [OF l(3)]) (auto dest: class_register_Ok(1))
  moreover have "l4 = l3 @ concat (map (enum_events php83) (ms_enums m))"
    by (rule reg_each_Ok [OF l(4)]) (auto dest: enum_register_Ok)
  ultimately show "log = log0 @ map (\<lambda>n. RegConstant n mod_num) (ms_constants m) @ concat (map (class_events php83) (ms_interfaces m)) @
    concat (map (class_events php83) (ms_classes m)) @ concat (map (enum_events php83) (ms_enums m)) @
    (if observer then [StartObservers] else [])"
    using l(5) by simp
  show "\<forall>c \<in> set (ms_interfaces m @ ms_classes m). \<exists>es. build_methods php83 (cb_methods c) = Inr es"
    using reg_each_done [OF l(2)] reg_each_done [OF l(3)] class_register_Ok(2) by fastforce
qed

text \<open>What the engine knows of an extension's exports, read off the log: the calls that make something visible to
  PHP code, in order, with a function entry as its name and the names of its parameters.\<close>

datatype signature = Sig "string option" "ai_name list"

datatype export =
    ExConstant string
  | ExInterface string "signature list"
  | ExClass string "string option" "signature list"
  | ExImplements string string
  | ExProperty string string visibility bool
  | ExClassConstant string string
  | ExEnum string "string option"
  | ExCase string string "string option"

definition entry_signature :: "function_entry \<Rightarrow> signature" where
  "entry_signature e = Sig (fe_fname e) (map ai_name (tl (fe_arg_info e)))"

definition described_signature :: "string \<Rightarrow> parameter list \<Rightarrow> signature" where
  "described_signature n ps = Sig (Some n) (map (\<lambda>p. ArgName (p_name p)) ps)"

definition backing_text :: "data_type \<Rightarrow> string option" where
  "backing_text d = (case d of DtLong \<Rightarrow> Some ''int'' | DtString \<Rightarrow> Some ''string'' | _ \<Rightarrow> None)"

definition discriminant_text :: "discriminant \<Rightarrow> string" where
  "discriminant_text v = (case v of DiscInt i \<Rightarrow> show_int i | DiscString s \<Rightarrow> [CHR 0x27] @ s @ [CHR 0x27])"

fun export_of :: "reg_event \<Rightarrow> export option" where
  "export_of (RegConstant n _) = Some (ExConstant n)"
| "export_of (RegInterface n ms) = Some (ExInterface n (map entry_signature (butlast ms)))"
| "export_of (RegClass n parent ms) = Some (ExClass n parent (map entry_signature (butlast ms)))"
| "export_of (ImplementInterface c i) = Some (ExImplements c i)"
| "export_of (DeclareProperty c n fl) = Some (ExProperty c n (visibility_from_property_flags fl) (flags_contain fl ZEND_ACC_STATIC))"
| "export_of (DeclareClassConstant c n) = Some (ExClassConstant c n)"
| "export_of (RegEnum n d _) = Some (ExEnum n (backing_text d))"
| "export_of (AddCase e n d) = Some (ExCase e n (map_option discriminant_text d))"
| "export_of _ = None"

definition exports :: "reg_event list \<Rightarrow> export list" where
  "exports log = List.map_filter export_of log"

text \<open>The same of a description.\<close>

definition class_exports :: "dclass \<Rightarrow> export list" where
  "class_exports c =
     (let ms = map (\<lambda>m. described_signature (m_name m) (m_params m)) (c_methods c)
      in [if flags_contain (c_flags c) ZEND_ACC_INTERFACE then ExInterface (c_name c) ms else ExClass (c_name c) (c_extends c) ms] @
         map (ExImplements (c_name c)) (c_implements c) @
         map (\<lambda>p. ExProperty (c_name c) (pr_prop_name p) (pr_vis p) (pr_static p)) (c_properties c) @
         map (\<lambda>k. ExClassConstant (c_name c) (k_name k)) (c_constants c))"

definition enum_exports :: "denum \<Rightarrow> export list" where
  "enum_exports e = ExEnum (e_name e) (e_backing_type e) # map (\<lambda>c. ExCase (e_name e) (ec_name c) (ec_value c)) (e_cases e)"

definition described_exports :: "dconstant list \<Rightarrow> dclass list \<Rightarrow> denum list \<Rightarrow> export list" where
  "described_exports ks cs es =
     map (\<lambda>k. ExConstant (k_name k)) ks @ concat (map class_exports cs) @ concat (map enum_exports es)"

lemma map_filter_concat_map: "List.map_filter f (concat (map g xs)) = concat (map (\<lambda>x. List.map_filter f (g x)) xs)"
  by (induction xs) (simp_all add: map_filter_simps)

lemma map_filter_map [simp]: "List.map_filter f (map g xs) = List.map_filter (\<lambda>x. f (g x)) xs"
  by (simp add: List.map_filter_def filter_map comp_def)

lemma map_filter_const [simp]: "List.map_filter (\<lambda>x. None) xs = []" "List.map_filter (\<lambda>x. Some (h x)) xs = map h xs"
  by (simp_all add: List.map_filter_def comp_def)

lemma exports_simps [simp]:
  "exports [] = []" "exports (a @ b) = exports a @ exports b"
  "exports (ev # log) = (case export_of ev of Some x \<Rightarrow> [x] | None \<Rightarrow> []) @ exports log"
  "exports (concat (map g xs)) = concat (map (\<lambda>x. exports (g x)) xs)"
  "exports (map h ys) = List.map_filter (\<lambda>x. export_of (h x)) ys"
  by (simp_all add: exports_def map_filter_simps map_filter_concat_map split: option.splits)

text \<open>A function entry shows the name and the parameter names of its builder.\<close>

lemma fb_build_signature:
  assumes "fb_build php83 b = Inr fe"
  shows "entry_signature fe = described_signature (fb_name b) (map parameter_from_arg (fb_args b))"
proof -
  from assms obtain t infos where c: "result_collect (map (as_arg_info php83) (fb_args b)) = Inr infos"
    and fe: "fe_arg_info fe = \<lparr>ai_name = RequiredArgs (fb_required b), ai_type = t, ai_default = None\<rparr> # infos"
      "fe_fname fe = Some (fb_name b)"
    by (rule fb_build_Inr)
  from c have m: "map (as_arg_info php83) (fb_args b) = map Inr infos" by (simp only: result_collect_Inr_iff)
  have "map ai_name infos = map (\<lambda>a. ArgName (a_name a)) as"
    if "map (as_arg_info php83) as = map Inr infos" for as :: "'a arg list" and infos
    using that by (induction as arbitrary: infos) (auto dest: as_arg_info_name)
  from this [OF m] have "map ai_name infos = map (\<lambda>a. ArgName (a_name a)) (fb_args b)" .
  with fe show ?thesis by (simp add: entry_signature_def described_signature_def parameter_from_arg_def comp_def)
qed

lemma built_signatures:
  assumes "map (\<lambda>x. case fb_build php83 (b x) of Inl e \<Rightarrow> Inl e | Inr fe \<Rightarrow> Inr (fe\<lparr>fe_flags := fl x fe\<rparr>)) xs = map Inr es"
  shows "map entry_signature es = map (\<lambda>x. described_signature (fb_name (b x)) (map parameter_from_arg (fb_args (b x)))) xs"
  using assms
proof (induction xs arbitrary: es)
  case (Cons x xs)
  then obtain fe es' where es: "fb_build php83 (b x) = Inr fe" "es = fe\<lparr>fe_flags := fl x fe\<rparr> # es'"
    by (auto split: sum.splits)
  have "entry_signature (fe\<lparr>fe_flags := f\<rparr>) = entry_signature fe" for f by (simp add: entry_signature_def)
  with es Cons show ?case by (simp add: fb_build_signature)
qed simp

lemma build_methods_signatures:
  assumes "build_methods php83 ms = Inr es"
  shows "map entry_signature (butlast es) =
    map (\<lambda>m. described_signature (m_name m) (m_params m)) (map method_from_builder ms)"
proof -
  obtain fes where fes: "es = fes @ [function_entry_end]" "map (\<lambda>m.
      case fb_build php83 (fst m) of Inl e \<Rightarrow> Inl e | Inr fe \<Rightarrow> Inr (fe\<lparr>fe_flags := fe_flags fe OR snd m\<rparr>)) ms = map Inr fes"
    using assms by (auto simp: build_methods_def result_collect_Inr_iff case_prod_unfold split: sum.splits)
  from built_signatures [OF fes(2)] show ?thesis
    by (simp add: fes(1) method_from_builder_def case_prod_beta comp_def)
qed

lemma class_events_exports:
  assumes "build_methods php83 (cb_methods b) = Inr es"
  shows "exports (class_events php83 b) = class_exports (class_from_builder b)"
  using build_methods_signatures [OF assms] assms
  by (simp add: class_events_def class_exports_def class_from_builder_def method_entries_def property_from_builder_def Let_def
      comp_def case_prod_beta)

lemma enum_events_exports: "exports (enum_events php83 b) = enum_exports (enum_from_builder b)"
  by (simp add: enum_events_def enum_exports_def enum_from_builder_def enum_case_from_def backing_text_def discriminant_text_def [abs_def]
      comp_def)

text \<open>What a module registers and what it describes.\<close>

lemma module_functions_described:
  assumes "module_try_from php83 b = Inr (entry, startup)"
  shows "map entry_signature (butlast (me_functions entry)) =
    map (\<lambda>f. described_signature (f_name f) (f_params f)) (map function_from_builder (mb_functions b))"
    and "last (me_functions entry) = function_entry_end"
    and "startup = \<lparr>ms_constants = map fst (mb_constants b), ms_classes = mb_classes b, ms_interfaces = mb_interfaces b, ms_enums = mb_enums b\<rparr>"
proof -
  obtain es where es: "me_functions entry = es @ [function_entry_end]" "map (fb_build php83) (mb_functions b) = map Inr es"
    using assms by (auto simp: module_try_from_def result_collect_Inr_iff split: sum.splits option.splits)
  have "map (\<lambda>x. case fb_build php83 x of Inl e \<Rightarrow> Inl e | Inr fe \<Rightarrow> Inr (fe\<lparr>fe_flags := fe_flags fe\<rparr>)) (mb_functions b) =
      map (fb_build php83) (mb_functions b)"
    by (auto split: sum.splits)
  then have "map entry_signature es =
      map (\<lambda>x. described_signature (fb_name x) (map parameter_from_arg (fb_args x))) (mb_functions b)"
    using es(2) built_signatures [where b = "\<lambda>x. x" and fl = "\<lambda>_. fe_flags" and xs = "mb_functions b" and es = es] by simp
  then show "map entry_signature (butlast (me_functions entry)) =
      map (\<lambda>f. described_signature (f_name f) (f_params f)) (map function_from_builder (mb_functions b))"
    "last (me_functions entry) = function_entry_end"
    by (simp_all add: es(1) function_from_builder_def comp_def)
  show "startup = \<lparr>ms_constants = map fst (mb_constants b), ms_classes = mb_classes b, ms_interfaces = mb_interfaces b, ms_enums = mb_enums b\<rparr>"
    using assms by (auto simp: module_try_from_def split: sum.splits option.splits)
qed

lemma module_startup_exports:
  assumes "module_try_from php83 b = Inr (entry, startup)" and "module_startup php83 observer env mod_num startup log0 = RegOk log"
  shows "exports log = exports log0 @
    described_exports (map constant_from (mb_constants b)) (map class_from_builder (mb_interfaces b @ mb_classes b))
      (map enum_from_builder (mb_enums b))"
proof -
  note m = module_functions_described(3) [OF assms(1)] and log = module_startup_Ok [OF assms(2)]
  have classes: "concat (map (\<lambda>c. exports (class_events php83 c)) cs) = concat (map class_exports (map class_from_builder cs))"
    if "set cs \<subseteq> set (mb_interfaces b @ mb_classes b)" for cs
  proof -
    have "exports (class_events php83 c) = class_exports (class_from_builder c)" if "c \<in> set cs" for c
      using log(2) that \<open>set cs \<subseteq> _\<close> class_events_exports by (fastforce simp: m)
    then show ?thesis by (simp add: comp_def cong: map_cong)
  qed
  show ?thesis
    using classes [of "mb_interfaces b"] classes [of "mb_classes b"]
    by (simp add: log(1) m described_exports_def enum_events_exports constant_from_def comp_def case_prod_beta map_filter_simps)
qed

text \<open>A module with an interface that has a method, and an enum.\<close>

definition demo_env :: reg_env where
  "demo_env = \<lparr>re_class_made = (\<lambda>_. True), re_is_interface = (\<lambda>_. True), re_default = (\<lambda>_. None), re_class_constant = (\<lambda>_. None),
     re_enum_value = (\<lambda>_. None), re_constant = (\<lambda>_. None)\<rparr>"

definition demo_interface :: "unit class_builder" where
  "demo_interface = cb_registration (cb_set_flags ZEND_ACC_INTERFACE (cb_method (fb_new_abstract ''run'') ZEND_ACC_PUBLIC (cb_new ''I'')))"

definition demo_module :: "unit module_builder" where
  "demo_module = (mb_new ''m'' ''1'')\<lparr>
     mb_interfaces := [demo_interface],
     mb_enums := [eb_registration ((eb_new ''E'')\<lparr>eb_cases := [\<lparr>cs_name = ''A'', cs_discriminant = None, cs_docs = []\<rparr>]\<rparr>)]\<rparr>"

lemma demo_interface_registered: "\<exists>log'. class_register True demo_env demo_interface log = RegOk log'"
  by (simp add: demo_interface_def demo_env_def class_register_def build_methods_def cb_registration_def cb_set_flags_def cb_method_def
      cb_new_def fb_new_abstract_def fb_with_def fb_build_def cstring_new_def u32_try_into_def emit_def Let_def zend_consts flags_contain_def)

end
