(* ===== verification/Observers.thy ===== *)
theory Observers
  imports Register Zval
begin

text \<open>
  \<open>src/zend/observer.rs\<close>, \<open>src/zend/error_observer.rs\<close>, \<open>src/zend/exception_observer.rs\<close> and
  \<open>src/zend/zend_extension.rs\<close>: observers an extension registers while it is built and the engine calls once
  it has started. The statics behind \<open>OnceLock\<close> and the parts of the engine they are registered with are one
  record; the calls that reach an observer are a log, and an instance is known by the number of the factory call
  that made it. A chain of call frames, or of exception hooks, may have no end, so the walks over them are
  partial functions.
\<close>

unbundle bit_operations_syntax

section \<open>Functions and call frames of the engine\<close>

text \<open>A pointer to a string is \<open>None\<close> when null; a scope is null, or a class entry whose name may be null. The
  last two fields are the op array of a user function.\<close>

record zend_func =
  zf_type :: u8
  zf_function_name :: "string option"
  zf_scope :: "string option option"
  zf_filename :: "string option"
  zf_line_start :: u32

text \<open>\<open>fr_opline_lineno\<close> is the line the op line points to, when it is not null.\<close>

record call_frame =
  fr_func :: "zend_func option"
  fr_opline :: u64
  fr_opline_lineno :: u32
  fr_prev :: nat

definition zend_string_to_str :: "string option \<Rightarrow> string option" where
  "zend_string_to_str zs = (case zs of None \<Rightarrow> None | Some bytes \<Rightarrow> if utf8_valid bytes then Some bytes else None)"

record fcall_info =
  fi_function_name :: "string option"
  fi_class_name :: "string option"
  fi_filename :: "string option"
  fi_lineno :: u32
  fi_is_internal :: bool

definition fcall_info_empty :: fcall_info where
  "fcall_info_empty = \<lparr>fi_function_name = None, fi_class_name = None, fi_filename = None, fi_lineno = 0, fi_is_internal = False\<rparr>"

definition is_internal :: "zend_func \<Rightarrow> bool" where
  "is_internal f \<longleftrightarrow> zf_type f = ucast ZEND_INTERNAL_FUNCTION"

definition scope_name :: "zend_func \<Rightarrow> string option" where
  "scope_name f = (case zf_scope f of None \<Rightarrow> None | Some None \<Rightarrow> None | Some (Some n) \<Rightarrow> zend_string_to_str (Some n))"

definition fcall_info_from :: "call_frame option \<Rightarrow> fcall_info" where
  "fcall_info_from execute_data =
     (case execute_data of
        None \<Rightarrow> fcall_info_empty
      | Some ex \<Rightarrow>
          (case fr_func ex of
             None \<Rightarrow> fcall_info_empty
           | Some func \<Rightarrow>
               \<lparr>fi_function_name = zend_string_to_str (zf_function_name func), fi_class_name = scope_name func,
                fi_filename = (if is_internal func then None else zend_string_to_str (zf_filename func)),
                fi_lineno = (if is_internal func then 0 else zf_line_start func), fi_is_internal = is_internal func\<rparr>))"

record backtrace_frame =
  bf_function :: "string option"
  bf_class :: "string option"
  bf_file :: "string option"
  bf_line :: u32

text \<open>The line of an internal function is the address of its op line, cut to 32 bits.\<close>

definition backtrace_frame_from :: "call_frame option \<Rightarrow> backtrace_frame option" where
  "backtrace_frame_from execute_data =
     (case execute_data of
        None \<Rightarrow> None
      | Some ex \<Rightarrow>
          (case fr_func ex of
             None \<Rightarrow> Some \<lparr>bf_function = None, bf_class = None, bf_file = None, bf_line = 0\<rparr>
           | Some func \<Rightarrow>
               Some \<lparr>bf_function = zend_string_to_str (zf_function_name func), bf_class = scope_name func,
                 bf_file = (if is_internal func then None else zend_string_to_str (zf_filename func)),
                 bf_line = (if is_internal func then ucast (fr_opline ex)
                            else if fr_opline ex = 0 then zf_line_start func else fr_opline_lineno ex)\<rparr>))"

text \<open>Frames live at addresses; zero is the null pointer. \<open>None\<close>: the walk does not end, or meets an address with no
  frame.\<close>

partial_function (option) collect_frames ::
    "(nat \<rightharpoonup> call_frame) \<Rightarrow> nat \<Rightarrow> backtrace_frame list \<Rightarrow> backtrace_frame list option" where
  "collect_frames heap execute_data frames =
     (if execute_data = 0 then Some frames
      else case heap execute_data of
             None \<Rightarrow> None
           | Some ex \<Rightarrow>
               collect_frames heap (fr_prev ex)
                 (case backtrace_frame_from (Some ex) of Some frame \<Rightarrow> frames @ [frame] | None \<Rightarrow> frames))"

text \<open>The outer option is the walk, the inner one the result; the globals may be a null pointer.\<close>

definition backtrace :: "(nat \<rightharpoonup> call_frame) \<Rightarrow> nat option \<Rightarrow> backtrace_frame list option option" where
  "backtrace heap eg =
     (case eg of
        None \<Rightarrow> Some None
      | Some current_execute_data \<Rightarrow>
          map_option (\<lambda>frames. if frames = [] then None else Some frames) (collect_frames heap current_execute_data []))"

text \<open>The frames at addresses \<open>ps\<close>, each linked to the next and the last to null.\<close>

fun frame_list :: "(nat \<rightharpoonup> call_frame) \<Rightarrow> nat \<Rightarrow> nat list \<Rightarrow> bool" where
  "frame_list heap p [] \<longleftrightarrow> p = 0"
| "frame_list heap p (q # qs) \<longleftrightarrow> p = q \<and> p \<noteq> 0 \<and> (\<exists>ex. heap p = Some ex \<and> frame_list heap (fr_prev ex) qs)"

section \<open>Errors and exceptions\<close>

definition ERROR_TYPE_BITS :: u32 where
  "ERROR_TYPE_BITS = 0x7FFF"

definition error_type_from_bits_truncate :: "u32 \<Rightarrow> u32" where
  "error_type_from_bits_truncate bits = bits AND ERROR_TYPE_BITS"

definition ERROR_TYPE_FATAL :: u32 where
  "ERROR_TYPE_FATAL = 0x1155"

record error_info =
  er_type :: u32
  er_filename :: "string option"
  er_lineno :: u32
  er_message :: string

record exception_info =
  xi_class_name :: string
  xi_message :: "string option"
  xi_code :: int
  xi_file :: "string option"
  xi_line :: u32

text \<open>An exception object: its class (null, or an entry whose name may be null) and what the engine reads for each
  property. \<open>str_at\<close> is the string a zval points to.\<close>

record exc_object =
  eo_ce :: "string option option"
  eo_prop :: "string \<Rightarrow> zval option"

definition read_exception_property :: "(u64 \<Rightarrow> string option) \<Rightarrow> exc_object \<Rightarrow> string \<Rightarrow> string option" where
  "read_exception_property str_at exception n =
     (case eo_ce exception of
        None \<Rightarrow> None
      | Some _ \<Rightarrow>
          (case cstring_new n of
             None \<Rightarrow> None
           | Some name_cstr \<Rightarrow>
               (case eo_prop exception name_cstr of
                  None \<Rightarrow> None
                | Some prop \<Rightarrow>
                    if zv_type_info prop AND 0xFF = IS_STRING then zend_string_to_str (str_at (zv_value prop)) else None)))"

definition read_exception_property_long :: "exc_object \<Rightarrow> string \<Rightarrow> int" where
  "read_exception_property_long exception n =
     (case eo_ce exception of
        None \<Rightarrow> 0
      | Some _ \<Rightarrow>
          (case cstring_new n of
             None \<Rightarrow> 0
           | Some name_cstr \<Rightarrow>
               (case eo_prop exception name_cstr of
                  None \<Rightarrow> 0
                | Some prop \<Rightarrow> if zv_type_info prop AND 0xFF = IS_LONG then sint (zv_value prop) else 0)))"

definition exception_info_from :: "(u64 \<Rightarrow> string option) \<Rightarrow> exc_object option \<Rightarrow> exception_info option" where
  "exception_info_from str_at exception =
     (case exception of
        None \<Rightarrow> None
      | Some ex \<Rightarrow>
          let line = read_exception_property_long ex ''line''
          in Some \<lparr>xi_class_name = (case eo_ce ex of
                     None \<Rightarrow> ''Unknown''
                   | Some ce_name \<Rightarrow> (case zend_string_to_str ce_name of None \<Rightarrow> ''Unknown'' | Some n \<Rightarrow> n)),
                   xi_message = read_exception_property str_at ex ''message'',
                   xi_code = read_exception_property_long ex ''code'',
                   xi_file = read_exception_property str_at ex ''file'',
                   xi_line = (if 0 \<le> line \<and> line < 2 ^ 32 then word_of_int line else 0)\<rparr>)"

section \<open>The statics and the engine's registrations\<close>

datatype hook = ObserverCallback | OtherHook nat

record ext_config =
  cfg_hook_op_array :: bool
  cfg_hook_statements :: bool
  cfg_hook_fcalls :: bool

text \<open>The optional callbacks of a \<open>zend_extension\<close>; the others are always set.\<close>

record zend_ext =
  zx_name :: string
  zx_version :: string
  zx_op_array_handler :: bool
  zx_statement_handler :: bool
  zx_fcall_begin_handler :: bool
  zx_fcall_end_handler :: bool

text \<open>What an instance sees. Frames and op arrays are addresses; the first number is the instance.\<close>

datatype obs_event =
    FcallBegin nat nat
  | FcallEnd nat nat "zval option"
  | OnError nat error_info
  | OnException nat exception_info
  | HookCalled nat
  | OnOpArrayCompiled nat nat
  | OnStatement nat nat
  | OnFcallBegin nat nat
  | OnFcallEnd nat nat
  | OnOpArrayCtor nat nat
  | OnOpArrayDtor nat nat
  | OnMessage nat int nat
  | OnActivate nat
  | OnDeactivate nat

text \<open>A factory is given by the \<open>should_observe\<close> of what it makes. \<open>ob_made\<close> counts the factory calls.\<close>

record obs =
  ob_factory :: "(fcall_info \<Rightarrow> bool) option"
  ob_instance :: "(nat \<times> (fcall_info \<Rightarrow> bool)) option"
  ob_fcall_registered :: nat
  ob_error_factory :: "(u32 \<Rightarrow> bool) option"
  ob_error_instance :: "(nat \<times> (u32 \<Rightarrow> bool)) option"
  ob_error_registered :: nat
  ob_exception_factory :: "unit option"
  ob_exception_instance :: "nat option"
  ob_previous_hook :: "hook option option"
  ob_throw_hook :: "hook option"
  ob_ext_config :: "ext_config option"
  ob_ext_instance :: "nat option"
  ob_ext_name :: "string option"
  ob_ext_version :: "string option"
  ob_extensions :: "zend_ext list"
  ob_compiler_options :: u32
  ob_made :: nat
  ob_log :: "obs_event list"

text \<open>A process in which nothing is registered; \<open>hk\<close> is the exception hook in force, \<open>opts\<close> the compiler options.\<close>

definition obs_init :: "nat option \<Rightarrow> u32 \<Rightarrow> obs" where
  "obs_init hk opts = \<lparr>ob_factory = None, ob_instance = None, ob_fcall_registered = 0, ob_error_factory = None,
     ob_error_instance = None, ob_error_registered = 0, ob_exception_factory = None, ob_exception_instance = None,
     ob_previous_hook = None, ob_throw_hook = map_option OtherHook hk, ob_ext_config = None, ob_ext_instance = None, ob_ext_name = None,
     ob_ext_version = None, ob_extensions = [], ob_compiler_options = opts, ob_made = 0, ob_log = []\<rparr>"

text \<open>\<open>OnceLock::set\<close>: whether the cell was empty.\<close>

definition once_set :: "'a option \<Rightarrow> 'a \<Rightarrow> 'a option \<times> bool" where
  "once_set cell v = (case cell of None \<Rightarrow> (Some v, True) | Some w \<Rightarrow> (Some w, False))"

definition call_factory :: "obs \<Rightarrow> nat \<times> obs" where
  "call_factory s = (ob_made s, s\<lparr>ob_made := ob_made s + 1\<rparr>)"

definition obs_log :: "obs_event \<Rightarrow> obs \<Rightarrow> obs" where
  "obs_log ev s = s\<lparr>ob_log := ob_log s @ [ev]\<rparr>"

section \<open>Function calls\<close>

text \<open>\<open>None\<close> is the panic of the assertion.\<close>

definition register_fcall_observer_factory :: "(fcall_info \<Rightarrow> bool) \<Rightarrow> obs \<Rightarrow> obs option" where
  "register_fcall_observer_factory factory s =
     (case once_set (ob_factory s) factory of (cell, ok) \<Rightarrow> if ok then Some (s\<lparr>ob_factory := cell\<rparr>) else None)"

definition observer_startup :: "obs \<Rightarrow> obs" where
  "observer_startup s =
     (case ob_factory s of
        None \<Rightarrow> s
      | Some factory \<Rightarrow>
          (case call_factory s of (n, s) \<Rightarrow>
             (case once_set (ob_instance s) (n, factory) of (cell, ok) \<Rightarrow>
                if ok then s\<lparr>ob_instance := cell, ob_fcall_registered := ob_fcall_registered s + 1\<rparr> else s)))"

text \<open>Whether the begin and the end handler are set.\<close>

definition observer_fcall_init :: "obs \<Rightarrow> call_frame option \<Rightarrow> bool \<times> bool" where
  "observer_fcall_init s execute_data =
     (case ob_instance s of
        None \<Rightarrow> (False, False)
      | Some (n, should_observe) \<Rightarrow> if should_observe (fcall_info_from execute_data) then (True, True) else (False, False))"

definition observer_begin :: "nat \<Rightarrow> obs \<Rightarrow> obs" where
  "observer_begin execute_data s =
     (case ob_instance s of Some (n, _) \<Rightarrow> if execute_data \<noteq> 0 then obs_log (FcallBegin n execute_data) s else s | None \<Rightarrow> s)"

definition observer_end :: "nat \<Rightarrow> zval option \<Rightarrow> obs \<Rightarrow> obs" where
  "observer_end execute_data retval s =
     (case ob_instance s of Some (n, _) \<Rightarrow> if execute_data \<noteq> 0 then obs_log (FcallEnd n execute_data retval) s else s | None \<Rightarrow> s)"

section \<open>Errors\<close>

definition register_error_observer_factory :: "(u32 \<Rightarrow> bool) \<Rightarrow> obs \<Rightarrow> obs option" where
  "register_error_observer_factory factory s =
     (case once_set (ob_error_factory s) factory of (cell, ok) \<Rightarrow> if ok then Some (s\<lparr>ob_error_factory := cell\<rparr>) else None)"

definition error_observer_startup :: "obs \<Rightarrow> obs" where
  "error_observer_startup s =
     (case ob_error_factory s of
        None \<Rightarrow> s
      | Some factory \<Rightarrow>
          (case call_factory s of (n, s) \<Rightarrow>
             (case once_set (ob_error_instance s) (n, factory) of (cell, ok) \<Rightarrow>
                if ok then s\<lparr>ob_error_instance := cell, ob_error_registered := ob_error_registered s + 1\<rparr> else s)))"

definition error_observer_callback :: "u32 \<Rightarrow> string option \<Rightarrow> u32 \<Rightarrow> string option \<Rightarrow> obs \<Rightarrow> obs" where
  "error_observer_callback error_type error_filename error_lineno message s =
     (case ob_error_instance s of
        None \<Rightarrow> s
      | Some (n, should_observe) \<Rightarrow>
          let error_type = error_type_from_bits_truncate error_type
          in if \<not> should_observe error_type then s
             else obs_log (OnError n \<lparr>er_type = error_type, er_filename = zend_string_to_str error_filename, er_lineno = error_lineno,
                    er_message = (case zend_string_to_str message of None \<Rightarrow> [] | Some m \<Rightarrow> m)\<rparr>) s)"

section \<open>Exceptions\<close>

definition register_exception_observer_factory :: "obs \<Rightarrow> obs option" where
  "register_exception_observer_factory s =
     (case once_set (ob_exception_factory s) () of (cell, ok) \<Rightarrow> if ok then Some (s\<lparr>ob_exception_factory := cell\<rparr>) else None)"

definition exception_observer_startup :: "obs \<Rightarrow> obs" where
  "exception_observer_startup s =
     (case ob_exception_factory s of
        None \<Rightarrow> s
      | Some factory \<Rightarrow>
          (case call_factory s of (n, s) \<Rightarrow>
             (case once_set (ob_exception_instance s) n of (cell, ok) \<Rightarrow>
                if ok then s\<lparr>ob_exception_instance := cell, ob_previous_hook := fst (once_set (ob_previous_hook s) (ob_throw_hook s)),
                            ob_throw_hook := Some ObserverCallback\<rparr>
                else s)))"

text \<open>Calling a hook; a hook of another extension is only recorded. \<open>None\<close>: the call does not return.\<close>

partial_function (option) exception_observer_callback ::
    "(u64 \<Rightarrow> string option) \<Rightarrow> hook \<Rightarrow> exc_object option \<Rightarrow> obs \<Rightarrow> obs option" where
  "exception_observer_callback str_at hk exception s =
     (case hk of
        OtherHook n \<Rightarrow> Some (obs_log (HookCalled n) s)
      | ObserverCallback \<Rightarrow>
          (case ob_previous_hook s of
             Some (Some prev) \<Rightarrow>
               exception_observer_callback str_at prev exception
                 (case (ob_exception_instance s, exception_info_from str_at exception) of
                    (Some n, Some info) \<Rightarrow> obs_log (OnException n info) s
                  | _ \<Rightarrow> s)
           | _ \<Rightarrow>
               Some (case (ob_exception_instance s, exception_info_from str_at exception) of
                       (Some n, Some info) \<Rightarrow> obs_log (OnException n info) s
                     | _ \<Rightarrow> s)))"

definition throw_exception :: "(u64 \<Rightarrow> string option) \<Rightarrow> exc_object option \<Rightarrow> obs \<Rightarrow> obs option" where
  "throw_exception str_at exception s =
     (case ob_throw_hook s of None \<Rightarrow> Some s | Some hk \<Rightarrow> exception_observer_callback str_at hk exception s)"

section \<open>Zend extensions\<close>

definition ZEND_COMPILE_EXTENDED_STMT :: u32 where "ZEND_COMPILE_EXTENDED_STMT = 1"
definition ZEND_COMPILE_EXTENDED_FCALL :: u32 where "ZEND_COMPILE_EXTENDED_FCALL = 2"
definition ZEND_COMPILE_HANDLE_OP_ARRAY :: u32 where "ZEND_COMPILE_HANDLE_OP_ARRAY = 4"

definition compile_flags_for :: "ext_config \<Rightarrow> u32" where
  "compile_flags_for cfg =
     (let flags = 0;
          flags = (if cfg_hook_op_array cfg then flags OR ZEND_COMPILE_HANDLE_OP_ARRAY else flags);
          flags = (if cfg_hook_statements cfg then flags OR ZEND_COMPILE_EXTENDED_STMT else flags);
          flags = (if cfg_hook_fcalls cfg then flags OR ZEND_COMPILE_EXTENDED_FCALL else flags)
      in flags)"

definition ext_builder_new :: ext_config where
  "ext_builder_new = \<lparr>cfg_hook_op_array = False, cfg_hook_statements = False, cfg_hook_fcalls = False\<rparr>"

definition hook_op_array_compile :: "ext_config \<Rightarrow> ext_config" where
  "hook_op_array_compile b = b\<lparr>cfg_hook_op_array := True\<rparr>"

definition hook_statements :: "ext_config \<Rightarrow> ext_config" where
  "hook_statements b = b\<lparr>cfg_hook_statements := True\<rparr>"

definition hook_fcalls :: "ext_config \<Rightarrow> ext_config" where
  "hook_fcalls b = b\<lparr>cfg_hook_fcalls := True\<rparr>"

definition register_config :: "ext_config \<Rightarrow> obs \<Rightarrow> obs option" where
  "register_config cfg s =
     (case once_set (ob_ext_config s) cfg of (cell, ok) \<Rightarrow> if ok then Some (s\<lparr>ob_ext_config := cell\<rparr>) else None)"

definition apply_compiler_flags :: "ext_config \<Rightarrow> obs \<Rightarrow> obs" where
  "apply_compiler_flags cfg s =
     (let flags = compile_flags_for cfg
      in if flags \<noteq> 0 then s\<lparr>ob_compiler_options := ob_compiler_options s OR flags\<rparr> else s)"

definition zend_extension_startup :: "string \<Rightarrow> string \<Rightarrow> obs \<Rightarrow> obs option" where
  "zend_extension_startup n v s =
     (case ob_ext_config s of
        None \<Rightarrow> Some s
      | Some cfg \<Rightarrow>
          (case call_factory s of (i, s) \<Rightarrow>
             let s = s\<lparr>ob_ext_instance := fst (once_set (ob_ext_instance s) i)\<rparr>
             in case (cstring_new n, cstring_new v) of
                  (Some cname, Some cversion) \<Rightarrow>
                    let s = s\<lparr>ob_ext_name := fst (once_set (ob_ext_name s) cname),
                              ob_ext_version := fst (once_set (ob_ext_version s) cversion)\<rparr>;
                        ext = \<lparr>zx_name = the (ob_ext_name s), zx_version = the (ob_ext_version s),
                               zx_op_array_handler = cfg_hook_op_array cfg, zx_statement_handler = cfg_hook_statements cfg,
                               zx_fcall_begin_handler = cfg_hook_fcalls cfg, zx_fcall_end_handler = cfg_hook_fcalls cfg\<rparr>
                    in Some (apply_compiler_flags cfg (s\<lparr>ob_extensions := ob_extensions s @ [ext]\<rparr>))
                | _ \<Rightarrow> None))"

text \<open>The dispatchers: an instance is told, unless the pointer it would get is null.\<close>

definition dispatch :: "(nat \<Rightarrow> obs_event) \<Rightarrow> obs \<Rightarrow> obs" where
  "dispatch ev s = (case ob_ext_instance s of Some n \<Rightarrow> obs_log (ev n) s | None \<Rightarrow> s)"

definition dispatch_ptr :: "(nat \<Rightarrow> nat \<Rightarrow> obs_event) \<Rightarrow> nat \<Rightarrow> obs \<Rightarrow> obs" where
  "dispatch_ptr ev p s = (if p = 0 then s else dispatch (\<lambda>n. ev n p) s)"

definition ext_op_array_handler :: "nat \<Rightarrow> obs \<Rightarrow> obs" where "ext_op_array_handler = dispatch_ptr OnOpArrayCompiled"
definition ext_statement_handler :: "nat \<Rightarrow> obs \<Rightarrow> obs" where "ext_statement_handler = dispatch_ptr OnStatement"
definition ext_fcall_begin_handler :: "nat \<Rightarrow> obs \<Rightarrow> obs" where "ext_fcall_begin_handler = dispatch_ptr OnFcallBegin"
definition ext_fcall_end_handler :: "nat \<Rightarrow> obs \<Rightarrow> obs" where "ext_fcall_end_handler = dispatch_ptr OnFcallEnd"
definition ext_op_array_ctor :: "nat \<Rightarrow> obs \<Rightarrow> obs" where "ext_op_array_ctor = dispatch_ptr OnOpArrayCtor"
definition ext_op_array_dtor :: "nat \<Rightarrow> obs \<Rightarrow> obs" where "ext_op_array_dtor = dispatch_ptr OnOpArrayDtor"
definition ext_message_handler :: "int \<Rightarrow> nat \<Rightarrow> obs \<Rightarrow> obs" where "ext_message_handler msg arg = dispatch (\<lambda>n. OnMessage n msg arg)"
definition ext_deactivate :: "obs \<Rightarrow> obs" where "ext_deactivate = dispatch OnDeactivate"

definition ext_activate :: "obs \<Rightarrow> obs" where
  "ext_activate s =
     dispatch OnActivate (case ob_ext_config s of Some cfg \<Rightarrow> apply_compiler_flags cfg s | None \<Rightarrow> s)"

section \<open>Start-up and what may happen to the state\<close>

text \<open>The last part of \<open>ModuleStartup::startup\<close>.\<close>

definition start_observers :: "string \<Rightarrow> string \<Rightarrow> obs \<Rightarrow> obs option" where
  "start_observers n v s =
     zend_extension_startup n v (exception_observer_startup (error_observer_startup (observer_startup s)))"

inductive obs_step :: "obs \<Rightarrow> obs \<Rightarrow> bool" where
  RegisterFcall: "register_fcall_observer_factory f s = Some s' \<Longrightarrow> obs_step s s'"
| RegisterError: "register_error_observer_factory g s = Some s' \<Longrightarrow> obs_step s s'"
| RegisterException: "register_exception_observer_factory s = Some s' \<Longrightarrow> obs_step s s'"
| RegisterExtension: "register_config cfg s = Some s' \<Longrightarrow> obs_step s s'"
| Startup: "start_observers n v s = Some s' \<Longrightarrow> obs_step s s'"
| OtherExtension: "obs_step s (s\<lparr>ob_throw_hook := map_option OtherHook hk\<rparr>)"
| NewRequest: "obs_step s (ext_activate (s\<lparr>ob_compiler_options := opts\<rparr>))"
| Throw: "throw_exception str_at exception s = Some s' \<Longrightarrow> obs_step s s'"
| Error: "obs_step s (error_observer_callback ty file line msg s)"
| Begin: "obs_step s (observer_begin ex s)"
| End: "obs_step s (observer_end ex ret s)"

abbreviation obs_steps :: "obs \<Rightarrow> obs \<Rightarrow> bool" where
  "obs_steps \<equiv> obs_step\<^sup>*\<^sup>*"

section \<open>Walking the frames\<close>

declare collect_frames.simps [code] exception_observer_callback.simps [code]

lemma backtrace_frame_from_Some [simp]: "backtrace_frame_from (Some ex) \<noteq> None"
  by (auto simp: backtrace_frame_from_def split: option.splits)

lemma collect_frames_list:
  "frame_list heap p ps \<Longrightarrow> collect_frames heap p acc = Some (acc @ map (\<lambda>q. the (backtrace_frame_from (heap q))) ps)"
proof (induction ps arbitrary: p acc)
  case Nil
  then show ?case by (simp add: collect_frames.simps)
next
  case (Cons q qs)
  then obtain ex frame where "heap q = Some ex" "q \<noteq> 0" "p = q" "frame_list heap (fr_prev ex) qs"
    "backtrace_frame_from (Some ex) = Some frame"
    using backtrace_frame_from_Some by fastforce
  with Cons.IH show ?case by (subst collect_frames.simps) simp
qed

lemma collect_frames_returns: "collect_frames heap p acc = Some frames \<Longrightarrow> \<exists>ps. frame_list heap p ps"
proof (rule collect_frames.raw_induct [where P = "\<lambda>heap p acc frames. \<exists>ps. frame_list heap p ps"])
  fix collect and heap :: "nat \<rightharpoonup> call_frame" and p acc frames
  assume IH: "\<And>heap p acc frames. collect heap p acc = Some frames \<Longrightarrow> \<exists>ps. frame_list heap p ps"
    and step: "(if p = 0 then Some acc
      else case heap p of
             None \<Rightarrow> None
           | Some ex \<Rightarrow> collect heap (fr_prev ex)
               (case backtrace_frame_from (Some ex) of None \<Rightarrow> acc | Some frame \<Rightarrow> acc @ [frame])) = Some frames"
  show "\<exists>ps. frame_list heap p ps"
  proof (cases "p = 0")
    case True
    then have "frame_list heap p []" by simp
    then show ?thesis ..
  next
    case False
    with step obtain ex where ex: "heap p = Some ex" by (auto split: option.splits)
    with False step IH obtain ps where "frame_list heap (fr_prev ex) ps" by fastforce
    with False ex have "frame_list heap p (p # ps)" by simp
    then show ?thesis ..
  qed
qed

lemma frame_list_unique: "frame_list heap p ps \<Longrightarrow> frame_list heap p qs \<Longrightarrow> ps = qs"
  by (induction ps arbitrary: p qs) (case_tac qs; auto)+

section \<open>The exception hook\<close>

definition exc_inv :: "obs \<Rightarrow> bool" where
  "exc_inv s \<longleftrightarrow> ob_previous_hook s \<noteq> Some (Some ObserverCallback) \<and>
     (ob_exception_instance s = None \<longleftrightarrow> ob_previous_hook s = None) \<and>
     (ob_exception_instance s = None \<longrightarrow> ob_throw_hook s \<noteq> Some ObserverCallback)"

text \<open>The part of the state the invariant is about.\<close>

definition exc_part :: "obs \<Rightarrow> nat option \<times> hook option option \<times> hook option" where
  "exc_part s = (ob_exception_instance s, ob_previous_hook s, ob_throw_hook s)"

lemma exc_inv_part: "exc_part s' = exc_part s \<Longrightarrow> exc_inv s' = exc_inv s"
  by (simp add: exc_part_def exc_inv_def)

lemmas obs_op_defs = once_set_def call_factory_def obs_log_def register_fcall_observer_factory_def observer_startup_def
  observer_begin_def observer_end_def register_error_observer_factory_def error_observer_startup_def error_observer_callback_def
  register_exception_observer_factory_def register_config_def apply_compiler_flags_def zend_extension_startup_def dispatch_def
  ext_activate_def Let_def

lemma exc_part_unchanged [simp]:
  "register_fcall_observer_factory f s = Some s' \<Longrightarrow> exc_part s' = exc_part s"
  "register_error_observer_factory g s = Some s' \<Longrightarrow> exc_part s' = exc_part s"
  "register_exception_observer_factory s = Some s' \<Longrightarrow> exc_part s' = exc_part s"
  "register_config cfg s = Some s' \<Longrightarrow> exc_part s' = exc_part s"
  "exc_part (observer_startup s) = exc_part s"
  "exc_part (error_observer_startup s) = exc_part s"
  "zend_extension_startup n v s = Some s' \<Longrightarrow> exc_part s' = exc_part s"
  "exc_part (ext_activate (s\<lparr>ob_compiler_options := opts\<rparr>)) = exc_part s"
  "exc_part (error_observer_callback ty file line msg s) = exc_part s"
  "exc_part (observer_begin ex s) = exc_part s"
  "exc_part (observer_end ex ret s) = exc_part s"
  "exc_part (obs_log ev s) = exc_part s"
  by (auto simp: exc_part_def obs_op_defs split: option.splits if_splits prod.splits)

lemma exc_inv_startup: "exc_inv s \<Longrightarrow> exc_inv (exception_observer_startup s)"
  by (auto simp: exc_inv_def exception_observer_startup_def call_factory_def once_set_def split: option.splits)

text \<open>A hook called in a state with the invariant returns, and only the log changes.\<close>

definition notify :: "(u64 \<Rightarrow> string option) \<Rightarrow> exc_object option \<Rightarrow> obs \<Rightarrow> obs_event list" where
  "notify str_at exception s =
     (case (ob_exception_instance s, exception_info_from str_at exception) of
        (Some n, Some info) \<Rightarrow> [OnException n info] | _ \<Rightarrow> [])"

definition chained :: "hook option option \<Rightarrow> obs_event list" where
  "chained hk = (case hk of Some (Some (OtherHook n)) \<Rightarrow> [HookCalled n] | _ \<Rightarrow> [])"

lemma callback_returns:
  assumes "exc_inv s"
  shows "exception_observer_callback str_at ObserverCallback exception s =
    Some (s\<lparr>ob_log := ob_log s @ notify str_at exception s @ chained (ob_previous_hook s)\<rparr>)"
  using assms
  by (subst exception_observer_callback.simps)
    (auto simp: exc_inv_def notify_def chained_def obs_log_def exception_observer_callback.simps [of _ "OtherHook _"]
      split: option.splits hook.splits)

lemma throw_returns:
  assumes "exc_inv s"
  shows "throw_exception str_at exception s =
    Some (s\<lparr>ob_log := ob_log s @ (case ob_throw_hook s of
      Some ObserverCallback \<Rightarrow> notify str_at exception s @ chained (ob_previous_hook s) | hk \<Rightarrow> chained (Some hk))\<rparr>)"
  using callback_returns [OF assms]
  by (auto simp: throw_exception_def chained_def obs_log_def exception_observer_callback.simps [of _ "OtherHook _"]
      split: option.splits hook.splits)

lemma exc_inv_step: "obs_step s s' \<Longrightarrow> exc_inv s \<Longrightarrow> exc_inv s'"
proof (induction rule: obs_step.induct)
  case (Startup n v s s')
  let ?s = "error_observer_startup (observer_startup s)"
  have "exc_inv (exception_observer_startup ?s)"
    using Startup.prems exc_inv_part [of ?s s] by (simp add: exc_inv_startup)
  with Startup.hyps exc_inv_part [of s' "exception_observer_startup ?s"] show ?case by (simp add: start_observers_def)
next
  case (OtherExtension s hk)
  then show ?case by (cases hk) (auto simp: exc_inv_def)
next
  case (Throw str_at exception s s')
  with throw_returns [of s str_at exception] show ?case by (auto simp: exc_inv_def)
qed (simp_all cong: exc_inv_part)

text \<open>Once made, the instance and the previous hook stay.\<close>

definition exc_once :: "obs \<Rightarrow> nat option \<times> hook option option" where
  "exc_once s = (ob_exception_instance s, ob_previous_hook s)"

lemma exc_once_part: "exc_part s' = exc_part s \<Longrightarrow> exc_once s' = exc_once s"
  by (simp add: exc_part_def exc_once_def)

lemma exc_once_startup: "ob_exception_instance s \<noteq> None \<Longrightarrow> exc_once (exception_observer_startup s) = exc_once s"
  by (auto simp: exc_once_def exception_observer_startup_def call_factory_def once_set_def split: option.splits)

lemma exc_once_step: "obs_step s s' \<Longrightarrow> exc_inv s \<Longrightarrow> ob_exception_instance s \<noteq> None \<Longrightarrow> exc_once s' = exc_once s"
proof (induction rule: obs_step.induct)
  case (Startup n v s s')
  let ?s = "error_observer_startup (observer_startup s)"
  have same: "exc_once ?s = exc_once s" by (intro exc_once_part) simp
  with Startup.prems have "exc_once (exception_observer_startup ?s) = exc_once ?s"
    by (intro exc_once_startup) (simp add: exc_once_def)
  moreover have "exc_once s' = exc_once (exception_observer_startup ?s)"
    using Startup.hyps by (intro exc_once_part) (simp add: start_observers_def)
  ultimately show ?case using same by simp
next
  case (OtherExtension s hk)
  then show ?case by (simp add: exc_once_def)
next
  case (Throw str_at exception s s')
  with throw_returns [of s str_at exception] show ?case by (auto simp: exc_once_def)
qed (auto intro!: exc_once_part)

lemma exc_inv_steps: "obs_steps s s' \<Longrightarrow> exc_inv s \<Longrightarrow> exc_inv s'"
  by (induction rule: rtranclp_induct) (auto dest: exc_inv_step)

lemma exc_once_steps:
  "obs_steps s s' \<Longrightarrow> exc_inv s \<Longrightarrow> ob_exception_instance s \<noteq> None \<Longrightarrow> exc_once s' = exc_once s"
proof (induction rule: rtranclp_induct)
  case (step t u)
  then have "exc_once t = exc_once s" "exc_inv t" by (auto dest: exc_inv_steps)
  with step show ?case using exc_once_step [of t u] by (simp add: exc_once_def)
qed simp

lemma exc_inv_init: "exc_inv (obs_init hk opts)"
  by (cases hk) (auto simp: exc_inv_def obs_init_def)

lemma exception_factory_unchanged [simp]:
  "ob_exception_factory (observer_startup s) = ob_exception_factory s"
  "ob_exception_factory (error_observer_startup s) = ob_exception_factory s"
  by (simp_all add: observer_startup_def error_observer_startup_def call_factory_def once_set_def split: option.splits)

lemma start_observers_exception:
  assumes "exc_inv s" and "ob_exception_factory s = Some ()" and "ob_exception_instance s = None" and "start_observers n v s = Some s'"
  shows "exc_once s' = (ob_exception_instance s', Some (ob_throw_hook s))" and "ob_exception_instance s' \<noteq> None"
proof -
  let ?s = "error_observer_startup (observer_startup s)"
  have same: "exc_part ?s = exc_part s" "ob_exception_factory ?s = ob_exception_factory s" by simp_all
  with assms(1-3) have "exc_once (exception_observer_startup ?s) = (ob_exception_instance (exception_observer_startup ?s), Some (ob_throw_hook s))"
    "ob_exception_instance (exception_observer_startup ?s) \<noteq> None"
    by (auto simp: exc_once_def exception_observer_startup_def call_factory_def once_set_def exc_part_def exc_inv_def split: option.splits)
  moreover have "exc_once s' = exc_once (exception_observer_startup ?s)"
    using assms(4) by (intro exc_once_part) (simp add: start_observers_def)
  ultimately show "exc_once s' = (ob_exception_instance s', Some (ob_throw_hook s))" "ob_exception_instance s' \<noteq> None"
    by (auto simp: exc_once_def)
qed

section \<open>Properties\<close>

text \<open>C30. The walk over the call frames returns exactly when the chain of frames is finite, and then gives one entry for
  each frame, the innermost first; it gives none exactly when there is no frame.\<close>

theorem backtrace_complete:
  "backtrace heap (Some p) = Some r \<longleftrightarrow>
     (\<exists>ps. frame_list heap p ps \<and> r = (if ps = [] then None else Some (map (\<lambda>q. the (backtrace_frame_from (heap q))) ps)))"
proof
  assume returns: "backtrace heap (Some p) = Some r"
  then obtain frames where "collect_frames heap p [] = Some frames" by (auto simp: backtrace_def)
  then obtain ps where "frame_list heap p ps" using collect_frames_returns by blast
  moreover from returns collect_frames_list [OF this, of "[]"]
  have "r = (if ps = [] then None else Some (map (\<lambda>q. the (backtrace_frame_from (heap q))) ps))"
    by (simp add: backtrace_def split: if_splits)
  ultimately show "\<exists>ps. frame_list heap p ps \<and> r = (if ps = [] then None else Some (map (\<lambda>q. the (backtrace_frame_from (heap q))) ps))"
    by blast
next
  assume "\<exists>ps. frame_list heap p ps \<and> r = (if ps = [] then None else Some (map (\<lambda>q. the (backtrace_frame_from (heap q))) ps))"
  then obtain ps where ps: "frame_list heap p ps" "r = (if ps = [] then None else Some (map (\<lambda>q. the (backtrace_frame_from (heap q))) ps))"
    by blast
  then show "backtrace heap (Some p) = Some r" using collect_frames_list [OF ps(1), of "[]"] by (simp add: backtrace_def)
qed

text \<open>C29. Once the exception observer has been started, and whatever is registered, started, thrown or hooked later: as
  long as the engine's hook is the observer's, throwing an exception returns, tells the one
  instance made at start-up once, and then calls the hook that was in force before, once.\<close>

theorem throw_notifies_and_chains:
  assumes "obs_steps (obs_init hk opts) s" and "ob_exception_factory s = Some ()" and "ob_exception_instance s = None"
    and "start_observers n v s = Some s1" and "obs_steps s1 s2" and "ob_throw_hook s2 = Some ObserverCallback"
  shows "\<exists>i. ob_exception_instance s1 = Some i \<and>
    throw_exception str_at (Some exc) s2 =
      Some (s2\<lparr>ob_log := ob_log s2 @ [OnException i (the (exception_info_from str_at (Some exc)))] @
        (case ob_throw_hook s of Some (OtherHook k) \<Rightarrow> [HookCalled k] | _ \<Rightarrow> [])\<rparr>)"
proof -
  have inv: "exc_inv s" "exc_inv s1" "exc_inv s2"
    using assms exc_inv_init exc_inv_steps obs_step.Startup exc_inv_step by metis+
  have "exc_once s2 = exc_once s1"
    using exc_once_steps [OF assms(5) inv(2)] start_observers_exception [OF inv(1) assms(2-4)] by simp
  with start_observers_exception [OF inv(1) assms(2-4)] obtain i where
    "ob_exception_instance s1 = Some i" "ob_exception_instance s2 = Some i" "ob_previous_hook s2 = Some (ob_throw_hook s)"
    by (auto simp: exc_once_def)
  then show ?thesis
    using throw_returns [OF inv(3), of str_at "Some exc"] assms(6)
    by (auto simp: notify_def chained_def exception_info_from_def Let_def split: option.splits hook.splits)
qed

text \<open>One other extension has hook 7; an exception without a class is thrown.\<close>

theorem throw_notifies_and_chains_witness:
  "let s = (obs_init (Some 7) 0)\<lparr>ob_exception_factory := Some ()\<rparr>;
       exc = \<lparr>eo_ce = None, eo_prop = (\<lambda>_. None)\<rparr>
   in \<exists>s1 s2. start_observers ''m'' ''1'' s = Some s1 \<and> throw_exception (\<lambda>_. None) (Some exc) s1 = Some s2 \<and>
     ob_log s2 = [OnException 0 \<lparr>xi_class_name = ''Unknown'', xi_message = None, xi_code = 0, xi_file = None, xi_line = 0\<rparr>, HookCalled 7]"
proof -
  define s where "s = (obs_init (Some 7) 0)\<lparr>ob_exception_factory := Some ()\<rparr>"
  define s1 where "s1 = exception_observer_startup s"
  let ?exc = "\<lparr>eo_ce = None, eo_prop = (\<lambda>_. None)\<rparr>"
  have "obs_step (obs_init (Some 7) 0) s"
    by (rule RegisterException) (simp add: s_def register_exception_observer_factory_def once_set_def obs_init_def)
  then have reach: "obs_steps (obs_init (Some 7) 0) s" by simp
  have start: "start_observers ''m'' ''1'' s = Some s1"
    by (simp add: start_observers_def s1_def s_def obs_init_def obs_op_defs exception_observer_startup_def)
  have fields: "ob_exception_factory s = Some ()" "ob_exception_instance s = None" "ob_throw_hook s = Some (OtherHook 7)"
    "ob_throw_hook s1 = Some ObserverCallback" "ob_log s1 = []" "ob_exception_instance s1 = Some 0"
    by (simp_all add: s1_def s_def obs_init_def exception_observer_startup_def call_factory_def once_set_def)
  from throw_notifies_and_chains [OF reach fields(1,2) start rtranclp.rtrancl_refl fields(4), of "\<lambda>_. None" ?exc] fields
  have "throw_exception (\<lambda>_. None) (Some ?exc) s1 = Some (s1\<lparr>ob_log := [OnException 0 (the (exception_info_from (\<lambda>_. None) (Some ?exc))), HookCalled 7]\<rparr>)"
    by simp
  with start show ?thesis
    by (auto simp: s_def [symmetric] exception_info_from_def read_exception_property_def read_exception_property_long_def)
qed

text \<open>A started Zend extension is registered with exactly the hooks that were asked for, and in every later request the
  compiler emits the op codes of each: an option bit is set when the hook is registered, and otherwise
  left as it was.\<close>

theorem extension_hooks_compiled:
  assumes "ob_ext_config s = Some cfg" and "zend_extension_startup n v s = Some s'"
  shows "\<exists>ext. ob_extensions s' = ob_extensions s @ [ext] \<and>
    zx_op_array_handler ext = cfg_hook_op_array cfg \<and> zx_statement_handler ext = cfg_hook_statements cfg \<and>
    zx_fcall_begin_handler ext = cfg_hook_fcalls cfg \<and> zx_fcall_end_handler ext = cfg_hook_fcalls cfg \<and>
    (\<forall>opts k. bit (ob_compiler_options (ext_activate (s'\<lparr>ob_compiler_options := opts\<rparr>))) k \<longleftrightarrow>
       bit opts k \<or> k = 0 \<and> zx_statement_handler ext \<or> k = 1 \<and> zx_fcall_begin_handler ext \<or> k = 2 \<and> zx_op_array_handler ext)"
proof -
  have flags: "bit (compile_flags_for cfg) k \<longleftrightarrow>
      k = 0 \<and> cfg_hook_statements cfg \<or> k = 1 \<and> cfg_hook_fcalls cfg \<or> k = 2 \<and> cfg_hook_op_array cfg" for k
    by (auto simp: compile_flags_for_def Let_def ZEND_COMPILE_EXTENDED_STMT_def ZEND_COMPILE_EXTENDED_FCALL_def
        ZEND_COMPILE_HANDLE_OP_ARRAY_def bit_or_iff bit_1_iff bit_numeral_rec split: nat.splits)
  have "ob_ext_config s' = Some cfg"
    using assms by (auto simp: obs_op_defs split: option.splits if_splits)
  then have "bit (ob_compiler_options (ext_activate (s'\<lparr>ob_compiler_options := opts\<rparr>))) k \<longleftrightarrow>
      bit opts k \<or> bit (compile_flags_for cfg) k" for opts k
    by (auto simp: ext_activate_def apply_compiler_flags_def Let_def dispatch_def obs_log_def bit_or_iff split: option.splits)
  then show ?thesis
    using assms flags by (auto simp: obs_op_defs split: option.splits)
qed

theorem extension_hooks_compiled_witness:
  "let s = (obs_init None 8)\<lparr>ob_ext_config := Some (hook_statements ext_builder_new)\<rparr>
   in \<exists>s'. zend_extension_startup ''m'' ''1'' s = Some s' \<and>
     bit (ob_compiler_options (ext_activate (s'\<lparr>ob_compiler_options := 0\<rparr>))) 0"
proof -
  define s where "s = (obs_init None 8)\<lparr>ob_ext_config := Some (hook_statements ext_builder_new)\<rparr>"
  have "ob_ext_config s = Some (hook_statements ext_builder_new)" by (simp add: s_def)
  moreover have "\<exists>s'. zend_extension_startup ''m'' ''1'' s = Some s'"
    by (simp add: zend_extension_startup_def s_def call_factory_def cstring_new_def Let_def)
  ultimately obtain s' where "zend_extension_startup ''m'' ''1'' s = Some s'"
    "bit (ob_compiler_options (ext_activate (s'\<lparr>ob_compiler_options := 0\<rparr>))) 0"
    using extension_hooks_compiled [of s "hook_statements ext_builder_new" "''m''" "''1''"]
    by (auto simp: hook_statements_def)
  then show ?thesis by (auto simp: s_def)
qed

end
