(* ===== verification/ModuleLife.thy ===== *)
theory ModuleLife
  imports Register "HOL-Library.Multiset"
begin

text \<open>
  \<open>src/zend/module.rs\<close> and \<open>crates/macros/src/module.rs\<close>: the life of a module entry, from \<open>get_module\<close> through the startup
  function the macro generates to the shutdown function that frees what the builders allocated. A heap
  allocation is named by the place that owns it: a function of the entry by its index, an argument by its
  index in the argument information (0 is the return value). Freeing is a log of such names; \<open>None\<close> is an access
  outside an array.
\<close>

unbundle bit_operations_syntax

type_synonym i32 = "32 word"

section \<open>Allocations\<close>

datatype alloc =
    AName | AVersion | AFunctions nat
  | AFname nat | AArgInfo nat nat | AArgName nat nat | ADefault nat nat | ATypeName nat nat

text \<open>What \<open>into_raw\<close> is called on while an argument, a function and a module are built.\<close>

definition type_alloc :: "nat \<Rightarrow> nat \<Rightarrow> data_type \<Rightarrow> alloc list" where
  "type_alloc i j ty = (case ty of DtObject (Some _) \<Rightarrow> [ATypeName i j] | _ \<Rightarrow> [])"

definition arg_allocs :: "nat \<Rightarrow> nat \<Rightarrow> 'z arg \<Rightarrow> alloc list" where
  "arg_allocs i j a = [AArgName i j] @ type_alloc i j (a_type a) @ (if a_default a = None then [] else [ADefault i j])"

definition function_allocs :: "nat \<Rightarrow> 'z function_builder \<Rightarrow> alloc list" where
  "function_allocs i b =
     (case fb_retval b of Some r \<Rightarrow> type_alloc i 0 r | None \<Rightarrow> []) @
     concat (map (\<lambda>(j, a). arg_allocs i j a) (enumerate 1 (fb_args b))) @
     [AFname i, AArgInfo i (length (fb_args b) + 1)]"

definition module_allocs :: "'z module_builder \<Rightarrow> alloc list" where
  "module_allocs b =
     concat (map (\<lambda>(i, f). function_allocs i f) (enumerate 0 (mb_functions b))) @
     [AFunctions (length (mb_functions b) + 1), AName, AVersion]"

section \<open>Freeing\<close>

definition zend_type_has_name :: "bool \<Rightarrow> u32 \<Rightarrow> bool" where
  "zend_type_has_name php83 type_mask \<longleftrightarrow>
     type_mask AND (if php83 then ZEND_TYPE_LITERAL_NAME_BIT else ZEND_TYPE_NAME_BIT) \<noteq> 0"

definition free_arg :: "bool \<Rightarrow> nat \<Rightarrow> nat \<Rightarrow> arg_info \<Rightarrow> alloc list" where
  "free_arg php83 i j arg =
     (if 0 < j then [AArgName i j] else []) @
     (if ai_default arg \<noteq> None then [ADefault i j] else []) @
     (if zt_ptr (ai_type arg) \<noteq> None \<and> zend_type_has_name php83 (zt_mask (ai_type arg)) then [ATypeName i j] else [])"

text \<open>\<open>for i in 0..=n\<close>, from index \<open>j\<close>; \<open>infos\<close> is the array behind the pointer, empty when it is null.\<close>

fun free_args :: "bool \<Rightarrow> nat \<Rightarrow> arg_info list \<Rightarrow> nat \<Rightarrow> nat \<Rightarrow> alloc list option" where
  "free_args php83 i infos j 0 = Some []"
| "free_args php83 i infos j (Suc n) =
     (if j < length infos
      then map_option (\<lambda>fs. free_arg php83 i j (infos ! j) @ fs) (free_args php83 i infos (Suc j) n)
      else None)"

definition free_function :: "bool \<Rightarrow> nat \<Rightarrow> function_entry \<Rightarrow> alloc list option" where
  "free_function php83 i func =
     (if fe_arg_info func = [] then Some [AFname i]
      else map_option (\<lambda>fs. AFname i # fs @ [AArgInfo i (fe_num_args func + 1)])
             (free_args php83 i (fe_arg_info func) 0 (fe_num_args func + 1)))"

text \<open>The loop over the entries up to the one without a name, counting them.\<close>

fun free_functions :: "bool \<Rightarrow> function_entry list \<Rightarrow> nat \<Rightarrow> (alloc list \<times> nat) option" where
  "free_functions php83 [] i = None"
| "free_functions php83 (func # funcs) i =
     (if fe_fname func = None then Some ([], i)
      else case free_function php83 i func of
             None \<Rightarrow> None
           | Some fs \<Rightarrow> map_option (\<lambda>(gs, n). (fs @ gs, n)) (free_functions php83 funcs (Suc i)))"

text \<open>The pointers of an entry, and whether PHP loaded it as a shared library.\<close>

record live_entry =
  le_name :: "string option"
  le_version :: "string option"
  le_functions :: "function_entry list option"
  le_shared :: bool

definition cleanup_module_allocations :: "bool \<Rightarrow> live_entry \<Rightarrow> (alloc list \<times> live_entry) option" where
  "cleanup_module_allocations php83 entry =
     (let names = (if le_name entry \<noteq> None then [AName] else []) @ (if le_version entry \<noteq> None then [AVersion] else []);
          entry = entry\<lparr>le_name := None, le_version := None\<rparr>
      in case le_functions entry of
           None \<Rightarrow> Some (names, entry)
         | Some funcs \<Rightarrow>
             map_option (\<lambda>(fs, count). (names @ fs @ [AFunctions (count + 1)], entry\<lparr>le_functions := None\<rparr>))
               (free_functions php83 funcs 0))"

section \<open>The functions of the macro\<close>

text \<open>The statics of \<open>get_module\<close>: the entry, the startup data, the user's shutdown function, and what has been freed. The
  last two fields record how often the module was registered and with which log.\<close>

record 'z module_state =
  md_entry :: "live_entry option"
  md_startup :: "'z startup_state option"
  md_user_shutdown :: "nat option option"
  md_freed :: "alloc list"
  md_registrations :: nat
  md_log :: "reg_event list"

definition module_state_init :: "'z module_state" where
  "module_state_init = \<lparr>md_entry = None, md_startup = None, md_user_shutdown = None, md_freed = [], md_registrations = 0, md_log = []\<rparr>"

text \<open>\<open>get_module\<close>; \<open>builder\<close> is what the user's function returns, \<open>startup_fn\<close> the address of the generated startup function.
  \<open>None\<close> is the panic of a module that cannot be built.\<close>

definition get_module :: "bool \<Rightarrow> nat \<Rightarrow> 'z module_builder \<Rightarrow> 'z module_state \<Rightarrow> 'z module_state option" where
  "get_module php83 startup_fn builder s =
     (case md_entry s of
        Some _ \<Rightarrow> Some s
      | None \<Rightarrow>
          (case module_try_from php83 (mb_startup_function startup_fn builder) of
             Inl e \<Rightarrow> None
           | Inr (entry, startup) \<Rightarrow>
               Some (s\<lparr>md_entry := Some \<lparr>le_name = Some (me_name entry), le_version = Some (me_version entry),
                           le_functions = Some (me_functions entry), le_shared = False\<rparr>,
                       md_startup := Some startup,
                       md_user_shutdown := (case md_user_shutdown s of None \<Rightarrow> Some (me_shutdown entry) | Some u \<Rightarrow> Some u)\<rparr>)))"

text \<open>\<open>ext_php_rs_startup\<close>: \<open>a\<close> is the result of the user's startup function, zero without one. The result is that of the C
  function; \<open>None\<close> is a panic.\<close>

definition ext_startup ::
    "bool \<Rightarrow> bool \<Rightarrow> reg_env \<Rightarrow> int \<Rightarrow> i32 \<Rightarrow> 'z module_state \<Rightarrow> (i32 \<times> 'z module_state) option" where
  "ext_startup php83 observer env mod_num a s =
     (case md_startup s of
        None \<Rightarrow> Some (a OR 0, s)
      | Some startup \<Rightarrow>
          let s = s\<lparr>md_startup := None, md_registrations := md_registrations s + 1\<rparr>
          in case module_startup php83 observer env mod_num startup [] of
               RegOk log \<Rightarrow> Some (a OR 0, s\<lparr>md_log := log\<rparr>)
             | RegErr e log \<Rightarrow> Some (a OR 1, s\<lparr>md_log := log\<rparr>)
             | RegPanic log \<Rightarrow> None)"

text \<open>\<open>ext_php_rs_shutdown\<close>: \<open>user\<close> is how the user's function ends. Without an entry the initialiser panics.\<close>

definition ext_shutdown :: "bool \<Rightarrow> (nat \<Rightarrow> i32) \<Rightarrow> 'z module_state \<Rightarrow> (i32 \<times> 'z module_state) option" where
  "ext_shutdown php83 user s =
     (let user_result = (case Option.bind (md_user_shutdown s) id of Some f \<Rightarrow> user f | None \<Rightarrow> 0)
      in case md_entry s of
           None \<Rightarrow> None
         | Some entry \<Rightarrow>
             if le_shared entry
             then map_option (\<lambda>(fs, entry). (user_result, s\<lparr>md_entry := Some entry, md_freed := md_freed s @ fs\<rparr>))
                    (cleanup_module_allocations php83 entry)
             else Some (user_result, s))"

section \<open>The life of a module\<close>

inductive module_step :: "bool \<Rightarrow> bool \<Rightarrow> 'z module_builder \<Rightarrow> 'z module_state \<Rightarrow> 'z module_state \<Rightarrow> bool" for php83 observer builder where
  GetModule: "get_module php83 startup_fn builder s = Some s' \<Longrightarrow> module_step php83 observer builder s s'"
| Load: "md_entry s = Some entry \<Longrightarrow> module_step php83 observer builder s (s\<lparr>md_entry := Some (entry\<lparr>le_shared := True\<rparr>)\<rparr>)"
| Start: "ext_startup php83 observer env mod_num a s = Some (r, s') \<Longrightarrow> module_step php83 observer builder s s'"
| Shutdown: "ext_shutdown php83 user s = Some (r, s') \<Longrightarrow> module_step php83 observer builder s s'"

section \<open>Freeing what was built\<close>

lemma or_and_absorb: "(x OR y) AND y = (y :: u32)"
  by (simp add: bit_eq_iff bit_and_iff bit_or_iff)

lemma free_args_eq:
  "j + n \<le> length infos \<Longrightarrow>
     free_args php83 i infos j n = Some (concat (map (\<lambda>k. free_arg php83 i k (infos ! k)) [j..<j + n]))"
proof (induction n arbitrary: j)
  case (Suc n)
  then have "[j..<j + Suc n] = j # [Suc j..<Suc j + n]" by (simp add: upt_conv_Cons)
  with Suc show ?case by simp
qed simp

lemma empty_from_type_free:
  assumes "empty_from_type php83 ty r v n = Some t"
  shows "(if zt_ptr t \<noteq> None \<and> zend_type_has_name php83 (zt_mask t) then [ATypeName i j] else []) = type_alloc i j ty"
  using assms
  by (auto simp: empty_from_type_def empty_from_class_type_def empty_from_primitive_type_def type_alloc_def zend_type_has_name_def
      or_and_absorb Let_def ZEND_TYPE_LITERAL_NAME_BIT_def ZEND_TYPE_NAME_BIT_def split: data_type.splits option.splits if_splits)

lemma as_arg_info_free:
  assumes "as_arg_info php83 a = Inr info" and "0 < j"
  shows "mset (free_arg php83 i j info) = mset (arg_allocs i j a)"
proof -
  from assms(1) obtain t where t: "empty_from_type php83 (a_type a) (a_as_ref a) (a_variadic a) (a_allow_null a) = Some t"
    "ai_type info = t" "ai_default info = None \<longleftrightarrow> a_default a = None"
    by (auto simp: as_arg_info_def split: option.splits)
  from assms(2) t(2,3) show ?thesis
    unfolding free_arg_def empty_from_type_free [OF t(1), of i j, folded t(2)] arg_allocs_def by simp
qed

lemma concat_mset_cong: "(\<And>x. x \<in> set xs \<Longrightarrow> mset (f x) = mset (g x)) \<Longrightarrow> mset (concat (map f xs)) = mset (concat (map g xs))"
  by (induction xs) auto

lemma enumerate_upt: "enumerate n xs = map (\<lambda>k. (k, xs ! (k - n))) [n..<n + length xs]"
  by (intro nth_equalityI) (auto simp: nth_enumerate_eq)

lemma function_freed:
  assumes "fb_build php83 b = Inr fe"
  shows "\<exists>fs. free_function php83 i fe = Some fs \<and> mset fs = mset (function_allocs i b)"
proof -
  from assms obtain t infos where t: "(case fb_retval b of None \<Rightarrow> Some (zt_empty False False)
      | Some r \<Rightarrow> empty_from_type php83 r (fb_ret_as_ref b) False (fb_ret_as_null b)) = Some t"
    and infos: "map (as_arg_info php83) (fb_args b) = map Inr infos"
    and fe: "fe_arg_info fe = \<lparr>ai_name = RequiredArgs (fb_required b), ai_type = t, ai_default = None\<rparr> # infos" "fe_num_args fe = length infos"
    by (auto simp: fb_build_def Let_def result_collect_Inr_iff u32_try_into_def split: option.splits sum.splits if_splits)
  from infos have len: "length infos = length (fb_args b)" by (metis length_map)
  let ?all = "fe_arg_info fe"
  have ret: "mset (free_arg php83 i 0 (?all ! 0)) = mset (case fb_retval b of Some r \<Rightarrow> type_alloc i 0 r | None \<Rightarrow> [])"
  proof (cases "fb_retval b")
    case None
    with t show ?thesis by (auto simp: free_arg_def fe zt_empty_def)
  next
    case (Some r)
    with t have "empty_from_type php83 r (fb_ret_as_ref b) False (fb_ret_as_null b) = Some t" by simp
    from empty_from_type_free [OF this, of i 0] Some show ?thesis by (simp add: free_arg_def fe)
  qed
  have args: "mset (free_arg php83 i k (?all ! k)) = mset (arg_allocs i k (fb_args b ! (k - 1)))" if k: "k \<in> set [1..<1 + length infos]" for k
  proof -
    have "as_arg_info php83 (fb_args b ! (k - 1)) = Inr (infos ! (k - 1))"
      using k len arg_cong [OF infos, of "\<lambda>l. l ! (k - 1)"] by auto
    moreover have "?all ! k = infos ! (k - 1)" using k by (auto simp: fe nth_Cons' simp del: upt_Suc)
    moreover from k have "0 < k" by auto
    ultimately show ?thesis using as_arg_info_free by simp
  qed
  have "free_args php83 i ?all 0 (length infos + 1) =
      Some (free_arg php83 i 0 (?all ! 0) @ concat (map (\<lambda>k. free_arg php83 i k (?all ! k)) [1..<1 + length infos]))"
    by (subst free_args_eq) (simp_all add: fe upt_conv_Cons del: upt_Suc)
  moreover have "mset (concat (map (\<lambda>k. free_arg php83 i k (?all ! k)) [1..<1 + length infos])) =
      mset (concat (map (\<lambda>k. arg_allocs i k (fb_args b ! (k - 1))) [1..<1 + length infos]))"
    by (rule concat_mset_cong) (rule args)
  ultimately show ?thesis
    using ret len
    by (simp add: free_function_def fe function_allocs_def enumerate_upt comp_def del: upt_Suc)
qed

lemma functions_freed:
  assumes "map (fb_build php83) fs = map Inr es"
  shows "\<exists>freed. free_functions php83 (es @ [function_entry_end]) i = Some (freed, i + length fs) \<and>
    mset freed = mset (concat (map (\<lambda>(k, f). function_allocs k f) (enumerate i fs)))"
  using assms
proof (induction fs arbitrary: es i)
  case Nil
  then show ?case by (simp add: function_entry_end_def)
next
  case (Cons f fs)
  then obtain e es' where es: "es = e # es'" "fb_build php83 f = Inr e" "map (fb_build php83) fs = map Inr es'" by auto
  then have "fe_fname e \<noteq> None" by (auto elim!: fb_build_Inr)
  moreover obtain freed where "free_function php83 i e = Some freed" "mset freed = mset (function_allocs i f)"
    using function_freed [OF es(2)] by blast
  ultimately show ?case using Cons.IH [OF es(3), of "Suc i"] by (auto simp: es(1))
qed

lemma module_freed:
  assumes "module_try_from php83 b = Inr (entry, startup)"
  shows "\<exists>freed. cleanup_module_allocations php83 \<lparr>le_name = Some (me_name entry), le_version = Some (me_version entry),
      le_functions = Some (me_functions entry), le_shared = shared\<rparr> =
        Some (freed, \<lparr>le_name = None, le_version = None, le_functions = None, le_shared = shared\<rparr>) \<and>
    mset freed = mset (module_allocs b)"
proof -
  from assms obtain es where es: "map (fb_build php83) (mb_functions b) = map Inr es" "me_functions entry = es @ [function_entry_end]"
    by (auto simp: module_try_from_def result_collect_Inr_iff split: sum.splits option.splits)
  then show ?thesis
    using functions_freed [OF es(1), of 0] by (auto simp: cleanup_module_allocations_def module_allocs_def Let_def)
qed

lemma cleanup_cleared:
  "cleanup_module_allocations php83 \<lparr>le_name = None, le_version = None, le_functions = None, le_shared = shared\<rparr> =
     Some ([], \<lparr>le_name = None, le_version = None, le_functions = None, le_shared = shared\<rparr>)"
  by (simp add: cleanup_module_allocations_def)


text \<open>No two places name the same allocation.\<close>

fun alloc_place :: "alloc \<Rightarrow> (nat \<times> nat) option" where
  "alloc_place (AArgName i j) = Some (i, j)"
| "alloc_place (ADefault i j) = Some (i, j)"
| "alloc_place (ATypeName i j) = Some (i, j)"
| "alloc_place _ = None"

fun alloc_function :: "alloc \<Rightarrow> nat option" where
  "alloc_function (AFname i) = Some i"
| "alloc_function (AArgInfo i n) = Some i"
| "alloc_function x = map_option fst (alloc_place x)"

lemma type_alloc_place: "x \<in> set (type_alloc i j ty) \<Longrightarrow> x = ATypeName i j"
  by (auto simp: type_alloc_def split: data_type.splits option.splits)

lemma distinct_type_alloc: "distinct (type_alloc i j ty)"
  by (simp add: type_alloc_def split: data_type.split option.split)

lemma arg_allocs_place: "x \<in> set (arg_allocs i j a) \<Longrightarrow> alloc_place x = Some (i, j)"
  by (auto simp: arg_allocs_def dest: type_alloc_place split: if_splits)

lemma distinct_arg_allocs: "distinct (arg_allocs i j a)"
  by (auto simp: arg_allocs_def distinct_type_alloc dest: type_alloc_place)

lemma distinct_concat_enumerate:
  assumes "\<And>k x. distinct (f k x)" and "\<And>k x y. y \<in> set (f k x) \<Longrightarrow> g y = Some (h k)" and "inj h"
  shows "distinct (concat (map (\<lambda>(k, x). f k x) (enumerate n xs)))"
proof (induction xs arbitrary: n)
  case (Cons x xs)
  have "set (f n x) \<inter> set (concat (map (\<lambda>(k, x). f k x) (enumerate (Suc n) xs))) = {}"
  proof (rule equals0I)
    fix y
    assume y: "y \<in> set (f n x) \<inter> set (concat (map (\<lambda>(k, x). f k x) (enumerate (Suc n) xs)))"
    then obtain k z where k: "(k, z) \<in> set (enumerate (Suc n) xs)" "y \<in> set (f k z)" by auto
    from k(1) have "n < k" by (auto simp: in_set_enumerate_eq)
    moreover from y k(2) assms(2) have "h n = h k" by (metis IntD1 option.inject)
    ultimately show False using assms(3) by (auto dest: injD)
  qed
  with Cons assms(1) show ?case by simp
qed simp

lemma function_allocs_place: "x \<in> set (function_allocs i b) \<Longrightarrow> alloc_function x = Some i"
  by (auto simp: function_allocs_def arg_allocs_def split: option.splits if_splits dest: type_alloc_place)

lemma args_allocs_no_function:
  assumes "x \<in> set (concat (map (\<lambda>(j, a). arg_allocs i j a) (enumerate 1 as)))"
  shows "\<exists>j \<ge> 1. alloc_place x = Some (i, j)"
  using assms arg_allocs_place by (fastforce simp: in_set_enumerate_eq)

lemma distinct_function_allocs: "distinct (function_allocs i b)"
proof -
  let ?ret = "case fb_retval b of Some r \<Rightarrow> type_alloc i 0 r | None \<Rightarrow> []"
  let ?args = "concat (map (\<lambda>(j, a). arg_allocs i j a) (enumerate 1 (fb_args b)))"
  have "distinct ?args"
    by (rule distinct_concat_enumerate [where g = alloc_place and h = "Pair i"])
      (simp_all add: distinct_arg_allocs arg_allocs_place inj_def)
  moreover have "distinct ?ret" by (simp add: distinct_type_alloc split: option.split)
  moreover have "x = ATypeName i 0" if "x \<in> set ?ret" for x
    using that by (auto dest: type_alloc_place split: option.splits)
  moreover note args_allocs_no_function [of _ i "fb_args b"]
  ultimately show ?thesis by (fastforce simp: function_allocs_def simp del: set_concat set_map)
qed

lemma distinct_module_allocs: "distinct (module_allocs b)"
proof -
  let ?fs = "concat (map (\<lambda>(i, f). function_allocs i f) (enumerate 0 (mb_functions b)))"
  have "distinct ?fs"
    by (rule distinct_concat_enumerate [where g = alloc_function and h = id])
      (simp_all add: distinct_function_allocs function_allocs_place)
  moreover have "alloc_function x \<noteq> None" if "x \<in> set ?fs" for x
    using that function_allocs_place by fastforce
  ultimately show ?thesis by (fastforce simp: module_allocs_def simp del: set_concat set_map)
qed

section \<open>The invariant of a module's life\<close>

text \<open>An entry is either as it was built, with nothing freed, or cleared, with each allocation of the builder freed; the startup
  data is there until the module is registered.\<close>

definition cleared :: "bool \<Rightarrow> live_entry" where
  "cleared shared = \<lparr>le_name = None, le_version = None, le_functions = None, le_shared = shared\<rparr>"

definition built :: "bool \<Rightarrow> 'z module_builder \<Rightarrow> live_entry \<Rightarrow> bool" where
  "built php83 b e \<longleftrightarrow> (\<exists>f entry startup. module_try_from php83 (mb_startup_function f b) = Inr (entry, startup) \<and>
     e = \<lparr>le_name = Some (me_name entry), le_version = Some (me_version entry),
          le_functions = Some (me_functions entry), le_shared = le_shared e\<rparr>)"

definition module_inv :: "bool \<Rightarrow> 'z module_builder \<Rightarrow> 'z module_state \<Rightarrow> bool" where
  "module_inv php83 b s \<longleftrightarrow>
     (case md_entry s of
        None \<Rightarrow> md_freed s = [] \<and> md_startup s = None \<and> md_registrations s = 0
      | Some e \<Rightarrow>
          (built php83 b e \<and> md_freed s = [] \<or> e = cleared (le_shared e) \<and> mset (md_freed s) = mset (module_allocs b)) \<and>
          md_registrations s + (if md_startup s = None then 0 else 1) = 1)"

lemma mb_startup_function_allocs [simp]: "module_allocs (mb_startup_function f b) = module_allocs b"
  by (simp add: module_allocs_def mb_startup_function_def)

lemma built_freed:
  assumes "built php83 b e"
  shows "\<exists>freed. cleanup_module_allocations php83 e = Some (freed, cleared (le_shared e)) \<and> mset freed = mset (module_allocs b)"
proof -
  from assms obtain f entry startup where b: "module_try_from php83 (mb_startup_function f b) = Inr (entry, startup)"
    and e: "e = \<lparr>le_name = Some (me_name entry), le_version = Some (me_version entry),
      le_functions = Some (me_functions entry), le_shared = le_shared e\<rparr>"
    by (auto simp: built_def)
  from module_freed [OF b, of "le_shared e"] show ?thesis by (simp add: cleared_def e [symmetric])
qed

lemma builtI:
  "module_try_from php83 (mb_startup_function f b) = Inr (entry, startup) \<Longrightarrow>
     built php83 b \<lparr>le_name = Some (me_name entry), le_version = Some (me_version entry),
       le_functions = Some (me_functions entry), le_shared = shared\<rparr>"
  unfolding built_def by (intro exI conjI) (assumption, simp)

lemma get_module_inv: "get_module php83 f b s = Some s' \<Longrightarrow> module_inv php83 b s \<Longrightarrow> module_inv php83 b s'"
  by (auto simp: get_module_def module_inv_def builtI split: option.splits sum.splits)

lemma load_inv:
  "md_entry s = Some e \<Longrightarrow> module_inv php83 b s \<Longrightarrow> module_inv php83 b (s\<lparr>md_entry := Some (e\<lparr>le_shared := True\<rparr>)\<rparr>)"
  by (cases e) (auto simp: module_inv_def built_def cleared_def)

lemma ext_startup_inv:
  "ext_startup php83 observer env mod_num a s = Some (r, s') \<Longrightarrow> module_inv php83 b s \<Longrightarrow> module_inv php83 b s'"
  by (auto simp: ext_startup_def module_inv_def Let_def split: option.splits reg.splits)

text \<open>A shutdown of a module that was loaded as a shared library succeeds, and leaves everything freed.\<close>

lemma ext_shutdown_frees:
  assumes "module_inv php83 b s" "md_entry s = Some e" "le_shared e"
  shows "\<exists>r freed. ext_shutdown php83 user s = Some (r, s\<lparr>md_entry := Some (cleared True), md_freed := freed\<rparr>) \<and>
    mset freed = mset (module_allocs b)"
proof -
  from assms(1,2) consider "built php83 b e" "md_freed s = []" | "e = cleared (le_shared e)" "mset (md_freed s) = mset (module_allocs b)"
    by (auto simp: module_inv_def)
  then show ?thesis
  proof cases
    case 1
    with built_freed [OF 1(1)] assms(2,3) show ?thesis by (auto simp: ext_shutdown_def Let_def)
  next
    case 2
    with assms(2,3) cleanup_cleared [of php83 True] have "\<exists>r. ext_shutdown php83 user s = Some (r, s\<lparr>md_entry := Some (cleared True), md_freed := md_freed s\<rparr>)"
      by (simp add: ext_shutdown_def Let_def cleared_def)
    with 2(2) show ?thesis by blast
  qed
qed

lemma ext_shutdown_inv:
  assumes "ext_shutdown php83 user s = Some (r, s')" "module_inv php83 b s"
  shows "module_inv php83 b s'"
proof -
  from assms(1) obtain e where e: "md_entry s = Some e" by (auto simp: ext_shutdown_def Let_def split: option.splits)
  show ?thesis
  proof (cases "le_shared e")
    case True
    from ext_shutdown_frees [OF assms(2) e this, of user] assms obtain freed
      where "s' = s\<lparr>md_entry := Some (cleared True), md_freed := freed\<rparr>" "mset freed = mset (module_allocs b)" by auto
    with assms(2) e show ?thesis by (auto simp: module_inv_def cleared_def)
  next
    case False
    with assms e show ?thesis by (simp add: ext_shutdown_def Let_def)
  qed
qed

lemma module_step_inv: "module_step php83 observer b s s' \<Longrightarrow> module_inv php83 b s \<Longrightarrow> module_inv php83 b s'"
  by (cases rule: module_step.cases) (auto intro: get_module_inv load_inv ext_startup_inv ext_shutdown_inv)

lemma module_reachable_inv: "(module_step php83 observer b)\<^sup>*\<^sup>* module_state_init s \<Longrightarrow> module_inv php83 b s"
proof (induction rule: rtranclp_induct)
  case base
  show ?case by (simp add: module_inv_def module_state_init_def)
next
  case (step s s')
  then show ?case by (blast intro: module_step_inv)
qed

lemma module_inv_freed_distinct: "module_inv php83 b s \<Longrightarrow> distinct (md_freed s)"
  using distinct_module_allocs [of b]
  by (auto simp: module_inv_def mset_eq_imp_distinct_iff [of "md_freed s" "module_allocs b"] split: option.splits)

section \<open>Properties\<close>

text \<open>C28. Through any sequence of calls of the generated module functions - \<open>get_module\<close>, PHP loading the entry, startups and
  shutdowns in any order and number - no allocation is freed twice and the module is registered at most once; and shutting down
  a module that was loaded as a shared library touches nothing outside its arrays and leaves freed exactly what the builders
  allocated.\<close>

theorem module_allocations_freed_once:
  assumes "(module_step php83 observer b)\<^sup>*\<^sup>* module_state_init s"
  shows "distinct (md_freed s) \<and> md_registrations s \<le> 1 \<and>
    (\<forall>e. md_entry s = Some e \<and> le_shared e \<longrightarrow>
       (\<exists>r s'. ext_shutdown php83 user s = Some (r, s') \<and> set (md_freed s') = set (module_allocs b)))"
proof (intro conjI allI impI)
  note inv = module_reachable_inv [OF assms]
  from inv show "distinct (md_freed s)" by (rule module_inv_freed_distinct)
  from inv show "md_registrations s \<le> 1" by (auto simp: module_inv_def split: option.splits if_splits)
  fix e
  assume "md_entry s = Some e \<and> le_shared e"
  then obtain r freed where "ext_shutdown php83 user s = Some (r, s\<lparr>md_entry := Some (cleared True), md_freed := freed\<rparr>)"
    "mset freed = mset (module_allocs b)"
    using ext_shutdown_frees [OF inv, of e user] by blast
  then show "\<exists>r s'. ext_shutdown php83 user s = Some (r, s') \<and> set (md_freed s') = set (module_allocs b)"
    by (auto dest: mset_eq_setD)
qed

definition life_module :: "nat module_builder" where
  "life_module = (mb_new ''ext'' ''1'')\<lparr>mb_functions :=
     [fb_arg (arg_set_default ''x'' (arg_new ''a'' (DtObject (Some ''C'')))) (fb_new ''f'' 1)]\<rparr>"

lemma life_module_built: "\<exists>entry startup. module_try_from True (mb_startup_function 7 life_module) = Inr (entry, startup)"
  by (simp add: module_try_from_def life_module_def mb_new_def mb_startup_function_def fb_arg_def arg_new_def arg_set_default_def fb_new_def
      fb_with_def fb_build_def as_arg_info_def empty_from_type_def empty_from_class_type_def cstring_new_def u32_try_into_def Let_def
      arg_info_flags_def has_variadic_def)

theorem module_allocations_freed_once_witness:
  "\<exists>s e r s'. (module_step True False life_module)\<^sup>*\<^sup>* module_state_init s \<and> md_entry s = Some e \<and>
     ext_shutdown True (\<lambda>_. 0) s = Some (r, s') \<and>
     set (md_freed s') = {AName, AVersion, AFunctions 2, AFname 0, AArgInfo 0 2, AArgName 0 1, ADefault 0 1, ATypeName 0 1}"
proof -
  obtain entry startup where b: "module_try_from True (mb_startup_function 7 life_module) = Inr (entry, startup)"
    using life_module_built by blast
  then obtain s0 e0 where s0: "get_module True 7 life_module module_state_init = Some s0" "md_entry s0 = Some e0"
    by (simp add: get_module_def module_state_init_def)
  let ?s = "s0\<lparr>md_entry := Some (e0\<lparr>le_shared := True\<rparr>)\<rparr>"
  have reach: "(module_step True False life_module)\<^sup>*\<^sup>* module_state_init ?s"
    using GetModule [OF s0(1)] Load [OF s0(2)] by (meson converse_rtranclp_into_rtranclp r_into_rtranclp)
  then obtain r s' where "ext_shutdown True (\<lambda>_. 0) ?s = Some (r, s')" "set (md_freed s') = set (module_allocs life_module)"
    using module_allocations_freed_once [OF reach, of "\<lambda>_. 0"] by auto
  moreover have "set (module_allocs life_module) =
      {AName, AVersion, AFunctions 2, AFname 0, AArgInfo 0 2, AArgName 0 1, ADefault 0 1, ATypeName 0 1}"
    by (auto simp: module_allocs_def life_module_def mb_new_def fb_arg_def arg_new_def arg_set_default_def fb_new_def fb_with_def
        function_allocs_def arg_allocs_def type_alloc_def)
  ultimately show ?thesis using reach by (intro exI [of _ ?s] exI [of _ "e0\<lparr>le_shared := True\<rparr>"]) auto
qed

text \<open>What PHP sees of a registration that fails: the generated startup function answers 1 where the user's function succeeded.
  PHP's \<open>FAILURE\<close> is \<open>-1\<close>, so the module counts as started.\<close>

definition ZEND_RESULT_CODE_FAILURE :: i32 where "ZEND_RESULT_CODE_FAILURE = - 1"

theorem failed_registration_not_failure:
  assumes "md_startup s = Some startup" and "module_startup php83 observer env mod_num startup [] = RegErr e log"
  shows "\<exists>s'. ext_startup php83 observer env mod_num 0 s = Some (1, s') \<and> 1 \<noteq> ZEND_RESULT_CODE_FAILURE"
  using assms by (simp add: ext_startup_def ZEND_RESULT_CODE_FAILURE_def Let_def)

text \<open>A startup function the user sets on the builder is replaced by the generated one.\<close>

lemma mb_startup_function_last: "mb_startup_function f (mb_startup_function g b) = mb_startup_function f b"
  by (simp add: mb_startup_function_def)

theorem user_startup_replaced: "get_module php83 f (mb_startup_function user b) s = get_module php83 f b s"
  unfolding get_module_def mb_startup_function_last ..

end
