(* ===== verification/ZendObj.thy ===== *)
theory ZendObj
  imports ObjHandlers
begin

text \<open>
  \<open>src/types/object.rs\<close>: the generic object of PHP. An object is its class entry (0 when null), its handler table, its
  handle, its extra flags and the rest, which the handlers work on. A handler the table does not have
  is \<open>None\<close>; a null result of a handler is \<open>None\<close>. The handlers of a class implemented in Rust are those of theory
  \<open>ObjHandlers\<close>, called without a cache slot.
\<close>

unbundle bit_operations_syntax

section \<open>Objects and handlers\<close>

record ('o, 'h, 'w) object_handlers =
  hd_read :: "('o \<Rightarrow> zend_str \<Rightarrow> int \<Rightarrow> zval \<Rightarrow> 'w eng \<Rightarrow> (zval option \<times> 'w eng) outcome) option"
  hd_write :: "('o \<Rightarrow> zend_str \<Rightarrow> zval \<Rightarrow> 'w eng \<Rightarrow> (zval option \<times> 'o \<times> 'w eng) outcome) option"
  hd_has :: "('o \<Rightarrow> zend_str \<Rightarrow> int \<Rightarrow> 'w eng \<Rightarrow> (int \<times> 'w eng) outcome) option"
  hd_properties :: "('o \<Rightarrow> 'w eng \<Rightarrow> ('h option \<times> 'w eng) outcome) option"
  hd_class_name :: "('o \<Rightarrow> 'w eng \<Rightarrow> zend_str option \<times> 'w eng) option"

record ('o, 'h, 'w) zend_object =
  zo_ce :: nat
  zo_handlers :: "('o, 'h, 'w) object_handlers option"
  zo_handle :: u32
  zo_extra_flags :: u32
  zo_body :: 'o

datatype property_query = Isset | NotEmpty | Exists

definition property_query_code :: "property_query \<Rightarrow> int" where
  "property_query_code q = (case q of Isset \<Rightarrow> 0 | NotEmpty \<Rightarrow> 1 | Exists \<Rightarrow> 2)"

text \<open>A handler of the table, or the error for a missing table or handler.\<close>

definition obj_handler :: "(('o, 'h, 'w) object_handlers \<Rightarrow> 'f option) \<Rightarrow> ('o, 'h, 'w) zend_object \<Rightarrow> error + 'f" where
  "obj_handler get o' =
     (case zo_handlers o' of
        None \<Rightarrow> Inl InvalidScope
      | Some hs \<Rightarrow> (case get hs of None \<Rightarrow> Inl InvalidScope | Some f \<Rightarrow> Inr f))"

section \<open>Properties\<close>

definition obj_has_property ::
    "bool \<Rightarrow> ('o, 'h, 'w) zend_object \<Rightarrow> string \<Rightarrow> property_query \<Rightarrow> 'w eng \<Rightarrow> ((error + bool) \<times> 'w eng) outcome" where
  "obj_has_property ready o' name query e =
     (case obj_handler hd_has o' of
        Inl err \<Rightarrow> Done (Inl err, e)
      | Inr f \<Rightarrow>
          (case f (zo_body o') (zs_new ready name False) (property_query_code query) e of
             Crash \<Rightarrow> Crash
           | Done (r, e) \<Rightarrow> Done (Inr (0 < r), e)))"

text \<open>\<open>conv\<close> is \<open>T::from_zval\<close>; the handler is asked with type 1 (\<open>BP_VAR_W\<close>).\<close>

definition obj_get_property ::
    "bool \<Rightarrow> (zval \<Rightarrow> 'v option) \<Rightarrow> ('o, 'h, 'w) zend_object \<Rightarrow> string \<Rightarrow> 'w eng \<Rightarrow> ((error + 'v) \<times> 'w eng) outcome" where
  "obj_get_property ready conv o' name e =
     (case obj_has_property ready o' name Exists e of
        Crash \<Rightarrow> Crash
      | Done (Inl err, e) \<Rightarrow> Done (Inl err, e)
      | Done (Inr False, e) \<Rightarrow> Done (Inl InvalidProperty, e)
      | Done (Inr True, e) \<Rightarrow>
          (case obj_handler hd_read o' of
             Inl err \<Rightarrow> Done (Inl err, e)
           | Inr f \<Rightarrow>
               (case f (zo_body o') (zs_new ready name False) 1 zval_new e of
                  Crash \<Rightarrow> Crash
                | Done (None, e) \<Rightarrow> Done (Inl InvalidScope, e)
                | Done (Some zv, e) \<Rightarrow>
                    Done (case conv zv of Some v \<Rightarrow> Inr v | None \<Rightarrow> Inl (ZvalConversion (get_type zv)), e))))"

text \<open>\<open>value\<close> is the result of \<open>into_zval\<close>.\<close>

definition obj_set_property ::
    "bool \<Rightarrow> ('o, 'h, 'w) zend_object \<Rightarrow> string \<Rightarrow> error + zval \<Rightarrow> 'w eng \<Rightarrow>
     ((error + unit) \<times> ('o, 'h, 'w) zend_object \<times> 'w eng) outcome" where
  "obj_set_property ready o' name val e =
     (case val of
        Inl err \<Rightarrow> Done (Inl err, o', e)
      | Inr z \<Rightarrow>
          (case obj_handler hd_write o' of
             Inl err \<Rightarrow> Done (Inl err, o', e)
           | Inr f \<Rightarrow>
               (case f (zo_body o') (zs_new ready name False) z e of
                  Crash \<Rightarrow> Crash
                | Done (r, body, e) \<Rightarrow>
                    Done (case r of None \<Rightarrow> Inl InvalidScope | Some _ \<Rightarrow> Inr (), o'\<lparr>zo_body := body\<rparr>, e))))"

definition obj_get_properties :: "('o, 'h, 'w) zend_object \<Rightarrow> 'w eng \<Rightarrow> ((error + 'h) \<times> 'w eng) outcome" where
  "obj_get_properties o' e =
     (case obj_handler hd_properties o' of
        Inl err \<Rightarrow> Done (Inl err, e)
      | Inr f \<Rightarrow>
          (case f (zo_body o') e of
             Crash \<Rightarrow> Crash
           | Done (props, e) \<Rightarrow> Done (case props of None \<Rightarrow> Inl InvalidScope | Some p \<Rightarrow> Inr p, e)))"

definition obj_get_class_name :: "('o, 'h, 'w) zend_object \<Rightarrow> 'w eng \<Rightarrow> (error + string) \<times> 'w eng" where
  "obj_get_class_name o' e =
     (case obj_handler hd_class_name o' of
        Inl err \<Rightarrow> (Inl err, e)
      | Inr f \<Rightarrow>
          (case f (zo_body o') e of
             (None, e) \<Rightarrow> (Inl InvalidScope, e)
           | (Some s, e) \<Rightarrow> (fst (zs_as_str s), e)))"

section \<open>Identity\<close>

definition obj_get_id :: "('o, 'h, 'w) zend_object \<Rightarrow> u32" where
  "obj_get_id o' = zo_handle o'"

definition obj_is_instance :: "('t, 'w) registered \<Rightarrow> ('o, 'h, 'w) zend_object \<Rightarrow> bool option" where
  "obj_is_instance rg o' = map_option (\<lambda>ce. zo_ce o' = ce) (meta_ce rg)"

definition obj_instance_of :: "ce_api \<Rightarrow> nat \<Rightarrow> ('o, 'h, 'w) zend_object \<Rightarrow> bool option" where
  "obj_instance_of ca ce o' = (if zo_ce o' = 0 then None else Some (instance_of ca (zo_ce o') ce))"

definition hex_char :: "nat \<Rightarrow> char" where
  "hex_char d = (if d < 10 then char_of (48 + d) else char_of (87 + d))"

text \<open>\<open>{:016x}\<close>: the digits from the most significant on, filled with zeros on the left.\<close>

fun hex_fixed :: "nat \<Rightarrow> nat \<Rightarrow> string" where
  "hex_fixed 0 n = []"
| "hex_fixed (Suc w) n = hex_fixed w (n div 16) @ [hex_char (n mod 16)]"

definition obj_hash :: "('o, 'h, 'w) zend_object \<Rightarrow> string" where
  "obj_hash o' = hex_fixed 16 (unat (zo_handle o')) @ ''0000000000000000''"

section \<open>Calling a method\<close>

text \<open>\<open>find_method\<close> looks a name up in the function table of a class, ignoring case; \<open>call\<close> runs the method. Both are the
  engine's. \<open>params\<close> are the results of \<open>as_zval\<close>.\<close>

definition obj_try_call_method ::
    "(nat \<Rightarrow> string \<Rightarrow> nat option) \<Rightarrow> (nat \<Rightarrow> ('o, 'h, 'w) zend_object \<Rightarrow> zval list \<Rightarrow> 'w eng \<Rightarrow> zval \<times> 'w eng) \<Rightarrow>
     ('o, 'h, 'w) zend_object \<Rightarrow> string \<Rightarrow> (error + zval) list \<Rightarrow> 'w eng \<Rightarrow> (error + zval) \<times> 'w eng" where
  "obj_try_call_method find_method call o' name params e =
     (case result_collect params of
        Inl err \<Rightarrow> (Inl err, e)
      | Inr packed \<Rightarrow>
          (case find_method (zo_ce o') name of
             None \<Rightarrow> (Inl ErrCallable, e)
           | Some f \<Rightarrow>
               (case u32_try_into (length packed) of
                  Inl err \<Rightarrow> (Inl err, e)
                | Inr _ \<Rightarrow> (let (retval, e) = call f o' packed e in (Inr retval, e)))))"

text \<open>\<open>FromZendObject for String\<close>. \<open>tostring\<close> is the \<open>__toString\<close> of the class, \<open>None\<close> when it has none: the engine then
  calls through a null pointer. The other \<open>Crash\<close> is the panic.\<close>

definition string_from_zend_object ::
    "(nat \<Rightarrow> nat option) \<Rightarrow> (nat \<Rightarrow> ('o, 'h, 'w) zend_object \<Rightarrow> zval list \<Rightarrow> 'w eng \<Rightarrow> zval \<times> 'w eng) \<Rightarrow>
     ('w eng \<Rightarrow> nat option \<times> 'w eng) \<Rightarrow> (zval \<Rightarrow> string option) \<Rightarrow> ('o, 'h, 'w) zend_object \<Rightarrow> 'w eng \<Rightarrow>
     ((error + string) \<times> 'w eng) outcome" where
  "string_from_zend_object tostring call take_exception conv o' e =
     (case tostring (zo_ce o') of
        None \<Rightarrow> Crash
      | Some f \<Rightarrow>
          (let (ret, e) = call f o' [] e
           in case take_exception e of
                (Some ex, e) \<Rightarrow> Crash
              | (None, e) \<Rightarrow> (case conv ret of Some s \<Rightarrow> Done (Inr s, e) | None \<Rightarrow> Crash)))"

section \<open>Ownership\<close>

text \<open>\<open>IntoZval for ZBox<ZendObject>\<close> moves the owned object into a zval.\<close>

definition object_box_set_zval :: "('h, 'o) zend_api \<Rightarrow> u64 \<Rightarrow> ('h, 'o) zheap \<times> zval \<Rightarrow> ('h, 'o) zheap \<times> zval" where
  "object_box_set_zval api a hz = (case hz of (h, z) \<Rightarrow> set_object api a (dec_count a h, z))"

section \<open>Lazy objects\<close>

definition IS_OBJ_LAZY_UNINITIALIZED :: u32 where "IS_OBJ_LAZY_UNINITIALIZED = push_bit 31 1"
definition IS_OBJ_LAZY_PROXY :: u32 where "IS_OBJ_LAZY_PROXY = push_bit 30 1"

definition is_lazy :: "('o, 'h, 'w) zend_object \<Rightarrow> bool" where
  "is_lazy o' \<longleftrightarrow> zo_extra_flags o' AND (IS_OBJ_LAZY_UNINITIALIZED OR IS_OBJ_LAZY_PROXY) \<noteq> 0"

definition is_lazy_proxy :: "('o, 'h, 'w) zend_object \<Rightarrow> bool" where
  "is_lazy_proxy o' \<longleftrightarrow> zo_extra_flags o' AND IS_OBJ_LAZY_PROXY \<noteq> 0"

definition is_lazy_ghost :: "('o, 'h, 'w) zend_object \<Rightarrow> bool" where
  "is_lazy_ghost o' \<longleftrightarrow> zo_extra_flags o' AND IS_OBJ_LAZY_UNINITIALIZED \<noteq> 0 \<and> zo_extra_flags o' AND IS_OBJ_LAZY_PROXY = 0"

definition is_lazy_initialized :: "('o, 'h, 'w) zend_object \<Rightarrow> bool" where
  "is_lazy_initialized o' \<longleftrightarrow> is_lazy o' \<and> zo_extra_flags o' AND IS_OBJ_LAZY_UNINITIALIZED = 0"

text \<open>The engine's side: initialising, marking as initialised and making lazy act on the objects at their addresses; the
  first two give the object to work with, null on failure.\<close>

type_synonym ('o, 'h, 'w) objects = "nat \<rightharpoonup> ('o, 'h, 'w) zend_object"

record ('o, 'h, 'w) lazy_api =
  la_init :: "nat \<Rightarrow> ('o, 'h, 'w) objects \<Rightarrow> nat option \<times> ('o, 'h, 'w) objects"
  la_mark :: "nat \<Rightarrow> ('o, 'h, 'w) objects \<Rightarrow> nat option \<times> ('o, 'h, 'w) objects"
  la_make :: "nat \<Rightarrow> bool \<Rightarrow> ('o, 'h, 'w) objects \<Rightarrow> nat option \<times> ('o, 'h, 'w) objects"
  la_can_be_lazy :: "nat \<Rightarrow> bool"

text \<open>The address is that of an object in the table.\<close>

definition lazy_init :: "('o, 'h, 'w) lazy_api \<Rightarrow> nat \<Rightarrow> ('o, 'h, 'w) objects \<Rightarrow> nat option \<times> ('o, 'h, 'w) objects" where
  "lazy_init la a s = (if \<not> is_lazy (the (s a)) then (None, s) else la_init la a s)"

definition mark_lazy_initialized :: "('o, 'h, 'w) lazy_api \<Rightarrow> nat \<Rightarrow> ('o, 'h, 'w) objects \<Rightarrow> nat option \<times> ('o, 'h, 'w) objects" where
  "mark_lazy_initialized la a s = (if \<not> is_lazy (the (s a)) then (None, s) else la_mark la a s)"

definition lazy_get_instance :: "('o, 'h, 'w) lazy_api \<Rightarrow> nat \<Rightarrow> ('o, 'h, 'w) objects \<Rightarrow> nat option \<times> ('o, 'h, 'w) objects" where
  "lazy_get_instance la a s =
     (if \<not> is_lazy_proxy (the (s a)) \<or> \<not> is_lazy_initialized (the (s a)) then (None, s) else la_init la a s)"

text \<open>\<open>wrap\<close> is what becomes of the initialiser: an error when it cannot be stored in a zval, otherwise whether the engine
  finds the zval callable.\<close>

definition make_lazy_internal ::
    "('o, 'h, 'w) lazy_api \<Rightarrow> error + bool \<Rightarrow> bool \<Rightarrow> nat \<Rightarrow> ('o, 'h, 'w) objects \<Rightarrow> (error + unit) \<times> ('o, 'h, 'w) objects" where
  "make_lazy_internal la wrap proxy a s =
     (let o' = the (s a)
      in if zo_ce o' = 0 then (Inl InvalidPointer, s)
         else if \<not> la_can_be_lazy la (zo_ce o') then (Inl LazyObjectFailed, s)
         else if is_lazy o' \<and> \<not> is_lazy_initialized o' then (Inl LazyObjectFailed, s)
         else (case wrap of
                 Inl err \<Rightarrow> (Inl err, s)
               | Inr False \<Rightarrow> (Inl ErrCallable, s)
               | Inr True \<Rightarrow>
                   (case la_make la a proxy s of
                      (None, s) \<Rightarrow> (Inl LazyObjectFailed, s)
                    | (Some _, s) \<Rightarrow> (Inr (), s))))"

definition make_lazy_ghost :: "('o, 'h, 'w) lazy_api \<Rightarrow> error + bool \<Rightarrow> nat \<Rightarrow> ('o, 'h, 'w) objects \<Rightarrow> (error + unit) \<times> ('o, 'h, 'w) objects" where
  "make_lazy_ghost la wrap a s = make_lazy_internal la wrap False a s"

definition make_lazy_proxy :: "('o, 'h, 'w) lazy_api \<Rightarrow> error + bool \<Rightarrow> nat \<Rightarrow> ('o, 'h, 'w) objects \<Rightarrow> (error + unit) \<times> ('o, 'h, 'w) objects" where
  "make_lazy_proxy la wrap a s = make_lazy_internal la wrap True a s"

section \<open>The handlers of a Rust class\<close>

text \<open>\<open>ZendObjectHandlers::init\<close>: the handlers of theory \<open>ObjHandlers\<close>; these wrappers pass no cache slot.\<close>

definition class_handlers ::
    "ce_api \<Rightarrow> ('t, 'h, 'w) std_api \<Rightarrow> ('h, zval) hash_api \<Rightarrow> ('t, 'w) registered \<Rightarrow>
     ('t class_object \<Rightarrow> 'w eng \<Rightarrow> zend_str option \<times> 'w eng) option \<Rightarrow> ('t class_object, 'h, 'w) object_handlers" where
  "class_handlers ca sa ha rg class_name =
     \<lparr>hd_read = Some (\<lambda>obj n type rv e. case read_property ca sa rg obj (Some n) type None (Some rv) e of
        Crash \<Rightarrow> Crash | Done (z, _, e) \<Rightarrow> Done (Some z, e)),
      hd_write = Some (\<lambda>obj n z e. case write_property ca sa rg obj (Some n) (Some z) None e of
        Crash \<Rightarrow> Crash | Done (r, obj, _, e) \<Rightarrow> Done (r, obj, e)),
      hd_has = Some (\<lambda>obj n q e. case has_property ca sa rg obj (Some n) q None e of
        Crash \<Rightarrow> Crash | Done (r, _, e) \<Rightarrow> Done (r, e)),
      hd_properties = Some (\<lambda>obj e. case get_properties ca sa ha rg obj e of
        Crash \<Rightarrow> Crash | Done (p, e) \<Rightarrow> Done (Some p, e)),
      hd_class_name = class_name\<rparr>"


section \<open>Lemmas\<close>

lemma hex_char_inj: "d < 16 \<Longrightarrow> d' < 16 \<Longrightarrow> hex_char d = hex_char d' \<longleftrightarrow> d = d'"
  by (auto simp: hex_char_def of_char_eq_iff [symmetric] split: if_splits)

lemma length_hex_fixed [simp]: "length (hex_fixed w n) = w"
  by (induction w arbitrary: n) auto

lemma hex_fixed_inj: "m < 16 ^ w \<Longrightarrow> n < 16 ^ w \<Longrightarrow> hex_fixed w m = hex_fixed w n \<longleftrightarrow> m = n"
proof (induction w arbitrary: m n)
  case (Suc w)
  then have "m div 16 < 16 ^ w" "n div 16 < 16 ^ w" by (simp_all add: less_mult_imp_div_less mult.commute)
  from Suc.IH [OF this] have "hex_fixed (Suc w) m = hex_fixed (Suc w) n \<longleftrightarrow> m div 16 = n div 16 \<and> m mod 16 = n mod 16"
    by (simp add: hex_char_inj)
  then show ?case by (metis div_mult_mod_eq)
qed simp

lemma zs_new_str: "utf8_valid n \<Longrightarrow> fst (zs_as_str (zs_new ready n False)) = Inr n"
  by (simp add: zs_as_str_def zs_new_def)

text \<open>The flags by their two bits.\<close>

lemma and_push_bit_iff: "f AND push_bit n (1 :: u32) \<noteq> 0 \<longleftrightarrow> bit f n" if "n < 32"
  using that by (simp add: and_exp_eq_0_iff_not_bit push_bit_of_1)


lemma lazy_flag_bits:
  "f AND IS_OBJ_LAZY_UNINITIALIZED \<noteq> 0 \<longleftrightarrow> bit f 31" "f AND IS_OBJ_LAZY_PROXY \<noteq> 0 \<longleftrightarrow> bit f 30"
  unfolding IS_OBJ_LAZY_UNINITIALIZED_def IS_OBJ_LAZY_PROXY_def by (rule and_push_bit_iff; simp)+

lemma lazy_bits:
  "is_lazy o' \<longleftrightarrow> bit (zo_extra_flags o') 31 \<or> bit (zo_extra_flags o') 30"
  "is_lazy_proxy o' \<longleftrightarrow> bit (zo_extra_flags o') 30"
  "is_lazy_ghost o' \<longleftrightarrow> bit (zo_extra_flags o') 31 \<and> \<not> bit (zo_extra_flags o') 30"
  "is_lazy_initialized o' \<longleftrightarrow> \<not> bit (zo_extra_flags o') 31 \<and> bit (zo_extra_flags o') 30"
  unfolding is_lazy_def is_lazy_proxy_def is_lazy_ghost_def is_lazy_initialized_def lazy_flag_bits [symmetric]
  by (auto simp: bit.conj_disj_distrib or_eq_0_iff)

text \<open>What the engine documents of initialising the lazy object at an address: on failure the object stays as lazy as it was; a
  ghost becomes an ordinary object, a proxy keeps its identity, is initialised and gives another object.
  An initialised proxy gives its object again.\<close>

definition lazy_init_law :: "('o, 'h, 'w) lazy_api \<Rightarrow> nat \<Rightarrow> ('o, 'h, 'w) objects \<Rightarrow> ('o, 'h, 'w) zend_object \<Rightarrow> bool" where
  "lazy_init_law la a s o' \<longleftrightarrow>
     (case la_init la a s of
        (None, s') \<Rightarrow> \<not> is_lazy_initialized o' \<and> (\<exists>p. s' a = Some p \<and> zo_extra_flags p = zo_extra_flags o')
      | (Some b, s') \<Rightarrow>
          (\<exists>p. s' a = Some p \<and>
             (if is_lazy_proxy o' then b \<noteq> a \<and> is_lazy_initialized p \<and> (is_lazy_initialized o' \<longrightarrow> s' = s)
              else b = a \<and> \<not> is_lazy p)))"

definition lazy_api_ok :: "('o, 'h, 'w) lazy_api \<Rightarrow> bool" where
  "lazy_api_ok la \<longleftrightarrow> (\<forall>a s o'. s a = Some o' \<longrightarrow> is_lazy o' \<longrightarrow> lazy_init_law la a s o')"

lemma lazy_api_okD: "lazy_api_ok la \<Longrightarrow> s a = Some o' \<Longrightarrow> is_lazy o' \<Longrightarrow> lazy_init_law la a s o'"
  by (simp add: lazy_api_ok_def)

lemma lazy_api_ok_again:
  assumes "lazy_api_ok la" "s a = Some o'" "is_lazy_initialized o'"
  obtains b where "la_init la a s = (Some b, s)" "b \<noteq> a"
proof -
  from assms(3) have l: "is_lazy o'" "is_lazy_proxy o'" by (simp_all add: lazy_bits)
  from assms(1,2) l(1) have "lazy_init_law la a s o'" by (rule lazy_api_okD)
  with l(2) assms(3) show thesis
    using that by (auto simp: lazy_init_law_def split: prod.splits option.splits)
qed

section \<open>Properties\<close>

text \<open>Writing a property of an object of a Rust class through the generic object and reading it back gives the value written,
  converted: the existence test, the conversions and the handlers of the class compose, for a property whose
  getter returns what its setter stored and that the calling scope may access.\<close>

theorem object_property_roundtrip:
  fixes o' :: "('t class_object, 'h, 'w) zend_object"
  assumes "zo_handlers o' = Some (class_handlers ca sa ha rg cn)" and "backed ca rg (zo_body o') t" and "utf8_valid n"
    and "find_property rg n = Some p" and "check_property_access ca (rp_flags p) (co_ce (zo_body o')) e"
    and "rp_set p = Some setter" and "rp_get p = Some getter"
    and "setter t z e = ((None, t'), e')" and "en_execute_data e' = en_execute_data e"
    and "getter t' (nulled zval_new) e' = ((None, z'), e'')" and "conv z' = Some v"
  shows "\<exists>o''. obj_set_property ready o' n (Inr z) e = Done (Inr (), o'', e') \<and> zo_ce o'' = zo_ce o' \<and>
    backed ca rg (zo_body o'') t' \<and> obj_get_property ready conv o'' n e' = Done (Inr v, e'')"
proof -
  let ?n = "zs_new ready n False" and ?body = "zo_body o'\<lparr>co_obj := Some t'\<rparr>"
  let ?o = "o'\<lparr>zo_body := ?body\<rparr>"
  note str = zs_new_str [OF assms(3), of ready]
  have c: "cache_ok rg n None" by (simp add: cache_ok_def)
  have b: "backed ca rg ?body t'" using assms(2) by (rule backed_update)
  have "write_property ca sa rg (zo_body o') (Some ?n) (Some z) None e = Done (Some z, ?body, None, e')"
    using assms(5,6,8) by (simp add: write_property_found [OF assms(2) str c assms(4)])
  then have "obj_set_property ready o' n (Inr z) e = Done (Inr (), ?o, e')"
    by (simp add: obj_set_property_def obj_handler_def assms(1) class_handlers_def)
  moreover have "has_property ca sa rg ?body (Some ?n) 2 None e' = Done (1, None, e')"
    by (simp add: has_property_def backed_from_zend_obj [OF b] has_internal_def resolve_property_ok [OF str c] assms(4))
  moreover have "read_property ca sa rg ?body (Some ?n) 1 None (Some zval_new) e' = Done (z', None, e'')"
    using assms(5,7,10) check_property_access_cong [OF assms(9)]
    by (simp add: read_property_found [OF b str c assms(4)])
  ultimately show ?thesis
    using b assms(11)
    by (intro exI [of _ ?o])
      (simp add: obj_get_property_def obj_has_property_def obj_handler_def assms(1) class_handlers_def property_query_code_def)
qed

theorem object_property_roundtrip_witness:
  "\<exists>o''. obj_set_property True \<lparr>zo_ce = 3, zo_handlers = Some (class_handlers demo_ca (demo_sa_tables ()) undefined (demo_class 0 None) None),
       zo_handle = 1, zo_extra_flags = 0, zo_body = \<lparr>co_obj = Some 1, co_ce = 3, co_handlers = 2\<rparr>\<rparr> ''n''
       (Inr (zval_new\<lparr>zv_value := 42, zv_type_info := IS_LONG\<rparr>)) (demo_eng 0) = Done (Inr (), o'', demo_eng 0) \<and>
     obj_get_property True (\<lambda>z. Some (zv_value z)) o'' ''n'' (demo_eng 0) = Done (Inr 42, demo_eng 0)"
proof -
  have "utf8_valid ''n''" by code_simp
  note * = object_property_roundtrip [where n = "''n''" and e = "demo_eng 0" and e' = "demo_eng 0" and e'' = "demo_eng 0" and t = 1 and t' = 42 and
      z = "zval_new\<lparr>zv_value := 42, zv_type_info := IS_LONG\<rparr>" and z' = "zval_new\<lparr>zv_value := 42, zv_type_info := IS_LONG\<rparr>" and
      o' = "\<lparr>zo_ce = 3, zo_handlers = Some (class_handlers demo_ca (demo_sa_tables ()) undefined (demo_class 0 None) None),
        zo_handle = 1, zo_extra_flags = 0, zo_body = \<lparr>co_obj = Some 1, co_ce = 3, co_handlers = 2\<rparr>\<rparr>" and
      v = "42 :: u64" and conv = "\<lambda>z. Some (zv_value z)", OF _ _ this demo_find]
  have "backed demo_ca (demo_class 0 None) \<lparr>co_obj = Some 1, co_ce = 3, co_handlers = 2\<rparr> 1" by (rule demo_backed) simp
  with * [of demo_ca "demo_sa_tables ()" undefined 0 None None] show ?thesis
    by (fastforce simp: demo_property_def check_property_access_def flags_contain_def zend_consts nulled_def zval_new_def)
qed

text \<open>Writing to a property the calling scope may not access is answered with success; the value is not written and an error is
  left pending in the engine.\<close>

theorem set_property_denied_ok:
  fixes o' :: "('t class_object, 'h, 'w) zend_object"
  assumes "zo_handlers o' = Some (class_handlers ca sa ha rg cn)" and "backed ca rg (zo_body o') t" and "utf8_valid n"
    and "find_property rg n = Some p" and "\<not> check_property_access ca (rp_flags p) (co_ce (zo_body o')) e"
    and "CHR 0x00 \<notin> set (rg_class_name rg) \<union> set n"
  shows "\<exists>m. obj_set_property ready o' n (Inr z) e = Done (Inr (), o', log_thrown (ThrownError m) e)"
proof -
  have "cache_ok rg n None" by (simp add: cache_ok_def)
  then have "\<exists>m. write_property ca sa rg (zo_body o') (Some (zs_new ready n False)) (Some z) None e =
      Done (Some z, zo_body o', None, log_thrown (ThrownError m) e)"
    using assms(5,6)
    by (simp add: write_property_found [OF assms(2) zs_new_str [OF assms(3)] _ assms(4)] throw_property_access_error_def cstring_new_def) blast
  then show ?thesis
    by (auto simp: obj_set_property_def obj_handler_def assms(1) class_handlers_def)
qed

text \<open>The hash of an object is 32 hexadecimal characters, and two objects have the same hash exactly when they have the same
  handle.\<close>

theorem object_hash_unique:
  "length (obj_hash o') = 32 \<and> (obj_hash o' = obj_hash p \<longleftrightarrow> obj_get_id o' = obj_get_id p)"
proof -
  have lt: "unat (w :: u32) < 16 ^ 16" for w
    using unsigned_less [where 'a = nat, of w] by simp
  show ?thesis
    using hex_fixed_inj [OF lt [of "zo_handle o'"] lt [of "zo_handle p"]]
    by (simp add: obj_hash_def obj_get_id_def word_eq_iff_unsigned [where 'a = nat, of "zo_handle o'" "zo_handle p"] del: hex_fixed.simps)
qed

text \<open>Initialising a lazy object settles it: afterwards a ghost is an ordinary object, which is not initialised again, and a proxy
  is initialised and hands out its instance, another object, on every further call, changing nothing.
  Either may then be made lazy again, where before it could not.\<close>

theorem lazy_init_settles:
  assumes "lazy_api_ok la" and "s a = Some o'" and "lazy_init la a s = (Some b, s')"
  shows "\<exists>p. s' a = Some p \<and> \<not> (is_lazy p \<and> \<not> is_lazy_initialized p) \<and>
    (if is_lazy_proxy o' then b \<noteq> a \<and> (\<exists>c. c \<noteq> a \<and> lazy_get_instance la a s' = (Some c, s') \<and> lazy_init la a s' = (Some c, s'))
     else b = a \<and> lazy_init la a s' = (None, s') \<and> lazy_get_instance la a s' = (None, s'))"
proof -
  from assms(2,3) have l: "is_lazy o'" "la_init la a s = (Some b, s')" by (simp_all add: lazy_init_def split: if_splits)
  from assms(1,2) l(1) have "lazy_init_law la a s o'" by (rule lazy_api_okD)
  with l(2) obtain p where p: "s' a = Some p" "if is_lazy_proxy o' then b \<noteq> a \<and> is_lazy_initialized p else b = a \<and> \<not> is_lazy p"
    by (auto simp: lazy_init_law_def split: if_splits)
  show ?thesis
  proof (cases "is_lazy_proxy o'")
    case True
    with p obtain c where "la_init la a s' = (Some c, s')" "c \<noteq> a" by (auto elim: lazy_api_ok_again [where s = s' and a = a and o' = p, OF assms(1) p(1)])
    with True p show ?thesis by (auto simp: lazy_get_instance_def lazy_init_def lazy_bits)
  next
    case False
    with p show ?thesis by (auto simp: lazy_get_instance_def lazy_init_def lazy_bits)
  qed
qed

text \<open>An engine that clears the bit of an uninitialised object; the instance of the proxy at \<open>a\<close> is at \<open>a + 1\<close>.\<close>

definition clearing_lazy_api :: "(unit, unit, unit) lazy_api" where
  "clearing_lazy_api =
     \<lparr>la_init = (\<lambda>a s. case s a of
        None \<Rightarrow> (None, s)
      | Some o' \<Rightarrow> (Some (if is_lazy_proxy o' then a + 1 else a),
          if is_lazy_initialized o' then s else s(a \<mapsto> o'\<lparr>zo_extra_flags := unset_bit 31 (zo_extra_flags o')\<rparr>))),
      la_mark = (\<lambda>a s. (Some a, s)), la_make = (\<lambda>a p s. (Some a, s)), la_can_be_lazy = (\<lambda>_. True)\<rparr>"

lemma clearing_lazy_api_ok: "lazy_api_ok clearing_lazy_api"
  by (auto simp: lazy_api_ok_def lazy_init_law_def clearing_lazy_api_def lazy_bits bit_unset_bit_iff)

theorem lazy_init_settles_witness:
  "let o' = \<lparr>zo_ce = 1, zo_handlers = None, zo_handle = 1, zo_extra_flags = IS_OBJ_LAZY_PROXY OR IS_OBJ_LAZY_UNINITIALIZED, zo_body = ()\<rparr>
   in \<exists>s' c. lazy_init clearing_lazy_api 5 [5 \<mapsto> o'] = (Some 6, s') \<and> lazy_get_instance clearing_lazy_api 5 s' = (Some c, s')"
proof -
  let ?o = "\<lparr>zo_ce = 1, zo_handlers = None, zo_handle = 1, zo_extra_flags = IS_OBJ_LAZY_PROXY OR IS_OBJ_LAZY_UNINITIALIZED, zo_body = ()\<rparr> ::
    (unit, unit, unit) zend_object"
  have l: "is_lazy_proxy ?o" by (simp add: is_lazy_proxy_def IS_OBJ_LAZY_PROXY_def IS_OBJ_LAZY_UNINITIALIZED_def)
  then have "is_lazy ?o" by (simp add: lazy_bits)
  with l obtain s' where "lazy_init clearing_lazy_api 5 [5 \<mapsto> ?o] = (Some 6, s')" by (auto simp: lazy_init_def clearing_lazy_api_def)
  with lazy_init_settles [OF clearing_lazy_api_ok _ this] l show ?thesis by auto
qed

text \<open>Moving an owned object into a fresh zval leaves its count as it was; the zval holds the object.\<close>

lemma change_type_new: "change_type api ty (h, zval_new) = (h, zval_new\<lparr>zv_type_info := ty\<rparr>)"
proof -
  have "get_type zval_new = DtNull" by code_simp
  then show ?thesis
    by (simp add: change_type_def is_string_def is_array_def is_object_def is_resource_def is_reference_def)
qed

theorem object_box_moved:
  assumes "object_box_set_zval api a (h, zval_new) = (h', z)"
  shows "zv_value z = a \<and> get_type z = DtObject None \<and> rc h' a = rc h a"
proof -
  have "get_type (zval_new\<lparr>zv_type_info := ZF_ObjectEx\<rparr>) = DtObject None" by code_simp
  with assms show ?thesis
    by (cases "h_gc h a") (auto simp: object_box_set_zval_def set_object_def change_type_new dec_count_def inc_count_def rc_def)
qed

end
