(* ===== verification/Iterators.thy ===== *)
theory Iterators
  imports HashIter ZendObj
begin

text \<open>
  \<open>src/types/iterator.rs\<close>, \<open>src/types/iterable.rs\<close>, \<open>src/zend/linked_list.rs\<close> and the tests of \<open>src/types/zval.rs\<close> for them: iterating over PHP
  objects, over either kind of iterable and over the engine's linked lists. The functions of an engine iterator are a record over
  its state, a missing one is \<open>None\<close>. What a Rust \<open>for\<close> loop needs of an iterator is the locale \<open>rust_iterator\<close>.
\<close>

section \<open>A loop over a Rust iterator\<close>

text \<open>\<open>next\<close> gets an environment and its own state; the loop collects the items. \<open>None\<close> is a loop that does not end.\<close>

partial_function (option) iter_collect ::
    "('e \<Rightarrow> 's \<Rightarrow> ('a option \<times> 's) outcome) \<Rightarrow> 'e \<Rightarrow> 's \<Rightarrow> 'a list outcome option" where
  "iter_collect nxt env s =
     (case nxt env s of
        Crash \<Rightarrow> Some Crash
      | Done (None, s') \<Rightarrow> Some (Done [])
      | Done (Some x, s') \<Rightarrow>
          Option.bind (iter_collect nxt env s') (\<lambda>r. Some (case r of Crash \<Rightarrow> Crash | Done xs \<Rightarrow> Done (x # xs))))"

text \<open>\<open>remains env s xs\<close>: the iterator still yields exactly \<open>xs\<close>.\<close>

locale rust_iterator =
  fixes nxt :: "'e \<Rightarrow> 's \<Rightarrow> ('a option \<times> 's) outcome"
    and remains :: "'e \<Rightarrow> 's \<Rightarrow> 'a list \<Rightarrow> bool"
  assumes next_none: "remains env s [] \<Longrightarrow> \<exists>s'. nxt env s = Done (None, s')"
    and next_some: "remains env s (x # xs) \<Longrightarrow> \<exists>s'. nxt env s = Done (Some x, s') \<and> remains env s' xs"
begin

lemma collect_remains: "remains env s xs \<Longrightarrow> iter_collect nxt env s = Some (Done xs)"
proof (induction xs arbitrary: s)
  case Nil
  with next_none [of env s] show ?case by (subst iter_collect.simps) auto
next
  case (Cons x xs)
  from next_some [OF Cons.prems] obtain s' where "nxt env s = Done (Some x, s')" "remains env s' xs" by blast
  with Cons.IH show ?case by (subst iter_collect.simps) simp
qed

end

section \<open>Iterators of the engine\<close>

record 's iter_funcs =
  if_valid :: "('s \<Rightarrow> bool \<times> 's) option"
  if_rewind :: "('s \<Rightarrow> 's) option"
  if_move_forward :: "('s \<Rightarrow> 's) option"
  if_current_data :: "('s \<Rightarrow> zval option \<times> 's) option"
  if_current_key :: "('s \<Rightarrow> zval \<times> 's) option"
  if_has_exception :: "'s \<Rightarrow> bool"

record 's zend_iterator =
  zi_state :: 's
  zi_index :: u64

definition zi_valid :: "'s iter_funcs \<Rightarrow> 's zend_iterator \<Rightarrow> bool \<times> 's zend_iterator" where
  "zi_valid fs zi =
     (case if_valid fs of
        None \<Rightarrow> (True, zi)
      | Some f \<Rightarrow> (let (ok, s) = f (zi_state zi) in (if if_has_exception fs s then False else ok, zi\<lparr>zi_state := s\<rparr>)))"

definition zi_rewind :: "'s iter_funcs \<Rightarrow> 's zend_iterator \<Rightarrow> bool \<times> 's zend_iterator" where
  "zi_rewind fs zi =
     (let s = (case if_rewind fs of None \<Rightarrow> zi_state zi | Some f \<Rightarrow> f (zi_state zi))
      in (\<not> if_has_exception fs s, zi\<lparr>zi_state := s\<rparr>))"

definition zi_move_forward :: "'s iter_funcs \<Rightarrow> 's zend_iterator \<Rightarrow> bool \<times> 's zend_iterator" where
  "zi_move_forward fs zi =
     (let s = (case if_move_forward fs of None \<Rightarrow> zi_state zi | Some f \<Rightarrow> f (zi_state zi))
      in (\<not> if_has_exception fs s, zi\<lparr>zi_state := s\<rparr>))"

text \<open>The pointer the engine gives is read without a test for null.\<close>

definition zi_current_data :: "'s iter_funcs \<Rightarrow> 's zend_iterator \<Rightarrow> (zval option \<times> 's zend_iterator) outcome" where
  "zi_current_data fs zi =
     (case if_current_data fs of
        None \<Rightarrow> Done (None, zi)
      | Some f \<Rightarrow>
          (case f (zi_state zi) of
             (None, s) \<Rightarrow> Crash
           | (Some v, s) \<Rightarrow> Done (if if_has_exception fs s then None else Some v, zi\<lparr>zi_state := s\<rparr>)))"

definition zi_current_key :: "'s iter_funcs \<Rightarrow> 's zend_iterator \<Rightarrow> zval option \<times> 's zend_iterator" where
  "zi_current_key fs zi =
     (case if_current_key fs of
        None \<Rightarrow> (None, zi)
      | Some f \<Rightarrow> (let (k, s) = f (zi_state zi) in (if if_has_exception fs s then None else Some k, zi\<lparr>zi_state := s\<rparr>)))"

definition zi_iter :: "'s iter_funcs \<Rightarrow> 's zend_iterator \<Rightarrow> 's zend_iterator option" where
  "zi_iter fs zi = (case zi_rewind fs (zi\<lparr>zi_index := 0\<rparr>) of (True, zi) \<Rightarrow> Some zi | (False, zi) \<Rightarrow> None)"

text \<open>The zval of an integer key, as \<open>set_long\<close> makes it of a new zval.\<close>

definition long_zval :: "int \<Rightarrow> zval" where
  "long_zval i = zval_new\<lparr>zv_value := word_of_int i, zv_type_info := IS_LONG\<rparr>"

text \<open>\<open>Iter::next\<close>. The index is a machine word; \<open>Crash\<close> is also the panic on an index beyond \<open>i64\<close>.\<close>

definition zi_next :: "'s iter_funcs \<Rightarrow> 's zend_iterator \<Rightarrow> ((zval \<times> zval) option \<times> 's zend_iterator) outcome" where
  "zi_next fs zi =
     (let (moved, zi) = (if 0 < zi_index zi then zi_move_forward fs zi else (True, zi))
      in if \<not> moved then Done (None, zi)
         else let (ok, zi) = zi_valid fs zi
              in if \<not> ok then Done (None, zi)
                 else let zi = zi\<lparr>zi_index := zi_index zi + 1\<rparr>; real_index = unat (zi_index zi - 1)
                      in if 2 ^ 63 \<le> real_index then Crash
                         else let (k, zi) = zi_current_key fs zi;
                                  key = (case k of None \<Rightarrow> long_zval (int real_index) | Some key \<Rightarrow> key)
                              in case zi_current_data fs zi of
                                   Crash \<Rightarrow> Crash
                                 | Done (v, zi) \<Rightarrow> Done (map_option (Pair key) v, zi))"

section \<open>Iterables\<close>

datatype ('h, 's) iterable = IterableArray 'h | IterableTraversable "'s zend_iterator"

datatype ('h, 's) iterable_iter = IterArray "'h ht_iter" | IterTraversable "'s zend_iterator"

text \<open>The functions behind both kinds: the table, its cursors, the zval of a key, and the iterator of the object.\<close>

record ('h, 's) iter_env =
  ie_hash :: "('h, zval) hash_api"
  ie_cursor :: "('h, zval) iter_api"
  ie_key :: "hkey \<Rightarrow> zval"
  ie_funcs :: "'s iter_funcs"

definition iterable_iter_of :: "('h, 's) iter_env \<Rightarrow> ('h, 's) iterable \<Rightarrow> ('h, 's) iterable_iter option" where
  "iterable_iter_of env it =
     (case it of
        IterableArray h \<Rightarrow> Some (IterArray (iter_new (ie_hash env) (ie_cursor env) h))
      | IterableTraversable zi \<Rightarrow> map_option IterTraversable (zi_iter (ie_funcs env) zi))"

definition iterable_next ::
    "('h, 's) iter_env \<Rightarrow> ('h, 's) iterable_iter \<Rightarrow> ((zval \<times> zval) option \<times> ('h, 's) iterable_iter) outcome" where
  "iterable_next env it =
     (case it of
        IterArray a \<Rightarrow>
          (let (r, a) = next_zval (ie_cursor env) a in Done (map_option (\<lambda>(k, v). (ie_key env k, v)) r, IterArray a))
      | IterTraversable zi \<Rightarrow>
          (case zi_next (ie_funcs env) zi of Crash \<Rightarrow> Crash | Done (r, zi) \<Rightarrow> Done (r, IterTraversable zi)))"

text \<open>\<open>Zval::is_traversable\<close>, \<open>Zval::traversable\<close> and \<open>Iterable::from_zval\<close>. \<open>get_iterator\<close> is the function of a class entry, which the engine
  expects to be called with the zval of an object.\<close>

definition zval_is_traversable :: "ce_api \<Rightarrow> nat \<Rightarrow> ('o \<Rightarrow> nat) \<Rightarrow> ('h, 'o) zheap \<Rightarrow> zval \<Rightarrow> bool" where
  "zval_is_traversable ca traversable ce_of h z =
     (case zv_object h z of None \<Rightarrow> False | Some obj \<Rightarrow> instance_of ca (ce_of obj) traversable)"

definition ce_get_iterator :: "(nat \<Rightarrow> (nat \<Rightarrow> zval \<Rightarrow> bool \<Rightarrow> 'i option) option) \<Rightarrow> nat \<Rightarrow> zval \<Rightarrow> bool \<Rightarrow> 'i option" where
  "ce_get_iterator get_iterator ce z by_ref = (case get_iterator ce of None \<Rightarrow> None | Some f \<Rightarrow> f ce z by_ref)"

definition zval_traversable ::
    "ce_api \<Rightarrow> nat \<Rightarrow> ('o \<Rightarrow> nat) \<Rightarrow> (nat \<Rightarrow> (nat \<Rightarrow> zval \<Rightarrow> bool \<Rightarrow> 'i option) option) \<Rightarrow> ('h, 'o) zheap \<Rightarrow> zval \<Rightarrow> 'i option" where
  "zval_traversable ca traversable ce_of get_iterator h z =
     (if zval_is_traversable ca traversable ce_of h z
      then (case zv_object h z of None \<Rightarrow> None | Some obj \<Rightarrow> ce_get_iterator get_iterator (ce_of obj) z False)
      else None)"

definition iterable_from_zval ::
    "ce_api \<Rightarrow> nat \<Rightarrow> ('o \<Rightarrow> nat) \<Rightarrow> (nat \<Rightarrow> (nat \<Rightarrow> zval \<Rightarrow> bool \<Rightarrow> 's zend_iterator option) option) \<Rightarrow> ('h, 'o) zheap \<Rightarrow> zval \<Rightarrow>
     ('h, 's) iterable option" where
  "iterable_from_zval ca traversable ce_of get_iterator h z =
     (case zv_array h z of
        Some a \<Rightarrow> Some (IterableArray a)
      | None \<Rightarrow> map_option IterableTraversable (zval_traversable ca traversable ce_of get_iterator h z))"

section \<open>Linked lists\<close>

text \<open>The elements by address, each with its data and the address of the next; 0 is null.\<close>

definition llist_next :: "(nat \<rightharpoonup> 'a \<times> nat) \<Rightarrow> nat \<Rightarrow> ('a option \<times> nat) outcome" where
  "llist_next elems pos =
     (if pos = 0 then Done (None, pos)
      else case elems pos of None \<Rightarrow> Crash | Some (x, nxt) \<Rightarrow> Done (Some x, nxt))"

fun llist_chain :: "(nat \<rightharpoonup> 'a \<times> nat) \<Rightarrow> nat \<Rightarrow> 'a list \<Rightarrow> bool" where
  "llist_chain elems pos [] \<longleftrightarrow> pos = 0"
| "llist_chain elems pos (x # xs) \<longleftrightarrow> pos \<noteq> 0 \<and> (\<exists>nxt. elems pos = Some (x, nxt) \<and> llist_chain elems nxt xs)"

interpretation llist: rust_iterator llist_next llist_chain
  by unfold_locales (auto simp: llist_next_def)

section \<open>What the engine promises of an iterator\<close>

text \<open>While its invariant holds, an engine iterator stands before a list of keys and values; asking for the key or the value leaves it
  there, moving forward drops the first. When \<open>wk_throws\<close>, moving past the last element throws.\<close>

record 's walk =
  wk_inv :: "'s \<Rightarrow> bool"
  wk_rest :: "'s \<Rightarrow> (zval \<times> zval) list"
  wk_throws :: "'s \<Rightarrow> bool"

definition walk_same :: "'s walk \<Rightarrow> 's \<Rightarrow> 's \<Rightarrow> bool" where
  "walk_same w s s' \<longleftrightarrow> wk_inv w s' \<and> wk_rest w s' = wk_rest w s \<and> wk_throws w s' = wk_throws w s"

definition walks :: "'s iter_funcs \<Rightarrow> 's walk \<Rightarrow> bool" where
  "walks fs w \<longleftrightarrow>
     (\<forall>s. wk_inv w s \<longrightarrow> \<not> if_has_exception fs s) \<and>
     (\<exists>f. if_valid fs = Some f \<and> (\<forall>s. wk_inv w s \<longrightarrow> (\<exists>s'. f s = (wk_rest w s \<noteq> [], s') \<and> walk_same w s s'))) \<and>
     (\<exists>f. if_current_key fs = Some f \<and> (\<forall>s. wk_inv w s \<longrightarrow> wk_rest w s \<noteq> [] \<longrightarrow> (\<exists>s'. f s = (fst (hd (wk_rest w s)), s') \<and> walk_same w s s'))) \<and>
     (\<exists>f. if_current_data fs = Some f \<and>
        (\<forall>s. wk_inv w s \<longrightarrow> wk_rest w s \<noteq> [] \<longrightarrow> (\<exists>s'. f s = (Some (snd (hd (wk_rest w s))), s') \<and> walk_same w s s'))) \<and>
     (\<exists>f. if_move_forward fs = Some f \<and>
        (\<forall>s. wk_inv w s \<longrightarrow> wk_rest w s \<noteq> [] \<longrightarrow>
           (if tl (wk_rest w s) = [] \<and> wk_throws w s then if_has_exception fs (f s)
            else wk_inv w (f s) \<and> wk_rest w (f s) = tl (wk_rest w s) \<and> wk_throws w (f s) = wk_throws w s)))"

text \<open>What a Rust iterator over it still yields: before the first step everything, after it what comes behind the current element.\<close>

definition trav_remains :: "'s iter_funcs \<Rightarrow> 's zend_iterator \<Rightarrow> (zval \<times> zval) list \<Rightarrow> bool" where
  "trav_remains fs zi xs \<longleftrightarrow>
     (\<exists>w. walks fs w \<and> wk_inv w (zi_state zi) \<and> unat (zi_index zi) + length xs < 2 ^ 63 \<and>
        (if zi_index zi = 0 then wk_rest w (zi_state zi) = xs
         else wk_rest w (zi_state zi) \<noteq> [] \<and> tl (wk_rest w (zi_state zi)) = xs))"

lemma walksD:
  assumes "walks fs w" "wk_inv w s"
  shows "\<not> if_has_exception fs s"
    and "\<exists>s'. zi_valid fs \<lparr>zi_state = s, zi_index = i\<rparr> = (wk_rest w s \<noteq> [], \<lparr>zi_state = s', zi_index = i\<rparr>) \<and> walk_same w s s'"
    and "wk_rest w s = (k, v) # xs \<Longrightarrow>
      \<exists>s'. zi_current_key fs \<lparr>zi_state = s, zi_index = i\<rparr> = (Some k, \<lparr>zi_state = s', zi_index = i\<rparr>) \<and> walk_same w s s'"
    and "wk_rest w s = (k, v) # xs \<Longrightarrow>
      \<exists>s'. zi_current_data fs \<lparr>zi_state = s, zi_index = i\<rparr> = Done (Some v, \<lparr>zi_state = s', zi_index = i\<rparr>) \<and> walk_same w s s'"
    and "wk_rest w s = x # xs \<Longrightarrow> \<not> (xs = [] \<and> wk_throws w s) \<Longrightarrow>
      \<exists>s'. zi_move_forward fs \<lparr>zi_state = s, zi_index = i\<rparr> = (True, \<lparr>zi_state = s', zi_index = i\<rparr>) \<and> wk_inv w s' \<and> wk_rest w s' = xs"
    and "wk_rest w s = [x] \<Longrightarrow> wk_throws w s \<Longrightarrow> \<exists>zi. zi_move_forward fs \<lparr>zi_state = s, zi_index = i\<rparr> = (False, zi)"
proof -
  note laws = assms(1) [unfolded walks_def]
  from laws have ex: "wk_inv w s' \<Longrightarrow> \<not> if_has_exception fs s'" for s' by blast
  from ex assms(2) show "\<not> if_has_exception fs s" by blast
  from laws obtain f where "if_valid fs = Some f" "\<forall>s. wk_inv w s \<longrightarrow> (\<exists>s'. f s = (wk_rest w s \<noteq> [], s') \<and> walk_same w s s')" by blast
  with assms(2) ex show "\<exists>s'. zi_valid fs \<lparr>zi_state = s, zi_index = i\<rparr> = (wk_rest w s \<noteq> [], \<lparr>zi_state = s', zi_index = i\<rparr>) \<and> walk_same w s s'"
    by (fastforce simp: zi_valid_def walk_same_def)
  from laws obtain f where "if_current_key fs = Some f"
    "\<forall>s. wk_inv w s \<longrightarrow> wk_rest w s \<noteq> [] \<longrightarrow> (\<exists>s'. f s = (fst (hd (wk_rest w s)), s') \<and> walk_same w s s')" by blast
  with assms(2) ex show "wk_rest w s = (k, v) # xs \<Longrightarrow>
      \<exists>s'. zi_current_key fs \<lparr>zi_state = s, zi_index = i\<rparr> = (Some k, \<lparr>zi_state = s', zi_index = i\<rparr>) \<and> walk_same w s s'"
    by (fastforce simp: zi_current_key_def walk_same_def)
  from laws obtain f where "if_current_data fs = Some f"
    "\<forall>s. wk_inv w s \<longrightarrow> wk_rest w s \<noteq> [] \<longrightarrow> (\<exists>s'. f s = (Some (snd (hd (wk_rest w s))), s') \<and> walk_same w s s')" by blast
  with assms(2) ex show "wk_rest w s = (k, v) # xs \<Longrightarrow>
      \<exists>s'. zi_current_data fs \<lparr>zi_state = s, zi_index = i\<rparr> = Done (Some v, \<lparr>zi_state = s', zi_index = i\<rparr>) \<and> walk_same w s s'"
    by (fastforce simp: zi_current_data_def walk_same_def)
  from laws obtain f where f: "if_move_forward fs = Some f"
    "\<forall>s. wk_inv w s \<longrightarrow> wk_rest w s \<noteq> [] \<longrightarrow>
       (if tl (wk_rest w s) = [] \<and> wk_throws w s then if_has_exception fs (f s)
        else wk_inv w (f s) \<and> wk_rest w (f s) = tl (wk_rest w s) \<and> wk_throws w (f s) = wk_throws w s)" by blast
  from f assms(2) ex show "wk_rest w s = x # xs \<Longrightarrow> \<not> (xs = [] \<and> wk_throws w s) \<Longrightarrow>
      \<exists>s'. zi_move_forward fs \<lparr>zi_state = s, zi_index = i\<rparr> = (True, \<lparr>zi_state = s', zi_index = i\<rparr>) \<and> wk_inv w s' \<and> wk_rest w s' = xs"
    by (force simp: zi_move_forward_def)
  from f assms(2) show "wk_rest w s = [x] \<Longrightarrow> wk_throws w s \<Longrightarrow> \<exists>zi. zi_move_forward fs \<lparr>zi_state = s, zi_index = i\<rparr> = (False, zi)"
    by (force simp: zi_move_forward_def)
qed

text \<open>A step, once the iterator has moved.\<close>

definition zi_take :: "'s iter_funcs \<Rightarrow> 's zend_iterator \<Rightarrow> ((zval \<times> zval) option \<times> 's zend_iterator) outcome" where
  "zi_take fs zi =
     (let (ok, zi) = zi_valid fs zi
      in if \<not> ok then Done (None, zi)
         else let zi = zi\<lparr>zi_index := zi_index zi + 1\<rparr>; real_index = unat (zi_index zi - 1)
              in if 2 ^ 63 \<le> real_index then Crash
                 else let (k, zi) = zi_current_key fs zi;
                          key = (case k of None \<Rightarrow> long_zval (int real_index) | Some key \<Rightarrow> key)
                      in case zi_current_data fs zi of
                           Crash \<Rightarrow> Crash
                         | Done (v, zi) \<Rightarrow> Done (map_option (Pair key) v, zi))"

lemma zi_next_take:
  "zi_next fs zi =
     (if 0 < zi_index zi then (case zi_move_forward fs zi of (True, zi) \<Rightarrow> zi_take fs zi | (False, zi) \<Rightarrow> Done (None, zi))
      else zi_take fs zi)"
  by (simp add: zi_next_def zi_take_def split: prod.split bool.split)

lemma zi_take_walk:
  assumes "walks fs w" "wk_inv w s" "unat i < 2 ^ 63"
  shows "case wk_rest w s of
      [] \<Rightarrow> \<exists>zi. zi_take fs \<lparr>zi_state = s, zi_index = i\<rparr> = Done (None, zi)
    | x # xs \<Rightarrow> \<exists>s'. zi_take fs \<lparr>zi_state = s, zi_index = i\<rparr> = Done (Some x, \<lparr>zi_state = s', zi_index = i + 1\<rparr>) \<and>
        wk_inv w s' \<and> wk_rest w s' = x # xs"
proof -
  from walksD(2) [OF assms(1,2)] obtain s1
    where v: "zi_valid fs \<lparr>zi_state = s, zi_index = i\<rparr> = (wk_rest w s \<noteq> [], \<lparr>zi_state = s1, zi_index = i\<rparr>)" "walk_same w s s1"
    by blast
  show ?thesis
  proof (cases "wk_rest w s")
    case Nil
    with v show ?thesis by (simp add: zi_take_def)
  next
    case (Cons x xs)
    obtain k d where x: "x = (k, d)" by (cases x)
    from v(2) Cons x have s1: "wk_inv w s1" "wk_rest w s1 = (k, d) # xs" by (simp_all add: walk_same_def)
    from walksD(3) [OF assms(1) s1] obtain s2
      where kk: "zi_current_key fs \<lparr>zi_state = s1, zi_index = i + 1\<rparr> = (Some k, \<lparr>zi_state = s2, zi_index = i + 1\<rparr>)" "walk_same w s1 s2"
      by blast
    from kk(2) s1 have s2: "wk_inv w s2" "wk_rest w s2 = (k, d) # xs" by (simp_all add: walk_same_def)
    from walksD(4) [OF assms(1) s2] obtain s3
      where "zi_current_data fs \<lparr>zi_state = s2, zi_index = i + 1\<rparr> = Done (Some d, \<lparr>zi_state = s3, zi_index = i + 1\<rparr>)" "walk_same w s2 s3"
      by blast
    with v(1) kk(1) s2 Cons x assms(3) show ?thesis by (simp add: zi_take_def walk_same_def)
  qed
qed

lemma trav_next_none:
  assumes "trav_remains fs zi []"
  shows "\<exists>zi'. zi_next fs zi = Done (None, zi')"
proof -
  obtain s i where zi: "zi = \<lparr>zi_state = s, zi_index = i\<rparr>" by (cases zi)
  from assms obtain w where w: "walks fs w" "wk_inv w s" "unat i < 2 ^ 63"
    and r: "if i = 0 then wk_rest w s = [] else wk_rest w s \<noteq> [] \<and> tl (wk_rest w s) = []"
    by (auto simp: trav_remains_def zi split: if_splits)
  show ?thesis
  proof (cases "i = 0")
    case True
    with r zi_take_walk [OF w] show ?thesis by (simp add: zi zi_next_take)
  next
    case False
    with r obtain x where x: "wk_rest w s = [x]" by (cases "wk_rest w s") auto
    have "0 < i" using False by (simp add: word_gt_0)
    show ?thesis
    proof (cases "wk_throws w s")
      case True
      from walksD(6) [OF w(1,2) x True, of i] obtain zi' where "zi_move_forward fs \<lparr>zi_state = s, zi_index = i\<rparr> = (False, zi')" by blast
      with \<open>0 < i\<close> show ?thesis by (simp add: zi zi_next_take)
    next
      case False
      from walksD(5) [OF w(1,2) x, of i] False obtain s'
        where m: "zi_move_forward fs \<lparr>zi_state = s, zi_index = i\<rparr> = (True, \<lparr>zi_state = s', zi_index = i\<rparr>)" "wk_inv w s'" "wk_rest w s' = []"
        by auto
      from zi_take_walk [OF w(1) m(2) w(3)] m(1,3) \<open>0 < i\<close> show ?thesis by (simp add: zi zi_next_take)
    qed
  qed
qed

lemma trav_next_some:
  assumes "trav_remains fs zi (x # xs)"
  shows "\<exists>zi'. zi_next fs zi = Done (Some x, zi') \<and> trav_remains fs zi' xs"
proof -
  obtain s i where zi: "zi = \<lparr>zi_state = s, zi_index = i\<rparr>" by (cases zi)
  from assms obtain w where w: "walks fs w" "wk_inv w s" "unat i + length (x # xs) < 2 ^ 63"
    and r: "if i = 0 then wk_rest w s = x # xs else \<exists>y. wk_rest w s = y # x # xs"
    by (fastforce simp: trav_remains_def zi neq_Nil_conv split: if_splits)
  have i: "unat (i + 1) = Suc (unat i)" "i + 1 \<noteq> 0" "unat i < 2 ^ 63"
  proof -
    show "unat i < 2 ^ 63" using w(3) by simp
    then show "unat (i + 1) = Suc (unat i)" by (simp add: unat_word_ariths)
    then show "i + 1 \<noteq> 0" by auto
  qed
  have "\<exists>s1. zi_next fs zi = zi_take fs \<lparr>zi_state = s1, zi_index = i\<rparr> \<and> wk_inv w s1 \<and> wk_rest w s1 = x # xs"
  proof (cases "i = 0")
    case True
    with r w(2) show ?thesis by (auto simp: zi zi_next_take)
  next
    case False
    with r obtain y where "wk_rest w s = y # x # xs" by auto
    from walksD(5) [OF w(1,2) this, of i] False show ?thesis by (auto simp: zi zi_next_take word_gt_0)
  qed
  then obtain s1 where s1: "zi_next fs zi = zi_take fs \<lparr>zi_state = s1, zi_index = i\<rparr>" "wk_inv w s1" "wk_rest w s1 = x # xs" by blast
  from zi_take_walk [OF w(1) s1(2) i(3)] s1(1,3) obtain s'
    where s': "zi_next fs zi = Done (Some x, \<lparr>zi_state = s', zi_index = i + 1\<rparr>)" "wk_inv w s'" "wk_rest w s' = x # xs" by auto
  with w i have "trav_remains fs \<lparr>zi_state = s', zi_index = i + 1\<rparr> xs"
    unfolding trav_remains_def by (intro exI [of _ w]) simp
  with s'(1) show ?thesis by blast
qed

interpretation trav: rust_iterator zi_next trav_remains
  by unfold_locales (fact trav_next_none, fact trav_next_some)

section \<open>Both kinds of iterable\<close>

fun iterable_remains :: "('h, 's) iter_env \<Rightarrow> ('h, 's) iterable_iter \<Rightarrow> (zval \<times> zval) list \<Rightarrow> bool" where
  "iterable_remains env (IterArray it) xs \<longleftrightarrow>
     (\<exists>V slots. iter_api_ok (ie_cursor env) V slots \<and> hv_inv V (it_ht it) \<and>
        it_end_num it - it_current_num it = int (length (it_rest slots it)) \<and>
        xs = map (\<lambda>(k, v). (ie_key env k, v)) (it_rest slots it))"
| "iterable_remains env (IterTraversable zi) xs \<longleftrightarrow> trav_remains (ie_funcs env) zi xs"

lemma array_next_none:
  assumes "iterable_remains env (IterArray it) []"
  shows "\<exists>it'. iterable_next env (IterArray it) = Done (None, it')"
  using assms by (auto simp: iterable_next_def dest: next_zval_rest)

lemma array_next_some:
  assumes "iterable_remains env (IterArray it) (x # xs)"
  shows "\<exists>it'. iterable_next env (IterArray it) = Done (Some x, it') \<and> iterable_remains env it' xs"
proof -
  from assms obtain V slots k v es where c: "iter_api_ok (ie_cursor env) V slots" "hv_inv V (it_ht it)"
      "it_end_num it - it_current_num it = int (length (it_rest slots it))"
    and r: "it_rest slots it = (k, v) # es" "x = (ie_key env k, v)" "xs = map (\<lambda>(k, v). (ie_key env k, v)) es"
    by auto
  from next_zval_rest [OF c] r(1) obtain it' where it': "next_zval (ie_cursor env) it = (Some (k, v), it')" "it_ht it' = it_ht it"
    "it_rest slots it' = es" "it_end_num it' - it_current_num it' = int (length es)" by auto
  from c it'(2-4) r(3) have "iterable_remains env (IterArray it') xs" by (auto intro!: exI [of _ V] exI [of _ slots])
  with it'(1) r(2) show ?thesis by (auto simp: iterable_next_def)
qed

interpretation iterable: rust_iterator iterable_next iterable_remains
proof
  fix env :: "('h, 's) iter_env" and it
  assume "iterable_remains env it []"
  then show "\<exists>it'. iterable_next env it = Done (None, it')"
  proof (cases it)
    case (IterArray a)
    with \<open>iterable_remains env it []\<close> show ?thesis using array_next_none by blast
  next
    case (IterTraversable zi)
    with \<open>iterable_remains env it []\<close> have "trav_remains (ie_funcs env) zi []" by simp
    from trav.next_none [OF this] show ?thesis by (auto simp: IterTraversable iterable_next_def)
  qed
next
  fix env :: "('h, 's) iter_env" and it x xs
  assume "iterable_remains env it (x # xs)"
  then show "\<exists>it'. iterable_next env it = Done (Some x, it') \<and> iterable_remains env it' xs"
  proof (cases it)
    case (IterArray a)
    with \<open>iterable_remains env it (x # xs)\<close> show ?thesis using array_next_some by blast
  next
    case (IterTraversable zi)
    with \<open>iterable_remains env it (x # xs)\<close> have "trav_remains (ie_funcs env) zi (x # xs)" by simp
    from trav.next_some [OF this] show ?thesis by (auto simp: IterTraversable iterable_next_def)
  qed
qed

lemma iterable_array_remains:
  assumes "hash_api_ok (ie_hash env) V" and "iter_api_ok (ie_cursor env) V slots" and "hv_inv V h"
  shows "iterable_remains env (IterArray (iter_new (ie_hash env) (ie_cursor env) h)) (map (\<lambda>(k, v). (ie_key env k, v)) (hv_ent V h))"
proof -
  have "it_rest slots (iter_new (ie_hash env) (ie_cursor env) h) = hv_ent V h"
    using assms(2,3) by (simp add: iter_new_def it_rest_def iter_api_ok_def)
  with assms ht_get_view(4) [OF assms(1,3)] show ?thesis
    by (auto simp: iter_new_def intro!: exI [of _ V] exI [of _ slots])
qed

text \<open>Rewinding starts a walk over all elements.\<close>

lemma iterable_trav_remains:
  assumes "walks (ie_funcs env) w" and "if_rewind (ie_funcs env) = Some rewind" and "wk_inv w (rewind (zi_state zi))"
    and "length (wk_rest w (rewind (zi_state zi))) < 2 ^ 63"
  shows "\<exists>it. iterable_iter_of env (IterableTraversable zi) = Some it \<and> iterable_remains env it (wk_rest w (rewind (zi_state zi)))"
proof -
  let ?zi = "zi\<lparr>zi_index := 0, zi_state := rewind (zi_state zi)\<rparr>"
  have "zi_iter (ie_funcs env) zi = Some ?zi"
    using walksD(1) [OF assms(1,3)] by (simp add: zi_iter_def zi_rewind_def assms(2))
  moreover have "trav_remains (ie_funcs env) ?zi (wk_rest w (rewind (zi_state zi)))"
    unfolding trav_remains_def using assms by (intro exI [of _ w]) simp
  ultimately show ?thesis by (auto simp: iterable_iter_of_def)
qed

section \<open>Properties\<close>

text \<open>C18. A loop over a PHP iterable ends and sees every key and value once, in order: for an array its entries, for a traversable
  object whatever the iterator walks over after it was rewound, also when moving past the last element throws.\<close>

theorem iterable_loop_complete:
  shows "(hash_api_ok (ie_hash env) V \<and> iter_api_ok (ie_cursor env) V slots \<and> hv_inv V h \<longrightarrow>
      (\<exists>it. iterable_iter_of env (IterableArray h) = Some it \<and>
         iter_collect iterable_next env it = Some (Done (map (\<lambda>(k, v). (ie_key env k, v)) (hv_ent V h))))) \<and>
    (walks (ie_funcs env) w \<and> if_rewind (ie_funcs env) = Some rewind \<and> wk_inv w (rewind (zi_state zi)) \<and>
       length (wk_rest w (rewind (zi_state zi))) < 2 ^ 63 \<longrightarrow>
      (\<exists>it. iterable_iter_of env (IterableTraversable zi) = Some it \<and>
         iter_collect iterable_next env it = Some (Done (wk_rest w (rewind (zi_state zi))))))"
proof (intro conjI impI)
  assume "hash_api_ok (ie_hash env) V \<and> iter_api_ok (ie_cursor env) V slots \<and> hv_inv V h"
  then show "\<exists>it. iterable_iter_of env (IterableArray h) = Some it \<and>
      iter_collect iterable_next env it = Some (Done (map (\<lambda>(k, v). (ie_key env k, v)) (hv_ent V h)))"
    using iterable.collect_remains [OF iterable_array_remains, of env V slots h] by (simp add: iterable_iter_of_def)
next
  assume "walks (ie_funcs env) w \<and> if_rewind (ie_funcs env) = Some rewind \<and> wk_inv w (rewind (zi_state zi)) \<and>
       length (wk_rest w (rewind (zi_state zi))) < 2 ^ 63"
  then obtain it where "iterable_iter_of env (IterableTraversable zi) = Some it"
    "iterable_remains env it (wk_rest w (rewind (zi_state zi)))"
    using iterable_trav_remains by blast
  then show "\<exists>it. iterable_iter_of env (IterableTraversable zi) = Some it \<and>
      iter_collect iterable_next env it = Some (Done (wk_rest w (rewind (zi_state zi))))"
    using iterable.collect_remains by blast
qed

text \<open>A generator-like iterator: the list it was made from, what is left of it, and a pending exception; it throws after the last
  element.\<close>

definition list_funcs :: "(zval list \<times> zval list \<times> bool) iter_funcs" where
  "list_funcs =
     \<lparr>if_valid = Some (\<lambda>(all, rest, ex). (rest \<noteq> [], (all, rest, ex))),
      if_rewind = Some (\<lambda>(all, rest, ex). (all, all, False)),
      if_move_forward = Some (\<lambda>(all, rest, ex). (all, tl rest, ex \<or> tl rest = [])),
      if_current_data = Some (\<lambda>(all, rest, ex). (case rest of [] \<Rightarrow> None | v # _ \<Rightarrow> Some v, (all, rest, ex))),
      if_current_key = Some (\<lambda>(all, rest, ex). (long_zval (int (length all - length rest)), (all, rest, ex))),
      if_has_exception = (\<lambda>(all, rest, ex). ex)\<rparr>"

definition list_walk :: "(zval list \<times> zval list \<times> bool) walk" where
  "list_walk =
     \<lparr>wk_inv = (\<lambda>(all, rest, ex). \<not> ex \<and> length rest \<le> length all),
      wk_rest = (\<lambda>(all, rest, ex). map (\<lambda>(i, v). (long_zval (int i), v)) (enumerate (length all - length rest) rest)),
      wk_throws = (\<lambda>_. True)\<rparr>"

lemma enumerate_eq_Nil_iff [simp]: "enumerate n xs = [] \<longleftrightarrow> xs = []"
  by (cases xs) auto

lemma list_walks: "walks list_funcs list_walk"
  unfolding walks_def
proof (intro conjI)
  show "\<exists>f. if_current_data list_funcs = Some f \<and>
      (\<forall>s. wk_inv list_walk s \<longrightarrow> wk_rest list_walk s \<noteq> [] \<longrightarrow>
         (\<exists>s'. f s = (Some (snd (hd (wk_rest list_walk s))), s') \<and> walk_same list_walk s s'))"
    by (auto simp: list_funcs_def list_walk_def walk_same_def split: list.split)
  show "\<exists>f. if_current_key list_funcs = Some f \<and>
      (\<forall>s. wk_inv list_walk s \<longrightarrow> wk_rest list_walk s \<noteq> [] \<longrightarrow>
         (\<exists>s'. f s = (fst (hd (wk_rest list_walk s)), s') \<and> walk_same list_walk s s'))"
  proof (intro exI conjI allI impI)
    show "if_current_key list_funcs = Some (\<lambda>(all, rest, ex). (long_zval (int (length all - length rest)), (all, rest, ex)))"
      by (simp add: list_funcs_def)
    fix s
    assume "wk_inv list_walk s" "wk_rest list_walk s \<noteq> []"
    then show "(case s of (all, rest, ex) \<Rightarrow> (long_zval (int (length all - length rest)), (all, rest, ex))) = (fst (hd (wk_rest list_walk s)), s)"
      "walk_same list_walk s s"
      by (cases "fst (snd s)"; auto simp: list_walk_def walk_same_def of_nat_diff)+
  qed
  show "\<exists>f. if_move_forward list_funcs = Some f \<and>
      (\<forall>s. wk_inv list_walk s \<longrightarrow> wk_rest list_walk s \<noteq> [] \<longrightarrow>
         (if tl (wk_rest list_walk s) = [] \<and> wk_throws list_walk s then if_has_exception list_funcs (f s)
          else wk_inv list_walk (f s) \<and> wk_rest list_walk (f s) = tl (wk_rest list_walk s) \<and>
            wk_throws list_walk (f s) = wk_throws list_walk s))"
  proof (intro exI conjI allI impI)
    show "if_move_forward list_funcs = Some (\<lambda>(all, rest, ex). (all, tl rest, ex \<or> tl rest = []))" by (simp add: list_funcs_def)
    fix s :: "zval list \<times> zval list \<times> bool"
    let ?f = "\<lambda>(all, rest, ex). (all, tl rest, ex \<or> tl rest = [])"
    assume "wk_inv list_walk s" "wk_rest list_walk s \<noteq> []"
    then obtain l v vs where s: "s = (l, v # vs, False)" "Suc (length vs) \<le> length l"
      by (cases s; cases "fst (snd s)") (auto simp: list_walk_def)
    then have "length l - length vs = Suc (length l - Suc (length vs))" by simp
    with s show "if tl (wk_rest list_walk s) = [] \<and> wk_throws list_walk s then if_has_exception list_funcs (?f s)
        else wk_inv list_walk (?f s) \<and> wk_rest list_walk (?f s) = tl (wk_rest list_walk s) \<and> wk_throws list_walk (?f s) = wk_throws list_walk s"
      by (cases vs) (auto simp: list_walk_def list_funcs_def)
  qed
qed (auto simp: list_funcs_def list_walk_def walk_same_def)

theorem iterable_loop_complete_witness:
  "\<exists>it. iterable_iter_of \<lparr>ie_hash = list_api, ie_cursor = slots_api (\<lambda>h. map Some (fst h)), ie_key = undefined, ie_funcs = list_funcs\<rparr>
       (IterableTraversable \<lparr>zi_state = ([long_zval 7, long_zval 8], [], True), zi_index = 5\<rparr>) = Some it \<and>
     iter_collect iterable_next \<lparr>ie_hash = list_api, ie_cursor = slots_api (\<lambda>h. map Some (fst h)), ie_key = undefined, ie_funcs = list_funcs\<rparr> it =
       Some (Done [(long_zval 0, long_zval 7), (long_zval 1, long_zval 8)])"
  using conjunct2 [OF iterable_loop_complete [of "\<lparr>ie_hash = list_api, ie_cursor = slots_api (\<lambda>h. map Some (fst h)), ie_key = undefined, ie_funcs = list_funcs\<rparr>"
      list_view _ _ list_walk "\<lambda>(all, rest, ex). (all, all, False)" "\<lparr>zi_state = ([long_zval 7, long_zval 8], [], True), zi_index = 5\<rparr>"]] list_walks
  by (simp add: list_walk_def) (simp add: list_funcs_def)

text \<open>The iterator of a traversable object behind a reference is asked of the engine with the reference itself, not with the object:
  the engine is handed a zval that is not an object.\<close>

theorem traversable_of_reference:
  assumes "is_reference z" and "zv_object h z = Some obj" and "instance_of ca (ce_of obj) traversable"
  shows "zval_traversable ca traversable ce_of get_iterator h z = ce_get_iterator get_iterator (ce_of obj) z False \<and> \<not> is_object z"
  using assms by (simp add: zval_traversable_def zval_is_traversable_def is_reference_def is_object_def)

text \<open>A loop over a linked list ends with its elements.\<close>

theorem llist_loop_complete: "llist_chain elems pos xs \<Longrightarrow> iter_collect llist_next elems pos = Some (Done xs)"
  by (rule llist.collect_remains)

end
