(* ===== verification/Callables.thy ===== *)
theory Callables
  imports HashIter ObjHandlers
begin

text \<open>
  \<open>src/types/callable.rs\<close>, \<open>src/closure.rs\<close> and \<open>src/zend/ex.rs\<close>: calling PHP from Rust, Rust closures called from PHP, and the arguments in the
  engine's call frame. The engine's call is a function of a record; a frame is memory by byte address.
\<close>

section \<open>Calling a PHP callable\<close>

record ('h, 'w) call_api =
  cl_is_callable :: "zval \<Rightarrow> 'w \<Rightarrow> bool"
  cl_call :: "zval \<Rightarrow> zval list \<Rightarrow> 'h option \<Rightarrow> 'w \<Rightarrow> int \<times> zval \<times> 'w"
  cl_take_exception :: "'w \<Rightarrow> nat option \<times> 'w"

datatype owned_zval = BorrowedZval zval | OwnedZval zval

definition owned_as_ref :: "owned_zval \<Rightarrow> zval" where
  "owned_as_ref o' = (case o' of BorrowedZval z \<Rightarrow> z | OwnedZval z \<Rightarrow> z)"

definition callable_new :: "('h, 'w) call_api \<Rightarrow> zval \<Rightarrow> 'w \<Rightarrow> error + owned_zval" where
  "callable_new cl z w = (if cl_is_callable cl z w then Inr (BorrowedZval z) else Inl ErrCallable)"

definition callable_new_owned :: "('h, 'w) call_api \<Rightarrow> zval \<Rightarrow> 'w \<Rightarrow> error + owned_zval" where
  "callable_new_owned cl z w = (if cl_is_callable cl z w then Inr (OwnedZval z) else Inl ErrCallable)"

text \<open>The end of both calls: the number the engine returns, the return value, and a pending exception, which is taken.\<close>

definition call_result :: "('h, 'w) call_api \<Rightarrow> int \<times> zval \<times> 'w \<Rightarrow> (error + zval) \<times> 'w" where
  "call_result cl r =
     (case r of (result, retval, w) \<Rightarrow>
        if result < 0 then (Inl ErrCallable, w)
        else case cl_take_exception cl w of (Some e, w) \<Rightarrow> (Inl (ErrException e), w) | (None, w) \<Rightarrow> (Inr retval, w))"

text \<open>\<open>params\<close> are the results of \<open>as_zval\<close>.\<close>

definition try_call :: "('h, 'w) call_api \<Rightarrow> owned_zval \<Rightarrow> (error + zval) list \<Rightarrow> 'w \<Rightarrow> (error + zval) \<times> 'w" where
  "try_call cl c params w =
     (if \<not> cl_is_callable cl (owned_as_ref c) w then (Inl ErrCallable, w)
      else case result_collect params of
             Inl e \<Rightarrow> (Inl e, w)
           | Inr packed \<Rightarrow>
               (case u32_try_into (length params) of
                  Inl e \<Rightarrow> (Inl e, w)
                | Inr _ \<Rightarrow> call_result cl (cl_call cl (owned_as_ref c) packed None w)))"

text \<open>The named arguments go into a table in the order given; \<open>Crash\<close> is the panic on a failed allocation.\<close>

definition try_call_with_named ::
    "('h, 'w) call_api \<Rightarrow> ('h, zval) hash_api \<Rightarrow> owned_zval \<Rightarrow> (error + zval) list \<Rightarrow> (string \<times> (error + zval)) list \<Rightarrow> 'w \<Rightarrow>
     ((error + zval) \<times> 'w) outcome" where
  "try_call_with_named cl ha c params named_params w =
     (if \<not> cl_is_callable cl (owned_as_ref c) w then Done (Inl ErrCallable, w)
      else case result_collect params of
             Inl e \<Rightarrow> Done (Inl e, w)
           | Inr packed \<Rightarrow>
               (case (if named_params = [] then Some (Inr None)
                      else map_option (map_sum id Some)
                        (with_table ha (length named_params) (insert_all ha (map (\<lambda>(n, v). (array_key_from_str n, v)) named_params)))) of
                  None \<Rightarrow> Crash
                | Some (Inl e) \<Rightarrow> Done (Inl e, w)
                | Some (Inr named_ht) \<Rightarrow>
                    (case u32_try_into (length params) of
                       Inl e \<Rightarrow> Done (Inl e, w)
                     | Inr _ \<Rightarrow> Done (call_result cl (cl_call cl (owned_as_ref c) packed named_ht w)))))"

definition try_call_named ::
    "('h, 'w) call_api \<Rightarrow> ('h, zval) hash_api \<Rightarrow> owned_zval \<Rightarrow> (string \<times> (error + zval)) list \<Rightarrow> 'w \<Rightarrow> ((error + zval) \<times> 'w) outcome" where
  "try_call_named cl ha c named_params w = try_call_with_named cl ha c [] named_params w"

text \<open>\<open>Zval::try_call\<close>.\<close>

definition zval_try_call :: "('h, 'w) call_api \<Rightarrow> zval \<Rightarrow> (error + zval) list \<Rightarrow> 'w \<Rightarrow> (error + zval) \<times> 'w" where
  "zval_try_call cl z params w =
     (case callable_new cl z w of Inl _ \<Rightarrow> (Inl ErrCallable, w) | Inr c \<Rightarrow> try_call cl c params w)"

section \<open>Rust closures\<close>

text \<open>A closure has parameters, each with its name, its type and its conversion, and a body: a \<open>Fn\<close> or \<open>FnMut\<close>, or a \<open>FnOnce\<close> that is
  there until it is called. What a \<open>FnMut\<close> captures is part of the engine's state it works on.\<close>

type_synonym 'v closure_param = "string \<times> data_type \<times> (zval \<Rightarrow> 'v option)"
type_synonym ('v, 'r, 'w) rust_fn = "'v list \<Rightarrow> 'w eng \<Rightarrow> 'r \<times> 'w eng"

datatype ('v, 'r, 'w) closure_body = CFn "('v, 'r, 'w) rust_fn" | COnce "('v, 'r, 'w) rust_fn option"

text \<open>\<open>Closure::wrap\<close> and \<open>Closure::wrap_once\<close>.\<close>

definition closure_wrap :: "('v, 'r, 'w) rust_fn \<Rightarrow> ('v, 'r, 'w) closure_body" where "closure_wrap f = CFn f"
definition closure_wrap_once :: "('v, 'r, 'w) rust_fn \<Rightarrow> ('v, 'r, 'w) closure_body" where "closure_wrap_once f = COnce (Some f)"

definition throw_default :: "ce_api \<Rightarrow> string \<Rightarrow> 'w eng \<Rightarrow> 'w eng" where
  "throw_default ca msg e = snd (exception_throw ca (exception_default ca msg) e)"

definition once_message :: string where
  "once_message = ''Attempted to call `FnOnce` closure more than once.''"

text \<open>Calling the body: what was called with (the arguments, when the user's function runs), its result, the body afterwards. A
  \<open>FnOnce\<close> that is gone throws and has no result.\<close>

fun closure_call ::
    "ce_api \<Rightarrow> ('v, 'r, 'w) closure_body \<Rightarrow> 'v list \<Rightarrow> 'w eng \<Rightarrow> 'v list option \<times> 'r option \<times> ('v, 'r, 'w) closure_body \<times> 'w eng" where
  "closure_call ca (CFn f) vs e = (let (r, e) = f vs e in (Some vs, Some r, CFn f, e))"
| "closure_call ca (COnce (Some f)) vs e = (let (r, e) = f vs e in (Some vs, Some r, COnce None, e))"
| "closure_call ca (COnce None) vs e = (None, None, COnce None, throw_default ca once_message e)"

text \<open>The arguments are taken one after the other; the first that does not convert is named.\<close>

fun consume_all :: "'v closure_param list \<Rightarrow> zval arg list \<Rightarrow> string + 'v list" where
  "consume_all [] as = Inr []"
| "consume_all ((n, _, conv) # ps) [] = Inl n"
| "consume_all ((n, _, conv) # ps) (a # as) =
     (case arg_consume conv a of
        Inl _ \<Rightarrow> Inl n
      | Inr v \<Rightarrow> (case consume_all ps as of Inl m \<Rightarrow> Inl m | Inr vs \<Rightarrow> Inr (v # vs)))"

text \<open>\<open>PhpClosure::invoke\<close>. A closure without parameters does not look at its arguments. \<open>wrong_count\<close> is the engine's error for a wrong number of
  arguments, \<open>set_ret\<close> writes the result into the return value.\<close>

definition closure_bind ::
    "ce_api \<Rightarrow> (nat \<Rightarrow> nat \<Rightarrow> 'w eng \<Rightarrow> 'w eng) \<Rightarrow> 'v closure_param list \<Rightarrow> zval option list \<Rightarrow> 'w eng \<Rightarrow> 'v list option \<times> 'w eng" where
  "closure_bind ca wrong_count ps zs e =
     (if ps = [] then (Some [], e)
      else case parse (fold (\<lambda>(n, ty, _). parser_arg (arg_new n ty)) ps (parser_new zs)) of
             (report, Inl _) \<Rightarrow> (None, case report of None \<Rightarrow> e | Some (mn, mx) \<Rightarrow> wrong_count mn mx e)
           | (_, Inr as) \<Rightarrow>
               (case consume_all ps as of
                  Inl n \<Rightarrow> (None, throw_default ca (''Invalid parameter type for `'' @ n @ ''`.'') e)
                | Inr vs \<Rightarrow> (Some vs, e)))"

definition closure_invoke ::
    "ce_api \<Rightarrow> (nat \<Rightarrow> nat \<Rightarrow> 'w eng \<Rightarrow> 'w eng) \<Rightarrow> ('r option \<Rightarrow> zval \<Rightarrow> error + zval) \<Rightarrow> 'v closure_param list \<Rightarrow>
     zval option list \<Rightarrow> zval \<Rightarrow> ('v, 'r, 'w) closure_body \<times> 'w eng \<Rightarrow>
     'v list option \<times> zval \<times> ('v, 'r, 'w) closure_body \<times> 'w eng" where
  "closure_invoke ca wrong_count set_ret ps zs ret ce =
     (case ce of (c, e) \<Rightarrow>
        (case closure_bind ca wrong_count ps zs e of
           (None, e) \<Rightarrow> (None, ret, c, e)
         | (Some vs, e) \<Rightarrow>
             (case closure_call ca c vs e of
                (called, result, c, e) \<Rightarrow>
                  (case set_ret result ret of
                     Inr ret \<Rightarrow> (called, ret, c, e)
                   | Inl err \<Rightarrow>
                       (called, ret, c, throw_default ca
                          (''Failed to return closure result to PHP: '' @
                           error_display (ca_debug_zflags ca) (ca_debug_cflags ca) (ca_debug_obj ca) err) e)))))"

text \<open>The calls PHP makes of a closure object, each with fresh return value: what the user's function was called with.\<close>

fun invoke_all ::
    "ce_api \<Rightarrow> (nat \<Rightarrow> nat \<Rightarrow> 'w eng \<Rightarrow> 'w eng) \<Rightarrow> ('r option \<Rightarrow> zval \<Rightarrow> error + zval) \<Rightarrow> 'v closure_param list \<Rightarrow>
     zval option list list \<Rightarrow> ('v, 'r, 'w) closure_body \<times> 'w eng \<Rightarrow> 'v list list \<times> ('v, 'r, 'w) closure_body \<times> 'w eng" where
  "invoke_all ca wrong_count set_ret ps [] ce = ([], ce)"
| "invoke_all ca wrong_count set_ret ps (zs # zss) ce =
     (case closure_invoke ca wrong_count set_ret ps zs zval_new ce of
        (called, _, ce) \<Rightarrow>
          (case invoke_all ca wrong_count set_ret ps zss ce of
             (rest, ce) \<Rightarrow> ((case called of None \<Rightarrow> rest | Some vs \<Rightarrow> vs # rest), ce)))"

section \<open>The call frame\<close>

definition ZEND_MM_ALIGNMENT :: int where "ZEND_MM_ALIGNMENT = 8"
definition ZEND_MM_ALIGNMENT_MASK :: int where "ZEND_MM_ALIGNMENT_MASK = -8"

unbundle bit_operations_syntax

definition zend_mm_aligned_size :: "int \<Rightarrow> int" where
  "zend_mm_aligned_size sz = (sz + ZEND_MM_ALIGNMENT - 1) AND ZEND_MM_ALIGNMENT_MASK"

text \<open>The sizes of \<open>zend_execute_data\<close> and \<open>zval\<close> on a 64-bit machine.\<close>

definition sizeof_execute_data :: int where "sizeof_execute_data = 80"
definition sizeof_zval :: int where "sizeof_zval = 16"

definition zend_call_frame_slot :: int where
  "zend_call_frame_slot =
     (zend_mm_aligned_size sizeof_execute_data + zend_mm_aligned_size sizeof_zval - 1) div zend_mm_aligned_size sizeof_zval"

text \<open>The address of argument \<open>n\<close> of the frame at \<open>base\<close>, in bytes; the memory gives the zval at an address, \<open>None\<close> at the null pointer.\<close>

definition zend_call_var_num :: "int \<Rightarrow> int \<Rightarrow> int" where
  "zend_call_var_num base n = base + (zend_call_frame_slot + n) * sizeof_zval"

definition zend_call_arg :: "(int \<Rightarrow> 'z) \<Rightarrow> int \<Rightarrow> nat \<Rightarrow> 'z option" where
  "zend_call_arg mem base n = (let p = zend_call_var_num base (int n) in if p = 0 then None else Some (mem p))"

definition parser_object :: "(int \<Rightarrow> 'z) \<Rightarrow> int \<Rightarrow> nat \<Rightarrow> 'o option \<Rightarrow> 'z arg_parser \<times> 'o option" where
  "parser_object mem base n_args this = (parser_new (map (zend_call_arg mem base) [0..<n_args]), this)"


section \<open>Lemmas\<close>

definition closure_parser :: "'v closure_param list \<Rightarrow> zval option list \<Rightarrow> zval arg_parser" where
  "closure_parser ps zs = fold (\<lambda>(n, ty, _). parser_arg (arg_new n ty)) ps (parser_new zs)"

lemma closure_parser_from:
  "fold (\<lambda>(n, ty, _). parser_arg (arg_new n ty)) ps p = p\<lparr>ap_args := ap_args p @ map (\<lambda>(n, ty, _). arg_new n ty) ps\<rparr>"
  by (induction ps arbitrary: p) (auto simp: parser_arg_def)

lemma closure_parser_eq:
  "closure_parser ps zs = \<lparr>ap_args = map (\<lambda>(n, ty, _). arg_new n ty) ps, ap_min_num_args = None, ap_zvals = zs\<rparr>"
  by (simp add: closure_parser_def closure_parser_from parser_new_def)

lemma closure_not_variadic: "\<not> has_variadic (map (\<lambda>(n, ty, _). arg_new n ty :: zval arg) ps)"
  by (cases ps rule: rev_cases) (auto simp: has_variadic_def arg_new_def)

lemma closure_distribute:
  fixes zs :: "zval option list"
  assumes "length zs = length ps"
  shows "distribute 0 zs (map (\<lambda>(n, ty, _). arg_new n ty) ps) = map (\<lambda>((n, ty, _), z). (arg_new n ty)\<lparr>a_zval := z\<rparr>) (zip ps zs)"
proof (rule nth_equalityI)
  fix i
  assume "i < length (distribute 0 zs (map (\<lambda>(n, ty, _). arg_new n ty) ps))"
  then have i: "i < length ps" by simp
  with assms closure_not_variadic [of ps] show
    "distribute 0 zs (map (\<lambda>(n, ty, _). arg_new n ty) ps) ! i = map (\<lambda>((n, ty, _), z). (arg_new n ty)\<lparr>a_zval := z\<rparr>) (zip ps zs) ! i"
    by (cases "ps ! i") (simp add: distribute_nth take_zval_def arg_new_def)
qed (simp add: assms)

text \<open>The arguments the user's function gets, when the call is accepted.\<close>

definition converted :: "'v closure_param list \<Rightarrow> zval option list \<Rightarrow> 'v list option" where
  "converted ps zs =
     (if ps = [] then Some []
      else if length zs \<noteq> length ps then None
      else those (map (\<lambda>((_, _, conv), z). Option.bind z conv) (zip ps zs)))"

lemma consume_all_those:
  assumes "length zs = length ps"
  shows "(case consume_all ps (map (\<lambda>((n, ty, _), z). (arg_new n ty)\<lparr>a_zval := z\<rparr>) (zip ps zs)) of Inl _ \<Rightarrow> None | Inr vs \<Rightarrow> Some vs) =
    those (map (\<lambda>((_, _, conv), z). Option.bind z conv) (zip ps zs))"
  using assms
proof (induction ps zs rule: list_induct2')
  case (4 p ps z zs)
  obtain n ty conv where p: "p = (n, ty, conv)" by (cases p)
  let ?as = "map (\<lambda>((n, ty, _), z). (arg_new n ty)\<lparr>a_zval := z\<rparr>) (zip ps zs)"
  from 4 have IH: "(case consume_all ps ?as of Inl _ \<Rightarrow> None | Inr vs \<Rightarrow> Some vs) = those (map (\<lambda>((_, _, conv), z). Option.bind z conv) (zip ps zs))"
    by simp
  show ?case
    by (auto simp: p arg_consume_def arg_val_def IH [symmetric] split: option.splits sum.splits)
qed auto

lemma closure_bind_converted: "fst (closure_bind ca wrong_count ps zs e) = converted ps zs"
proof (cases "length zs = length ps \<or> ps = []")
  case True
  then show ?thesis
  proof (cases "ps = []")
    case False
    with True have len: "length zs = length ps" by simp
    have "parse (closure_parser ps zs) = (None, Inr (map (\<lambda>((n, ty, _), z). (arg_new n ty)\<lparr>a_zval := z\<rparr>) (zip ps zs)))"
      by (simp add: parse_Inr_iff closure_parser_eq closure_distribute [OF len] parser_min_def closure_not_variadic len)
    then show ?thesis
      using False consume_all_those [OF len] len
      by (auto simp: closure_bind_def converted_def closure_parser_def split: sum.splits)
  qed (simp add: closure_bind_def converted_def)
next
  case False
  then have "parse (closure_parser ps zs) \<noteq> (r, Inr as)" for r as
    by (auto simp: parse_Inr_iff closure_parser_eq parser_min_def closure_not_variadic)
  then obtain r err where "parse (closure_parser ps zs) = (r, Inl err)" by (metis surj_pair sum.exhaust)
  with False show ?thesis by (auto simp: closure_bind_def converted_def closure_parser_def)
qed

lemma closure_invoke_called:
  "\<exists>ret e'. closure_invoke ca wrong_count set_ret ps zs z (c, e) =
    (case converted ps zs of
       None \<Rightarrow> (None, ret, c, e')
     | Some vs \<Rightarrow> (case c of CFn f \<Rightarrow> (Some vs, ret, c, e') | COnce f \<Rightarrow> (if f = None then None else Some vs, ret, COnce None, e')))"
proof -
  obtain b e1 where b: "closure_bind ca wrong_count ps zs e = (b, e1)" by (cases "closure_bind ca wrong_count ps zs e")
  with closure_bind_converted [of ca wrong_count ps zs e] have conv: "converted ps zs = b" by simp
  show ?thesis
  proof (cases b)
    case None
    with b conv show ?thesis by (simp add: closure_invoke_def)
  next
    case (Some vs)
    have "\<exists>r e2. closure_call ca c vs e1 = (case c of CFn f \<Rightarrow> (Some vs, r, c, e2) | COnce f \<Rightarrow> (if f = None then None else Some vs, r, COnce None, e2))"
      by (cases "(ca, c, vs, e1)" rule: closure_call.cases) (auto split: prod.split)
    then obtain r e2 where "closure_call ca c vs e1 = (case c of CFn f \<Rightarrow> (Some vs, r, c, e2) | COnce f \<Rightarrow> (if f = None then None else Some vs, r, COnce None, e2))"
      by blast
    with b conv Some show ?thesis
      by (cases c; cases "set_ret r z") (auto simp: closure_invoke_def)
  qed
qed

section \<open>Properties\<close>

text \<open>C17. Whatever calls PHP makes of a Rust closure, the user's function runs exactly for these, in order: for a closure with
  parameters, the calls with that number of arguments that all convert, with the converted
  arguments; for a closure without parameters, every call, however many arguments it passes. A \<open>FnOnce\<close> runs for the first of them only and is gone
  afterwards, and a call that is not accepted does not use it up.\<close>

theorem closure_calls:
  "fst (invoke_all ca wrong_count set_ret ps zss (closure_wrap f, e)) = List.map_filter (converted ps) zss \<and>
   fst (invoke_all ca wrong_count set_ret ps zss (closure_wrap_once f, e)) = take 1 (List.map_filter (converted ps) zss)"
proof
  show "fst (invoke_all ca wrong_count set_ret ps zss (closure_wrap f, e)) = List.map_filter (converted ps) zss"
    unfolding closure_wrap_def
  proof (induction zss arbitrary: e)
    case (Cons zs zss)
    obtain ret e' where inv: "closure_invoke ca wrong_count set_ret ps zs zval_new (CFn f, e) =
        (case converted ps zs of None \<Rightarrow> (None, ret, CFn f, e') | Some vs \<Rightarrow> (Some vs, ret, CFn f, e'))"
      using closure_invoke_called [of ca wrong_count set_ret ps zs zval_new "CFn f" e, unfolded closure_body.case] by blast
    from Cons.IH [of e'] show ?case by (auto simp: inv map_filter_simps split: option.splits prod.splits)
  qed (simp add: map_filter_simps)
next
  have gone: "fst (invoke_all ca wrong_count set_ret ps zss (COnce None, e)) = []" for zss e
  proof (induction zss arbitrary: e)
    case (Cons zs zss)
    obtain ret e' where inv: "closure_invoke ca wrong_count set_ret ps zs zval_new (COnce None, e) = (None, ret, COnce None, e')"
      using closure_invoke_called [of ca wrong_count set_ret ps zs zval_new "COnce None" e] by (cases "converted ps zs") fastforce+
    from Cons.IH [of e'] show ?case by (auto simp: inv split: prod.splits)
  qed simp
  show "fst (invoke_all ca wrong_count set_ret ps zss (closure_wrap_once f, e)) = take 1 (List.map_filter (converted ps) zss)"
    unfolding closure_wrap_once_def
  proof (induction zss arbitrary: e)
    case (Cons zs zss)
    obtain ret e' where inv: "closure_invoke ca wrong_count set_ret ps zs zval_new (COnce (Some f), e) =
        (case converted ps zs of None \<Rightarrow> (None, ret, COnce (Some f), e') | Some vs \<Rightarrow> (Some vs, ret, COnce None, e'))"
      using closure_invoke_called [of ca wrong_count set_ret ps zs zval_new "COnce (Some f)" e, unfolded closure_body.case] by (cases "converted ps zs") auto
    from Cons.IH [of e'] gone [of zss e'] show ?case by (auto simp: inv map_filter_simps split: option.splits prod.splits)
  qed (simp add: map_filter_simps)
qed

text \<open>C24. The arguments the handlers read from a call frame are the ones the engine put behind it, in order: the first argument lies
  five zvals after the start of the frame, right behind the frame itself.\<close>

theorem frame_arguments:
  assumes "0 < base" and "\<forall>i < length zs. mem (base + sizeof_execute_data + int i * sizeof_zval) = zs ! i"
  shows "zend_call_frame_slot = 5 \<and> parser_object mem base (length zs) this = (parser_new (map Some zs), this)"
proof -
  have slot: "zend_call_frame_slot = 5"
    by (simp add: zend_call_frame_slot_def zend_mm_aligned_size_def sizeof_execute_data_def sizeof_zval_def
        ZEND_MM_ALIGNMENT_def ZEND_MM_ALIGNMENT_MASK_def)
  have "zend_call_arg mem base i = Some (zs ! i)" if "i < length zs" for i
  proof -
    have "zend_call_var_num base (int i) = base + sizeof_execute_data + int i * sizeof_zval"
      by (simp add: zend_call_var_num_def slot sizeof_execute_data_def sizeof_zval_def algebra_simps)
    moreover have "0 < base + sizeof_execute_data + int i * sizeof_zval"
      using assms(1) by (simp add: sizeof_execute_data_def sizeof_zval_def)
    ultimately show ?thesis using assms(2) that by (simp add: zend_call_arg_def Let_def)
  qed
  then have "map (zend_call_arg mem base) [0..<length zs] = map Some zs"
    by (intro nth_equalityI) simp_all
  with slot show ?thesis by (simp add: parser_object_def)
qed

lemma alist_update_length: "length (AList.update k v al) \<le> Suc (length al)"
  by (induction al) auto

lemma insert_all_update:
  assumes "hash_api_ok api V"
  shows "hv_inv V h \<Longrightarrow> length (hv_ent V h) + length kvs < 2 ^ 32 \<Longrightarrow>
    \<exists>h'. insert_all api (map (\<lambda>(k, v). (k, Inr v)) kvs) h = Inr h' \<and> hv_inv V h' \<and>
      hv_ent V h' = update_all (map (\<lambda>(k, v). (hkey_of k, v)) kvs) (hv_ent V h)"
proof (induction kvs arbitrary: h)
  case (Cons kv kvs)
  obtain k v where kv: "kv = (k, v)" by (cases kv)
  have "hv_room V h" using Cons.prems by (simp add: hv_room_def)
  from ht_insert_view [OF assms this, of k v] obtain h1 where
    h1: "ht_insert api h k (Inr v) = (Inr (), h1)" "hv_inv V h1" "hv_ent V h1 = AList.update (hkey_of k) v (hv_ent V h)"
    by (auto simp: updated_def)
  then show ?case using alist_update_length [of "hkey_of k" v "hv_ent V h"] Cons.IH [of h1] Cons.prems kv by (auto simp: update_all_def)
qed (simp add: update_all_def)

text \<open>Positional and named arguments reach the engine as they were given, a later value of a name replacing an earlier one, and the
  answer of the engine is the answer of the call: an error when it refuses, the exception when one was thrown.\<close>

theorem named_call_delivers:
  assumes "hash_api_ok ha V" and "cl_is_callable cl (owned_as_ref c) w" and "length zs < 2 ^ 32" and "length named < 2 ^ 32"
    and "ha_new ha (word_of_nat (length named)) \<noteq> None"
  shows "\<exists>ht. try_call_with_named cl ha c (map Inr zs) (map (\<lambda>(n, z). (n, Inr z)) named) w =
      Done (call_result cl (cl_call cl (owned_as_ref c) zs ht w)) \<and>
    (if named = [] then ht = None
     else \<exists>h. ht = Some h \<and> hv_ent V h = update_all (map (\<lambda>(n, z). (hkey_of (array_key_from_str n), z)) named) [])"
proof (cases "named = []")
  case True
  with assms show ?thesis by (simp add: try_call_with_named_def u32_try_into_def)
next
  case False
  let ?kvs = "map (\<lambda>(n, z). (array_key_from_str n, z)) named"
  obtain h0 where h0: "with_table ha (length named) body = Some (body h0)" "emptied V h0" for body
    using assms(1,4,5) by (auto simp: with_table_def u32_try_into_def ht_with_capacity_def hash_api_ok_def)
  then have "hv_inv V h0" "hv_ent V h0 = []" by (simp_all add: emptied_def)
  with insert_all_update [OF assms(1), of h0 ?kvs] assms(4) obtain h where
    h: "insert_all ha (map (\<lambda>(k, v). (k, Inr v)) ?kvs) h0 = Inr h" "hv_ent V h = update_all (map (\<lambda>(k, v). (hkey_of k, v)) ?kvs) []"
    by auto
  have eq: "map (\<lambda>(n, v). (array_key_from_str n, v)) (map (\<lambda>(n, z). (n, Inr z)) named) = map (\<lambda>(k, v). (k, Inr v)) ?kvs"
    by (simp add: case_prod_unfold)
  from h False assms(2,3) show ?thesis
    by (intro exI [of _ "Some h"]) (simp add: try_call_with_named_def u32_try_into_def h0(1) eq, simp add: case_prod_unfold comp_def u32_try_into_def)
qed

text \<open>An engine that answers a call with the number of its positional arguments.\<close>

definition counting_call_api :: "((hkey \<times> zval) list \<times> int option, unit) call_api" where
  "counting_call_api =
     \<lparr>cl_is_callable = (\<lambda>_ _. True), cl_call = (\<lambda>_ zs _ w. (0, zval_new\<lparr>zv_value := of_nat (length zs)\<rparr>, w)),
      cl_take_exception = (\<lambda>w. (None, w))\<rparr>"

theorem named_call_delivers_witness:
  "\<exists>h. try_call_with_named counting_call_api list_api (BorrowedZval zval_new) [Inr zval_new]
       [(''a'', Inr zval_new), (''a'', Inr (zval_new\<lparr>zv_value := 2\<rparr>))] () =
       Done (call_result counting_call_api (cl_call counting_call_api zval_new [zval_new] (Some h) ())) \<and>
     hv_ent list_view h = [(HStr ''a'', zval_new\<lparr>zv_value := 2\<rparr>)]"
proof -
  have key: "array_key_from_str ''a'' = KStr ''a''" by code_simp
  show ?thesis
    using named_call_delivers [OF list_api_ok, of counting_call_api "BorrowedZval zval_new" "()" "[zval_new]"
        "[(''a'', zval_new), (''a'', zval_new\<lparr>zv_value := 2\<rparr>)]"]
    by (auto simp: counting_call_api_def owned_as_ref_def list_api_def key update_all_def)
qed

theorem frame_arguments_witness:
  "parser_object (\<lambda>p. if p = 1080 then True else False) 1000 2 (None :: unit option) = (parser_new [Some True, Some False], None)"
  using frame_arguments [of 1000 "[True, False]" "\<lambda>p. if p = 1080 then True else False" "None :: unit option"]
  by (simp add: sizeof_execute_data_def sizeof_zval_def less_Suc_eq numeral_2_eq_2)

end
