(* ===== verification/Derive.thy ===== *)
theory Derive
  imports ZendObj MacroNames
begin

text \<open>
  \<open>crates/macros/src/zval.rs\<close>: what \<open>derive(ZvalConvert)\<close> accepts, and the conversions it generates for a struct - to a \<open>stdClass\<close> object with one
  property per field and back - and for an enum. A field comes with the conversions of its type; the values of all fields have one type
  here.
\<close>

section \<open>The macro\<close>

record 'v derive_field =
  df_ident :: "string option"
  df_into :: "'v \<Rightarrow> error + zval"
  df_from :: "zval \<Rightarrow> 'v option"

datatype 'v variant_fields = VUnnamed "'v derive_field list" | VUnit | VNamed "'v derive_field list"

record 'v derive_variant =
  dv_ident :: string
  dv_fields :: "'v variant_fields"

datatype 'v derive_data = DeriveStruct "'v derive_field list" | DeriveEnum "'v derive_variant list" | DeriveUnion

text \<open>The items generated for a struct are its properties with their conversions; for an enum, the conversion of each variant with a
  field in order and the unit variant, if there is one.\<close>

type_synonym 'v struct_items = "(string \<times> 'v derive_field) list"

record 'v enum_items =
  ei_into :: "(string \<times> 'v derive_field) list"
  ei_from :: "(string \<times> 'v derive_field) list"
  ei_default :: "string option"

definition fields_of :: "'v variant_fields \<Rightarrow> 'v derive_field list" where
  "fields_of fs = (case fs of VUnnamed l \<Rightarrow> l | VUnit \<Rightarrow> [] | VNamed l \<Rightarrow> l)"

definition derive_struct :: "'v derive_field list \<Rightarrow> string + 'v struct_items" where
  "derive_struct dfs =
     result_collect (map (\<lambda>f. case df_ident f of
        None \<Rightarrow> Inl ''Fields require names when using the `#[derive(ZvalConvert)]` macro on a struct.''
      | Some i \<Rightarrow> Inr (ident_to_php_name i, f)) dfs)"

text \<open>The loop over the variants carries the unit variant found so far.\<close>

fun derive_variants :: "'v derive_variant list \<Rightarrow> string option \<Rightarrow> string + (string \<times> 'v derive_field) list \<times> string option" where
  "derive_variants [] dflt = Inr ([], dflt)"
| "derive_variants (v # vs) dflt =
     (case dv_fields v of
        VUnnamed fs \<Rightarrow>
          (case fs of
             [f] \<Rightarrow> (case derive_variants vs dflt of Inl e \<Rightarrow> Inl e | Inr (l, d) \<Rightarrow> Inr ((dv_ident v, f) # l, d))
           | _ \<Rightarrow> Inl ''Enum variant must only have one field when using `#[derive(ZvalConvert)]`.'')
      | VUnit \<Rightarrow>
          if dflt \<noteq> None then Inl ''Only one enum unit type is valid as a default when using `#[derive(ZvalConvert)]`.''
          else derive_variants vs (Some (dv_ident v))
      | VNamed _ \<Rightarrow>
          Inl ''Enum variants must be unnamed and have only one field inside the variant when using `#[derive(ZvalConvert)]`.'')"

definition derive_enum :: "'v derive_variant list \<Rightarrow> string + 'v enum_items" where
  "derive_enum vs =
     (case derive_variants vs None of
        Inl e \<Rightarrow> Inl e
      | Inr (l, d) \<Rightarrow>
          Inr \<lparr>ei_into = List.map_filter (\<lambda>v. case fields_of (dv_fields v) of [f] \<Rightarrow> Some (dv_ident v, f) | _ \<Rightarrow> None) vs,
               ei_from = l, ei_default = d\<rparr>)"

definition derive_parser :: "'v derive_data \<Rightarrow> string + ('v struct_items + 'v enum_items)" where
  "derive_parser d =
     (case d of
        DeriveStruct fs \<Rightarrow> map_sum id Inl (derive_struct fs)
      | DeriveEnum vs \<Rightarrow> map_sum id Inr (derive_enum vs)
      | DeriveUnion \<Rightarrow> Inl ''Only structs and enums are supported by the `#[derive(ZvalConvert)]` macro.'')"

section \<open>The conversions of a struct\<close>

text \<open>\<open>into_zend_object\<close> on a new \<open>stdClass\<close>, with the values of the fields; it leaves at the first error.\<close>

fun into_zend_object ::
    "bool \<Rightarrow> 'v struct_items \<Rightarrow> 'v list \<Rightarrow> ('o, 'h, 'w) zend_object \<Rightarrow> 'w eng \<Rightarrow>
     ((error + unit) \<times> ('o, 'h, 'w) zend_object \<times> 'w eng) outcome" where
  "into_zend_object ready ((n, f) # fs) (v # vs) o' e =
     (case obj_set_property ready o' n (df_into f v) e of
        Crash \<Rightarrow> Crash
      | Done (Inl err, o', e) \<Rightarrow> Done (Inl err, o', e)
      | Done (Inr _, o', e) \<Rightarrow> into_zend_object ready fs vs o' e)"
| "into_zend_object ready _ _ o' e = Done (Inr (), o', e)"

fun from_zend_object ::
    "bool \<Rightarrow> 'v struct_items \<Rightarrow> ('o, 'h, 'w) zend_object \<Rightarrow> 'w eng \<Rightarrow> ((error + 'v list) \<times> 'w eng) outcome" where
  "from_zend_object ready [] o' e = Done (Inr [], e)"
| "from_zend_object ready ((n, f) # fs) o' e =
     (case obj_get_property ready (df_from f) o' n e of
        Crash \<Rightarrow> Crash
      | Done (Inl err, e) \<Rightarrow> Done (Inl err, e)
      | Done (Inr v, e) \<Rightarrow>
          (case from_zend_object ready fs o' e of
             Crash \<Rightarrow> Crash
           | Done (Inl err, e) \<Rightarrow> Done (Inl err, e)
           | Done (Inr vs, e) \<Rightarrow> Done (Inr (v # vs), e)))"

section \<open>The conversions of an enum\<close>

text \<open>A value of the enum is the name of its variant with its field, if it has one. A variant that has no arm becomes null.\<close>

definition enum_set_zval :: "'v enum_items \<Rightarrow> string \<times> 'v option \<Rightarrow> zval \<Rightarrow> error + zval" where
  "enum_set_zval it val zv =
     (case val of (n, v) \<Rightarrow>
        (case map_of (ei_into it) n of
           Some f \<Rightarrow> (case v of Some x \<Rightarrow> df_into f x | None \<Rightarrow> Inr (nulled zv))
         | None \<Rightarrow> Inr (nulled zv)))"

fun first_from :: "(string \<times> 'v derive_field) list \<Rightarrow> zval \<Rightarrow> (string \<times> 'v option) option" where
  "first_from [] z = None"
| "first_from ((n, f) # fs) z = (case df_from f z of Some v \<Rightarrow> Some (n, Some v) | None \<Rightarrow> first_from fs z)"

definition enum_from_zval :: "'v enum_items \<Rightarrow> zval \<Rightarrow> (string \<times> 'v option) option" where
  "enum_from_zval it z =
     (case first_from (ei_from it) z of
        Some r \<Rightarrow> Some r
      | None \<Rightarrow> map_option (\<lambda>n. (n, None)) (ei_default it))"

section \<open>What the engine promises of a \<open>stdClass\<close>\<close>

text \<open>Its standard handlers keep a table of properties by name: what was written is there, and is read back; nothing is thrown.\<close>

definition std_object_ok :: "('o, 'h, 'w) object_handlers \<Rightarrow> ('o \<Rightarrow> string \<rightharpoonup> zval) \<Rightarrow> bool" where
  "std_object_ok hs props \<longleftrightarrow>
     (\<exists>f. hd_write hs = Some f \<and> (\<forall>b n z e. \<exists>b'. f b n z e = Done (Some z, b', e) \<and> props b' = (props b)(zs_bytes n \<mapsto> z))) \<and>
     (\<exists>f. hd_has hs = Some f \<and> (\<forall>b n e. f b n 2 e = Done (if props b (zs_bytes n) = None then 0 else 1, e))) \<and>
     (\<exists>f. hd_read hs = Some f \<and> (\<forall>b n t rv e z. props b (zs_bytes n) = Some z \<longrightarrow> f b n t rv e = Done (Some z, e)))"

lemma zs_bytes_new [simp]: "zs_bytes (zs_new ready n False) = n"
  by (simp add: zs_new_def)

lemma std_set_property:
  assumes "std_object_ok hs props" and "zo_handlers o' = Some hs"
  shows "\<exists>o''. obj_set_property ready o' n (Inr z) e = Done (Inr (), o'', e) \<and> zo_handlers o'' = Some hs \<and>
    props (zo_body o'') = (props (zo_body o'))(n \<mapsto> z)"
proof -
  from assms(1) obtain f where f: "hd_write hs = Some f"
    "\<forall>b n z e. \<exists>b'. f b n z e = Done (Some z, b', e) \<and> props b' = (props b)(zs_bytes n \<mapsto> z)"
    unfolding std_object_ok_def by blast
  from f(2) obtain b' where "f (zo_body o') (zs_new ready n False) z e = Done (Some z, b', e)"
    "props b' = (props (zo_body o'))(zs_bytes (zs_new ready n False) \<mapsto> z)" by blast
  with f(1) assms(2) show ?thesis by (simp add: obj_set_property_def obj_handler_def)
qed

lemma std_get_property:
  assumes "std_object_ok hs props" and "zo_handlers o' = Some hs" and "props (zo_body o') n = Some z" and "conv z = Some v"
  shows "obj_get_property ready conv o' n e = Done (Inr v, e)"
proof -
  from assms(1) obtain f where f: "hd_has hs = Some f" "\<forall>b n e. f b n 2 e = Done (if props b (zs_bytes n) = None then 0 else 1, e)"
    unfolding std_object_ok_def by blast
  from assms(1) obtain g where g: "hd_read hs = Some g"
    "\<forall>b n t rv e z. props b (zs_bytes n) = Some z \<longrightarrow> g b n t rv e = Done (Some z, e)"
    unfolding std_object_ok_def by blast
  from f g assms(2-4) show ?thesis
    by (simp add: obj_get_property_def obj_has_property_def obj_handler_def property_query_code_def)
qed

lemma into_zend_object_props:
  assumes "std_object_ok hs props"
  shows "zo_handlers o' = Some hs \<Longrightarrow> length vs = length fs \<Longrightarrow> distinct (map fst fs) \<Longrightarrow>
    (\<forall>i < length fs. df_into (snd (fs ! i)) (vs ! i) = Inr (zs ! i)) \<Longrightarrow> length zs = length fs \<Longrightarrow>
    \<exists>o''. into_zend_object ready fs vs o' e = Done (Inr (), o'', e) \<and> zo_handlers o'' = Some hs \<and>
      props (zo_body o'') = props (zo_body o') ++ map_of (zip (map fst fs) zs)"
proof (induction fs arbitrary: vs zs o')
  case (Cons nf fs)
  obtain n f where nf: "nf = (n, f)" by (cases nf)
  from Cons.prems obtain v vs' z zs' where l: "vs = v # vs'" "zs = z # zs'" by (metis length_Suc_conv)
  from Cons.prems(4) l nf have into: "df_into f v = Inr z" by (metis length_Cons nth_Cons_0 snd_conv zero_less_Suc)
  from std_set_property [OF assms Cons.prems(1), of ready n z e] obtain o1
    where o1: "obj_set_property ready o' n (Inr z) e = Done (Inr (), o1, e)" "zo_handlers o1 = Some hs"
      "props (zo_body o1) = (props (zo_body o'))(n \<mapsto> z)" by blast
  have rest: "\<forall>i < length fs. df_into (snd (fs ! i)) (vs' ! i) = Inr (zs' ! i)"
    using Cons.prems(4) by (auto simp: l)
  from Cons.IH [OF o1(2) _ _ rest] Cons.prems(2,3,5) obtain o2 where
    "into_zend_object ready fs vs' o1 e = Done (Inr (), o2, e)" "zo_handlers o2 = Some hs"
    "props (zo_body o2) = props (zo_body o1) ++ map_of (zip (map fst fs) zs')" by (auto simp: l)
  moreover have "n \<notin> dom (map_of (zip (map fst fs) zs'))"
    using Cons.prems(3) by (auto simp: nf dom_map_of_conv_image_fst dest: set_zip_leftD)
  then have "(props (zo_body o'))(n \<mapsto> z) ++ map_of (zip (map fst fs) zs') = props (zo_body o') ++ map_of (zip (n # map fst fs) (z # zs'))"
    by (simp add: map_add_upd_left)
  ultimately show ?case by (simp add: l nf into o1(1,3) fun_upd_def)
qed simp

lemma from_zend_object_props:
  assumes "std_object_ok hs props" and "zo_handlers o' = Some hs"
  shows "length vs = length fs \<Longrightarrow> length zs = length fs \<Longrightarrow>
    (\<forall>i < length fs. props (zo_body o') (fst (fs ! i)) = Some (zs ! i) \<and> df_from (snd (fs ! i)) (zs ! i) = Some (vs ! i)) \<Longrightarrow>
    from_zend_object ready fs o' e = Done (Inr vs, e)"
proof (induction fs arbitrary: vs zs)
  case (Cons nf fs)
  obtain n f where nf: "nf = (n, f)" by (cases nf)
  from Cons.prems obtain v vs' z zs' where l: "vs = v # vs'" "zs = z # zs'" by (metis length_Suc_conv)
  from Cons.prems(3) l nf have "props (zo_body o') n = Some z" "df_from f z = Some v"
    by (metis fst_conv length_Cons nth_Cons_0 zero_less_Suc, metis snd_conv length_Cons nth_Cons_0 zero_less_Suc)
  then have "obj_get_property ready (df_from f) o' n e = Done (Inr v, e)" by (rule std_get_property [OF assms])
  moreover have "from_zend_object ready fs o' e = Done (Inr vs', e)"
    using Cons.prems by (intro Cons.IH [where zs = zs']) (auto simp: l)
  ultimately show ?case by (simp add: nf l)
qed simp

lemma derive_struct_items:
  "derive_struct fs = Inr items \<Longrightarrow> items = map (\<lambda>f. (ident_to_php_name (the (df_ident f)), f)) fs \<and> (\<forall>f \<in> set fs. df_ident f \<noteq> None)"
  unfolding derive_struct_def
  by (induction fs arbitrary: items) (auto split: option.splits sum.splits)

text \<open>The arms of an enum the macro accepts.\<close>

definition variant_arm :: "'v derive_variant \<Rightarrow> (string \<times> 'v derive_field) option" where
  "variant_arm v = (case fields_of (dv_fields v) of [f] \<Rightarrow> Some (dv_ident v, f) | _ \<Rightarrow> None)"

definition unit_names :: "'v derive_variant list \<Rightarrow> string list" where
  "unit_names vs = map dv_ident (filter (\<lambda>v. dv_fields v = VUnit) vs)"

lemma unit_names_simps [simp]:
  "unit_names [] = []" "unit_names (v # vs) = (if dv_fields v = VUnit then dv_ident v # unit_names vs else unit_names vs)"
  by (simp_all add: unit_names_def)

lemma variant_arm_simps [simp]:
  "dv_fields v = VUnit \<Longrightarrow> variant_arm v = None" "dv_fields v = VUnnamed [f] \<Longrightarrow> variant_arm v = Some (dv_ident v, f)"
  by (simp_all add: variant_arm_def fields_of_def)

lemma variant_arm_name: "variant_arm v = Some a \<Longrightarrow> fst a = dv_ident v"
  by (auto simp: variant_arm_def split: list.splits)

lemma derive_variants_arms:
  "derive_variants vs d0 = Inr (l, d) \<Longrightarrow>
     l = List.map_filter variant_arm vs \<and> (\<forall>v \<in> set vs. dv_fields v = VUnit \<or> (\<exists>f. dv_fields v = VUnnamed [f])) \<and>
     (case d0 of Some n \<Rightarrow> d = Some n \<and> unit_names vs = [] | None \<Rightarrow> unit_names vs = (case d of None \<Rightarrow> [] | Some n \<Rightarrow> [n]))"
proof (induction vs arbitrary: l d d0)
  case (Cons v vs)
  show ?case
  proof (cases "dv_fields v")
    case (VUnnamed fs)
    with Cons.prems obtain f l' where f: "fs = [f]" "derive_variants vs d0 = Inr (l', d)" "l = (dv_ident v, f) # l'"
      by (auto split: list.splits sum.splits)
    with Cons.IH [OF f(2)] VUnnamed show ?thesis by (auto simp: map_filter_simps split: option.splits)
  next
    case VUnit
    with Cons.prems have d0: "d0 = None" "derive_variants vs (Some (dv_ident v)) = Inr (l, d)" by (auto split: if_splits)
    with Cons.IH [OF d0(2)] VUnit show ?thesis by (auto simp: map_filter_simps split: option.splits)
  next
    case (VNamed fs)
    with Cons.prems show ?thesis by simp
  qed
qed (auto simp: map_filter_simps split: option.split)

lemma derive_enum_arms:
  assumes "derive_enum vs = Inr it"
  shows "ei_into it = List.map_filter variant_arm vs" "ei_from it = List.map_filter variant_arm vs"
    and "v \<in> set vs \<Longrightarrow> dv_fields v = VUnit \<or> (\<exists>f. dv_fields v = VUnnamed [f])"
    and "unit_names vs = (case ei_default it of None \<Rightarrow> [] | Some n \<Rightarrow> [n])"
proof -
  from assms obtain l d where d: "derive_variants vs None = Inr (l, d)" "ei_from it = l" "ei_default it = d"
      "ei_into it = List.map_filter variant_arm vs"
    by (auto simp: derive_enum_def variant_arm_def [abs_def] split: sum.splits)
  note arms = derive_variants_arms [OF d(1)]
  from d(4) show "ei_into it = List.map_filter variant_arm vs" .
  from arms d(2) show "ei_from it = List.map_filter variant_arm vs" by simp
  from arms show "v \<in> set vs \<Longrightarrow> dv_fields v = VUnit \<or> (\<exists>f. dv_fields v = VUnnamed [f])" by blast
  from arms d(3) show "unit_names vs = (case ei_default it of None \<Rightarrow> [] | Some n \<Rightarrow> [n])" by simp
qed

lemma first_from_append: "first_from (fs @ gs) z = (case first_from fs z of None \<Rightarrow> first_from gs z | Some r \<Rightarrow> Some r)"
  by (induction fs) (auto split: option.split)

lemma first_from_None: "first_from fs z = None \<longleftrightarrow> (\<forall>(n, f) \<in> set fs. df_from f z = None)"
  by (induction fs) (auto split: option.splits)

lemma first_from_field: "first_from fs z \<noteq> Some (n, None)"
  by (induction fs) (auto split: option.splits)

lemma first_from_name: "first_from fs z = Some r \<Longrightarrow> fst r \<in> fst ` set fs"
  by (induction fs) (auto split: option.splits)

lemma arm_names: "fst ` set (List.map_filter variant_arm vs) \<subseteq> dv_ident ` set vs"
  using variant_arm_name by (fastforce simp: List.map_filter_def)

lemma map_of_arms:
  assumes "distinct (map dv_ident vs)" "v \<in> set vs"
  shows "map_of (List.map_filter variant_arm vs) (dv_ident v) = map_option snd (variant_arm v)"
  using assms
proof (induction vs)
  case (Cons u vs)
  show ?case
  proof (cases "u = v")
    case True
    then have "dv_ident v \<notin> fst ` set (List.map_filter variant_arm vs)" using arm_names [of vs] Cons.prems(1) by auto
    then have "map_of (List.map_filter variant_arm vs) (dv_ident v) = None" by (simp add: map_of_eq_None_iff)
    with True variant_arm_name [of v] show ?thesis by (cases "variant_arm v") (auto simp: map_filter_simps)
  next
    case False
    with Cons.prems have "dv_ident u \<noteq> dv_ident v" "v \<in> set vs" "distinct (map dv_ident vs)" by auto
    with Cons.IH variant_arm_name [of u] show ?thesis by (cases "variant_arm u") (auto simp: map_filter_simps)
  qed
qed simp

section \<open>Properties\<close>

text \<open>C20. A struct with the derived conversions survives the trip through a PHP object: converting it makes an object with one property
  per field, under the field's name, and extracting from that object gives the struct back, when each field's
  own conversions do.\<close>

theorem derive_struct_roundtrip:
  assumes "std_object_ok hs props" and "zo_handlers o' = Some hs" and "derive_struct fs = Inr items"
    and "distinct (map (\<lambda>f. ident_to_php_name (the (df_ident f))) fs)" and "length vs = length fs"
    and "\<forall>i < length fs. df_into (fs ! i) (vs ! i) = Inr (zs ! i) \<and> df_from (fs ! i) (zs ! i) = Some (vs ! i)" and "length zs = length fs"
  shows "\<exists>o''. into_zend_object ready items vs o' e = Done (Inr (), o'', e) \<and>
    props (zo_body o'') = props (zo_body o') ++ map_of (zip (map (\<lambda>f. ident_to_php_name (the (df_ident f))) fs) zs) \<and>
    from_zend_object ready items o'' e = Done (Inr vs, e)"
proof -
  let ?names = "map (\<lambda>f. ident_to_php_name (the (df_ident f))) fs"
  from derive_struct_items [OF assms(3)] have items: "items = map (\<lambda>f. (ident_to_php_name (the (df_ident f)), f)) fs" by blast
  then have names: "map fst items = ?names" and len: "length items = length fs" by simp_all
  have nth: "items ! i = (?names ! i, fs ! i)" if "i < length fs" for i using that by (simp add: items)
  from into_zend_object_props [OF assms(1,2), of vs items zs ready e] assms(4-7) obtain o''
    where o'': "into_zend_object ready items vs o' e = Done (Inr (), o'', e)" "zo_handlers o'' = Some hs"
      "props (zo_body o'') = props (zo_body o') ++ map_of (zip ?names zs)"
    by (auto simp: names len nth)
  have "props (zo_body o'') (?names ! i) = Some (zs ! i)" if "i < length fs" for i
  proof -
    have "map_of (zip ?names zs) (?names ! i) = Some (zs ! i)"
      using that assms(4,7) by (intro map_of_zip_nth) simp_all
    then show ?thesis by (simp add: o''(3))
  qed
  then have "from_zend_object ready items o'' e = Done (Inr vs, e)"
    using assms(5-7) by (intro from_zend_object_props [OF assms(1) o''(2), where zs = zs]) (auto simp: len nth)
  with o'' show ?thesis by blast
qed

text \<open>A \<open>stdClass\<close> whose properties are a map, and a struct of two fields.\<close>

definition map_handlers :: "(string \<rightharpoonup> zval, unit, unit) object_handlers" where
  "map_handlers =
     \<lparr>hd_read = Some (\<lambda>b n t rv e. Done (b (zs_bytes n), e)),
      hd_write = Some (\<lambda>b n z e. Done (Some z, b(zs_bytes n \<mapsto> z), e)),
      hd_has = Some (\<lambda>b n q e. Done (if b (zs_bytes n) = None then 0 else 1, e)),
      hd_properties = None, hd_class_name = None\<rparr>"

lemma map_handlers_ok: "std_object_ok map_handlers id"
  by (simp add: std_object_ok_def map_handlers_def)

definition word_field :: "string \<Rightarrow> u64 derive_field" where
  "word_field n = \<lparr>df_ident = Some n, df_into = (\<lambda>v. Inr (zval_new\<lparr>zv_value := v\<rparr>)), df_from = (\<lambda>z. Some (zv_value z))\<rparr>"

theorem derive_struct_roundtrip_witness:
  "\<exists>items o''. derive_struct [word_field ''a'', word_field ''r#type''] = Inr items \<and>
     into_zend_object True items [1, 2] \<lparr>zo_ce = 1, zo_handlers = Some map_handlers, zo_handle = 1, zo_extra_flags = 0, zo_body = Map.empty\<rparr>
       (demo_eng 0) = Done (Inr (), o'', demo_eng 0) \<and>
     from_zend_object True items o'' (demo_eng 0) = Done (Inr [1, 2], demo_eng 0)"
proof -
  let ?fs = "[word_field ''a'', word_field ''r#type'']"
  let ?o = "\<lparr>zo_ce = 1, zo_handlers = Some map_handlers, zo_handle = 1, zo_extra_flags = 0, zo_body = Map.empty\<rparr>"
  obtain items where items: "derive_struct ?fs = Inr items" by (simp add: derive_struct_def word_field_def)
  have "distinct (map (\<lambda>f. ident_to_php_name (the (df_ident f))) ?fs)" by (simp add: word_field_def ident_to_php_name_def strip_prefix_def)
  from derive_struct_roundtrip [OF map_handlers_ok _ items this, of ?o "[1, 2]" "[zval_new\<lparr>zv_value := 1\<rparr>, zval_new\<lparr>zv_value := 2\<rparr>]" True "demo_eng 0"] items
  show ?thesis by (auto simp: word_field_def less_Suc_eq)
qed

text \<open>C21. A value of an enum with the derived conversions comes back from the zval it was converted to exactly when its own field converts back
  and no variant before it accepts that zval; a unit variant becomes null and comes back exactly when no variant accepts
  null, and an enum with one never fails to convert.\<close>

theorem derive_enum_roundtrip:
  assumes "derive_enum vs = Inr it" and "distinct (map dv_ident vs)" and "vs = pre @ v # post"
  shows "(\<forall>f x z. dv_fields v = VUnnamed [f] \<and> df_into f x = Inr z \<longrightarrow>
       enum_set_zval it (dv_ident v, Some x) zv = Inr z \<and>
       (enum_from_zval it z = Some (dv_ident v, Some x) \<longleftrightarrow>
          df_from f z = Some x \<and> (\<forall>u \<in> set pre. \<forall>g. dv_fields u = VUnnamed [g] \<longrightarrow> df_from g z = None))) \<and>
    (dv_fields v = VUnit \<longrightarrow>
       enum_set_zval it (dv_ident v, None) zv = Inr (nulled zv) \<and>
       (enum_from_zval it (nulled zv) = Some (dv_ident v, None) \<longleftrightarrow>
          (\<forall>u \<in> set vs. \<forall>g. dv_fields u = VUnnamed [g] \<longrightarrow> df_from g (nulled zv) = None)) \<and>
       (\<forall>z. enum_from_zval it z \<noteq> None))"
proof (intro conjI allI impI)
  have v: "v \<in> set vs" using assms(3) by simp
  note arms = derive_enum_arms [OF assms(1)]
  let ?arms = "List.map_filter variant_arm"
  have none: "(\<forall>(n, g) \<in> set (?arms us). df_from g z = None) \<longleftrightarrow> (\<forall>u \<in> set us. \<forall>g. dv_fields u = VUnnamed [g] \<longrightarrow> df_from g z = None)"
    if "set us \<subseteq> set vs" for us z
    using that arms(3) by (fastforce simp: List.map_filter_def)
  have sub: "set pre \<subseteq> set vs" using assms(3) by auto
  {
    fix f x z
    assume f: "dv_fields v = VUnnamed [f] \<and> df_into f x = Inr z"
    with map_of_arms [OF assms(2) v] show "enum_set_zval it (dv_ident v, Some x) zv = Inr z"
      by (simp add: enum_set_zval_def arms(1))
    have split: "first_from (ei_from it) z = (case first_from (?arms pre) z of None \<Rightarrow>
        (case df_from f z of Some y \<Rightarrow> Some (dv_ident v, Some y) | None \<Rightarrow> first_from (?arms post) z) | Some r \<Rightarrow> Some r)"
      using f by (simp add: arms(2) assms(3) map_filter_append first_from_append map_filter_simps split: option.split)
    have "dv_ident v \<notin> fst ` set (?arms pre)" "dv_ident v \<notin> fst ` set (?arms post)"
      using arm_names [of pre] arm_names [of post] assms(2,3) by auto
    then have "first_from (?arms pre) z \<noteq> Some (dv_ident v, y)" "first_from (?arms post) z \<noteq> Some (dv_ident v, y)" for y
      using first_from_name by fastforce+
    then show "enum_from_zval it z = Some (dv_ident v, Some x) \<longleftrightarrow>
        df_from f z = Some x \<and> (\<forall>u \<in> set pre. \<forall>g. dv_fields u = VUnnamed [g] \<longrightarrow> df_from g z = None)"
      using none [OF sub, of z]
      by (auto simp: enum_from_zval_def split first_from_None [symmetric] split: option.splits)
  next
    assume u: "dv_fields v = VUnit"
    with map_of_arms [OF assms(2) v] show "enum_set_zval it (dv_ident v, None) zv = Inr (nulled zv)"
      by (simp add: enum_set_zval_def arms(1))
    have "dv_ident v \<in> set (unit_names vs)" using u v by (auto simp: unit_names_def)
    with arms(4) have d: "ei_default it = Some (dv_ident v)" by (auto split: option.splits)
    then show "enum_from_zval it z \<noteq> None" for z by (simp add: enum_from_zval_def split: option.splits)
    note first_from_field [of "?arms vs" "nulled zv"]
    then show "enum_from_zval it (nulled zv) = Some (dv_ident v, None) \<longleftrightarrow>
        (\<forall>u \<in> set vs. \<forall>g. dv_fields u = VUnnamed [g] \<longrightarrow> df_from g (nulled zv) = None)"
      using none [OF subset_refl, of "nulled zv"] d
      by (auto simp: enum_from_zval_def arms(2) first_from_None [symmetric] split: option.splits)
  }
qed

text \<open>A variant that only accepts odd words before one that accepts all: an even value of the second comes back.\<close>

definition parity_enum :: "u64 derive_variant list" where
  "parity_enum =
     [\<lparr>dv_ident = ''Odd'', dv_fields = VUnnamed [\<lparr>df_ident = None, df_into = (\<lambda>v. Inr (zval_new\<lparr>zv_value := v\<rparr>)),
         df_from = (\<lambda>z. if odd (zv_value z) then Some (zv_value z) else None)\<rparr>]\<rparr>,
      \<lparr>dv_ident = ''Any'', dv_fields = VUnnamed [word_field ''v'']\<rparr>]"

theorem derive_enum_roundtrip_witness:
  "\<exists>it. derive_enum parity_enum = Inr it \<and> enum_set_zval it (''Any'', Some 4) zval_new = Inr (zval_new\<lparr>zv_value := 4\<rparr>) \<and>
     enum_from_zval it (zval_new\<lparr>zv_value := 4\<rparr>) = Some (''Any'', Some 4)"
proof -
  obtain it where it: "derive_enum parity_enum = Inr it" by (simp add: derive_enum_def parity_enum_def)
  have "distinct (map dv_ident parity_enum)" "parity_enum = [hd parity_enum] @ last parity_enum # []" by (simp_all add: parity_enum_def)
  from derive_enum_roundtrip [OF it this, of zval_new] it show ?thesis
    by (force simp: parity_enum_def word_field_def)
qed

end
