(* ===== verification/Embed.thy ===== *)
theory Embed
  imports PhpEval Args Zval
begin

text \<open>
  \<open>src/builders/sapi.rs\<close>, \<open>src/embed/*.rs\<close> and \<open>src/zend/ini_entry_def.rs\<close>: the builder of a server interface (SAPI), the functions through which PHP calls a
  server written in Rust, and running PHP inside a Rust program. A callback is the address of its function. The context of a
  request is what the engine stores for the server, \<open>None\<close> between requests.
\<close>

section \<open>The SAPI builder\<close>

record sapi_module =
  sm_name :: "string option"
  sm_pretty_name :: "string option"
  sm_php_ini_path_override :: "string option"
  sm_executable_location :: "string option"
  sm_ini_entries :: "string option"
  sm_php_ini_ignore :: int
  sm_php_ini_ignore_cwd :: int
  sm_phpinfo_as_text :: int
  sm_startup :: "nat option"
  sm_shutdown :: "nat option"
  sm_activate :: "nat option"
  sm_deactivate :: "nat option"
  sm_ub_write :: "nat option"
  sm_flush :: "nat option"
  sm_get_stat :: "nat option"
  sm_getenv :: "nat option"
  sm_sapi_error :: "nat option"
  sm_header_handler :: "nat option"
  sm_send_headers :: "nat option"
  sm_send_header :: "nat option"
  sm_read_post :: "nat option"
  sm_read_cookies :: "nat option"
  sm_register_server_variables :: "nat option"
  sm_log_message :: "nat option"
  sm_get_request_time :: "nat option"
  sm_terminate_process :: "nat option"
  sm_default_post_reader :: "nat option"
  sm_treat_data :: "nat option"
  sm_get_fd :: "nat option"
  sm_force_http_10 :: "nat option"
  sm_get_target_uid :: "nat option"
  sm_get_target_gid :: "nat option"
  sm_input_filter :: "nat option"
  sm_ini_defaults :: "nat option"
  sm_input_filter_init :: "nat option"
  sm_pre_request_init :: "nat option"

record sapi_builder =
  sb_name :: string
  sb_pretty_name :: string
  sb_module :: sapi_module
  sb_executable_location :: "string option"
  sb_php_ini_path_override :: "string option"
  sb_ini_entries :: "string option"

definition sapi_module_empty :: sapi_module where
  "sapi_module_empty = \<lparr>sm_name = None, sm_pretty_name = None, sm_php_ini_path_override = None, sm_executable_location = None, sm_ini_entries = None, sm_php_ini_ignore = 0, sm_php_ini_ignore_cwd = 0, sm_phpinfo_as_text = 0, sm_startup = None, sm_shutdown = None, sm_activate = None, sm_deactivate = None, sm_ub_write = None, sm_flush = None, sm_get_stat = None, sm_getenv = None, sm_sapi_error = None, sm_header_handler = None, sm_send_headers = None, sm_send_header = None, sm_read_post = None, sm_read_cookies = None, sm_register_server_variables = None, sm_log_message = None, sm_get_request_time = None, sm_terminate_process = None, sm_default_post_reader = None, sm_treat_data = None, sm_get_fd = None, sm_force_http_10 = None, sm_get_target_uid = None, sm_get_target_gid = None, sm_input_filter = None, sm_ini_defaults = None, sm_input_filter_init = None, sm_pre_request_init = None\<rparr>"

definition sapi_new :: "string \<Rightarrow> string \<Rightarrow> sapi_builder" where
  "sapi_new n p = \<lparr>sb_name = n, sb_pretty_name = p, sb_module = sapi_module_empty, sb_executable_location = None,
     sb_php_ini_path_override = None, sb_ini_entries = None\<rparr>"

definition sapi_startup_function :: "nat \<Rightarrow> sapi_builder \<Rightarrow> sapi_builder" where
  "sapi_startup_function f b = b\<lparr>sb_module := (sb_module b)\<lparr>sm_startup := Some f\<rparr>\<rparr>"

definition sapi_shutdown_function :: "nat \<Rightarrow> sapi_builder \<Rightarrow> sapi_builder" where
  "sapi_shutdown_function f b = b\<lparr>sb_module := (sb_module b)\<lparr>sm_shutdown := Some f\<rparr>\<rparr>"

definition sapi_activate_function :: "nat \<Rightarrow> sapi_builder \<Rightarrow> sapi_builder" where
  "sapi_activate_function f b = b\<lparr>sb_module := (sb_module b)\<lparr>sm_activate := Some f\<rparr>\<rparr>"

definition sapi_deactivate_function :: "nat \<Rightarrow> sapi_builder \<Rightarrow> sapi_builder" where
  "sapi_deactivate_function f b = b\<lparr>sb_module := (sb_module b)\<lparr>sm_deactivate := Some f\<rparr>\<rparr>"

definition sapi_ub_write_function :: "nat \<Rightarrow> sapi_builder \<Rightarrow> sapi_builder" where
  "sapi_ub_write_function f b = b\<lparr>sb_module := (sb_module b)\<lparr>sm_ub_write := Some f\<rparr>\<rparr>"

definition sapi_flush_function :: "nat \<Rightarrow> sapi_builder \<Rightarrow> sapi_builder" where
  "sapi_flush_function f b = b\<lparr>sb_module := (sb_module b)\<lparr>sm_flush := Some f\<rparr>\<rparr>"

definition sapi_getenv_function :: "nat \<Rightarrow> sapi_builder \<Rightarrow> sapi_builder" where
  "sapi_getenv_function f b = b\<lparr>sb_module := (sb_module b)\<lparr>sm_getenv := Some f\<rparr>\<rparr>"

definition sapi_sapi_error_function :: "nat \<Rightarrow> sapi_builder \<Rightarrow> sapi_builder" where
  "sapi_sapi_error_function f b = b\<lparr>sb_module := (sb_module b)\<lparr>sm_sapi_error := Some f\<rparr>\<rparr>"

definition sapi_send_header_function :: "nat \<Rightarrow> sapi_builder \<Rightarrow> sapi_builder" where
  "sapi_send_header_function f b = b\<lparr>sb_module := (sb_module b)\<lparr>sm_send_header := Some f\<rparr>\<rparr>"

definition sapi_send_headers_function :: "nat \<Rightarrow> sapi_builder \<Rightarrow> sapi_builder" where
  "sapi_send_headers_function f b = b\<lparr>sb_module := (sb_module b)\<lparr>sm_send_headers := Some f\<rparr>\<rparr>"

definition sapi_read_post_function :: "nat \<Rightarrow> sapi_builder \<Rightarrow> sapi_builder" where
  "sapi_read_post_function f b = b\<lparr>sb_module := (sb_module b)\<lparr>sm_read_post := Some f\<rparr>\<rparr>"

definition sapi_read_cookies_function :: "nat \<Rightarrow> sapi_builder \<Rightarrow> sapi_builder" where
  "sapi_read_cookies_function f b = b\<lparr>sb_module := (sb_module b)\<lparr>sm_read_cookies := Some f\<rparr>\<rparr>"

definition sapi_register_server_variables_function :: "nat \<Rightarrow> sapi_builder \<Rightarrow> sapi_builder" where
  "sapi_register_server_variables_function f b = b\<lparr>sb_module := (sb_module b)\<lparr>sm_register_server_variables := Some f\<rparr>\<rparr>"

definition sapi_log_message_function :: "nat \<Rightarrow> sapi_builder \<Rightarrow> sapi_builder" where
  "sapi_log_message_function f b = b\<lparr>sb_module := (sb_module b)\<lparr>sm_log_message := Some f\<rparr>\<rparr>"

definition sapi_get_request_time_function :: "nat \<Rightarrow> sapi_builder \<Rightarrow> sapi_builder" where
  "sapi_get_request_time_function f b = b\<lparr>sb_module := (sb_module b)\<lparr>sm_get_request_time := Some f\<rparr>\<rparr>"

definition sapi_terminate_process_function :: "nat \<Rightarrow> sapi_builder \<Rightarrow> sapi_builder" where
  "sapi_terminate_process_function f b = b\<lparr>sb_module := (sb_module b)\<lparr>sm_terminate_process := Some f\<rparr>\<rparr>"

definition sapi_get_target_uid_function :: "nat \<Rightarrow> sapi_builder \<Rightarrow> sapi_builder" where
  "sapi_get_target_uid_function f b = b\<lparr>sb_module := (sb_module b)\<lparr>sm_get_target_uid := Some f\<rparr>\<rparr>"

definition sapi_get_target_gid_function :: "nat \<Rightarrow> sapi_builder \<Rightarrow> sapi_builder" where
  "sapi_get_target_gid_function f b = b\<lparr>sb_module := (sb_module b)\<lparr>sm_get_target_gid := Some f\<rparr>\<rparr>"

definition sapi_pre_request_init_function :: "nat \<Rightarrow> sapi_builder \<Rightarrow> sapi_builder" where
  "sapi_pre_request_init_function f b = b\<lparr>sb_module := (sb_module b)\<lparr>sm_pre_request_init := Some f\<rparr>\<rparr>"

definition sapi_php_ini_ignore :: "int \<Rightarrow> sapi_builder \<Rightarrow> sapi_builder" where
  "sapi_php_ini_ignore i b = b\<lparr>sb_module := (sb_module b)\<lparr>sm_php_ini_ignore := i\<rparr>\<rparr>"

definition sapi_php_ini_ignore_cwd :: "int \<Rightarrow> sapi_builder \<Rightarrow> sapi_builder" where
  "sapi_php_ini_ignore_cwd i b = b\<lparr>sb_module := (sb_module b)\<lparr>sm_php_ini_ignore_cwd := i\<rparr>\<rparr>"

definition sapi_ini_entries :: "string \<Rightarrow> sapi_builder \<Rightarrow> sapi_builder" where
  "sapi_ini_entries s b = b\<lparr>sb_ini_entries := Some s\<rparr>"

definition sapi_php_ini_path_override :: "string \<Rightarrow> sapi_builder \<Rightarrow> sapi_builder" where
  "sapi_php_ini_path_override s b = b\<lparr>sb_php_ini_path_override := Some s\<rparr>"

definition sapi_executable_location :: "string \<Rightarrow> sapi_builder \<Rightarrow> sapi_builder" where
  "sapi_executable_location s b = b\<lparr>sb_executable_location := Some s\<rparr>"

text \<open>The functions of the engine and of the crate that \<open>build\<close> falls back to.\<close>

record sapi_defaults =
  sd_send_header :: nat
  sd_php_error :: nat
  sd_post_reader :: nat
  sd_treat_data :: nat
  sd_input_filter :: nat

definition or_default :: "'a \<Rightarrow> 'a option \<Rightarrow> 'a option" where
  "or_default d x = (case x of None \<Rightarrow> Some d | Some y \<Rightarrow> Some y)"

text \<open>An optional string becomes a C string; the error is that of a NUL byte.\<close>

definition cstring_option :: "string option \<Rightarrow> error + string option" where
  "cstring_option s =
     (case s of None \<Rightarrow> Inr None | Some t \<Rightarrow> (case cstring_new t of None \<Rightarrow> Inl InvalidCString | Some c \<Rightarrow> Inr (Some c)))"

definition sapi_build :: "sapi_defaults \<Rightarrow> sapi_builder \<Rightarrow> error + sapi_module" where
  "sapi_build d b =
     (case cstring_option (Some (sb_name b)) of Inl e \<Rightarrow> Inl e | Inr n \<Rightarrow>
     (case cstring_option (Some (sb_pretty_name b)) of Inl e \<Rightarrow> Inl e | Inr p \<Rightarrow>
     (case cstring_option (sb_executable_location b) of Inl e \<Rightarrow> Inl e | Inr loc \<Rightarrow>
     (case cstring_option (sb_ini_entries b) of Inl e \<Rightarrow> Inl e | Inr entries \<Rightarrow>
     (case cstring_option (sb_php_ini_path_override b) of Inl e \<Rightarrow> Inl e | Inr path \<Rightarrow>
        let m = sb_module b
        in Inr (m\<lparr>sm_name := n, sm_pretty_name := p,
                  sm_executable_location := (if loc = None then sm_executable_location m else loc),
                  sm_ini_entries := (if entries = None then sm_ini_entries m else entries),
                  sm_php_ini_path_override := (if path = None then sm_php_ini_path_override m else path),
                  sm_send_header := or_default (sd_send_header d) (sm_send_header m),
                  sm_sapi_error := or_default (sd_php_error d) (sm_sapi_error m),
                  sm_default_post_reader := or_default (sd_post_reader d) (sm_default_post_reader m),
                  sm_treat_data := or_default (sd_treat_data d) (sm_treat_data m),
                  sm_input_filter := or_default (sd_input_filter d) (sm_input_filter m)\<rparr>))))))"

section \<open>Response headers\<close>

text \<open>A header of the engine: its bytes, \<open>None\<close> for a null pointer. The length is that of the bytes.\<close>

definition header_as_str :: "string option \<Rightarrow> string option" where
  "header_as_str raw = (case raw of None \<Rightarrow> None | Some s \<Rightarrow> if s = [] then None else if utf8_valid s then Some s else None)"

definition split_once :: "char \<Rightarrow> string \<Rightarrow> (string \<times> string) option" where
  "split_once c s = (if c \<in> set s then Some (takeWhile (\<lambda>x. x \<noteq> c) s, tl (dropWhile (\<lambda>x. x \<noteq> c) s)) else None)"

definition header_as_name_value :: "string option \<Rightarrow> (string \<times> string) option" where
  "header_as_name_value raw =
     (case header_as_str raw of
        None \<Rightarrow> None
      | Some s \<Rightarrow> (case split_once (CHR '':'') s of None \<Rightarrow> None | Some (n, v) \<Rightarrow> Some (trim n, trim v)))"

datatype send_headers_result = SentSuccessfully | DoSend | SendFailed

definition send_headers_code :: "send_headers_result \<Rightarrow> int" where
  "send_headers_code r = (case r of SentSuccessfully \<Rightarrow> 1 | DoSend \<Rightarrow> 2 | SendFailed \<Rightarrow> 3)"

section \<open>A server written in Rust\<close>

text \<open>The functions of the trait: each gets the context and may change it; \<open>read_post\<close> fills the buffer it is given.\<close>

record 'c sapi_impl =
  si_name :: string
  si_pretty_name :: string
  si_ub_write :: "'c \<Rightarrow> string \<Rightarrow> nat \<times> 'c"
  si_flush :: "'c \<Rightarrow> 'c"
  si_send_headers :: "'c \<Rightarrow> int \<Rightarrow> send_headers_result \<times> 'c"
  si_send_header :: "'c \<Rightarrow> string option \<Rightarrow> 'c"
  si_read_post :: "'c \<Rightarrow> string \<Rightarrow> nat \<times> string \<times> 'c"
  si_read_cookies :: "'c \<Rightarrow> string option \<times> 'c"
  si_server_variables :: "'c \<Rightarrow> (string \<times> string) list \<times> 'c"

text \<open>The functions a server need not write itself; \<open>read_post\<close> and \<open>read_cookies\<close> are then those of the context.\<close>

definition sapi_impl_default ::
    "string \<Rightarrow> string \<Rightarrow> ('c \<Rightarrow> string \<Rightarrow> nat \<times> 'c) \<Rightarrow> ('c \<Rightarrow> string \<Rightarrow> nat \<times> string \<times> 'c) \<Rightarrow> ('c \<Rightarrow> string option) \<Rightarrow> 'c sapi_impl" where
  "sapi_impl_default n p ub_write read_post read_cookies =
     \<lparr>si_name = n, si_pretty_name = p, si_ub_write = ub_write, si_flush = (\<lambda>c. c), si_send_headers = (\<lambda>c _. (DoSend, c)),
      si_send_header = (\<lambda>c _. c), si_read_post = read_post, si_read_cookies = (\<lambda>c. (read_cookies c, c)),
      si_server_variables = (\<lambda>c. ([], c))\<rparr>"

text \<open>The addresses of the trampolines, and the module they are put in.\<close>

record trampolines =
  tr_ub_write :: nat
  tr_log_message :: nat
  tr_flush :: nat
  tr_send_headers :: nat
  tr_send_header :: nat
  tr_read_post :: nat
  tr_read_cookies :: nat
  tr_server_variables :: nat

definition build_module :: "sapi_defaults \<Rightarrow> trampolines \<Rightarrow> 'c sapi_impl \<Rightarrow> error + sapi_module" where
  "build_module d tr si =
     sapi_build d
       (sapi_register_server_variables_function (tr_server_variables tr)
         (sapi_read_cookies_function (tr_read_cookies tr)
           (sapi_read_post_function (tr_read_post tr)
             (sapi_send_header_function (tr_send_header tr)
               (sapi_send_headers_function (tr_send_headers tr)
                 (sapi_flush_function (tr_flush tr)
                   (sapi_log_message_function (tr_log_message tr)
                     (sapi_ub_write_function (tr_ub_write tr)
                       (sapi_new (si_name si) (si_pretty_name si))))))))))"

text \<open>The trampolines. The state is the context of the request; a pointer argument is \<open>None\<close> when null.\<close>

definition trampoline_ub_write :: "'c sapi_impl \<Rightarrow> string option \<Rightarrow> 'c option \<Rightarrow> nat \<times> 'c option" where
  "trampoline_ub_write si str ctx =
     (case str of
        None \<Rightarrow> (0, ctx)
      | Some s \<Rightarrow>
          if s = [] then (0, ctx)
          else case ctx of None \<Rightarrow> (0, None) | Some c \<Rightarrow> (let (n, c) = si_ub_write si c s in (n, Some c)))"

text \<open>The message is a C string; bytes that are not UTF-8 are replaced. The log is kept apart from the context.\<close>

definition trampoline_log_message :: "(string \<Rightarrow> int \<Rightarrow> 'l \<Rightarrow> 'l) \<Rightarrow> string option \<Rightarrow> int \<Rightarrow> 'l \<Rightarrow> 'l" where
  "trampoline_log_message log_message message syslog_type l =
     (case message of None \<Rightarrow> l | Some msg \<Rightarrow> log_message (from_utf8_lossy msg) syslog_type l)"

definition trampoline_flush :: "'c sapi_impl \<Rightarrow> 'c option \<Rightarrow> 'c option" where
  "trampoline_flush si ctx = map_option (si_flush si) ctx"

definition trampoline_send_headers :: "'c sapi_impl \<Rightarrow> int option \<Rightarrow> 'c option \<Rightarrow> int \<times> 'c option" where
  "trampoline_send_headers si headers ctx =
     (case headers of
        None \<Rightarrow> (send_headers_code SendFailed, ctx)
      | Some code \<Rightarrow>
          (case ctx of
             None \<Rightarrow> (send_headers_code SendFailed, None)
           | Some c \<Rightarrow> (let (r, c) = si_send_headers si c code in (send_headers_code r, Some c))))"

definition trampoline_send_header :: "'c sapi_impl \<Rightarrow> string option option \<Rightarrow> 'c option \<Rightarrow> 'c option" where
  "trampoline_send_header si header ctx =
     (case header of None \<Rightarrow> ctx | Some h \<Rightarrow> map_option (\<lambda>c. si_send_header si c h) ctx)"

definition trampoline_read_post :: "'c sapi_impl \<Rightarrow> string option \<Rightarrow> 'c option \<Rightarrow> nat \<times> string option \<times> 'c option" where
  "trampoline_read_post si buffer ctx =
     (case buffer of
        None \<Rightarrow> (0, None, ctx)
      | Some buf \<Rightarrow>
          if buf = [] then (0, Some buf, ctx)
          else case ctx of
                 None \<Rightarrow> (0, Some buf, None)
               | Some c \<Rightarrow> (let (n, buf, c) = si_read_post si c buf in (n, Some buf, Some c)))"

definition trampoline_read_cookies :: "'c sapi_impl \<Rightarrow> 'c option \<Rightarrow> string option \<times> 'c option" where
  "trampoline_read_cookies si ctx =
     (case ctx of
        None \<Rightarrow> (None, None)
      | Some c \<Rightarrow> (let (cookies, c) = si_read_cookies si c in (Option.bind cookies cstring_new, Some c)))"

text \<open>\<open>ServerVarRegistrar::register\<close> on the variables registered so far, and its trampoline; a name with a NUL byte is left out.\<close>

definition register_server_var :: "string \<times> string \<Rightarrow> (string \<times> string) list \<Rightarrow> (string \<times> string) list" where
  "register_server_var nv vars = (case cstring_new (fst nv) of None \<Rightarrow> vars | Some n \<Rightarrow> vars @ [(n, snd nv)])"

definition trampoline_server_variables ::
    "'c sapi_impl \<Rightarrow> (string \<times> string) list option \<Rightarrow> 'c option \<Rightarrow> (string \<times> string) list option \<times> 'c option" where
  "trampoline_server_variables si vars ctx =
     (case vars of
        None \<Rightarrow> (None, ctx)
      | Some vs \<Rightarrow>
          (case ctx of
             None \<Rightarrow> (Some vs, None)
           | Some c \<Rightarrow> (let (l, c) = si_server_variables si c in (Some (fold register_server_var l vs), Some c))))"

section \<open>Running PHP\<close>

datatype embed_error =
  InitError | ExecuteError "nat option" | ExecuteScriptError | InvalidEvalString | InvalidPath | EmbedCatchError

definition is_bailout :: "embed_error \<Rightarrow> bool" where
  "is_bailout e \<longleftrightarrow> e = EmbedCatchError"

text \<open>\<open>eval_string\<close> is the engine's: how it ends, with its result code, the zval it wrote and its state.\<close>

definition embed_eval ::
    "(string \<Rightarrow> 'w \<Rightarrow> int run \<times> zval \<times> 'w) \<Rightarrow> ('w \<Rightarrow> nat option \<times> 'w) \<Rightarrow> string \<Rightarrow> 'w \<Rightarrow> (embed_error + zval) caught \<times> 'w" where
  "embed_eval eval_string take_exception code w =
     (case cstring_new code of
        None \<Rightarrow> (TryOk (Inl InvalidEvalString), w)
      | Some c \<Rightarrow>
          (case eval_string c w of (r, result, w) \<Rightarrow>
             (case do_try_catch r of
                ResumesPanic e \<Rightarrow> (ResumesPanic e, w)
              | CatchError \<Rightarrow> (TryOk (Inl EmbedCatchError), w)
              | TryOk n \<Rightarrow>
                  if n = 0 then (TryOk (Inr result), w)
                  else (let (ex, w) = take_exception w in (TryOk (Inl (ExecuteError ex)), w)))))"

text \<open>The file handles the engine has open are counted beside its state; \<open>path\<close> is the path as text, \<open>None\<close> when it is not UTF-8.\<close>

definition embed_run_script ::
    "(string \<Rightarrow> 'w \<Rightarrow> bool run \<times> 'w) \<Rightarrow> string option \<Rightarrow> nat \<times> 'w \<Rightarrow> (embed_error + unit) caught \<times> nat \<times> 'w" where
  "embed_run_script execute path s =
     (case path of
        None \<Rightarrow> (TryOk (Inl InvalidPath), s)
      | Some p \<Rightarrow>
          (case cstring_new p of
             None \<Rightarrow> (TryOk (Inl InvalidEvalString), s)
           | Some c \<Rightarrow>
               (case s of (handles, w) \<Rightarrow>
                  let handles = handles + 1
                  in case execute c w of (r, w) \<Rightarrow>
                       (case do_try_catch r of
                          ResumesPanic e \<Rightarrow> (ResumesPanic e, handles, w)
                        | CatchError \<Rightarrow> (TryOk (Inl EmbedCatchError), handles - 1, w)
                        | TryOk True \<Rightarrow> (TryOk (Inr ()), handles - 1, w)
                        | TryOk False \<Rightarrow> (TryOk (Inl ExecuteScriptError), handles - 1, w)))))"

text \<open>\<open>ext_php_rs_embed_callback\<close> of \<open>src/embed/embed.c\<close>: the engine is started, the callback runs under the engine's own catch
  (a bailout that nothing inside caught leaves the result a null pointer, here \<open>None\<close>), and the engine is shut down. The engine's
  start and shutdown act on its state \<open>'w\<close>.\<close>

record 'w embed_api =
  ea_init :: "'w \<Rightarrow> 'w"
  ea_shutdown :: "'w \<Rightarrow> 'w"

definition ext_php_rs_embed_callback :: "'w embed_api \<Rightarrow> ('w \<Rightarrow> 'p option \<times> 'w) \<Rightarrow> 'w \<Rightarrow> 'p option \<times> 'w" where
  "ext_php_rs_embed_callback api callback w =
     (let (result, w) = callback (ea_init api w) in (result, ea_shutdown api w))"

text \<open>\<open>Embed::run\<close>: the lock, the callback with the closure in its panic wrapper, and the result: the default after a
  bailout, the closure's result, or its panic resumed. The lock guard is dropped on each of the three ways
  out. \<open>None\<close> is the deadlock of a thread that holds the lock already; a closure that starts a run of its own is outside the model.\<close>

record 'w embed_state =
  em_locked :: bool
  em_engine :: 'w

definition embed_run ::
    "'w embed_api \<Rightarrow> 'r \<Rightarrow> ('w \<Rightarrow> 'r run \<times> 'w) \<Rightarrow> 'w embed_state \<Rightarrow> ((string + 'r) \<times> 'w embed_state) option" where
  "embed_run api dflt func s =
     (if em_locked s then None
      else
        let s = s\<lparr>em_locked := True\<rparr>;
            (panic, w) = ext_php_rs_embed_callback api (\<lambda>w. case func w of (r, w) \<Rightarrow> (fst (panic_wrapper r), w)) (em_engine s);
            s = s\<lparr>em_engine := w\<rparr>;
            drop_guard = (\<lambda>s. s\<lparr>em_locked := False\<rparr>)
        in case panic of
             None \<Rightarrow> Some (Inr dflt, drop_guard s)
           | Some (Inr r) \<Rightarrow> Some (Inr r, drop_guard s)
           | Some (Inl err) \<Rightarrow> Some (Inl err, drop_guard s))"

section \<open>INI entries\<close>

record ini_entry_def =
  ie_name :: "string option"
  ie_value :: "string option"
  ie_modifiable :: nat
  ie_value_length :: nat
  ie_name_length :: nat

definition ini_entry_end :: ini_entry_def where
  "ini_entry_end = \<lparr>ie_name = None, ie_value = None, ie_modifiable = 0, ie_value_length = 0, ie_name_length = 0\<rparr>"

text \<open>The length of a name has 16 bits, that of a value 32, the permission 8; \<open>None\<close> is a panic.\<close>

definition ini_entry_new :: "string \<Rightarrow> string \<Rightarrow> u32 \<Rightarrow> ini_entry_def option" where
  "ini_entry_new n v permission =
     (case (cstring_new n, cstring_new v) of
        (Some n, Some v) \<Rightarrow>
          if length n < 2 ^ 16 \<and> length v < 2 ^ 32 \<and> unat permission < 2 ^ 8
          then Some \<lparr>ie_name = Some n, ie_value = Some v, ie_modifiable = unat permission, ie_value_length = length v,
                 ie_name_length = length n\<rparr>
          else None
      | _ \<Rightarrow> None)"

text \<open>\<open>register\<close>: the array the engine gets.\<close>

definition ini_entries_registered :: "ini_entry_def list \<Rightarrow> ini_entry_def list" where
  "ini_entries_registered entries = entries @ [ini_entry_end]"

section \<open>Facts\<close>

lemma cstring_option_Inl: "cstring_option x = Inl e \<longleftrightarrow> e = InvalidCString \<and> (\<exists>s. x = Some s \<and> CHR 0x00 \<in> set s)"
  by (auto simp: cstring_option_def cstring_new_def split: option.splits)

lemma cstring_option_Inr: "cstring_option x = Inr y \<longleftrightarrow> y = x \<and> (\<forall>s. x = Some s \<longrightarrow> CHR 0x00 \<notin> set s)"
  by (auto simp: cstring_option_def cstring_new_def split: option.splits)

lemmas sapi_setters =
  sapi_startup_function_def sapi_shutdown_function_def sapi_activate_function_def sapi_deactivate_function_def
  sapi_ub_write_function_def sapi_flush_function_def sapi_getenv_function_def sapi_sapi_error_function_def
  sapi_send_header_function_def sapi_send_headers_function_def sapi_read_post_function_def sapi_read_cookies_function_def
  sapi_register_server_variables_function_def sapi_log_message_function_def sapi_get_request_time_function_def
  sapi_terminate_process_function_def sapi_get_target_uid_function_def sapi_get_target_gid_function_def
  sapi_pre_request_init_function_def sapi_php_ini_ignore_def sapi_php_ini_ignore_cwd_def sapi_ini_entries_def
  sapi_php_ini_path_override_def sapi_executable_location_def

text \<open>The strings a builder turns into C strings.\<close>

definition sapi_strings :: "sapi_builder \<Rightarrow> string list" where
  "sapi_strings b = sb_name b # sb_pretty_name b #
     concat (map (case_option [] (\<lambda>s. [s])) [sb_executable_location b, sb_ini_entries b, sb_php_ini_path_override b])"

lemma sapi_build_Inl:
  "sapi_build d b = Inl e \<longleftrightarrow> e = InvalidCString \<and> (\<exists>s \<in> set (sapi_strings b). CHR 0x00 \<in> set s)"
  by (auto simp: sapi_build_def sapi_strings_def cstring_option_def cstring_new_def Let_def split: option.splits sum.splits if_splits)

lemma split_once_append [simp]: "c \<notin> set n \<Longrightarrow> split_once c (n @ c # v) = Some (n, v)"
  by (induction n) (auto simp: split_once_def)

lemma do_try_catch_run [simp]:
  "do_try_catch (Returns r) = TryOk r" "do_try_catch (Panics e) = ResumesPanic e" "do_try_catch Bails = CatchError"
  by (simp_all add: do_try_catch_def panic_wrapper_def)

section \<open>The module of a server\<close>

text \<open>The module a server gets: it fails exactly when its name or its pretty name has a NUL byte, and otherwise it carries the two
  names, the eight callbacks of the trait, the defaults of the crate and of the engine where the trait has no callback, and nothing else.\<close>

theorem build_module_wired:
  "build_module d tr si =
     (if CHR 0x00 \<in> set (si_name si) \<or> CHR 0x00 \<in> set (si_pretty_name si) then Inl InvalidCString
      else Inr (sapi_module_empty
        \<lparr>sm_name := Some (si_name si), sm_pretty_name := Some (si_pretty_name si),
         sm_ub_write := Some (tr_ub_write tr), sm_flush := Some (tr_flush tr), sm_log_message := Some (tr_log_message tr),
         sm_send_headers := Some (tr_send_headers tr), sm_send_header := Some (tr_send_header tr),
         sm_read_post := Some (tr_read_post tr), sm_read_cookies := Some (tr_read_cookies tr),
         sm_register_server_variables := Some (tr_server_variables tr),
         sm_sapi_error := Some (sd_php_error d), sm_default_post_reader := Some (sd_post_reader d),
         sm_treat_data := Some (sd_treat_data d), sm_input_filter := Some (sd_input_filter d)\<rparr>))"
  by (simp add: build_module_def sapi_build_def sapi_setters sapi_new_def sapi_module_empty_def cstring_option_def
      cstring_new_def or_default_def Let_def)

text \<open>A header a server is handed splits back into the name and the value it was made of, whatever the number of further colons.\<close>

theorem header_roundtrip:
  assumes "trim n = n" and "trim v = v" and "CHR '':'' \<notin> set n" and "utf8_valid (n @ '': '' @ v)"
  shows "header_as_name_value (Some (n @ '': '' @ v)) = Some (n, v)"
  using assms by (simp add: header_as_name_value_def header_as_str_def trim_def)

theorem header_roundtrip_witness:
  "header_as_name_value (Some (''X'' @ '': '' @ ''a:b'')) = Some (''X'', ''a:b'')"
  by (rule header_roundtrip) code_simp+

text \<open>Output reaches the server byte by byte and in order. When the server writes what it is given behind what it has, the chunks the
  engine hands over, null pointers and empty chunks included, end up as one text, and outside a request none of them does.\<close>

theorem output_in_order:
  fixes si :: "'c sapi_impl" and out :: "'c \<Rightarrow> string"
  assumes "\<And>c s. fst (si_ub_write si c s) = length s \<and> out (snd (si_ub_write si c s)) = out c @ s"
  shows "map_option out (fold (\<lambda>chunk ctx. snd (trampoline_ub_write si chunk ctx)) chunks ctx) =
      map_option (\<lambda>c. out c @ concat (map (case_option [] id) chunks)) ctx"
proof (induction chunks arbitrary: ctx)
  case Nil
  then show ?case by (cases ctx) simp_all
next
  case (Cons chunk chunks)
  have "map_option out (snd (trampoline_ub_write si chunk ctx)) = map_option (\<lambda>c. out c @ case_option [] id chunk) ctx"
    using assms by (cases chunk; cases ctx) (auto simp: trampoline_ub_write_def split: prod.splits, (metis snd_conv)+)
  with Cons.IH show ?case
    by (cases ctx; cases "snd (trampoline_ub_write si chunk ctx)") (auto simp: option.map_comp comp_def)
qed

theorem output_in_order_witness:
  "let si = sapi_impl_default ''s'' ''S'' (\<lambda>c s. (length s, c @ s)) (\<lambda>c b. (0, b, c)) (\<lambda>c. None)
   in map_option id (fold (\<lambda>chunk ctx. snd (trampoline_ub_write si chunk ctx)) [Some ''ab'', None, Some [], Some ''c''] (Some [])) = Some ''abc''"
  using output_in_order [of "sapi_impl_default ''s'' ''S'' (\<lambda>c s. (length s, c @ s)) (\<lambda>c b. (0, b, c)) (\<lambda>c. None)" id
      "[Some ''ab'', None, Some [], Some ''c'']" "Some []"]
  by (simp add: sapi_impl_default_def)

text \<open>The file handles of \<open>run_script\<close>: closed whichever way the script ends, unless it panics.\<close>

lemma embed_run_script_handles:
  assumes "embed_run_script execute path (handles, w) = (res, handles', w')"
  shows "handles' = handles + (case res of ResumesPanic _ \<Rightarrow> 1 | _ \<Rightarrow> 0) \<and> res \<noteq> CatchError"
  using assms by (auto simp: embed_run_script_def Let_def split: option.splits prod.splits caught.splits bool.splits)

section \<open>The length of an INI value\<close>

text \<open>An INI value of 65536 bytes and more is accepted, with its full length; only a name is held to 16 bits.\<close>

theorem ini_long_value_accepted:
  assumes "2 ^ 16 \<le> length v" and "length v < 2 ^ 32" and "CHR 0x00 \<notin> set v"
    and "length n < 2 ^ 16" and "CHR 0x00 \<notin> set n" and "unat permission < 2 ^ 8"
  shows "\<exists>e. ini_entry_new n v permission = Some e \<and> ie_value e = Some v \<and> ie_value_length e = length v"
  using assms by (simp add: ini_entry_new_def cstring_new_def)

end
