(* ===== verification/Cli.thy ===== *)
theory Cli
  imports ZendString
begin

text \<open>
  \<open>crates/cli/src/lib.rs\<close>: the commands of \<open>cargo php\<close> that install and remove an extension. The file system
  is a record of files and directories that the commands thread; whether an operation on it is
  permitted, what \<open>cargo\<close> and \<open>php\<close> answer and what the user types are the fields of an environment.
  A path is a string with \<open>/\<close> between its components. An error is the message the command ends with.
\<close>

section \<open>Paths and files\<close>

text \<open>\<open>Path::file_name\<close>, \<open>extension\<close>, \<open>with_extension\<close> and \<open>PathBuf::push\<close>.\<close>

definition path_file_name :: "string \<Rightarrow> string option" where
  "path_file_name p =
     (case rev (filter (\<lambda>c. c \<noteq> [] \<and> c \<noteq> ''.'') (split_char (CHR ''/'') p)) of
        [] \<Rightarrow> None | n # _ \<Rightarrow> if n = ''..'' then None else Some n)"

definition name_split :: "string \<Rightarrow> string \<times> string option" where
  "name_split n =
     (case rfind_char (CHR ''.'') n of
        None \<Rightarrow> (n, None)
      | Some i \<Rightarrow> if i = 0 then (n, None) else (take i n, Some (drop (Suc i) n)))"

definition path_extension :: "string \<Rightarrow> string option" where
  "path_extension p = Option.bind (path_file_name p) (\<lambda>n. snd (name_split n))"

definition path_with_extension :: "string \<Rightarrow> string \<Rightarrow> string" where
  "path_with_extension p ext =
     (case path_file_name p of
        None \<Rightarrow> p
      | Some n \<Rightarrow>
          (let dir = take (length (trim_end_matches (CHR ''/'') p) - length n) p; stem = fst (name_split n)
           in dir @ stem @ (if ext = [] then [] else ''.'' @ ext)))"

definition path_push :: "string \<Rightarrow> string \<Rightarrow> string" where
  "path_push p n =
     (if prefix ''/'' n then n
      else if p = [] \<or> last p = CHR ''/'' then p @ n
      else p @ ''/'' @ n)"

record cli_fs =
  fs_file :: "string \<Rightarrow> string option"
  fs_dir :: "string \<Rightarrow> bool"

definition fs_exists :: "cli_fs \<Rightarrow> string \<Rightarrow> bool" where
  "fs_exists fs p \<longleftrightarrow> fs_file fs p \<noteq> None \<or> fs_dir fs p"

definition set_file :: "string \<Rightarrow> string option \<Rightarrow> cli_fs \<Rightarrow> cli_fs" where
  "set_file p c fs = fs\<lparr>fs_file := (fs_file fs)(p := c)\<rparr>"

datatype io_op =
    OpCreateDir string | OpCopy string string | OpRename string string | OpRemove string
  | OpOpen string | OpRewind string | OpSetLen string | OpWrite string

datatype cli_error =
    MetadataFailed | NoRootPackage | NoLibraryTargets | PromptFailed | SpawnFailed | InvalidMessage
  | CompilationError | ArtifactNotCompiled | NoExtensionPath | CallPhpFailed | PhpStatusFailed
  | ExtDirNotADirectory string | CreateDirFailed string | IniNotAFile string | InstallationCancelled
  | PanicNotAFilePath | PanicIndex | CopyFailed | RenameFailed | SmokeTestFailedToRun | ExtensionFailedToLoad string
  | OpenIniFailed | ReadLineFailed | AlreadyEnabled | UpdateIniFailed | IoFailed | NotInstalled | RemoveFailed

datatype crate_type = DyLib | CDyLib | OtherCrateType string

record cargo_target =
  tg_name :: string
  tg_crate_types :: "crate_type list"

datatype cargo_message =
    CompilerArtifact cargo_target "string list" | BuildFinished bool | OtherMessage

text \<open>\<open>ev_metadata\<close> gives the targets of the root package; \<open>ev_cargo\<close> the messages of a build, an undecodable one as
  \<open>None\<close>; \<open>ev_php\<close> whether the process succeeded, its output and its error output; \<open>ev_written\<close> how many bytes of a
  single write are accepted.\<close>

record cli_env =
  ev_metadata :: "string option \<Rightarrow> cargo_target list option option"
  ev_select :: "string list \<Rightarrow> nat option"
  ev_cargo :: "string list \<Rightarrow> cargo_message option list option"
  ev_php :: "string list \<Rightarrow> cli_fs \<Rightarrow> (bool \<times> string \<times> string) option"
  ev_confirm :: "string \<Rightarrow> bool option"
  ev_io :: "io_op \<Rightarrow> bool"
  ev_written :: "nat \<Rightarrow> nat"
  ev_pid :: nat
  ev_dll_prefix :: string
  ev_dll_suffix :: string
  ev_dll_extension :: string

type_synonym 'a cli_result = "(cli_error + 'a) \<times> cli_fs"

definition and_then :: "'a cli_result \<Rightarrow> ('a \<Rightarrow> cli_fs \<Rightarrow> 'b cli_result) \<Rightarrow> 'b cli_result" where
  "and_then m f = (case m of (Inl e, fs) \<Rightarrow> (Inl e, fs) | (Inr a, fs) \<Rightarrow> f a fs)"

section \<open>Finding and building the extension\<close>

definition is_library_target :: "cargo_target \<Rightarrow> bool" where
  "is_library_target t \<longleftrightarrow> list_ex (\<lambda>ty. ty = DyLib \<or> ty = CDyLib) (tg_crate_types t)"

definition find_ext :: "cli_env \<Rightarrow> string option \<Rightarrow> cli_error + cargo_target" where
  "find_ext ev manifest =
     (case ev_metadata ev manifest of
        None \<Rightarrow> Inl MetadataFailed
      | Some None \<Rightarrow> Inl NoRootPackage
      | Some (Some all) \<Rightarrow>
          (case filter is_library_target all of
             [] \<Rightarrow> Inl NoLibraryTargets
           | [t] \<Rightarrow> Inr t
           | targets \<Rightarrow>
               (case ev_select ev (map tg_name targets) of
                  None \<Rightarrow> Inl PromptFailed
                | Some chosen \<Rightarrow> if chosen < length targets then Inr (targets ! chosen) else Inl PanicIndex)))"

definition build_args :: "bool \<Rightarrow> string list option \<Rightarrow> bool \<Rightarrow> bool \<Rightarrow> string list" where
  "build_args release features all_features no_default_features =
     [''build'', ''--message-format=json-render-diagnostics''] @ (if release then [''--release''] else []) @
     (case features of None \<Rightarrow> [] | Some fs \<Rightarrow> ''--features'' # fs) @
     (if all_features then [''--all-features''] else []) @
     (if no_default_features then [''--no-default-features''] else [])"

fun scan_messages :: "cargo_target \<Rightarrow> cargo_message option list \<Rightarrow> string list option \<Rightarrow> cli_error + string list option" where
  "scan_messages target [] artifact = Inr artifact"
| "scan_messages target (None # ms) artifact = Inl InvalidMessage"
| "scan_messages target (Some m # ms) artifact =
     (case m of
        CompilerArtifact t filenames \<Rightarrow> scan_messages target ms (if t = target then Some filenames else artifact)
      | BuildFinished success \<Rightarrow> if success then Inr artifact else Inl CompilationError
      | OtherMessage \<Rightarrow> scan_messages target ms artifact)"

definition build_ext ::
    "cli_env \<Rightarrow> cargo_target \<Rightarrow> bool \<Rightarrow> string list option \<Rightarrow> bool \<Rightarrow> bool \<Rightarrow> cli_error + string" where
  "build_ext ev target release features all_features no_default_features =
     (case ev_cargo ev (build_args release features all_features no_default_features) of
        None \<Rightarrow> Inl SpawnFailed
      | Some ms \<Rightarrow>
          (case scan_messages target ms None of
             Inl e \<Rightarrow> Inl e
           | Inr None \<Rightarrow> Inl ArtifactNotCompiled
           | Inr (Some filenames) \<Rightarrow>
               (case find (\<lambda>f. path_extension f = Some (ev_dll_extension ev)) filenames of
                  Some f \<Rightarrow> Inr f | None \<Rightarrow> Inl NoExtensionPath)))"

section \<open>The PHP installation\<close>

definition php_echo :: "cli_env \<Rightarrow> string \<Rightarrow> cli_fs \<Rightarrow> cli_error + string" where
  "php_echo ev code fs =
     (case ev_php ev [''-r'', code] fs of
        None \<Rightarrow> Inl CallPhpFailed
      | Some (success, stdout, _) \<Rightarrow>
          if success then Inr (last (split_char (CHR 0x0A) stdout)) else Inl PhpStatusFailed)"

definition get_ext_dir :: "cli_env \<Rightarrow> cli_fs \<Rightarrow> string cli_result" where
  "get_ext_dir ev fs =
     and_then (php_echo ev ''echo ini_get('extension_dir');'' fs, fs) (\<lambda>ext_dir fs.
       if fs_dir fs ext_dir then (Inr ext_dir, fs)
       else if fs_exists fs ext_dir then (Inl (ExtDirNotADirectory ext_dir), fs)
       else if ev_io ev (OpCreateDir ext_dir)
       then (Inr ext_dir, fs\<lparr>fs_dir := (fs_dir fs)(ext_dir := True)\<rparr>)
       else (Inl (CreateDirFailed ext_dir), fs))"

definition get_php_ini :: "cli_env \<Rightarrow> cli_fs \<Rightarrow> string cli_result" where
  "get_php_ini ev fs =
     and_then (php_echo ev ''echo get_cfg_var('cfg_file_path');'' fs, fs) (\<lambda>ini fs.
       if fs_file fs ini = None then (Inl (IniNotAFile ini), fs) else (Inr ini, fs))"

text \<open>Where the extension goes and which configuration file is edited, in both commands.\<close>

definition locate :: "cli_env \<Rightarrow> string option \<Rightarrow> string option \<Rightarrow> cli_fs \<Rightarrow> (string \<times> string option) cli_result" where
  "locate ev install_dir ini_path fs =
     and_then
       (case install_dir of
          Some d \<Rightarrow> (Inr (d, None), fs)
        | None \<Rightarrow>
            and_then (get_ext_dir ev fs) (\<lambda>d fs.
              and_then (get_php_ini ev fs) (\<lambda>ini fs. (Inr (d, Some ini), fs))))
       (\<lambda>(d, ini) fs. (Inr (d, case ini_path of Some p \<Rightarrow> Some p | None \<Rightarrow> ini), fs))"

definition confirm :: "cli_env \<Rightarrow> bool \<Rightarrow> string \<Rightarrow> cli_error + unit" where
  "confirm ev yes prompt =
     (if yes then Inr ()
      else case ev_confirm ev prompt of
             None \<Rightarrow> Inl PromptFailed | Some True \<Rightarrow> Inr () | Some False \<Rightarrow> Inl InstallationCancelled)"

section \<open>Editing the configuration file\<close>

text \<open>Reading the lines in order: a line that is not text stops, and so does one that \<open>stop\<close> holds of.\<close>

fun read_lines :: "(string \<Rightarrow> bool) \<Rightarrow> string list \<Rightarrow> cli_error + string list" where
  "read_lines stop [] = Inr []"
| "read_lines stop (l # ls) =
     (if \<not> utf8_valid l then Inl ReadLineFailed
      else if stop l then Inl AlreadyEnabled
      else case read_lines stop ls of Inl e \<Rightarrow> Inl e | Inr rest \<Rightarrow> Inr (l # rest))"

text \<open>Rewinding, truncating and writing: a failure after the truncation leaves the file empty, and one write may
  take only part of the text.\<close>

definition rewrite_file :: "cli_env \<Rightarrow> string \<Rightarrow> string \<Rightarrow> cli_fs \<Rightarrow> unit cli_result" where
  "rewrite_file ev p text fs =
     (if \<not> ev_io ev (OpRewind p) then (Inl IoFailed, fs)
      else if \<not> ev_io ev (OpSetLen p) then (Inl IoFailed, fs)
      else if \<not> ev_io ev (OpWrite p) then (Inl UpdateIniFailed, set_file p (Some []) fs)
      else (Inr (), set_file p (Some (take (ev_written ev (length text)) text)) fs))"

definition enable_in_ini :: "cli_env \<Rightarrow> bool \<Rightarrow> string \<Rightarrow> string \<Rightarrow> cli_fs \<Rightarrow> unit cli_result" where
  "enable_in_ini ev disable ext_name php_ini fs =
     (if \<not> ev_io ev (OpOpen php_ini) then (Inl OpenIniFailed, fs)
      else case fs_file fs php_ini of
             None \<Rightarrow> (Inl OpenIniFailed, fs)
           | Some content \<Rightarrow>
               (let ext_line = ''extension='' @ ext_name
                in and_then (read_lines (\<lambda>l. str_contains l ext_line) (str_lines content), fs) (\<lambda>new_lines fs.
                     rewrite_file ev php_ini
                       (join [CHR 0x0A] (new_lines @ [if disable then CHR '';'' # ext_line else ext_line])) fs)))"

definition disable_in_ini :: "cli_env \<Rightarrow> string \<Rightarrow> string \<Rightarrow> cli_fs \<Rightarrow> unit cli_result" where
  "disable_in_ini ev ext_file php_ini fs =
     (if \<not> ev_io ev (OpOpen php_ini) then (Inl OpenIniFailed, fs)
      else case fs_file fs php_ini of
             None \<Rightarrow> (Inl OpenIniFailed, fs)
           | Some content \<Rightarrow>
               and_then (read_lines (\<lambda>_. False) (str_lines content), fs) (\<lambda>ls fs.
                 rewrite_file ev php_ini (join [CHR 0x0A] (filter (\<lambda>l. \<not> str_contains l ext_file) ls)) fs))"

section \<open>Installing\<close>

record install_opts =
  in_install_dir :: "string option"
  in_ini_path :: "string option"
  in_disable :: bool
  in_release :: bool
  in_manifest :: "string option"
  in_features :: "string list option"
  in_all_features :: bool
  in_no_default_features :: bool
  in_yes :: bool
  in_no_smoke_test :: bool

definition copy_extension :: "cli_env \<Rightarrow> string \<Rightarrow> string \<Rightarrow> cli_fs \<Rightarrow> unit cli_result" where
  "copy_extension ev ext_path ext_dir fs =
     (let temp = path_with_extension ext_dir
            ((case path_extension ext_dir of Some e \<Rightarrow> e | None \<Rightarrow> []) @ ''.tmp.'' @ show_nat (ev_pid ev))
      in case fs_file fs ext_path of
           None \<Rightarrow> (Inl CopyFailed, fs)
         | Some content \<Rightarrow>
             if \<not> ev_io ev (OpCopy ext_path temp) then (Inl CopyFailed, fs)
             else
               let fs = set_file temp (Some content) fs
               in if ev_io ev (OpRename temp ext_dir)
                  then (Inr (), set_file ext_dir (Some content) (set_file temp None fs))
                  else (Inl RenameFailed, if ev_io ev (OpRemove temp) then set_file temp None fs else fs))"

definition smoke_test :: "cli_env \<Rightarrow> bool \<Rightarrow> string \<Rightarrow> cli_fs \<Rightarrow> unit cli_result" where
  "smoke_test ev no_smoke_test ext_dir fs =
     (if no_smoke_test then (Inr (), fs)
      else case ev_php ev [''-d'', ''extension='' @ ext_dir, ''-r'', []] fs of
             None \<Rightarrow> (Inl SmokeTestFailedToRun, fs)
           | Some (success, _, stderr) \<Rightarrow>
               if success then (Inr (), fs)
               else (Inl (ExtensionFailedToLoad stderr),
                     if ev_io ev (OpRemove ext_dir) then set_file ext_dir None fs else fs))"

definition install_handle :: "cli_env \<Rightarrow> install_opts \<Rightarrow> cli_fs \<Rightarrow> unit cli_result" where
  "install_handle ev opts fs =
     and_then (find_ext ev (in_manifest opts), fs) (\<lambda>artifact fs.
     and_then (build_ext ev artifact (in_release opts) (in_features opts) (in_all_features opts)
                 (in_no_default_features opts), fs) (\<lambda>ext_path fs.
     and_then (locate ev (in_install_dir opts) (in_ini_path opts) fs) (\<lambda>(ext_dir, php_ini) fs.
     and_then (confirm ev (in_yes opts)
                 (''Are you sure you want to install the extension `'' @ tg_name artifact @ ''`?''), fs) (\<lambda>_ fs.
       case path_file_name ext_path of
         None \<Rightarrow> (Inl PanicNotAFilePath, fs)
       | Some ext_name \<Rightarrow>
           let ext_dir = (if fs_dir fs ext_dir then path_push ext_dir ext_name else ext_dir)
           in and_then (copy_extension ev ext_path ext_dir fs) (\<lambda>_ fs.
              and_then (smoke_test ev (in_no_smoke_test opts) ext_dir fs) (\<lambda>_ fs.
                case php_ini of
                  None \<Rightarrow> (Inr (), fs)
                | Some ini \<Rightarrow> enable_in_ini ev (in_disable opts) ext_name ini fs))))))"

section \<open>Removing\<close>

record remove_opts =
  rm_install_dir :: "string option"
  rm_ini_path :: "string option"
  rm_manifest :: "string option"
  rm_yes :: bool

definition remove_handle :: "cli_env \<Rightarrow> remove_opts \<Rightarrow> cli_fs \<Rightarrow> unit cli_result" where
  "remove_handle ev opts fs =
     and_then (find_ext ev (rm_manifest opts), fs) (\<lambda>artifact fs.
     and_then (locate ev (rm_install_dir opts) (rm_ini_path opts) fs) (\<lambda>(ext_dir, php_ini) fs.
       let ext_file = ev_dll_prefix ev @ replace_char (CHR ''-'') ''_'' (tg_name artifact) @ ev_dll_suffix ev;
           ext_path = path_push ext_dir ext_file
       in if fs_file fs ext_path = None then (Inl NotInstalled, fs)
          else
            and_then (confirm ev (rm_yes opts)
                        (''Are you sure you want to remove the extension `'' @ tg_name artifact @ ''`?''), fs) (\<lambda>_ fs.
              if \<not> ev_io ev (OpRemove ext_path) then (Inl RemoveFailed, fs)
              else
                let fs = set_file ext_path None fs
                in case php_ini of
                     None \<Rightarrow> (Inr (), fs)
                   | Some ini \<Rightarrow>
                       if fs_file fs ini = None then (Inr (), fs) else disable_in_ini ev ext_file ini fs)))"

section \<open>Lemmas\<close>

lemma strip_cr_set: "set (strip_cr l) \<subseteq> set l"
  by (auto simp: strip_cr_def dest: in_set_butlastD)

lemma str_lines_no_nl: "l \<in> set (str_lines s) \<Longrightarrow> CHR 0x0A \<notin> set l"
  using split_char_no_sep [of "CHR 0x0A" s] strip_cr_set last_in_set [OF split_char_not_Nil, of "CHR 0x0A" s]
  by (fastforce simp: str_lines_def Let_def split: if_splits dest: in_set_butlastD)

lemma str_lines_join:
  assumes "ls \<noteq> []" and "last ls \<noteq> []" and "\<forall>l \<in> set ls. CHR 0x0A \<notin> set l" and "\<forall>l \<in> set (butlast ls). strip_cr l = l"
  shows "str_lines (join [CHR 0x0A] ls) = ls"
  using assms by (simp add: str_lines_def split_char_join map_idI)

lemma read_lines_Inr:
  assumes "\<forall>l \<in> set ls. utf8_valid l \<and> \<not> stop l"
  shows "read_lines stop ls = Inr ls"
  using assms by (induction ls) auto

lemma read_lines_error: "read_lines stop ls = Inl e \<Longrightarrow> e = ReadLineFailed \<or> e = AlreadyEnabled"
  by (induction ls) (auto split: if_splits sum.splits)

lemma read_lines_stop:
  assumes "\<forall>l \<in> set ls. utf8_valid l" and "\<exists>l \<in> set ls. stop l"
  shows "read_lines stop ls = Inl AlreadyEnabled"
  using assms
proof (induction ls)
  case (Cons l ls)
  then show ?case by (cases "stop l") auto
qed simp

lemma set_file_simps [simp]:
  "fs_file (set_file p c fs) q = (if q = p then c else fs_file fs q)" "fs_dir (set_file p c fs) = fs_dir fs"
  by (simp_all add: set_file_def)

lemma and_then_simps [simp]:
  "and_then (Inr a, fs) f = f a fs" "and_then (Inl e, fs) f = (Inl e, fs)"
  by (simp_all add: and_then_def)

text \<open>The places an installation touches: the extension in its directory and the temporary copy beside it.\<close>

definition dest_path :: "cli_fs \<Rightarrow> string \<Rightarrow> string \<Rightarrow> string" where
  "dest_path fs dir ext_name = (if fs_dir fs dir then path_push dir ext_name else dir)"

definition temp_path :: "cli_env \<Rightarrow> string \<Rightarrow> string" where
  "temp_path ev dest = path_with_extension dest
     ((case path_extension dest of Some e \<Rightarrow> e | None \<Rightarrow> []) @ ''.tmp.'' @ show_nat (ev_pid ev))"

definition ext_line_of :: "bool \<Rightarrow> string \<Rightarrow> string" where
  "ext_line_of disable ext_name = (if disable then CHR '';'' # ''extension='' @ ext_name else ''extension='' @ ext_name)"

text \<open>The commands up to the point where files change: the extension is found and built, the places are known, the
  user agrees.\<close>

definition prepared ::
    "cli_env \<Rightarrow> install_opts \<Rightarrow> cli_fs \<Rightarrow> cargo_target \<Rightarrow> string \<Rightarrow> string \<Rightarrow> string \<Rightarrow> string option \<Rightarrow> bool" where
  "prepared ev opts fs artifact ext_path ext_name dir ini \<longleftrightarrow>
     find_ext ev (in_manifest opts) = Inr artifact \<and>
     build_ext ev artifact (in_release opts) (in_features opts) (in_all_features opts) (in_no_default_features opts) = Inr ext_path \<and>
     path_file_name ext_path = Some ext_name \<and> locate ev (in_install_dir opts) (in_ini_path opts) fs = (Inr (dir, ini), fs) \<and>
     confirm ev (in_yes opts) (''Are you sure you want to install the extension `'' @ tg_name artifact @ ''`?'') = Inr ()"

lemma install_prepared:
  assumes "prepared ev opts fs artifact ext_path ext_name dir ini"
  shows "install_handle ev opts fs =
    and_then (copy_extension ev ext_path (dest_path fs dir ext_name) fs) (\<lambda>_ fs'.
    and_then (smoke_test ev (in_no_smoke_test opts) (dest_path fs dir ext_name) fs') (\<lambda>_ fs'.
      case ini of None \<Rightarrow> (Inr (), fs') | Some ini \<Rightarrow> enable_in_ini ev (in_disable opts) ext_name ini fs'))"
  using assms unfolding prepared_def install_handle_def dest_path_def by (simp add: Let_def)

lemma copy_extension_ok:
  assumes "fs_file fs ext_path = Some so" and "\<And>op. ev_io ev op"
  shows "copy_extension ev ext_path dest fs = (Inr (),
    set_file dest (Some so) (set_file (temp_path ev dest) None (set_file (temp_path ev dest) (Some so) fs)))"
  using assms by (simp add: copy_extension_def temp_path_def Let_def)

lemma copy_extension_frame:
  assumes "p \<noteq> dest" and "p \<noteq> temp_path ev dest"
  shows "fs_file (snd (copy_extension ev ext_path dest fs)) p = fs_file fs p \<and> fs_dir (snd (copy_extension ev ext_path dest fs)) = fs_dir fs"
  using assms by (simp add: copy_extension_def temp_path_def Let_def split: option.splits)

lemma smoke_test_frame:
  assumes "p \<noteq> dest"
  shows "fs_file (snd (smoke_test ev skip dest fs)) p = fs_file fs p"
  using assms by (auto simp: smoke_test_def split: option.splits prod.splits)

lemma smoke_test_Inr: "smoke_test ev skip dest fs = (Inr u, fs') \<Longrightarrow> fs' = fs"
  by (auto simp: smoke_test_def split: option.splits prod.splits if_splits)

lemma enable_in_ini_error:
  assumes "enable_in_ini ev disable ext_name ini fs = (Inl e, fs')"
  shows "fs_file fs' ini = (if e = UpdateIniFailed then Some [] else fs_file fs ini)"
  using assms
  by (auto simp: enable_in_ini_def rewrite_file_def and_then_def Let_def split: if_splits option.splits sum.splits dest: read_lines_error)

lemma enable_in_ini_ok:
  assumes "\<And>op. ev_io ev op" and "\<And>n. ev_written ev n = n" and "fs_file fs ini = Some content"
    and "\<forall>l \<in> set (str_lines content). utf8_valid l \<and> \<not> str_contains l (''extension='' @ ext_name)"
  shows "enable_in_ini ev disable ext_name ini fs =
    (Inr (), set_file ini (Some (join [CHR 0x0A] (str_lines content @ [ext_line_of disable ext_name]))) fs)"
  using assms read_lines_Inr [of "str_lines content" "\<lambda>l. str_contains l (''extension='' @ ext_name)"]
  by (simp add: enable_in_ini_def rewrite_file_def ext_line_of_def Let_def)

lemma disable_in_ini_ok:
  assumes "\<And>op. ev_io ev op" and "\<And>n. ev_written ev n = n" and "fs_file fs ini = Some content"
    and "\<forall>l \<in> set (str_lines content). utf8_valid l"
  shows "disable_in_ini ev ext_file ini fs =
    (Inr (), set_file ini (Some (join [CHR 0x0A] (filter (\<lambda>l. \<not> str_contains l ext_file) (str_lines content)))) fs)"
  using assms read_lines_Inr [of "str_lines content" "\<lambda>l. False"]
  by (simp add: disable_in_ini_def rewrite_file_def Let_def)

lemma str_contains_ext_line: "str_contains (ext_line_of disable n) n" "str_contains (ext_line_of disable n) (''extension='' @ n)"
proof -
  have "ext_line_of disable n = (if disable then '';'' else []) @ (''extension='' @ n) @ []"
    by (simp add: ext_line_of_def)
  then show "str_contains (ext_line_of disable n) (''extension='' @ n)"
    unfolding str_contains_def by (metis sublist_appendI)
  have "ext_line_of disable n = ((if disable then '';'' else []) @ ''extension='') @ n @ []"
    by (simp add: ext_line_of_def)
  then show "str_contains (ext_line_of disable n) n"
    unfolding str_contains_def by (metis sublist_appendI)
qed

lemma str_contains_ext_name: "str_contains l (''extension='' @ n) \<Longrightarrow> str_contains l n"
  unfolding str_contains_def
  by (rule sublist_order.order_trans [of n "''extension='' @ n"]) (rule sublist_append_leftI)

lemma utf8_valid_ext_line: "utf8_valid n \<Longrightarrow> utf8_valid (ext_line_of disable n)"
  by (simp add: ext_line_of_def utf8_valid_ascii_Cons)

text \<open>A configuration the commands can edit: text, without stray carriage returns.\<close>

definition plain_ini :: "string \<Rightarrow> bool" where
  "plain_ini content \<longleftrightarrow> (\<forall>l \<in> set (str_lines content). utf8_valid l \<and> strip_cr l = l)"

lemma enabled_lines:
  assumes "plain_ini content" and "CHR 0x0A \<notin> set n"
  shows "str_lines (join [CHR 0x0A] (str_lines content @ [ext_line_of disable n])) = str_lines content @ [ext_line_of disable n]"
  using assms str_lines_no_nl [of _ content]
  by (intro str_lines_join) (auto simp: plain_ini_def ext_line_of_def)

section \<open>Properties\<close>

text \<open>An extension \<open>my-ext\<close>, built to \<open>/t/libmy_ext.so\<close> and installed into \<open>/e\<close>.\<close>

definition demo_ev :: "(io_op \<Rightarrow> bool) \<Rightarrow> cli_env" where
  "demo_ev io = \<lparr>ev_metadata = (\<lambda>_. Some (Some [\<lparr>tg_name = ''my-ext'', tg_crate_types = [CDyLib]\<rparr>])), ev_select = (\<lambda>_. None),
     ev_cargo = (\<lambda>_. Some [Some (CompilerArtifact \<lparr>tg_name = ''my-ext'', tg_crate_types = [CDyLib]\<rparr> [''/t/libmy_ext.so'']),
       Some (BuildFinished True)]),
     ev_php = (\<lambda>args _. Some (True, if args = [''-r'', ''echo ini_get('extension_dir');''] then ''/e'' else ''/i'', [])),
     ev_confirm = (\<lambda>_. None), ev_io = io, ev_written = (\<lambda>n. n), ev_pid = 1, ev_dll_prefix = ''lib'', ev_dll_suffix = ''.so'',
     ev_dll_extension = ''so''\<rparr>"

definition demo_opts :: install_opts where
  "demo_opts = \<lparr>in_install_dir = None, in_ini_path = None, in_disable = False, in_release = False, in_manifest = None, in_features = None,
     in_all_features = False, in_no_default_features = False, in_yes = True, in_no_smoke_test = False\<rparr>"

definition demo_ropts :: remove_opts where
  "demo_ropts = \<lparr>rm_install_dir = None, rm_ini_path = None, rm_manifest = None, rm_yes = True\<rparr>"

definition demo_fs :: "string \<Rightarrow> cli_fs" where
  "demo_fs ini = \<lparr>fs_file = (\<lambda>p. if p = ''/t/libmy_ext.so'' then Some ''so'' else if p = ''/i'' then Some ini else None),
     fs_dir = (\<lambda>p. p = ''/e'')\<rparr>"

lemma demo_locate:
  "fs_dir fs ''/e'' \<Longrightarrow> fs_file fs ''/i'' \<noteq> None \<Longrightarrow> locate (demo_ev io) None None fs = (Inr (''/e'', Some ''/i''), fs)"
  by (simp add: locate_def get_ext_dir_def get_php_ini_def php_echo_def demo_ev_def)

lemma demo_find_ext: "find_ext (demo_ev io) None = Inr \<lparr>tg_name = ''my-ext'', tg_crate_types = [CDyLib]\<rparr>"
  by (simp add: find_ext_def demo_ev_def is_library_target_def)

lemma demo_build_ext: "build_ext (demo_ev io) \<lparr>tg_name = ''my-ext'', tg_crate_types = [CDyLib]\<rparr> False None False False = Inr ''/t/libmy_ext.so''"
  by code_simp

lemma demo_prepared:
  "prepared (demo_ev io) demo_opts (demo_fs ini) \<lparr>tg_name = ''my-ext'', tg_crate_types = [CDyLib]\<rparr> ''/t/libmy_ext.so'' ''libmy_ext.so''
     ''/e'' (Some ''/i'')"
proof -
  have "path_file_name ''/t/libmy_ext.so'' = Some ''libmy_ext.so''" by code_simp
  then show ?thesis
    using demo_locate [of "demo_fs ini"] demo_find_ext demo_build_ext
    by (simp add: prepared_def demo_opts_def demo_fs_def confirm_def)
qed

lemma demo_paths:
  "path_push ''/e'' ''libmy_ext.so'' = ''/e/libmy_ext.so''" "temp_path (demo_ev io) ''/e/libmy_ext.so'' = ''/e/libmy_ext.so.tmp.1''"
  "utf8_valid ''libmy_ext.so''"
  by code_simp+

lemma demo_dest: "dest_path (demo_fs ini) ''/e'' ''libmy_ext.so'' = ''/e/libmy_ext.so''"
  by (simp add: dest_path_def demo_fs_def demo_paths)

lemma demo_smoke: "smoke_test (demo_ev io) (in_no_smoke_test demo_opts) dest fs = (Inr (), fs)"
  by (simp add: smoke_test_def demo_ev_def demo_opts_def)

lemma demo_ev_io: "ev_io (demo_ev (\<lambda>_. True)) op" "ev_written (demo_ev io) n = n"
  by (simp_all add: demo_ev_def)

text \<open>C39. Installing and then removing an extension when nothing fails: every file operation succeeds, every write is
  complete, the smoke test passes, the user agrees, the configuration is a plain text at a path of its own,
  and none of its lines has \<open>extension=\<close> with the file yet. The installation succeeds, puts the built file at
  its place and appends its line to the configuration, commented out under \<open>--disable\<close>. The removal then
  succeeds and deletes the file; of the configuration it keeps, in order, exactly the lines of before the
  installation that do not contain the file's name (a comment that mentions the file is lost). The temporary copy is gone,
  and every other file is as it was.\<close>

theorem install_remove_restores:
  assumes "prepared ev opts fs artifact ext_path ext_file dir (Some ini)"
    and "ext_file = ev_dll_prefix ev @ replace_char (CHR ''-'') ''_'' (tg_name artifact) @ ev_dll_suffix ev"
    and "dest = path_push dir ext_file" and "fs_dir fs dir" and "fs_file fs ext_path = Some so"
    and "fs_file fs ini = Some content" and "ini \<noteq> dest" and "ini \<noteq> temp_path ev dest"
    and "\<And>op. ev_io ev op" and "\<And>n. ev_written ev n = n"
    and "\<And>fs'. smoke_test ev (in_no_smoke_test opts) dest fs' = (Inr (), fs')"
    and "plain_ini content" and "utf8_valid ext_file" and "CHR 0x0A \<notin> set ext_file"
    and "\<forall>l \<in> set (str_lines content). \<not> str_contains l (''extension='' @ ext_file)"
    and "find_ext ev (rm_manifest ropts) = Inr artifact" and "rm_yes ropts"
    and "\<And>fs'. fs_dir fs' = fs_dir fs \<Longrightarrow> fs_file fs' ini \<noteq> None \<Longrightarrow>
      locate ev (rm_install_dir ropts) (rm_ini_path ropts) fs' = (Inr (dir, Some ini), fs')"
  shows "\<exists>fs1 fs2. install_handle ev opts fs = (Inr (), fs1) \<and> fs_file fs1 dest = Some so \<and>
    map_option str_lines (fs_file fs1 ini) =
      Some (str_lines content @ [if in_disable opts then '';extension='' @ ext_file else ''extension='' @ ext_file]) \<and>
    remove_handle ev ropts fs1 = (Inr (), fs2) \<and> fs_file fs2 dest = None \<and>
    fs_file fs2 ini = Some (join [CHR 0x0A] (filter (\<lambda>l. \<not> str_contains l ext_file) (str_lines content))) \<and>
    fs_file fs2 (temp_path ev dest) = None \<and>
    (\<forall>p. p \<notin> {dest, temp_path ev dest, ini} \<longrightarrow> fs_file fs1 p = fs_file fs p \<and> fs_file fs2 p = fs_file fs p)"
proof -
  let ?line = "ext_line_of (in_disable opts) ext_file" and ?tmp = "temp_path ev dest"
  let ?kept = "filter (\<lambda>l. \<not> str_contains l ext_file) (str_lines content)"
  let ?text = "join [CHR 0x0A] (str_lines content @ [?line])"
  let ?fs0 = "set_file dest (Some so) (set_file ?tmp None (set_file ?tmp (Some so) fs))"
  let ?fs1 = "set_file ini (Some ?text) ?fs0"
  let ?fs2 = "set_file ini (Some (join [CHR 0x0A] ?kept)) (set_file dest None ?fs1)"
  have dest: "dest_path fs dir ext_file = dest" using assms(3,4) by (simp add: dest_path_def)
  have lines: "\<forall>l \<in> set (str_lines content). utf8_valid l \<and> \<not> str_contains l (''extension='' @ ext_file)"
    using assms(12,15) by (auto simp: plain_ini_def)
  have ini0: "fs_file ?fs0 ini = Some content" using assms(6-8) by simp
  have install: "install_handle ev opts fs = (Inr (), ?fs1)"
    using install_prepared [OF assms(1)] copy_extension_ok [OF assms(5,9), of dest] assms(11)
      enable_in_ini_ok [OF assms(9,10) ini0 lines, of "in_disable opts"]
    by (simp add: dest)
  have new_lines: "str_lines ?text = str_lines content @ [?line]" using assms(12,14) by (rule enabled_lines)
  have "\<forall>l \<in> set (str_lines ?text). utf8_valid l"
    using assms(12,13) utf8_valid_ext_line by (auto simp: new_lines plain_ini_def)
  then have "disable_in_ini ev ext_file ini (set_file dest None ?fs1) = (Inr (), set_file ini (Some (join [CHR 0x0A]
      (filter (\<lambda>l. \<not> str_contains l ext_file) (str_lines ?text)))) (set_file dest None ?fs1))"
    using assms(7,9,10) by (intro disable_in_ini_ok) auto
  moreover have "filter (\<lambda>l. \<not> str_contains l ext_file) (str_lines ?text) = ?kept"
    by (simp add: new_lines str_contains_ext_line)
  moreover have "locate ev (rm_install_dir ropts) (rm_ini_path ropts) ?fs1 = (Inr (dir, Some ini), ?fs1)"
    using assms(6) by (intro assms(18)) auto
  ultimately have "remove_handle ev ropts ?fs1 = (Inr (), ?fs2)"
    using assms(2,3,7,9,16,17) by (simp add: remove_handle_def confirm_def Let_def)
  moreover have "?line = (if in_disable opts then '';extension='' @ ext_file else ''extension='' @ ext_file)"
    by (simp add: ext_line_of_def)
  ultimately show ?thesis
    using install new_lines assms(7,8) by (intro exI [of _ ?fs1] exI [of _ ?fs2]) auto
qed

definition demo_ini :: string where
  "demo_ini = join [CHR 0x0A] [''a=1'', ''; libmy_ext.so'', ''b=2'']"

theorem install_remove_restores_witness:
  "\<exists>fs1 fs2. install_handle (demo_ev (\<lambda>_. True)) demo_opts (demo_fs demo_ini) = (Inr (), fs1) \<and>
     map_option str_lines (fs_file fs1 ''/i'') = Some [''a=1'', ''; libmy_ext.so'', ''b=2'', ''extension=libmy_ext.so''] \<and>
     remove_handle (demo_ev (\<lambda>_. True)) demo_ropts fs1 = (Inr (), fs2) \<and> fs_file fs2 ''/i'' = Some (join [CHR 0x0A] [''a=1'', ''b=2''])"
proof -
  have ini: "str_lines demo_ini = [''a=1'', ''; libmy_ext.so'', ''b=2'']" "plain_ini demo_ini"
    by code_simp+
  have mention: "\<not> str_contains ''a=1'' ''libmy_ext.so''" "str_contains ''; libmy_ext.so'' ''libmy_ext.so''" "\<not> str_contains ''b=2'' ''libmy_ext.so''"
    by code_simp+
  have fresh: "\<not> str_contains ''a=1'' (''extension='' @ ''libmy_ext.so'')" "\<not> str_contains ''; libmy_ext.so'' (''extension='' @ ''libmy_ext.so'')"
    "\<not> str_contains ''b=2'' (''extension='' @ ''libmy_ext.so'')"
    by code_simp+
  have loc: "locate (demo_ev (\<lambda>_. True)) (rm_install_dir demo_ropts) (rm_ini_path demo_ropts) fs' = (Inr (''/e'', Some ''/i''), fs')"
    if "fs_dir fs' = fs_dir (demo_fs demo_ini)" "fs_file fs' ''/i'' \<noteq> None" for fs'
    using that demo_locate [of fs'] by (simp add: demo_fs_def demo_ropts_def)
  have name: "''libmy_ext.so'' = ev_dll_prefix (demo_ev (\<lambda>_. True)) @
      replace_char (CHR ''-'') ''_'' (tg_name \<lparr>tg_name = ''my-ext'', tg_crate_types = [CDyLib]\<rparr>) @ ev_dll_suffix (demo_ev (\<lambda>_. True))"
    by (simp add: demo_ev_def replace_char_def)
  have fs: "fs_dir (demo_fs demo_ini) ''/e''" "fs_file (demo_fs demo_ini) ''/t/libmy_ext.so'' = Some ''so''"
    "fs_file (demo_fs demo_ini) ''/i'' = Some demo_ini"
    by (simp_all add: demo_fs_def)
  have new: "\<forall>l \<in> set (str_lines demo_ini). \<not> str_contains l (''extension='' @ ''libmy_ext.so'')"
    using fresh unfolding ini(1) list.set by blast
  have kept: "filter (\<lambda>l. \<not> str_contains l ''libmy_ext.so'') (str_lines demo_ini) = [''a=1'', ''b=2'']"
    unfolding ini(1) using mention by (simp only: filter.simps) simp
  have off: "\<not> in_disable demo_opts" by (simp add: demo_opts_def)
  note * = install_remove_restores [OF demo_prepared [where ini = demo_ini] name demo_paths(1) [symmetric] fs _ _ demo_ev_io demo_smoke ini(2)
      demo_paths(3) _ new _ _ loc, unfolded kept]
  show ?thesis using * ini(1) off by (auto simp: demo_paths demo_ropts_def demo_find_ext)
qed

text \<open>A failed installation leaves the configuration as it was, with one exception: when the write itself fails,
  the file has already been emptied.\<close>

theorem install_failure_ini:
  assumes "prepared ev opts fs artifact ext_path ext_name dir (Some ini)" and "dest = dest_path fs dir ext_name"
    and "ini \<noteq> dest" and "ini \<noteq> temp_path ev dest" and "install_handle ev opts fs = (Inl e, fs')"
  shows "fs_file fs' ini = (if e = UpdateIniFailed then Some [] else fs_file fs ini)"
proof -
  obtain r1 fs1 where c: "copy_extension ev ext_path dest fs = (r1, fs1)" by (cases "copy_extension ev ext_path dest fs")
  obtain r2 fs2 where s: "smoke_test ev (in_no_smoke_test opts) dest fs1 = (r2, fs2)"
    by (cases "smoke_test ev (in_no_smoke_test opts) dest fs1")
  have "fs_file fs1 ini = fs_file fs ini" "fs_file fs2 ini = fs_file fs1 ini"
    using copy_extension_frame [OF assms(3,4), of ext_path fs] smoke_test_frame [OF assms(3), of ev "in_no_smoke_test opts" fs1] c s
    by simp_all
  moreover have "r1 \<noteq> Inl UpdateIniFailed" "r2 \<noteq> Inl UpdateIniFailed"
    using c s by (auto simp: copy_extension_def smoke_test_def Let_def split: option.splits prod.splits if_splits)
  moreover have "(Inl e, fs') = and_then (r1, fs1) (\<lambda>_ fs'. and_then (smoke_test ev (in_no_smoke_test opts) dest fs') (\<lambda>_ fs'.
      enable_in_ini ev (in_disable opts) ext_name ini fs'))"
    using install_prepared [OF assms(1)] assms(2,5) c by simp
  ultimately show ?thesis
    using enable_in_ini_error [of ev "in_disable opts" ext_name ini fs2 e fs'] s
    by (cases r1; cases r2) auto
qed

theorem install_failure_ini_witness:
  "\<exists>e fs'. install_handle (demo_ev (\<lambda>_. False)) demo_opts (demo_fs ''a=1'') = (Inl e, fs') \<and> fs_file fs' ''/i'' = Some ''a=1''"
proof -
  have "copy_extension (demo_ev (\<lambda>_. False)) ''/t/libmy_ext.so'' dest (demo_fs ''a=1'') = (Inl CopyFailed, demo_fs ''a=1'')" for dest
    by (simp add: copy_extension_def demo_ev_def demo_fs_def Let_def)
  then have i: "install_handle (demo_ev (\<lambda>_. False)) demo_opts (demo_fs ''a=1'') = (Inl CopyFailed, demo_fs ''a=1'')"
    by (simp add: install_prepared [OF demo_prepared])
  from install_failure_ini [OF demo_prepared demo_dest [symmetric] _ _ i] i show ?thesis
    by (simp add: demo_paths) (simp add: demo_fs_def)
qed

text \<open>Installing over an installation is refused, even when the extension was installed disabled, and only after
  the new file has replaced the old one.\<close>

theorem reinstall_refused:
  assumes "prepared ev opts fs artifact ext_path ext_name dir (Some ini)" and "dest = dest_path fs dir ext_name"
    and "fs_file fs ext_path = Some so" and "ini \<noteq> dest" and "ini \<noteq> temp_path ev dest" and "\<And>op. ev_io ev op"
    and "\<And>fs'. smoke_test ev (in_no_smoke_test opts) dest fs' = (Inr (), fs')"
    and "fs_file fs ini = Some (join [CHR 0x0A] (str_lines content @ [ext_line_of disabled ext_name]))"
    and "plain_ini content" and "utf8_valid ext_name" and "CHR 0x0A \<notin> set ext_name"
  shows "\<exists>fs'. install_handle ev opts fs = (Inl AlreadyEnabled, fs') \<and> fs_file fs' dest = Some so \<and>
    fs_file fs' ini = fs_file fs ini"
proof -
  let ?text = "join [CHR 0x0A] (str_lines content @ [ext_line_of disabled ext_name])"
  let ?fs0 = "set_file dest (Some so) (set_file (temp_path ev dest) None (set_file (temp_path ev dest) (Some so) fs))"
  have new_lines: "str_lines ?text = str_lines content @ [ext_line_of disabled ext_name]" using assms(9,11) by (rule enabled_lines)
  have "read_lines (\<lambda>l. str_contains l (''extension='' @ ext_name)) (str_lines ?text) = Inl AlreadyEnabled"
    using assms(9,10) utf8_valid_ext_line str_contains_ext_line(2)
    by (intro read_lines_stop) (auto simp: new_lines plain_ini_def)
  moreover have "fs_file ?fs0 ini = Some ?text" using assms(4,5,8) by simp
  ultimately have "enable_in_ini ev (in_disable opts) ext_name ini ?fs0 = (Inl AlreadyEnabled, ?fs0)"
    using assms(6) by (simp add: enable_in_ini_def Let_def)
  with install_prepared [OF assms(1)] copy_extension_ok [OF assms(3,6), of dest] assms(2,4,5,7) show ?thesis
    by (intro exI [of _ ?fs0]) simp
qed

theorem reinstall_refused_witness:
  "\<exists>fs'. install_handle (demo_ev (\<lambda>_. True)) demo_opts (demo_fs (join [CHR 0x0A] [''a=1'', '';extension=libmy_ext.so''])) = (Inl AlreadyEnabled, fs') \<and>
     fs_file fs' ''/e/libmy_ext.so'' = Some ''so''"
proof -
  let ?ini = "join [CHR 0x0A] [''a=1'', '';extension=libmy_ext.so'']"
  have ini: "str_lines ''a=1'' = [''a=1'']" "plain_ini ''a=1''" by code_simp+
  have "fs_file (demo_fs ?ini) ''/i'' = Some (join [CHR 0x0A] (str_lines ''a=1'' @ [ext_line_of True ''libmy_ext.so'']))"
    by (simp add: demo_fs_def ini ext_line_of_def)
  note * = reinstall_refused [OF demo_prepared [where io = "\<lambda>_. True" and ini = ?ini] demo_dest [symmetric] _ _ _ demo_ev_io(1)
      demo_smoke this ini(2) demo_paths(3)]
  have "fs_file (demo_fs ?ini) ''/t/libmy_ext.so'' = Some ''so''" by (simp add: demo_fs_def)
  from * [OF this] show ?thesis by (auto simp: demo_paths)
qed

end
