(* ===== verification/Binary.thy ===== *)
theory Binary
  imports Zval
begin

text \<open>
  \<open>src/binary.rs\<close> and \<open>src/binary_slice.rs\<close>: vectors of numbers as binary strings. The elements of a vector lie
  in memory one after the other, each as the bytes of its type in the byte order of the machine;
  floats and signed integers are their bit patterns. \<open>big\<close> is a big-endian machine. The vector and the
  slice forms read the same memory; one copies, one borrows.
\<close>

section \<open>Memory layout\<close>

definition le_bytes :: "nat \<Rightarrow> nat \<Rightarrow> string" where
  "le_bytes n v = map (\<lambda>i. char_of (v div 256 ^ i)) [0..<n]"

fun from_le :: "string \<Rightarrow> nat" where
  "from_le [] = 0"
| "from_le (c # cs) = of_char c + 256 * from_le cs"

definition bytes_of :: "bool \<Rightarrow> 'a::len word \<Rightarrow> string" where
  "bytes_of big w = (let bs = le_bytes (LENGTH('a) div 8) (unat w) in if big then rev bs else bs)"

definition word_at :: "bool \<Rightarrow> string \<Rightarrow> 'a::len word" where
  "word_at big bs = word_of_nat (from_le (if big then rev bs else bs))"

section \<open>Packing\<close>

definition vec_memory :: "bool \<Rightarrow> 'a::len word list \<Rightarrow> string" where
  "vec_memory big xs = concat (map (bytes_of big) xs)"

text \<open>The string is made from the first \<open>len\<close> bytes at the vector's pointer.\<close>

definition pack_into :: "bool \<Rightarrow> 'a::len word list \<Rightarrow> string" where
  "pack_into big xs = (let len = length xs * (LENGTH('a) div 8) in take len (vec_memory big xs))"

definition unpack_into :: "bool \<Rightarrow> string \<Rightarrow> 'a::len word list" where
  "unpack_into big s =
     (let bytes = LENGTH('a) div 8; len = length s div bytes
      in map (\<lambda>i. word_at big (take bytes (drop (i * bytes) s))) [0..<len])"

definition unpack_slice :: "bool \<Rightarrow> string \<Rightarrow> 'a::len word list" where
  "unpack_slice big s =
     (let bytes = LENGTH('a) div 8; len = length s div bytes
      in map (\<lambda>i. word_at big (take bytes (drop (i * bytes) s))) [0..<len])"

text \<open>\<open>Zval::set_binary\<close>: the engine makes the string (its \<open>zend_string_init\<close> is \<open>init\<close>), the zval takes it over.\<close>

definition set_binary ::
    "('h, 'o) zend_api \<Rightarrow> (string \<Rightarrow> ('h, 'o) zheap \<Rightarrow> u64 \<times> ('h, 'o) zheap) \<Rightarrow> bool \<Rightarrow> 'a::len word list \<Rightarrow>
     ('h, 'o) zheap \<times> zval \<Rightarrow> ('h, 'o) zheap \<times> zval" where
  "set_binary api init big xs hz =
     (let (ptr, h) = init (pack_into big xs) (fst hz) in set_zend_string api ptr (h, snd hz))"

definition zval_binary :: "bool \<Rightarrow> ('h, 'o) zheap \<Rightarrow> zval \<Rightarrow> 'a::len word list option" where
  "zval_binary big h z = zv_binary (LENGTH('a) div 8) (unpack_into big) h z"

section \<open>Lemmas\<close>

lemma length_le_bytes [simp]: "length (le_bytes n v) = n"
  by (simp add: le_bytes_def)

lemma le_bytes_Suc: "le_bytes (Suc n) v = char_of v # le_bytes n (v div 256)"
  by (simp add: le_bytes_def upt_conv_Cons map_Suc_upt [symmetric] div_mult2_eq comp_def del: upt_Suc)

lemma from_le_le_bytes: "from_le (le_bytes n v) = v mod 256 ^ n"
proof (induction n arbitrary: v)
  case (Suc n)
  then show ?case by (simp add: le_bytes_Suc mod_mult2_eq)
qed (simp add: le_bytes_def)

lemma length_bytes_of [simp]: "length (bytes_of big (w :: 'a::len word)) = LENGTH('a) div 8"
  by (simp add: bytes_of_def Let_def)

lemma word_at_bytes_of:
  fixes w :: "'a::len word"
  assumes "8 dvd LENGTH('a)"
  shows "word_at big (bytes_of big w) = w"
proof -
  have "(256 :: nat) ^ (LENGTH('a) div 8) = 2 ^ LENGTH('a)"
    using assms power_mult [of "2 :: nat" 8 "LENGTH('a) div 8"] by simp
  then show ?thesis using unsigned_less [of w] by (simp add: word_at_def bytes_of_def Let_def from_le_le_bytes)
qed

lemma length_vec_memory [simp]: "length (vec_memory big (xs :: 'a::len word list)) = length xs * (LENGTH('a) div 8)"
  by (induction xs) (simp_all add: vec_memory_def)

lemma pack_into_memory: "pack_into big xs = vec_memory big xs"
  by (simp add: pack_into_def Let_def)

lemma element_at:
  assumes "i < length xs"
  shows "take (LENGTH('a) div 8) (drop (i * (LENGTH('a) div 8)) (vec_memory big (xs :: 'a::len word list) @ tl')) = bytes_of big (xs ! i)"
  using assms
proof (induction xs arbitrary: i)
  case (Cons x xs)
  then show ?case by (cases i) (simp_all add: vec_memory_def drop_append)
qed simp

lemma unpack_packed:
  fixes xs :: "'a::len word list"
  assumes "8 dvd LENGTH('a)" and "length tl' < LENGTH('a) div 8"
  shows "unpack_into big (pack_into big xs @ tl') = xs"
proof -
  let ?n = "LENGTH('a) div 8"
  have "(length xs * ?n + length tl') div ?n = length xs" using assms(2) by simp
  then have "length (pack_into big xs @ tl') div ?n = length xs" by (simp add: pack_into_memory)
  then show ?thesis
    using assms(1) by (intro nth_equalityI) (simp_all add: unpack_into_def Let_def pack_into_memory element_at word_at_bytes_of del: drop_append take_append)
qed

lemma zval_binary_string:
  fixes xs :: "'a::len word list"
  assumes "8 dvd LENGTH('a)" and "zv_zend_str h z = Some s" and "zs_bytes s = pack_into big xs @ rest"
    and "length rest < LENGTH('a) div 8"
  shows "zval_binary big h z = (if rest = [] then Some xs else None)"
proof -
  have "length (zs_bytes s) mod (LENGTH('a) div 8) = length rest" using assms(3,4) by (simp add: pack_into_memory)
  with assms unpack_packed [OF assms(1,4), of big xs] show ?thesis by (auto simp: zval_binary_def zv_binary_def)
qed

lemma get_type_string [simp]:
  "get_type (z\<lparr>zv_type_info := ZF_StringEx, zv_value := a\<rparr>) = DtString"
  "get_type (z\<lparr>zv_type_info := ZF_InternedStringEx, zv_value := a\<rparr>) = DtString"
  by (simp_all add: get_type_def) code_simp+

section \<open>Properties\<close>

text \<open>A vector packed into a binary string is unpacked again to the same vector, in either byte order, by the
  copying and by the borrowing form; trailing bytes that make up no element are ignored by unpacking
  but refused by the zval getters, which read back what the setter stored.\<close>

theorem pack_unpack_roundtrip:
  fixes xs :: "'a::len word list"
  assumes "8 dvd LENGTH('a)" and "length rest < LENGTH('a) div 8"
    and "init (pack_into big xs) h = (a, h1)" and "a \<noteq> 0"
    and "set_binary api init big xs (h, z) = (h2, z2)" and "h_str h2 a = Some s" and "zs_bytes s = pack_into big xs"
  shows "unpack_into big (pack_into big xs @ rest) = xs \<and> unpack_slice big (pack_into big xs @ rest) = xs \<and>
    length (pack_into big xs) = length xs * (LENGTH('a) div 8) \<and> zval_binary big h2 z2 = Some xs \<and>
    (\<forall>h' z' s'. zv_zend_str h' z' = Some s' \<and> zs_bytes s' = pack_into big xs @ rest \<longrightarrow>
       zval_binary big h' z' = (if rest = [] then Some xs else None))"
proof -
  let ?n = "LENGTH('a) div 8"
  have un: "unpack_into big (pack_into big xs @ rest) = xs" using assms(1,2) by (rule unpack_packed)
  moreover have "unpack_slice big (pack_into big xs @ rest) = xs" using un by (simp add: unpack_slice_def unpack_into_def)
  moreover have "zval_binary big h2 z2 = Some xs"
  proof -
    have "get_type z2 = DtString" "zv_value z2 = a"
      using assms(3,5) by (auto simp: set_binary_def set_zend_string_def set_value_def change_type_def Let_def split: if_splits)
    then have "zv_zend_str h2 z2 = Some s" using assms(4,6) by (simp add: zv_zend_str_def ptr_ref_def)
    moreover have "zs_bytes s = pack_into big xs @ []" "length ([] :: string) < ?n" using assms(2,7) by simp_all
    ultimately show ?thesis using zval_binary_string [OF assms(1)] by fastforce
  qed
  moreover have "length (pack_into big xs) = length xs * ?n" by (simp add: pack_into_memory)
  ultimately show ?thesis by (metis (no_types, lifting) zval_binary_string assms(1,2))
qed

text \<open>Two 16-bit numbers, in a heap that has nothing but the string.\<close>

definition string_heap :: "string \<Rightarrow> (unit, unit) zheap" where
  "string_heap s = \<lparr>h_gc = Map.empty, h_str = [8 \<mapsto> \<lparr>zs_bytes = s, zs_interned = False, zs_known_utf8 = False\<rparr>], h_arr = Map.empty,
     h_obj = Map.empty, h_ref = Map.empty, h_zv = Map.empty\<rparr>"

theorem pack_unpack_roundtrip_witness:
  "pack_into False [0x0102, 0xFF :: 16 word] = [CHR 0x02, CHR 0x01, CHR 0xFF, CHR 0x00] \<and>
   unpack_into False [CHR 0x02, CHR 0x01, CHR 0xFF, CHR 0x00] = [0x0102, 0xFF :: 16 word]"
proof -
  let ?xs = "[0x0102, 0xFF :: 16 word]" and ?init = "\<lambda>s h. (8, string_heap s)"
  let ?h2 = "string_heap (pack_into False ?xs)"
  have p: "pack_into False ?xs = [CHR 0x02, CHR 0x01, CHR 0xFF, CHR 0x00]" by code_simp
  have "is_string zval_new = False" "is_array zval_new = False" "is_object zval_new = False" "is_resource zval_new = False"
    "is_reference zval_new = False" "get_type zval_new = DtNull"
    by code_simp+
  then have "\<exists>z2. set_binary counting_api ?init False ?xs (?h2, zval_new) = (?h2, z2)"
    by (simp add: set_binary_def set_zend_string_def set_value_def change_type_def Let_def)
  then obtain z2 where "set_binary counting_api ?init False ?xs (?h2, zval_new) = (?h2, z2)" ..
  from pack_unpack_roundtrip [where rest = "[]" and xs = ?xs and init = ?init and h = ?h2, OF _ _ refl _ this] have
    "unpack_into False (pack_into False ?xs @ []) = ?xs"
    by (auto simp: string_heap_def)
  with p show ?thesis by simp
qed

end
