(* ===== verification/Globals.thy ===== *)
theory Globals
  imports Iterators Embed
begin

text \<open>
  \<open>src/zend/globals.rs\<close>: the views of the engine's globals behind reader-writer locks, and what the crate reads from them: the pending
  exception, INI values, the request's variables, headers and request info. The lock is \<open>parking_lot\<close>'s: its operations are the
  fields of a record, and its documented exclusion is a contract on them.
\<close>

section \<open>Locks\<close>

datatype global_kind = ExecutorGlobals | CompilerGlobals | SapiModuleGlobal | ProcessGlobals | SapiGlobals | FileGlobals

datatype lock_name = GLOBALS_LOCK | SAPI_MODULE_LOCK | PROCESS_GLOBALS_LOCK | SAPI_GLOBALS_LOCK | FILE_GLOBALS_LOCK

text \<open>The lock a thread reaches under a name: in a thread-safe build the locks of the module \<open>lock\<close> are thread-local, that of the SAPI
  module is one static in every build.\<close>

datatype lock_id = Lock lock_name "nat option"

definition lock_instance :: "bool \<Rightarrow> nat \<Rightarrow> lock_name \<Rightarrow> lock_id" where
  "lock_instance zts t n =
     (case n of SAPI_MODULE_LOCK \<Rightarrow> Lock SAPI_MODULE_LOCK None | n \<Rightarrow> Lock n (if zts then Some t else None))"

text \<open>\<open>None\<close>: the operation blocks.\<close>

record 'l rwlock_api =
  rw_read :: "'l \<Rightarrow> 'l option"
  rw_write :: "'l \<Rightarrow> 'l option"
  rw_unlock_read :: "'l \<Rightarrow> 'l"
  rw_unlock_write :: "'l \<Rightarrow> 'l"

text \<open>What the lock documents: an abstraction to the number of readers and whether there is a writer, exclusion, and that a lock nobody
  holds is granted to a writer. A reader may be blocked more often than by exclusion (a waiting writer holds back readers).\<close>

definition rwlock_ok :: "'l rwlock_api \<Rightarrow> ('l \<Rightarrow> nat \<times> bool) \<Rightarrow> bool" where
  "rwlock_ok la st \<longleftrightarrow>
     (\<forall>l l'. rw_read la l = Some l' \<longrightarrow> \<not> snd (st l) \<and> st l' = (fst (st l) + 1, False)) \<and>
     (\<forall>l l'. rw_write la l = Some l' \<longrightarrow> st l = (0, False) \<and> st l' = (0, True)) \<and>
     (\<forall>l. st l = (0, False) \<longrightarrow> rw_write la l \<noteq> None) \<and>
     (\<forall>l n. st l = (Suc n, False) \<longrightarrow> st (rw_unlock_read la l) = (n, False)) \<and>
     (\<forall>l. st l = (0, True) \<longrightarrow> st (rw_unlock_write la l) = (0, False))"

section \<open>Guards\<close>

datatype access = Shared | Exclusive

text \<open>A guard that is alive: the reference to the global and the lock it holds. The thread that made it and the global it asked for are
  recorded beside, for the statements.\<close>

record 'p guard =
  gd_globals :: 'p
  gd_lock :: lock_id
  gd_access :: access
  gd_owner :: "nat \<times> global_kind"

record ('l, 'p) globals_state =
  gs_locks :: "lock_id \<Rightarrow> 'l"
  gs_guards :: "'p guard list"

definition take_read :: "'l rwlock_api \<Rightarrow> lock_id \<Rightarrow> 'p \<Rightarrow> nat \<times> global_kind \<Rightarrow> ('l, 'p) globals_state \<Rightarrow> ('l, 'p) globals_state option" where
  "take_read la n globals owner s =
     (case rw_read la (gs_locks s n) of
        None \<Rightarrow> None
      | Some l \<Rightarrow> Some (s\<lparr>gs_locks := (gs_locks s)(n := l),
          gs_guards := \<lparr>gd_globals = globals, gd_lock = n, gd_access = Shared, gd_owner = owner\<rparr> # gs_guards s\<rparr>))"

definition take_write :: "'l rwlock_api \<Rightarrow> lock_id \<Rightarrow> 'p \<Rightarrow> nat \<times> global_kind \<Rightarrow> ('l, 'p) globals_state \<Rightarrow> ('l, 'p) globals_state option" where
  "take_write la n globals owner s =
     (case rw_write la (gs_locks s n) of
        None \<Rightarrow> None
      | Some l \<Rightarrow> Some (s\<lparr>gs_locks := (gs_locks s)(n := l),
          gs_guards := \<lparr>gd_globals = globals, gd_lock = n, gd_access = Exclusive, gd_owner = owner\<rparr> # gs_guards s\<rparr>))"

text \<open>The twelve accessors. \<open>ptr t k\<close> is the address the engine gives thread \<open>t\<close> for the global \<open>k\<close> (\<open>ext_php_rs_executor_globals\<close>
  and the like); each accessor pairs it with a lock.\<close>

definition executor_get :: "'l rwlock_api \<Rightarrow> bool \<Rightarrow> (nat \<Rightarrow> global_kind \<Rightarrow> 'p) \<Rightarrow> nat \<Rightarrow> ('l, 'p) globals_state \<Rightarrow> ('l, 'p) globals_state option" where
  "executor_get la zts ptr t = take_read la (lock_instance zts t GLOBALS_LOCK) (ptr t ExecutorGlobals) (t, ExecutorGlobals)"

definition executor_get_mut :: "'l rwlock_api \<Rightarrow> bool \<Rightarrow> (nat \<Rightarrow> global_kind \<Rightarrow> 'p) \<Rightarrow> nat \<Rightarrow> ('l, 'p) globals_state \<Rightarrow> ('l, 'p) globals_state option" where
  "executor_get_mut la zts ptr t = take_write la (lock_instance zts t GLOBALS_LOCK) (ptr t ExecutorGlobals) (t, ExecutorGlobals)"

definition compiler_get :: "'l rwlock_api \<Rightarrow> bool \<Rightarrow> (nat \<Rightarrow> global_kind \<Rightarrow> 'p) \<Rightarrow> nat \<Rightarrow> ('l, 'p) globals_state \<Rightarrow> ('l, 'p) globals_state option" where
  "compiler_get la zts ptr t = take_read la (lock_instance zts t GLOBALS_LOCK) (ptr t CompilerGlobals) (t, CompilerGlobals)"

definition compiler_get_mut :: "'l rwlock_api \<Rightarrow> bool \<Rightarrow> (nat \<Rightarrow> global_kind \<Rightarrow> 'p) \<Rightarrow> nat \<Rightarrow> ('l, 'p) globals_state \<Rightarrow> ('l, 'p) globals_state option" where
  "compiler_get_mut la zts ptr t = take_write la (lock_instance zts t GLOBALS_LOCK) (ptr t CompilerGlobals) (t, CompilerGlobals)"

definition sapi_module_get :: "'l rwlock_api \<Rightarrow> bool \<Rightarrow> (nat \<Rightarrow> global_kind \<Rightarrow> 'p) \<Rightarrow> nat \<Rightarrow> ('l, 'p) globals_state \<Rightarrow> ('l, 'p) globals_state option" where
  "sapi_module_get la zts ptr t = take_read la (lock_instance zts t SAPI_MODULE_LOCK) (ptr t SapiModuleGlobal) (t, SapiModuleGlobal)"

definition sapi_module_get_mut :: "'l rwlock_api \<Rightarrow> bool \<Rightarrow> (nat \<Rightarrow> global_kind \<Rightarrow> 'p) \<Rightarrow> nat \<Rightarrow> ('l, 'p) globals_state \<Rightarrow> ('l, 'p) globals_state option" where
  "sapi_module_get_mut la zts ptr t = take_write la (lock_instance zts t SAPI_MODULE_LOCK) (ptr t SapiModuleGlobal) (t, SapiModuleGlobal)"

definition process_get :: "'l rwlock_api \<Rightarrow> bool \<Rightarrow> (nat \<Rightarrow> global_kind \<Rightarrow> 'p) \<Rightarrow> nat \<Rightarrow> ('l, 'p) globals_state \<Rightarrow> ('l, 'p) globals_state option" where
  "process_get la zts ptr t = take_read la (lock_instance zts t PROCESS_GLOBALS_LOCK) (ptr t ProcessGlobals) (t, ProcessGlobals)"

definition process_get_mut :: "'l rwlock_api \<Rightarrow> bool \<Rightarrow> (nat \<Rightarrow> global_kind \<Rightarrow> 'p) \<Rightarrow> nat \<Rightarrow> ('l, 'p) globals_state \<Rightarrow> ('l, 'p) globals_state option" where
  "process_get_mut la zts ptr t = take_write la (lock_instance zts t PROCESS_GLOBALS_LOCK) (ptr t ProcessGlobals) (t, ProcessGlobals)"

definition sapi_get :: "'l rwlock_api \<Rightarrow> bool \<Rightarrow> (nat \<Rightarrow> global_kind \<Rightarrow> 'p) \<Rightarrow> nat \<Rightarrow> ('l, 'p) globals_state \<Rightarrow> ('l, 'p) globals_state option" where
  "sapi_get la zts ptr t = take_read la (lock_instance zts t SAPI_GLOBALS_LOCK) (ptr t SapiGlobals) (t, SapiGlobals)"

definition sapi_get_mut :: "'l rwlock_api \<Rightarrow> bool \<Rightarrow> (nat \<Rightarrow> global_kind \<Rightarrow> 'p) \<Rightarrow> nat \<Rightarrow> ('l, 'p) globals_state \<Rightarrow> ('l, 'p) globals_state option" where
  "sapi_get_mut la zts ptr t = take_write la (lock_instance zts t SAPI_GLOBALS_LOCK) (ptr t SapiGlobals) (t, SapiGlobals)"

definition file_get :: "'l rwlock_api \<Rightarrow> bool \<Rightarrow> (nat \<Rightarrow> global_kind \<Rightarrow> 'p) \<Rightarrow> nat \<Rightarrow> ('l, 'p) globals_state \<Rightarrow> ('l, 'p) globals_state option" where
  "file_get la zts ptr t = take_read la (lock_instance zts t FILE_GLOBALS_LOCK) (ptr t FileGlobals) (t, FileGlobals)"

definition file_get_mut :: "'l rwlock_api \<Rightarrow> bool \<Rightarrow> (nat \<Rightarrow> global_kind \<Rightarrow> 'p) \<Rightarrow> nat \<Rightarrow> ('l, 'p) globals_state \<Rightarrow> ('l, 'p) globals_state option" where
  "file_get_mut la zts ptr t = take_write la (lock_instance zts t FILE_GLOBALS_LOCK) (ptr t FileGlobals) (t, FileGlobals)"

definition globals_get ::
    "'l rwlock_api \<Rightarrow> bool \<Rightarrow> (nat \<Rightarrow> global_kind \<Rightarrow> 'p) \<Rightarrow> nat \<Rightarrow> global_kind \<Rightarrow> ('l, 'p) globals_state \<Rightarrow> ('l, 'p) globals_state option" where
  "globals_get la zts ptr t k =
     (case k of
        ExecutorGlobals \<Rightarrow> executor_get la zts ptr t
      | CompilerGlobals \<Rightarrow> compiler_get la zts ptr t
      | SapiModuleGlobal \<Rightarrow> sapi_module_get la zts ptr t
      | ProcessGlobals \<Rightarrow> process_get la zts ptr t
      | SapiGlobals \<Rightarrow> sapi_get la zts ptr t
      | FileGlobals \<Rightarrow> file_get la zts ptr t)"

definition globals_get_mut ::
    "'l rwlock_api \<Rightarrow> bool \<Rightarrow> (nat \<Rightarrow> global_kind \<Rightarrow> 'p) \<Rightarrow> nat \<Rightarrow> global_kind \<Rightarrow> ('l, 'p) globals_state \<Rightarrow> ('l, 'p) globals_state option" where
  "globals_get_mut la zts ptr t k =
     (case k of
        ExecutorGlobals \<Rightarrow> executor_get_mut la zts ptr t
      | CompilerGlobals \<Rightarrow> compiler_get_mut la zts ptr t
      | SapiModuleGlobal \<Rightarrow> sapi_module_get_mut la zts ptr t
      | ProcessGlobals \<Rightarrow> process_get_mut la zts ptr t
      | SapiGlobals \<Rightarrow> sapi_get_mut la zts ptr t
      | FileGlobals \<Rightarrow> file_get_mut la zts ptr t)"

lemmas accessor_defs = globals_get_def globals_get_mut_def
  executor_get_def executor_get_mut_def compiler_get_def compiler_get_mut_def sapi_module_get_def sapi_module_get_mut_def process_get_def process_get_mut_def sapi_get_def sapi_get_mut_def file_get_def file_get_mut_def

text \<open>Dropping a guard releases the lock it holds.\<close>

definition global_guard_drop :: "'l rwlock_api \<Rightarrow> 'p guard \<Rightarrow> ('l, 'p) globals_state \<Rightarrow> ('l, 'p) globals_state" where
  "global_guard_drop la g s =
     (let l = gs_locks s (gd_lock g);
          l = (case gd_access g of Shared \<Rightarrow> rw_unlock_read la l | Exclusive \<Rightarrow> rw_unlock_write la l)
      in s\<lparr>gs_locks := (gs_locks s)(gd_lock g := l), gs_guards := remove1 g (gs_guards s)\<rparr>)"

text \<open>What threads do, in any order.\<close>

inductive globals_step ::
    "'l rwlock_api \<Rightarrow> bool \<Rightarrow> (nat \<Rightarrow> global_kind \<Rightarrow> 'p) \<Rightarrow> ('l, 'p) globals_state \<Rightarrow> ('l, 'p) globals_state \<Rightarrow> bool"
  for la :: "'l rwlock_api" and zts :: bool and ptr :: "nat \<Rightarrow> global_kind \<Rightarrow> 'p" where
  step_get: "globals_get la zts ptr t k s = Some s' \<Longrightarrow> globals_step la zts ptr s s'"
| step_get_mut: "globals_get_mut la zts ptr t k s = Some s' \<Longrightarrow> globals_step la zts ptr s s'"
| step_drop: "g \<in> set (gs_guards s) \<Longrightarrow> globals_step la zts ptr s (global_guard_drop la g s)"

inductive_cases globals_stepE: "globals_step la zts ptr s s'"

text \<open>The lock and the kind of access of each accessor.\<close>

definition accessor_lock :: "global_kind \<Rightarrow> lock_name" where
  "accessor_lock k =
     (case k of
        ExecutorGlobals \<Rightarrow> GLOBALS_LOCK | CompilerGlobals \<Rightarrow> GLOBALS_LOCK | SapiModuleGlobal \<Rightarrow> SAPI_MODULE_LOCK
      | ProcessGlobals \<Rightarrow> PROCESS_GLOBALS_LOCK | SapiGlobals \<Rightarrow> SAPI_GLOBALS_LOCK | FileGlobals \<Rightarrow> FILE_GLOBALS_LOCK)"

lemma accessors_eq:
  "globals_get la zts ptr t k s = take_read la (lock_instance zts t (accessor_lock k)) (ptr t k) (t, k) s"
  "globals_get_mut la zts ptr t k s = take_write la (lock_instance zts t (accessor_lock k)) (ptr t k) (t, k) s"
  by (simp_all add: accessor_defs accessor_lock_def split: global_kind.splits)

text \<open>Two requests compete for one lock exactly when they ask for the same global, or for the executor's and the compiler's, and
  reach the same instance of the lock: always for the SAPI module or in a build that is not thread-safe, else within one thread.\<close>

definition contend :: "bool \<Rightarrow> nat \<times> global_kind \<Rightarrow> nat \<times> global_kind \<Rightarrow> bool" where
  "contend zts a b \<longleftrightarrow>
     (snd a = snd b \<or> {snd a, snd b} = {ExecutorGlobals, CompilerGlobals}) \<and>
     (zts \<and> snd a \<noteq> SapiModuleGlobal \<longrightarrow> fst a = fst b)"

lemma contend_iff:
  "contend zts (t, k) (t', k') \<longleftrightarrow> lock_instance zts t (accessor_lock k) = lock_instance zts t' (accessor_lock k')"
  by (cases k; cases k') (auto simp: contend_def lock_instance_def accessor_lock_def doubleton_eq_iff)

text \<open>The guards on one lock: either one exclusive guard, or shared ones only; the lock says which.\<close>

definition guards_on :: "lock_id \<Rightarrow> 'p guard list \<Rightarrow> 'p guard list" where
  "guards_on n gs = filter (\<lambda>g. gd_lock g = n) gs"

definition is_exclusive :: "'p guard \<Rightarrow> bool" where
  "is_exclusive g \<longleftrightarrow> gd_access g = Exclusive"

definition guards_ok :: "nat \<times> bool \<Rightarrow> 'p guard list \<Rightarrow> bool" where
  "guards_ok l gs \<longleftrightarrow> (if snd l then \<exists>g. gs = [g] \<and> is_exclusive g else \<not> list_ex is_exclusive gs) \<and> fst l = (if snd l then 0 else length gs)"

definition guard_made :: "bool \<Rightarrow> (nat \<Rightarrow> global_kind \<Rightarrow> 'p) \<Rightarrow> 'p guard \<Rightarrow> bool" where
  "guard_made zts ptr g \<longleftrightarrow>
     (case gd_owner g of (t, k) \<Rightarrow> gd_globals g = ptr t k \<and> gd_lock g = lock_instance zts t (accessor_lock k))"

definition guards_inv :: "('l \<Rightarrow> nat \<times> bool) \<Rightarrow> bool \<Rightarrow> (nat \<Rightarrow> global_kind \<Rightarrow> 'p) \<Rightarrow> ('l, 'p) globals_state \<Rightarrow> bool" where
  "guards_inv st zts ptr s \<longleftrightarrow>
     (\<forall>n. guards_ok (st (gs_locks s n)) (guards_on n (gs_guards s))) \<and> (\<forall>g \<in> set (gs_guards s). guard_made zts ptr g)"

lemma guards_ok_shared: "guards_ok l gs \<Longrightarrow> \<not> snd l \<Longrightarrow> \<not> is_exclusive g \<Longrightarrow> guards_ok (Suc (fst l), False) (g # gs)"
  by (simp add: guards_ok_def)

lemma guards_ok_exclusive: "guards_ok (0, False) gs \<Longrightarrow> is_exclusive g \<Longrightarrow> guards_ok (0, True) (g # gs)"
  by (simp add: guards_ok_def)

lemma guards_ok_drop_shared:
  assumes "guards_ok l gs" and "g \<in> set gs" and "\<not> is_exclusive g"
  shows "\<exists>n. l = (Suc n, False) \<and> guards_ok (n, False) (remove1 g gs)"
proof -
  from assms have l: "\<not> snd l" "fst l = length gs" "\<not> list_ex is_exclusive gs" by (auto simp: guards_ok_def split: if_splits)
  moreover have "\<not> list_ex is_exclusive (remove1 g gs)" using l(3) by (auto simp: list_ex_iff dest: notin_set_remove1)
  moreover obtain n where "length gs = Suc n" using assms(2) by (cases gs) auto
  ultimately show ?thesis using assms(2) by (intro exI [of _ n]) (auto simp: guards_ok_def length_remove1 prod_eq_iff)
qed

lemma guards_ok_drop_exclusive:
  "guards_ok l gs \<Longrightarrow> g \<in> set gs \<Longrightarrow> is_exclusive g \<Longrightarrow> l = (0, True) \<and> guards_ok (0, False) (remove1 g gs)"
  by (auto simp: guards_ok_def list_ex_iff prod_eq_iff split: if_splits)

lemma guards_on_Cons [simp]: "guards_on n (g # gs) = (if gd_lock g = n then g # guards_on n gs else guards_on n gs)"
  by (simp add: guards_on_def)

lemma guards_on_append [simp]: "guards_on n (gs @ hs) = guards_on n gs @ guards_on n hs"
  by (simp add: guards_on_def)

lemma guards_on_remove1:
  "guards_on n (remove1 g gs) = (if gd_lock g = n then remove1 g (guards_on n gs) else guards_on n gs)"
  by (induction gs) (auto simp: guards_on_def remove1_idem)

lemma guards_inv_get:
  assumes "rwlock_ok la st" and "guards_inv st zts ptr s" and "globals_get la zts ptr t k s = Some s'"
  shows "guards_inv st zts ptr s'"
proof -
  let ?n = "lock_instance zts t (accessor_lock k)"
  from assms(3) obtain l where l: "rw_read la (gs_locks s ?n) = Some l"
    "s' = s\<lparr>gs_locks := (gs_locks s)(?n := l),
       gs_guards := \<lparr>gd_globals = ptr t k, gd_lock = ?n, gd_access = Shared, gd_owner = (t, k)\<rparr> # gs_guards s\<rparr>"
    by (auto simp: accessors_eq take_read_def split: option.splits)
  with assms(1,2) show ?thesis
    by (auto simp: guards_inv_def guard_made_def is_exclusive_def rwlock_ok_def intro!: guards_ok_shared)
qed

lemma guards_inv_get_mut:
  assumes "rwlock_ok la st" and "guards_inv st zts ptr s" and "globals_get_mut la zts ptr t k s = Some s'"
  shows "guards_inv st zts ptr s'"
proof -
  let ?n = "lock_instance zts t (accessor_lock k)"
  from assms(3) obtain l where l: "rw_write la (gs_locks s ?n) = Some l"
    "s' = s\<lparr>gs_locks := (gs_locks s)(?n := l),
       gs_guards := \<lparr>gd_globals = ptr t k, gd_lock = ?n, gd_access = Exclusive, gd_owner = (t, k)\<rparr> # gs_guards s\<rparr>"
    by (auto simp: accessors_eq take_write_def split: option.splits)
  with assms(1) have st: "st (gs_locks s ?n) = (0, False)" "st l = (0, True)" by (auto simp: rwlock_ok_def)
  from assms(2) have "guards_ok (st (gs_locks s n)) (guards_on n (gs_guards s))" for n by (simp add: guards_inv_def)
  from this [of ?n] this assms(2) show ?thesis
    by (auto simp: guards_inv_def guard_made_def is_exclusive_def l(2) st intro!: guards_ok_exclusive)
qed

lemma guards_inv_drop:
  assumes "rwlock_ok la st" and "guards_inv st zts ptr s" and "g \<in> set (gs_guards s)"
  shows "guards_inv st zts ptr (global_guard_drop la g s)"
proof -
  let ?n = "gd_lock g"
  have inv: "guards_ok (st (gs_locks s n)) (guards_on n (gs_guards s))" for n using assms(2) by (simp add: guards_inv_def)
  have made: "\<forall>h \<in> set (gs_guards (global_guard_drop la g s)). guard_made zts ptr h"
    using assms(2) by (auto simp: guards_inv_def global_guard_drop_def Let_def dest: notin_set_remove1)
  have mem: "g \<in> set (guards_on ?n (gs_guards s))" using assms(3) by (simp add: guards_on_def)
  have "guards_ok (st (gs_locks (global_guard_drop la g s) n)) (guards_on n (gs_guards (global_guard_drop la g s)))" for n
  proof (cases "gd_access g")
    case Shared
    with guards_ok_drop_shared [OF inv [of ?n] mem] obtain m where
      "st (gs_locks s ?n) = (Suc m, False)" "guards_ok (m, False) (remove1 g (guards_on ?n (gs_guards s)))" by (auto simp: is_exclusive_def)
    with Shared assms(1) inv show ?thesis
      by (auto simp: global_guard_drop_def guards_on_remove1 rwlock_ok_def Let_def)
  next
    case Exclusive
    with guards_ok_drop_exclusive [OF inv [of ?n] mem] have
      "st (gs_locks s ?n) = (0, True)" "guards_ok (0, False) (remove1 g (guards_on ?n (gs_guards s)))" by (auto simp: is_exclusive_def)
    with Exclusive assms(1) inv show ?thesis
      by (auto simp: global_guard_drop_def guards_on_remove1 rwlock_ok_def Let_def)
  qed
  with made show ?thesis by (simp add: guards_inv_def)
qed

lemma guards_inv_steps:
  assumes "rwlock_ok la st" and "(globals_step la zts ptr)\<^sup>*\<^sup>* s s'" and "guards_inv st zts ptr s"
  shows "guards_inv st zts ptr s'"
  using assms(2,3)
  by (induction rule: rtranclp_induct)
    (auto elim!: globals_stepE intro: guards_inv_get [OF assms(1)] guards_inv_get_mut [OF assms(1)] guards_inv_drop [OF assms(1)])

text \<open>A lock is granted to a writer exactly when no guard holds it.\<close>

lemma take_write_granted:
  assumes "rwlock_ok la st" and "guards_inv st zts ptr s"
  shows "take_write la n p owner s \<noteq> None \<longleftrightarrow> guards_on n (gs_guards s) = []"
proof -
  have ok: "guards_ok (st (gs_locks s n)) (guards_on n (gs_guards s))" using assms(2) by (simp add: guards_inv_def)
  have "take_write la n p owner s \<noteq> None \<longleftrightarrow> st (gs_locks s n) = (0, False)"
    using assms(1) by (auto simp: take_write_def rwlock_ok_def split: option.splits)
  also have "\<dots> \<longleftrightarrow> guards_on n (gs_guards s) = []"
    using ok by (cases "st (gs_locks s n)") (auto simp: guards_ok_def split: if_splits)
  finally show ?thesis .
qed

section \<open>The pending exception\<close>

text \<open>The exception of the executor's globals is shared by the threads of a build that is not thread-safe. An exception holds the chain of
  its previous ones, so the pending exception is the list of them, innermost last. \<open>take_exception\<close> looks first with a
  shared guard and then takes it with an exclusive one; in between it holds nothing. \<open>xs_taken\<close> are the exceptions threads own, \<open>xs_caught\<close>
  those PHP code has caught.\<close>

record exc_state =
  xs_pending :: "nat list"
  xs_looked :: "nat set"
  xs_taken :: "(nat \<times> nat list) list"
  xs_caught :: "nat list list"
  xs_thrown :: "nat list"

definition take_exception_look :: "nat \<Rightarrow> exc_state \<Rightarrow> exc_state" where
  "take_exception_look t s = (if xs_pending s = [] then s else s\<lparr>xs_looked := insert t (xs_looked s)\<rparr>)"

definition take_exception_swap :: "nat \<Rightarrow> exc_state \<Rightarrow> nat list option \<times> exc_state" where
  "take_exception_swap t s =
     (let exception = xs_pending s;
          s = s\<lparr>xs_pending := [], xs_looked := xs_looked s - {t}\<rparr>
      in if exception = [] then (None, s) else (Some exception, s\<lparr>xs_taken := (t, exception) # xs_taken s\<rparr>))"

text \<open>The two in a row, as one thread sees them when no other comes between.\<close>

definition take_exception :: "nat \<Rightarrow> exc_state \<Rightarrow> nat list option \<times> exc_state" where
  "take_exception t s =
     (let s' = take_exception_look t s in if t \<in> xs_looked s' then take_exception_swap t s' else (None, s'))"

definition has_exception :: "exc_state \<Rightarrow> bool" where
  "has_exception s \<longleftrightarrow> xs_pending s \<noteq> []"

definition throw_if_exception :: "nat \<Rightarrow> exc_state \<Rightarrow> (nat list + unit) \<times> exc_state" where
  "throw_if_exception t s = (case take_exception t s of (Some x, s) \<Rightarrow> (Inl x, s) | (None, s) \<Rightarrow> (Inr (), s))"

text \<open>The steps of the threads and of the engine. The engine throws a new exception, in front of the one that may be pending, which becomes
  the last of its previous ones; it clears the pending one when PHP code catches it; and an exception that was
  caught, or that a thread had taken, is thrown again.\<close>

inductive exc_step :: "exc_state \<Rightarrow> exc_state \<Rightarrow> bool" where
  exc_throw: "x \<notin> set (xs_thrown s) \<Longrightarrow>
    exc_step s (s\<lparr>xs_pending := x # xs_pending s, xs_thrown := x # xs_thrown s\<rparr>)"
| exc_catch: "xs_pending s \<noteq> [] \<Longrightarrow> exc_step s (s\<lparr>xs_pending := [], xs_caught := xs_pending s # xs_caught s\<rparr>)"
| exc_rethrow_caught: "x \<in> set (xs_caught s) \<Longrightarrow>
    exc_step s (s\<lparr>xs_pending := x @ xs_pending s, xs_caught := remove1 x (xs_caught s)\<rparr>)"
| exc_rethrow_taken: "(t, x) \<in> set (xs_taken s) \<Longrightarrow>
    exc_step s (s\<lparr>xs_pending := x @ xs_pending s, xs_taken := remove1 (t, x) (xs_taken s)\<rparr>)"
| exc_look: "exc_step s (take_exception_look t s)"
| exc_swap: "t \<in> xs_looked s \<Longrightarrow> exc_step s (snd (take_exception_swap t s))"

inductive_cases exc_stepE: "exc_step s s'"








section \<open>Interrupts and tables\<close>

text \<open>\<open>php82\<close> says for which version of PHP the crate is built.\<close>

definition request_interrupt :: "bool \<Rightarrow> bool \<Rightarrow> bool" where
  "request_interrupt php82 vm_interrupt = True"

definition cancel_interrupt :: "bool \<Rightarrow> bool \<Rightarrow> bool" where
  "cancel_interrupt php82 vm_interrupt = (if php82 then False else True)"

text \<open>\<open>ini_values\<close>. The zval of a directive holds a pointer to its entry, whose value is null or a Zend string; \<open>None\<close> is a panic.\<close>

definition ini_values ::
    "('h, 'v) hash_api \<Rightarrow> ('h, 'v) iter_api \<Rightarrow> ('v \<Rightarrow> zend_str option option) \<Rightarrow> 'h \<Rightarrow> (string \<rightharpoonup> string option) option" where
  "ini_values hapi api entry h =
     (case iter_try api
        (\<lambda>_ (key, value). case entry value of
           None \<Rightarrow> Inl ()
         | Some None \<Rightarrow> Inr (key_display key, None)
         | Some (Some s) \<Rightarrow> (case fst (zs_as_str s) of Inl _ \<Rightarrow> Inl () | Inr t \<Rightarrow> Inr (key_display key, Some t)))
        (iter_new hapi api h) [] of
        None \<Rightarrow> None
      | Some (Inl _) \<Rightarrow> None
      | Some (Inr kvs) \<Rightarrow> Some (fold (\<lambda>(k, v) m. m(k \<mapsto> v)) kvs Map.empty))"

section \<open>Variables of the request\<close>

datatype track_var = TRACK_VARS_POST | TRACK_VARS_GET | TRACK_VARS_COOKIE | TRACK_VARS_SERVER | TRACK_VARS_ENV | TRACK_VARS_FILES

record ('h, 'o) process_globals =
  pg_heap :: "('h, 'o) zheap"
  pg_http :: "track_var \<Rightarrow> zval"

text \<open>\<open>$_SERVER\<close> is filled when it is asked for; \<open>auto_global\<close> is the engine filling an auto global.\<close>

definition http_server_vars ::
    "(string \<Rightarrow> ('h, 'o) process_globals \<Rightarrow> bool \<times> ('h, 'o) process_globals) \<Rightarrow> ('h, 'o) process_globals \<Rightarrow>
     'h option \<times> ('h, 'o) process_globals" where
  "http_server_vars auto_global g =
     (let g = (if is_array (pg_http g TRACK_VARS_SERVER) then g else snd (auto_global ''_SERVER'' g))
      in (if is_array (pg_http g TRACK_VARS_SERVER) then zv_array (pg_heap g) (pg_http g TRACK_VARS_SERVER) else None, g))"

text \<open>The others panic (\<open>None\<close>) when the variable is not an array.\<close>

definition http_post_vars :: "('h, 'o) process_globals \<Rightarrow> 'h option" where
  "http_post_vars g = zv_array (pg_heap g) (pg_http g TRACK_VARS_POST)"

definition http_get_vars :: "('h, 'o) process_globals \<Rightarrow> 'h option" where
  "http_get_vars g = zv_array (pg_heap g) (pg_http g TRACK_VARS_GET)"

definition http_cookie_vars :: "('h, 'o) process_globals \<Rightarrow> 'h option" where
  "http_cookie_vars g = zv_array (pg_heap g) (pg_http g TRACK_VARS_COOKIE)"

definition http_env_vars :: "('h, 'o) process_globals \<Rightarrow> 'h option" where
  "http_env_vars g = zv_array (pg_heap g) (pg_http g TRACK_VARS_ENV)"

definition http_files_vars :: "('h, 'o) process_globals \<Rightarrow> 'h option" where
  "http_files_vars g = zv_array (pg_heap g) (pg_http g TRACK_VARS_FILES)"

text \<open>\<open>$_REQUEST\<close> lives in the symbol table of the executor; \<open>None\<close> is a panic, \<open>Some None\<close> that there is none.\<close>

definition http_request_vars ::
    "(string \<Rightarrow> ('h, 'o) process_globals \<Rightarrow> bool \<times> ('h, 'o) process_globals) \<Rightarrow>
     (string \<Rightarrow> ('h, 'o) process_globals \<Rightarrow> zval option) \<Rightarrow> ('h, 'o) process_globals \<Rightarrow> 'h option option \<times> ('h, 'o) process_globals" where
  "http_request_vars auto_global symbol g =
     (case auto_global ''_REQUEST'' g of
        (False, g) \<Rightarrow> (None, g)
      | (True, g) \<Rightarrow>
          (case symbol ''_REQUEST'' g of
             None \<Rightarrow> (Some None, g)
           | Some z \<Rightarrow> (map_option Some (zv_array (pg_heap g) z), g)))"

section \<open>Headers and request info\<close>

text \<open>The header of \<open>src/zend/globals.rs\<close>: its bytes; \<open>None\<close> is the panic on bytes that are not UTF-8.\<close>

definition sapi_header_as_str :: "string \<Rightarrow> string option" where
  "sapi_header_as_str raw = (if utf8_valid raw then Some raw else None)"

definition sapi_header_name :: "string \<Rightarrow> string option" where
  "sapi_header_name raw = map_option (\<lambda>s. trim (case split_char (CHR '':'') s of [] \<Rightarrow> [] | n # _ \<Rightarrow> n)) (sapi_header_as_str raw)"

definition sapi_header_value :: "string \<Rightarrow> string option option" where
  "sapi_header_value raw = map_option (\<lambda>s. map_option (\<lambda>(_, v). trim v) (split_once (CHR '':'') s)) (sapi_header_as_str raw)"

text \<open>The texts of a request: a null pointer, or the bytes up to the first NUL.\<close>

record sapi_request_info =
  ri_request_method :: "string option"
  ri_query_string :: "string option"
  ri_cookie_data :: "string option"
  ri_content_length :: int
  ri_path_translated :: "string option"
  ri_request_uri :: "string option"
  ri_content_type :: "string option"
  ri_auth_user :: "string option"
  ri_auth_password :: "string option"
  ri_auth_digest :: "string option"
  ri_argv0 :: "string option"
  ri_current_user :: "string option"
  ri_argv :: "string option list"

definition c_str_text :: "string option \<Rightarrow> string option" where
  "c_str_text p = (case p of None \<Rightarrow> None | Some s \<Rightarrow> if utf8_valid s then Some s else None)"

definition request_method :: "sapi_request_info \<Rightarrow> string option" where "request_method r = c_str_text (ri_request_method r)"
definition query_string :: "sapi_request_info \<Rightarrow> string option" where "query_string r = c_str_text (ri_query_string r)"
definition cookie_data :: "sapi_request_info \<Rightarrow> string option" where "cookie_data r = c_str_text (ri_cookie_data r)"
definition content_length :: "sapi_request_info \<Rightarrow> int" where "content_length r = ri_content_length r"
definition path_translated :: "sapi_request_info \<Rightarrow> string option" where "path_translated r = c_str_text (ri_path_translated r)"
definition request_uri :: "sapi_request_info \<Rightarrow> string option" where "request_uri r = c_str_text (ri_request_uri r)"
definition content_type :: "sapi_request_info \<Rightarrow> string option" where "content_type r = c_str_text (ri_content_type r)"
definition auth_user :: "sapi_request_info \<Rightarrow> string option" where "auth_user r = c_str_text (ri_auth_user r)"
definition auth_password :: "sapi_request_info \<Rightarrow> string option" where "auth_password r = c_str_text (ri_auth_password r)"
definition auth_digest :: "sapi_request_info \<Rightarrow> string option" where "auth_digest r = c_str_text (ri_auth_digest r)"
definition argv0 :: "sapi_request_info \<Rightarrow> string option" where "argv0 r = c_str_text (ri_argv0 r)"
definition current_user :: "sapi_request_info \<Rightarrow> string option" where "current_user r = c_str_text (ri_current_user r)"

text \<open>\<open>argv\<close> is the first of the arguments; the list is \<open>[]\<close> for a null pointer. With a non-null array, the element is read as it is.\<close>

definition request_argv :: "sapi_request_info \<Rightarrow> string option" where
  "request_argv r = (case ri_argv r of [] \<Rightarrow> None | a # _ \<Rightarrow> c_str_text a)"

section \<open>Properties\<close>

text \<open>C40. The views of the engine's globals in every interleaving of threads that take and drop guards, given that the engine keeps different
  globals, and where it keeps one per thread those of different threads, at different addresses. An exclusive guard is the only
  guard alive on the memory it refers to, across all threads. A thread that asks for an exclusive guard gets it exactly when no
  guard alive contends with it: none for the same global (or, as they share a lock, for the other of
  executor and compiler), of its own thread or, for the SAPI module or in a build that is not thread-safe, of any thread. A shared
  guard is granted only when no exclusive one contends.\<close>

theorem globals_exclusive:
  fixes ptr :: "nat \<Rightarrow> global_kind \<Rightarrow> 'p"
  assumes "rwlock_ok la st" and "\<And>n. st (gs_locks s n) = (0, False)" and "gs_guards s = []"
    and "(globals_step la zts ptr)\<^sup>*\<^sup>* s s'"
    and "\<And>t k t' k'. ptr t k = ptr t' k' \<Longrightarrow> k = k' \<and> (zts \<and> k \<noteq> SapiModuleGlobal \<longrightarrow> t = t')"
  shows "(\<forall>xs g ys. gs_guards s' = xs @ g # ys \<and> gd_access g = Exclusive \<longrightarrow> (\<forall>h \<in> set (xs @ ys). gd_globals h \<noteq> gd_globals g)) \<and>
    (globals_get_mut la zts ptr t k s' \<noteq> None \<longleftrightarrow> (\<forall>h \<in> set (gs_guards s'). \<not> contend zts (t, k) (gd_owner h))) \<and>
    (globals_get la zts ptr t k s' \<noteq> None \<longrightarrow>
       (\<forall>h \<in> set (gs_guards s'). gd_access h = Exclusive \<longrightarrow> \<not> contend zts (t, k) (gd_owner h)))"
proof -
  have "guards_inv st zts ptr s" by (simp add: guards_inv_def guards_ok_def guards_on_def assms(2,3))
  with guards_inv_steps [OF assms(1,4)] have inv: "guards_inv st zts ptr s'" by blast
  then have ok: "guards_ok (st (gs_locks s' n)) (guards_on n (gs_guards s'))" for n by (simp add: guards_inv_def)
  have lock: "gd_lock h = lock_instance zts t' (accessor_lock k')" "gd_globals h = ptr t' k'"
    if "h \<in> set (gs_guards s')" "gd_owner h = (t', k')" for h t' k'
    using inv that by (auto simp: guards_inv_def guard_made_def)
  have held: "h \<in> set (guards_on (lock_instance zts t (accessor_lock k)) (gs_guards s')) \<longleftrightarrow>
      h \<in> set (gs_guards s') \<and> contend zts (t, k) (gd_owner h)" for h
    using lock [of h] by (cases "gd_owner h") (auto simp: guards_on_def contend_iff)
  have "gd_globals h \<noteq> gd_globals g" if g: "gs_guards s' = xs @ g # ys" "gd_access g = Exclusive" and h: "h \<in> set (xs @ ys)" for xs g ys h
  proof
    assume same: "gd_globals h = gd_globals g"
    obtain t1 k1 t2 k2 where owners: "gd_owner g = (t1, k1)" "gd_owner h = (t2, k2)" by (metis prod.exhaust)
    have mem: "g \<in> set (gs_guards s')" "h \<in> set (gs_guards s')" using g h by auto
    from assms(5) [of t1 k1 t2 k2] same lock [OF mem(1) owners(1)] lock [OF mem(2) owners(2)]
    have "contend zts (t1, k1) (t2, k2)" by (auto simp: contend_def)
    then have "gd_lock h = gd_lock g" using lock [OF mem(1) owners(1)] lock [OF mem(2) owners(2)] by (simp add: contend_iff)
    then have "guards_on (gd_lock g) (gs_guards s') = guards_on (gd_lock g) xs @ g # guards_on (gd_lock g) ys"
      "h \<in> set (guards_on (gd_lock g) xs) \<union> set (guards_on (gd_lock g) ys)"
      using g(1) h by (auto simp: guards_on_def)
    with ok [of "gd_lock g"] g(2) show False
      by (auto simp: guards_ok_def is_exclusive_def append_eq_Cons_conv split: if_splits)
  qed
  moreover have "globals_get_mut la zts ptr t k s' \<noteq> None \<longleftrightarrow> (\<forall>h \<in> set (gs_guards s'). \<not> contend zts (t, k) (gd_owner h))"
    unfolding accessors_eq take_write_granted [OF assms(1) inv] using held by (metis list.set_intros(1) list.set(1) empty_iff neq_Nil_conv)
  moreover have "\<not> contend zts (t, k) (gd_owner h)"
    if "globals_get la zts ptr t k s' \<noteq> None" "h \<in> set (gs_guards s')" "gd_access h = Exclusive" for h
  proof
    assume "contend zts (t, k) (gd_owner h)"
    then have "h \<in> set (guards_on (lock_instance zts t (accessor_lock k)) (gs_guards s'))" using held that(2) by blast
    with ok [of "lock_instance zts t (accessor_lock k)"] that(3) have "snd (st (gs_locks s' (lock_instance zts t (accessor_lock k))))"
      by (auto simp: guards_ok_def is_exclusive_def list_ex_iff split: if_splits)
    with assms(1) that(1) show False by (auto simp: accessors_eq take_read_def rwlock_ok_def split: option.splits)
  qed
  ultimately show ?thesis by blast
qed

text \<open>A lock that counts, and a process with one copy of every global.\<close>

definition counting_lock :: "(nat \<times> bool) rwlock_api" where
  "counting_lock = \<lparr>rw_read = (\<lambda>(n, w). if w then None else Some (n + 1, False)),
     rw_write = (\<lambda>(n, w). if w \<or> 0 < n then None else Some (0, True)),
     rw_unlock_read = (\<lambda>(n, w). (n - 1, w)), rw_unlock_write = (\<lambda>(n, w). (n, False))\<rparr>"

lemma counting_lock_ok: "rwlock_ok counting_lock id"
  by (auto simp: rwlock_ok_def counting_lock_def split: if_splits)

theorem globals_exclusive_witness:
  "\<exists>s'. globals_get_mut counting_lock False (\<lambda>_ k. k) 1 CompilerGlobals \<lparr>gs_locks = \<lambda>_. (0, False), gs_guards = []\<rparr> = Some s' \<and>
     globals_get_mut counting_lock False (\<lambda>_ k. k) 2 ExecutorGlobals s' = None"
proof -
  let ?s = "\<lparr>gs_locks = \<lambda>_. (0, False), gs_guards = []\<rparr> :: (nat \<times> bool, global_kind) globals_state"
  obtain s' where s': "globals_get_mut counting_lock False (\<lambda>_ k. k) 1 CompilerGlobals ?s = Some s'"
    "\<exists>g. gs_guards s' = [g] \<and> gd_owner g = (1, CompilerGlobals)"
    by (simp add: accessors_eq take_write_def counting_lock_def)
  from step_get_mut [OF s'(1)] have "(globals_step counting_lock False (\<lambda>_ k. k))\<^sup>*\<^sup>* ?s s'" by (rule r_into_rtranclp)
  from globals_exclusive [OF counting_lock_ok _ _ this, of 2 ExecutorGlobals] s' show ?thesis
    by (auto simp: contend_def)
qed



text \<open>The loop of \<open>ini_values\<close> over directives whose names and values are text.\<close>

definition ini_text_ok :: "('v \<Rightarrow> zend_str option option) \<Rightarrow> hkey \<times> 'v \<Rightarrow> bool" where
  "ini_text_ok entry kv \<longleftrightarrow>
     (\<exists>n v w. kv = (HStr n, v) \<and> utf8_valid n \<and> entry v = Some w \<and> (\<forall>s. w = Some s \<longrightarrow> utf8_valid (zs_bytes s)))"

definition ini_pair :: "('v \<Rightarrow> zend_str option option) \<Rightarrow> hkey \<times> 'v \<Rightarrow> string \<times> string option" where
  "ini_pair entry kv = (case fst kv of HStr n \<Rightarrow> n | HIdx _ \<Rightarrow> [], map_option zs_bytes (the (entry (snd kv))))"

lemma ini_pair_key: "ini_text_ok entry kv \<Longrightarrow> HStr (fst (ini_pair entry kv)) = fst kv"
  by (auto simp: ini_text_ok_def ini_pair_def)

lemma try_all_ini:
  assumes "list_all (ini_text_ok entry) es"
  shows "try_all (\<lambda>_ (key, value). case entry value of
           None \<Rightarrow> Inl ()
         | Some None \<Rightarrow> Inr (key_display key, None)
         | Some (Some s) \<Rightarrow> (case fst (zs_as_str s) of Inl _ \<Rightarrow> Inl () | Inr t \<Rightarrow> Inr (key_display key, Some t))) es acc =
    Some (Inr (acc @ map (ini_pair entry) es))"
  using assms
proof (induction es arbitrary: acc)
  case (Cons kv es)
  then obtain n v w where kv: "kv = (HStr n, v)" "utf8_valid n" "entry v = Some w" "\<And>s. w = Some s \<Longrightarrow> utf8_valid (zs_bytes s)"
    by (auto simp: ini_text_ok_def)
  with Cons show ?case
    by (cases w) (simp_all add: key_of_hkey_def key_from_zval_def key_display_def ini_pair_def zs_as_str_def)
qed simp

lemma map_of_ini_pair:
  assumes "list_all (ini_text_ok entry) es"
  shows "map_of (map (ini_pair entry) es) n = map_option (\<lambda>v. map_option zs_bytes (the (entry v))) (map_of es (HStr n))"
  using assms by (induction es) (auto simp: ini_text_ok_def ini_pair_def)

text \<open>\<open>ini_values\<close> returns every directive under its name, with its value or without one, and nothing else.\<close>

theorem ini_values_complete:
  assumes "hash_api_ok hapi V" and "iter_api_ok api V slots" and "hv_inv V h" and "list_all (ini_text_ok entry) (hv_ent V h)"
  shows "ini_values hapi api entry h = Some (\<lambda>n. map_option (\<lambda>v. map_option zs_bytes (the (entry v))) (map_of (hv_ent V h) (HStr n)))"
proof -
  have "distinct (map fst (hv_ent V h))" using assms(1,3) by (simp add: hash_api_ok_def)
  also have "map fst (hv_ent V h) = map HStr (map fst (map (ini_pair entry) (hv_ent V h)))"
    using assms(4) by (simp add: list_all_iff ini_pair_key)
  finally have "distinct (map fst (map (ini_pair entry) (hv_ent V h)))" by (simp only: distinct_map)
  then show ?thesis
    unfolding ini_values_def iter_try_new [OF assms(1-3)] try_all_ini [OF assms(4)]
    by (simp add: fold_map_upd map_of_ini_pair [OF assms(4)] fun_eq_iff)
qed

text \<open>The two views of a header of the response agree wherever both are defined.\<close>

theorem header_views_agree:
  assumes "header_as_name_value (Some raw) = Some (n, v)"
  shows "sapi_header_name raw = Some n \<and> sapi_header_value raw = Some (Some v)"
proof -
  from assms have raw: "utf8_valid raw" "CHR '':'' \<in> set raw"
      "n = trim (takeWhile (\<lambda>x. x \<noteq> CHR '':'') raw)" "v = trim (tl (dropWhile (\<lambda>x. x \<noteq> CHR '':'') raw))"
    by (auto simp: header_as_name_value_def header_as_str_def split_once_def split: if_splits)
  then obtain a b where ab: "raw = a @ CHR '':'' # b" "CHR '':'' \<notin> set a" by (meson split_list_first)
  then have "takeWhile (\<lambda>x. x \<noteq> CHR '':'') raw = a" "dropWhile (\<lambda>x. x \<noteq> CHR '':'') raw = CHR '':'' # b" by (induction a arbitrary: raw) auto
  moreover have "split_char (CHR '':'') raw = a # split_char (CHR '':'') b" using ab by (simp add: split_char_append)
  ultimately show ?thesis
    using raw by (simp add: sapi_header_name_def sapi_header_value_def sapi_header_as_str_def split_once_def)
qed

text \<open>Before PHP 8.2, cancelling an interrupt requests one.\<close>

theorem cancel_interrupt_before_82: "cancel_interrupt False i = request_interrupt False i"
  by (simp add: cancel_interrupt_def request_interrupt_def)

end
