(* ===== verification/IniStreams.thy ===== *)
theory IniStreams
  imports Args
begin

text \<open>
  \<open>src/builders/ini.rs\<close>, \<open>src/util/cstring_scope.rs\<close> and \<open>src/zend/streams.rs\<close>: the builder of INI text and the registration of stream wrappers. The
  engine's functions on the buffer of the builder and on its table of wrappers are parameters.
\<close>

section \<open>The INI builder\<close>

text \<open>The buffer: null, or its bytes.\<close>

type_synonym ini_builder = "string option"

record ini_builder_api =
  ib_prepend :: "string \<Rightarrow> ini_builder \<Rightarrow> ini_builder"
  ib_unquoted :: "string \<Rightarrow> string \<Rightarrow> ini_builder \<Rightarrow> ini_builder"
  ib_quoted :: "string \<Rightarrow> string \<Rightarrow> ini_builder \<Rightarrow> ini_builder"
  ib_define :: "string \<Rightarrow> ini_builder \<Rightarrow> ini_builder"

definition ini_builder_new :: ini_builder where
  "ini_builder_new = None"

text \<open>Each operation makes C strings of its arguments first; \<open>False\<close> is the error of a NUL byte. The strings live until the end of
  the call.\<close>

definition ini_prepend :: "ini_builder_api \<Rightarrow> string \<Rightarrow> ini_builder \<Rightarrow> bool \<times> ini_builder" where
  "ini_prepend api v b = (case cstring_new v of None \<Rightarrow> (False, b) | Some raw \<Rightarrow> (True, ib_prepend api raw b))"

definition ini_unquoted :: "ini_builder_api \<Rightarrow> string \<Rightarrow> string \<Rightarrow> ini_builder \<Rightarrow> bool \<times> ini_builder" where
  "ini_unquoted api n v b =
     (case cstring_new n of
        None \<Rightarrow> (False, b)
      | Some raw_name \<Rightarrow> (case cstring_new v of None \<Rightarrow> (False, b) | Some raw_value \<Rightarrow> (True, ib_unquoted api raw_name raw_value b)))"

definition ini_quoted :: "ini_builder_api \<Rightarrow> string \<Rightarrow> string \<Rightarrow> ini_builder \<Rightarrow> bool \<times> ini_builder" where
  "ini_quoted api n v b =
     (case cstring_new n of
        None \<Rightarrow> (False, b)
      | Some raw_name \<Rightarrow> (case cstring_new v of None \<Rightarrow> (False, b) | Some raw_value \<Rightarrow> (True, ib_quoted api raw_name raw_value b)))"

definition ini_define :: "ini_builder_api \<Rightarrow> string \<Rightarrow> ini_builder \<Rightarrow> bool \<times> ini_builder" where
  "ini_define api v b = (case cstring_new v of None \<Rightarrow> (False, b) | Some raw \<Rightarrow> (True, ib_define api raw b))"

text \<open>\<open>finish\<close> terminates the buffer and reads it as a C string; the text of the builder is empty when that is not UTF-8.\<close>

definition ini_finish :: "ini_builder \<Rightarrow> string" where
  "ini_finish b = (case b of None \<Rightarrow> [] | Some s \<Rightarrow> takeWhile (\<lambda>c. c \<noteq> CHR 0x00) s)"

definition ini_as_str :: "(string \<Rightarrow> bool) \<Rightarrow> ini_builder \<Rightarrow> string" where
  "ini_as_str utf8 b = (let s = ini_finish b in if utf8 s then s else [])"

text \<open>What the engine's functions do to the text.\<close>

definition ini_text :: "ini_builder \<Rightarrow> string" where
  "ini_text b = (case b of None \<Rightarrow> [] | Some s \<Rightarrow> s)"

definition ini_api_ok :: "ini_builder_api \<Rightarrow> bool" where
  "ini_api_ok api \<longleftrightarrow>
     (\<forall>v b. ini_text (ib_prepend api v b) = v @ ini_text b) \<and>
     (\<forall>n v b. ini_text (ib_unquoted api n v b) = ini_text b @ n @ ''='' @ v @ [CHR 0x0A]) \<and>
     (\<forall>n v b. ini_text (ib_quoted api n v b) = ini_text b @ n @ ''='' @ [CHR 0x22] @ v @ [CHR 0x22, CHR 0x0A])"

text \<open>A sequence of operations, and the text each of them puts before or behind.\<close>

datatype ini_op = IniPrepend string | IniUnquoted string string | IniQuoted string string

fun ini_apply :: "ini_builder_api \<Rightarrow> ini_op \<Rightarrow> ini_builder \<Rightarrow> bool \<times> ini_builder" where
  "ini_apply api (IniPrepend v) b = ini_prepend api v b"
| "ini_apply api (IniUnquoted n v) b = ini_unquoted api n v b"
| "ini_apply api (IniQuoted n v) b = ini_quoted api n v b"

fun ini_op_strings :: "ini_op \<Rightarrow> string list" where
  "ini_op_strings (IniPrepend v) = [v]"
| "ini_op_strings (IniUnquoted n v) = [n, v]"
| "ini_op_strings (IniQuoted n v) = [n, v]"

definition ini_op_ok :: "ini_op \<Rightarrow> bool" where
  "ini_op_ok op \<longleftrightarrow> list_all (\<lambda>s. CHR 0x00 \<notin> set s) (ini_op_strings op)"

fun ini_before :: "ini_op \<Rightarrow> string" where
  "ini_before (IniPrepend v) = v" | "ini_before _ = []"

fun ini_behind :: "ini_op \<Rightarrow> string" where
  "ini_behind (IniPrepend v) = []"
| "ini_behind (IniUnquoted n v) = n @ ''='' @ v @ [CHR 0x0A]"
| "ini_behind (IniQuoted n v) = n @ ''='' @ [CHR 0x22] @ v @ [CHR 0x22, CHR 0x0A]"

lemmas ini_ops = ini_prepend_def ini_unquoted_def ini_quoted_def cstring_new_def

lemma ini_apply_refused: "\<not> ini_op_ok op \<Longrightarrow> ini_apply api op b = (False, b)"
  by (cases op) (auto simp: ini_op_ok_def ini_ops)

lemma ini_apply_text:
  "ini_api_ok api \<Longrightarrow> ini_op_ok op \<Longrightarrow>
     fst (ini_apply api op b) \<and> ini_text (snd (ini_apply api op b)) = ini_before op @ ini_text b @ ini_behind op"
  by (cases op) (auto simp: ini_op_ok_def ini_ops ini_api_ok_def)

lemma ini_fold_text:
  assumes "ini_api_ok api"
  shows "ini_text (fold (\<lambda>op b. snd (ini_apply api op b)) ops b) =
    concat (rev (map ini_before (filter ini_op_ok ops))) @ ini_text b @ concat (map ini_behind (filter ini_op_ok ops))"
proof (induction ops arbitrary: b)
  case (Cons op ops)
  then show ?case
    using ini_apply_text [OF assms, of op b] ini_apply_refused [of op api b] by (cases "ini_op_ok op") auto
qed simp

lemma ini_text_no_nul:
  assumes "ini_op_ok op"
  shows "CHR 0x00 \<notin> set (ini_before op)" "CHR 0x00 \<notin> set (ini_behind op)"
  using assms by (cases op; auto simp: ini_op_ok_def)+

text \<open>The text of an INI builder: what was prepended, the last first, before the lines of the name-value pairs in the order they
  were added. An operation with a NUL byte in one of its strings is refused and changes nothing.\<close>

theorem ini_builder_text:
  assumes "ini_api_ok api"
  shows "ini_finish (fold (\<lambda>op b. snd (ini_apply api op b)) ops ini_builder_new) =
      concat (rev (map ini_before (filter ini_op_ok ops))) @ concat (map ini_behind (filter ini_op_ok ops)) \<and>
    fst (ini_apply api op b) = ini_op_ok op"
proof -
  let ?b = "fold (\<lambda>op b. snd (ini_apply api op b)) ops ini_builder_new"
  have t: "ini_text ?b = concat (rev (map ini_before (filter ini_op_ok ops))) @ concat (map ini_behind (filter ini_op_ok ops))"
    using ini_fold_text [OF assms, of ops ini_builder_new] by (simp add: ini_text_def ini_builder_new_def)
  then have "CHR 0x00 \<notin> set (ini_text ?b)" using ini_text_no_nul by auto
  then have "ini_finish ?b = ini_text ?b" by (auto simp: ini_finish_def ini_text_def takeWhile_eq_all_conv split: option.splits)
  moreover have "fst (ini_apply api op b) = ini_op_ok op"
    using ini_apply_text [OF assms, of op b] ini_apply_refused [of op api b] by (cases "ini_op_ok op") auto
  ultimately show ?thesis using t by simp
qed

text \<open>The engine's functions as its tests show them.\<close>

definition plain_ini_api :: ini_builder_api where
  "plain_ini_api = \<lparr>ib_prepend = (\<lambda>v b. Some (v @ ini_text b)), ib_unquoted = (\<lambda>n v b. Some (ini_text b @ n @ ''='' @ v @ [CHR 0x0A])),
     ib_quoted = (\<lambda>n v b. Some (ini_text b @ n @ ''='' @ [CHR 0x22] @ v @ [CHR 0x22, CHR 0x0A])), ib_define = (\<lambda>v b. Some (ini_text b @ v @ [CHR 0x0A]))\<rparr>"

theorem ini_builder_text_witness:
  "ini_finish (fold (\<lambda>op b. snd (ini_apply plain_ini_api op b)) [IniUnquoted ''a'' ''1'', IniPrepend ''x'', IniUnquoted [CHR 0x00] ''2''] ini_builder_new) =
     ''xa=1'' @ [CHR 0x0A]"
proof -
  have "ini_api_ok plain_ini_api" by (simp add: ini_api_ok_def plain_ini_api_def ini_text_def)
  from ini_builder_text [OF this, of "[IniUnquoted ''a'' ''1'', IniPrepend ''x'', IniUnquoted [CHR 0x00] ''2'']"] show ?thesis
    by (simp add: ini_op_ok_def)
qed

section \<open>Stream wrappers\<close>

text \<open>The engine's table of wrappers. A wrapper that is registered is copied to the heap and stays there.\<close>

record ('s, 'p) stream_api =
  st_locate :: "string \<Rightarrow> 's \<Rightarrow> 'p option"
  st_register :: "string \<Rightarrow> 'p \<Rightarrow> 's \<Rightarrow> int \<times> 's"
  st_register_volatile :: "string \<Rightarrow> 'p \<Rightarrow> 's \<Rightarrow> int \<times> 's"
  st_unregister :: "string \<Rightarrow> 's \<Rightarrow> int \<times> 's"
  st_unregister_volatile :: "string \<Rightarrow> 's \<Rightarrow> int \<times> 's"

text \<open>\<open>get\<close> passes the bytes of a \<open>str\<close>, which the engine reads up to a NUL byte: \<open>rest\<close> is what lies behind them in memory.\<close>

definition stream_wrapper_get :: "('s, 'p) stream_api \<Rightarrow> string \<Rightarrow> string \<Rightarrow> 's \<Rightarrow> 'p option" where
  "stream_wrapper_get api rest n s = st_locate api (takeWhile (\<lambda>c. c \<noteq> CHR 0x00) (n @ rest)) s"

text \<open>\<open>None\<close> is the panic on a name with a NUL byte; the list is what was leaked.\<close>

definition stream_register :: "('s, 'p) stream_api \<Rightarrow> string \<Rightarrow> 'p \<Rightarrow> 's \<times> 'p list \<Rightarrow> ((error + 'p) \<times> 's \<times> 'p list) option" where
  "stream_register api n w s =
     (case s of (table, leaked) \<Rightarrow>
        let leaked = w # leaked
        in case cstring_new n of
             None \<Rightarrow> None
           | Some c \<Rightarrow>
               (let (result, table) = st_register api c w table
                in Some (if result = 0 then Inr w else Inl StreamWrapperRegistrationFailure, table, leaked)))"

definition stream_register_volatile :: "('s, 'p) stream_api \<Rightarrow> string \<Rightarrow> 'p \<Rightarrow> 's \<times> 'p list \<Rightarrow> (error + 'p) \<times> 's \<times> 'p list" where
  "stream_register_volatile api n w s =
     (case s of (table, leaked) \<Rightarrow>
        let leaked = w # leaked; (result, table) = st_register_volatile api n w table
        in (if result = 0 then Inr w else Inl StreamWrapperRegistrationFailure, table, leaked))"

definition stream_unregister :: "('s, 'p) stream_api \<Rightarrow> string \<Rightarrow> 's \<Rightarrow> ((error + unit) \<times> 's) option" where
  "stream_unregister api n table =
     (case cstring_new n of
        None \<Rightarrow> None
      | Some c \<Rightarrow>
          (let (result, table) = st_unregister api c table
           in Some (if result = 0 then Inr () else Inl StreamWrapperUnregistrationFailure, table)))"

definition stream_unregister_volatile :: "('s, 'p) stream_api \<Rightarrow> string \<Rightarrow> 's \<Rightarrow> (error + unit) \<times> 's" where
  "stream_unregister_volatile api n table =
     (let (result, table) = st_unregister_volatile api n table
      in (if result = 0 then Inr () else Inl StreamWrapperUnregistrationFailure, table))"

text \<open>A wrapper is looked up under its name only when a NUL byte happens to follow the name in memory.\<close>

theorem stream_get_reads_on:
  assumes "CHR 0x00 \<notin> set n"
  shows "stream_wrapper_get api rest n s = st_locate api (n @ takeWhile (\<lambda>c. c \<noteq> CHR 0x00) rest) s"
proof -
  from assms have "takeWhile (\<lambda>c. c \<noteq> CHR 0x00) (n @ rest) = n @ takeWhile (\<lambda>c. c \<noteq> CHR 0x00) rest" by (induction n) auto
  then show ?thesis by (simp add: stream_wrapper_get_def)
qed

end
