(* ===== verification/ModGlobals.thy ===== *)
theory ModGlobals
  imports Prelude
begin

text \<open>
  \<open>src/zend/module_globals.rs\<close>: the globals of a module. A thread-safe engine keeps one copy per thread, under the number it gave the
  module; otherwise there is one copy, in the static of the module. The engine runs the constructor on memory it
  provides and the destructor before it takes the memory back. The engine's lookup of the copy of a thread
  (\<open>ext_php_rs_tsrmg_bulk\<close>) is an argument.
\<close>

section \<open>Storage\<close>

text \<open>The user's type: its default value and the two hooks.\<close>

record 'g module_global =
  mg_default :: 'g
  mg_ginit :: "'g \<Rightarrow> 'g"
  mg_gshutdown :: "'g \<Rightarrow> 'g"

text \<open>The number of the module (0 until it is registered), what the memory at an address holds (\<open>None\<close> when it is not
  initialised), the threads the engine runs, and the values dropped so far.\<close>

record 'g module_globals =
  mgs_id :: int
  mgs_mem :: "nat \<Rightarrow> 'g option"
  mgs_threads :: "nat set"
  mgs_dropped :: "'g list"

definition module_globals_new :: "'g module_globals" where
  "module_globals_new = \<lparr>mgs_id = 0, mgs_mem = (\<lambda>_. None), mgs_threads = {}, mgs_dropped = []\<rparr>"

text \<open>\<open>as_ptr\<close>: \<open>tsrm i t\<close> is the address the engine's lookup gives thread \<open>t\<close> for module number \<open>i\<close>, \<open>inner\<close> the address of the
  static's storage.\<close>

definition module_globals_as_ptr :: "bool \<Rightarrow> (int \<Rightarrow> nat \<Rightarrow> nat) \<Rightarrow> nat \<Rightarrow> nat \<Rightarrow> 'g module_globals \<Rightarrow> nat" where
  "module_globals_as_ptr zts tsrm inner t s = (if zts then tsrm (mgs_id s) t else inner)"

text \<open>\<open>get\<close>: \<open>None\<close> stands for the failed assertion, or for reading memory that is not initialised.\<close>

definition module_globals_get :: "bool \<Rightarrow> (int \<Rightarrow> nat \<Rightarrow> nat) \<Rightarrow> nat \<Rightarrow> nat \<Rightarrow> 'g module_globals \<Rightarrow> 'g option" where
  "module_globals_get zts tsrm inner t s =
     (if zts then (if mgs_id s = 0 then None else mgs_mem s (tsrm (mgs_id s) t)) else mgs_mem s inner)"

text \<open>\<open>get_mut\<close>, with what the caller does to the value.\<close>

definition module_globals_get_mut ::
    "bool \<Rightarrow> (int \<Rightarrow> nat \<Rightarrow> nat) \<Rightarrow> nat \<Rightarrow> nat \<Rightarrow> ('g \<Rightarrow> 'g) \<Rightarrow> 'g module_globals \<Rightarrow> 'g module_globals option" where
  "module_globals_get_mut zts tsrm inner t f s =
     (if zts \<and> mgs_id s = 0 then None
      else let p = (if zts then tsrm (mgs_id s) t else inner)
           in case mgs_mem s p of None \<Rightarrow> None | Some g \<Rightarrow> Some (s\<lparr>mgs_mem := (mgs_mem s)(p := Some (f g))\<rparr>))"

text \<open>The constructor writes over whatever the memory holds; the destructor runs the hook and drops the value.\<close>

definition ginit_callback :: "'g module_global \<Rightarrow> nat \<Rightarrow> 'g module_globals \<Rightarrow> 'g module_globals" where
  "ginit_callback mg p s = s\<lparr>mgs_mem := (mgs_mem s)(p := Some (mg_ginit mg (mg_default mg)))\<rparr>"

definition gshutdown_callback :: "'g module_global \<Rightarrow> nat \<Rightarrow> 'g module_globals \<Rightarrow> 'g module_globals option" where
  "gshutdown_callback mg p s =
     (case mgs_mem s p of
        None \<Rightarrow> None
      | Some g \<Rightarrow> Some (s\<lparr>mgs_mem := (mgs_mem s)(p := None), mgs_dropped := mgs_dropped s @ [mg_gshutdown mg g]\<rparr>))"

section \<open>What the engine does\<close>

text \<open>It registers the module once, on its first thread. A thread-safe engine constructs the globals in every thread that starts, at the
  address its lookup gives that thread, and destroys them when the thread ends; the threads use them in between. Otherwise there is one
  thread.\<close>

datatype 'g mg_event = MgRegister int | MgStart nat | MgUse nat "'g \<Rightarrow> 'g" | MgEnd nat

inductive mg_step ::
    "'g module_global \<Rightarrow> bool \<Rightarrow> (int \<Rightarrow> nat \<Rightarrow> nat) \<Rightarrow> nat \<Rightarrow> 'g mg_event \<Rightarrow> 'g module_globals \<Rightarrow> 'g module_globals \<Rightarrow> bool"
  for mg :: "'g module_global" and zts :: bool and tsrm :: "int \<Rightarrow> nat \<Rightarrow> nat" and inner :: nat where
  mg_register: "mgs_id s = 0 \<Longrightarrow> 0 < i \<Longrightarrow> s1 = s\<lparr>mgs_id := i, mgs_threads := {0}\<rparr> \<Longrightarrow>
    mg_step mg zts tsrm inner (MgRegister i) s (ginit_callback mg (module_globals_as_ptr zts tsrm inner 0 s1) s1)"
| mg_thread: "mgs_id s \<noteq> 0 \<Longrightarrow> zts \<Longrightarrow> t \<notin> mgs_threads s \<Longrightarrow> s1 = s\<lparr>mgs_threads := insert t (mgs_threads s)\<rparr> \<Longrightarrow>
    mg_step mg zts tsrm inner (MgStart t) s (ginit_callback mg (module_globals_as_ptr zts tsrm inner t s1) s1)"
| mg_use: "t \<in> mgs_threads s \<Longrightarrow> module_globals_get_mut zts tsrm inner t f s = Some s' \<Longrightarrow>
    mg_step mg zts tsrm inner (MgUse t f) s s'"
| mg_end: "t \<in> mgs_threads s \<Longrightarrow> gshutdown_callback mg (module_globals_as_ptr zts tsrm inner t s) s = Some s' \<Longrightarrow>
    mg_step mg zts tsrm inner (MgEnd t) s (s'\<lparr>mgs_threads := mgs_threads s - {t}\<rparr>)"

inductive_cases mg_stepE: "mg_step mg zts tsrm inner ev s s'"

inductive mg_exec ::
    "'g module_global \<Rightarrow> bool \<Rightarrow> (int \<Rightarrow> nat \<Rightarrow> nat) \<Rightarrow> nat \<Rightarrow> 'g mg_event list \<Rightarrow> 'g module_globals \<Rightarrow> bool"
  for mg :: "'g module_global" and zts :: bool and tsrm :: "int \<Rightarrow> nat \<Rightarrow> nat" and inner :: nat where
  mg_exec_new: "mg_exec mg zts tsrm inner [] module_globals_new"
| mg_exec_step: "mg_exec mg zts tsrm inner hist s \<Longrightarrow> mg_step mg zts tsrm inner ev s s' \<Longrightarrow>
    mg_exec mg zts tsrm inner (hist @ [ev]) s'"

section \<open>What the extension is promised\<close>

text \<open>A value for every running thread, which only that thread changes: it starts as the default value after the first hook, and is dropped
  after the second when the thread ends.\<close>

fun mg_model_step :: "'g module_global \<Rightarrow> (nat \<rightharpoonup> 'g) \<times> 'g list \<Rightarrow> 'g mg_event \<Rightarrow> (nat \<rightharpoonup> 'g) \<times> 'g list" where
  "mg_model_step mg (m, d) (MgRegister i) = (m(0 \<mapsto> mg_ginit mg (mg_default mg)), d)"
| "mg_model_step mg (m, d) (MgStart t) = (m(t \<mapsto> mg_ginit mg (mg_default mg)), d)"
| "mg_model_step mg (m, d) (MgUse t f) = (m(t := map_option f (m t)), d)"
| "mg_model_step mg (m, d) (MgEnd t) = (m(t := None), d @ (case m t of Some g \<Rightarrow> [mg_gshutdown mg g] | None \<Rightarrow> []))"

definition mg_model :: "'g module_global \<Rightarrow> 'g mg_event list \<Rightarrow> (nat \<rightharpoonup> 'g) \<times> 'g list" where
  "mg_model mg hist = foldl (mg_model_step mg) (Map.empty, []) hist"

definition mg_refines ::
    "bool \<Rightarrow> (int \<Rightarrow> nat \<Rightarrow> nat) \<Rightarrow> nat \<Rightarrow> 'g module_globals \<Rightarrow> (nat \<rightharpoonup> 'g) \<times> 'g list \<Rightarrow> bool" where
  "mg_refines zts tsrm inner s md \<longleftrightarrow>
     mgs_dropped s = snd md \<and> mgs_threads s = dom (fst md) \<and>
     (\<forall>t \<in> mgs_threads s. mgs_mem s (module_globals_as_ptr zts tsrm inner t s) = fst md t) \<and>
     (mgs_id s = 0 \<longrightarrow> mgs_threads s = {}) \<and> (\<not> zts \<longrightarrow> mgs_threads s \<subseteq> {0})"

lemma mg_addresses_distinct:
  assumes "mg_refines zts tsrm inner s md" and "\<And>i. inj (tsrm i)" and "u \<in> mgs_threads s" and "t \<in> mgs_threads s" and "u \<noteq> t"
  shows "module_globals_as_ptr zts tsrm inner u s \<noteq> module_globals_as_ptr zts tsrm inner t s"
proof -
  have zts using assms(1,3-5) unfolding mg_refines_def by blast
  then show ?thesis using assms(2,5) by (auto simp: module_globals_as_ptr_def dest: injD)
qed

lemma mg_refines_step:
  assumes "\<And>i. inj (tsrm i)" and "mg_step mg zts tsrm inner ev s s'" and "mg_refines zts tsrm inner s md"
  shows "mg_refines zts tsrm inner s' (mg_model_step mg md ev)"
  using assms(2)
proof cases
  case (mg_register i s1)
  with assms(3) show ?thesis
    by (cases md) (auto simp: mg_refines_def ginit_callback_def module_globals_as_ptr_def)
next
  case (mg_thread t s1)
  have "tsrm (mgs_id s) u \<noteq> tsrm (mgs_id s) t" if "u \<noteq> t" for u using assms(1) that by (auto dest: injD)
  with mg_thread assms(3) show ?thesis
    by (cases md) (auto simp: mg_refines_def ginit_callback_def module_globals_as_ptr_def dom_def)
next
  case (mg_use t f)
  let ?p = "module_globals_as_ptr zts tsrm inner t s"
  from mg_use assms(3) obtain g where g: "mgs_mem s ?p = Some g" "s' = s\<lparr>mgs_mem := (mgs_mem s)(?p := Some (f g))\<rparr>"
    by (auto simp: module_globals_get_mut_def module_globals_as_ptr_def Let_def split: if_splits option.splits)
  have "\<forall>u. u \<in> mgs_threads s \<and> u \<noteq> t \<longrightarrow> module_globals_as_ptr zts tsrm inner u s \<noteq> ?p"
    using mg_addresses_distinct [OF assms(3,1)] mg_use(2) by blast
  with g mg_use assms(3) show ?thesis
    by (cases md) (auto simp: mg_refines_def module_globals_as_ptr_def dom_def)
next
  case (mg_end t s1)
  let ?p = "module_globals_as_ptr zts tsrm inner t s"
  from mg_end(4) obtain g where g: "mgs_mem s ?p = Some g"
      "s1 = s\<lparr>mgs_mem := (mgs_mem s)(?p := None), mgs_dropped := mgs_dropped s @ [mg_gshutdown mg g]\<rparr>"
    by (auto simp: gshutdown_callback_def split: option.splits)
  have "\<forall>u. u \<in> mgs_threads s \<and> u \<noteq> t \<longrightarrow> module_globals_as_ptr zts tsrm inner u s \<noteq> ?p"
    using mg_addresses_distinct [OF assms(3,1)] mg_end(3) by blast
  with g mg_end assms(3) show ?thesis
    by (cases md) (auto simp: mg_refines_def module_globals_as_ptr_def dom_def)
qed

lemma mg_refines_exec:
  assumes "mg_exec mg zts tsrm inner hist s" and "\<And>i. inj (tsrm i)"
  shows "mg_refines zts tsrm inner s (mg_model mg hist)"
  using assms(1)
proof induction
  case mg_exec_new
  then show ?case by (simp add: mg_refines_def mg_model_def module_globals_new_def)
next
  case (mg_exec_step hist s ev s')
  from mg_refines_step [OF assms(2) mg_exec_step(2,3)] show ?case by (simp add: mg_model_def)
qed

section \<open>Properties\<close>

text \<open>C25. The globals of a module refine one value per running thread. After any sequence of registration, thread starts, uses and
  ends, given that the engine's lookup gives different threads different addresses: a running thread reads the default
  value as its first hook left it, changed by its own uses in order and by nothing else, and what it writes next it
  reads back; and the values dropped are exactly those of the ended threads, in the order they ended, each after the second hook
  ran on it.\<close>

theorem module_globals_isolated:
  assumes "mg_exec mg zts tsrm inner hist s" and "\<And>i. inj (tsrm i)"
  shows "mgs_dropped s = snd (mg_model mg hist) \<and> mgs_threads s = dom (fst (mg_model mg hist)) \<and>
    (\<forall>t g. fst (mg_model mg hist) t = Some g \<longrightarrow>
       module_globals_get zts tsrm inner t s = Some g \<and>
       (\<exists>s'. module_globals_get_mut zts tsrm inner t f s = Some s' \<and> module_globals_get zts tsrm inner t s' = Some (f g) \<and>
          (\<forall>u \<in> mgs_threads s - {t}. module_globals_get zts tsrm inner u s' = module_globals_get zts tsrm inner u s)))"
proof -
  have ref: "mg_refines zts tsrm inner s (mg_model mg hist)" by (rule mg_refines_exec [OF assms])
  have "module_globals_get zts tsrm inner t s = Some g \<and>
       (\<exists>s'. module_globals_get_mut zts tsrm inner t f s = Some s' \<and> module_globals_get zts tsrm inner t s' = Some (f g) \<and>
          (\<forall>u \<in> mgs_threads s - {t}. module_globals_get zts tsrm inner u s' = module_globals_get zts tsrm inner u s))"
    if t: "fst (mg_model mg hist) t = Some g" for t g
  proof -
    have run: "t \<in> mgs_threads s" using ref t by (auto simp: mg_refines_def)
    then have mem: "mgs_id s \<noteq> 0" "mgs_mem s (module_globals_as_ptr zts tsrm inner t s) = Some g"
      using ref t unfolding mg_refines_def by (metis empty_iff, metis)
    have "\<forall>u. u \<in> mgs_threads s \<and> u \<noteq> t \<longrightarrow> module_globals_as_ptr zts tsrm inner u s \<noteq> module_globals_as_ptr zts tsrm inner t s"
      using mg_addresses_distinct [OF ref assms(2)] run by blast
    then show ?thesis using mem by (auto simp: module_globals_get_def module_globals_get_mut_def module_globals_as_ptr_def Let_def)
  qed
  then show ?thesis using ref by (simp add: mg_refines_def)
qed

theorem module_globals_isolated_witness:
  "\<exists>s. mg_exec \<lparr>mg_default = 0, mg_ginit = Suc, mg_gshutdown = (\<lambda>g. g * 10)\<rparr> True (\<lambda>_ t. t) 0
        [MgRegister 1, MgStart 3, MgUse 3 (\<lambda>g. g + 5), MgEnd 0] s \<and>
     module_globals_get True (\<lambda>_ t. t) 0 3 s = Some 6 \<and> mgs_dropped s = [10]"
proof -
  let ?mg = "\<lparr>mg_default = 0, mg_ginit = Suc, mg_gshutdown = (\<lambda>g. g * 10)\<rparr> :: nat module_global" and ?tsrm = "\<lambda>_ t. t :: nat"
  let ?s1 = "\<lparr>mgs_id = 1, mgs_mem = (\<lambda>_. None)(0 := Some 1), mgs_threads = {0}, mgs_dropped = []\<rparr> :: nat module_globals"
  let ?s2 = "?s1\<lparr>mgs_mem := (mgs_mem ?s1)(3 := Some 1), mgs_threads := {3, 0}\<rparr>"
  let ?s3 = "?s2\<lparr>mgs_mem := (mgs_mem ?s2)(3 := Some 6)\<rparr>"
  let ?s4 = "?s3\<lparr>mgs_mem := (mgs_mem ?s3)(0 := None), mgs_dropped := [10], mgs_threads := {3}\<rparr>"
  have e1: "mg_step ?mg True ?tsrm 0 (MgRegister 1) module_globals_new ?s1"
    using mg_register [of module_globals_new 1 _ ?mg True ?tsrm 0]
    by (simp add: module_globals_new_def ginit_callback_def module_globals_as_ptr_def)
  have e2: "mg_step ?mg True ?tsrm 0 (MgStart 3) ?s1 ?s2"
    using mg_thread [of ?s1 True 3 _ ?mg ?tsrm 0] by (simp add: ginit_callback_def module_globals_as_ptr_def)
  have e3: "mg_step ?mg True ?tsrm 0 (MgUse 3 (\<lambda>g. g + 5)) ?s2 ?s3"
    by (rule mg_use) (simp_all add: module_globals_get_mut_def Let_def)
  have "{3, 0} - {0} = {3 :: nat}" by auto
  then have e4: "mg_step ?mg True ?tsrm 0 (MgEnd 0) ?s3 ?s4"
    using mg_end [of 0 ?s3 ?mg True ?tsrm 0] by (simp add: gshutdown_callback_def module_globals_as_ptr_def)
  from mg_exec_step [OF mg_exec_step [OF mg_exec_step [OF mg_exec_step [OF mg_exec_new e1] e2] e3] e4]
  have run: "mg_exec ?mg True ?tsrm 0 [MgRegister 1, MgStart 3, MgUse 3 (\<lambda>g. g + 5), MgEnd 0] ?s4" by simp
  from module_globals_isolated [OF this] have "mgs_dropped ?s4 = [10]" "module_globals_get True ?tsrm 0 3 ?s4 = Some 6"
    by (simp_all add: mg_model_def inj_def)
  with run show ?thesis by blast
qed

end
