(* ===== verification/Convert.thy ===== *)
theory Convert
  imports ZendObj Coerce MacroEnum
begin

text \<open>
  \<open>src/convert.rs\<close>, the conversion macros of \<open>src/macros.rs\<close>, \<open>src/types/mod.rs\<close>, \<open>src/types/long.rs\<close> and \<open>src/types/string/mod.rs\<close>, the remaining
  accessors of \<open>src/types/zval.rs\<close>, and the conversions of exported enums (\<open>src/enum_.rs\<close>) and class objects: which zval a Rust value
  becomes, what the trait constants say of it, and what reading it gives back.
\<close>

section \<open>Rust types and values\<close>

text \<open>The types whose conversions the crate provides by itself: an integer type is given by its range, a float by its bits. A
  \<open>Result\<close> carries the exception its error turns into.\<close>

datatype rty = TUnit | TBool | TInt int int | TF64 | TStr | TZval | TOption rty | TResult rty

datatype rval =
    RUnit | RBool bool | RInt int | RF64 u64 | RStr string | RZval zval | RNone | RSome rval | ROk rval | RErr php_exception

fun has_ty :: "rval \<Rightarrow> rty \<Rightarrow> bool" where
  "has_ty RUnit TUnit = True"
| "has_ty (RBool _) TBool = True"
| "has_ty (RInt v) (TInt lo hi) = (lo \<le> v \<and> v \<le> hi)"
| "has_ty (RF64 _) TF64 = True"
| "has_ty (RStr s) TStr = utf8_valid s"
| "has_ty (RZval _) TZval = True"
| "has_ty RNone (TOption t) = True"
| "has_ty (RSome v) (TOption t) = has_ty v t"
| "has_ty (ROk v) (TResult t) = has_ty v t"
| "has_ty (RErr _) (TResult t) = True"
| "has_ty _ _ = False"

text \<open>The constants \<open>TYPE\<close> and \<open>NULLABLE\<close> of \<open>IntoZval\<close>.\<close>

fun into_type :: "rty \<Rightarrow> data_type" where
  "into_type TUnit = DtVoid"
| "into_type TBool = DtBool"
| "into_type (TInt _ _) = DtLong"
| "into_type TF64 = DtDouble"
| "into_type TStr = DtString"
| "into_type TZval = DtMixed"
| "into_type (TOption t) = into_type t"
| "into_type (TResult t) = into_type t"

fun into_nullable :: "rty \<Rightarrow> bool" where
  "into_nullable TUnit = True"
| "into_nullable TZval = True"
| "into_nullable (TOption t) = True"
| "into_nullable (TResult t) = into_nullable t"
| "into_nullable _ = False"

section \<open>Writing a value into a zval\<close>

text \<open>\<open>set_string\<close>: \<open>alloc\<close> is the engine making a Zend string.\<close>

definition set_string ::
    "('h, 'o) zend_api \<Rightarrow> (string \<Rightarrow> ('h, 'o) zheap \<Rightarrow> u64 \<times> ('h, 'o) zheap) \<Rightarrow> string \<Rightarrow> ('h, 'o) zheap \<times> zval \<Rightarrow>
     ('h, 'o) zheap \<times> zval" where
  "set_string api alloc s hz = (case alloc s (fst hz) of (a, h) \<Rightarrow> set_zend_string api a (h, snd hz))"

text \<open>\<open>set_zval\<close> of each type. Assigning a zval drops the old one.\<close>

fun rust_set_zval ::
    "ce_api \<Rightarrow> ('h, 'o) zend_api \<Rightarrow> (string \<Rightarrow> ('h, 'o) zheap \<Rightarrow> u64 \<times> ('h, 'o) zheap) \<Rightarrow> rval \<Rightarrow> ('h, 'o) zheap \<times> zval \<Rightarrow> 'w eng \<Rightarrow>
     (error + unit) \<times> (('h, 'o) zheap \<times> zval) \<times> 'w eng" where
  "rust_set_zval ca api alloc RUnit hz e = (Inr (), set_null api hz, e)"
| "rust_set_zval ca api alloc (RBool b) hz e = (Inr (), set_bool api b hz, e)"
| "rust_set_zval ca api alloc (RInt v) hz e =
     (case int_set_zval api v hz of Inl err \<Rightarrow> (Inl err, hz, e) | Inr hz \<Rightarrow> (Inr (), hz, e))"
| "rust_set_zval ca api alloc (RF64 d) hz e = (Inr (), set_double api d hz, e)"
| "rust_set_zval ca api alloc (RStr s) hz e = (Inr (), set_string api alloc s hz, e)"
| "rust_set_zval ca api alloc (RZval z) hz e = (Inr (), (zval_drop api (fst hz) (snd hz), z), e)"
| "rust_set_zval ca api alloc RNone hz e = (Inr (), set_null api hz, e)"
| "rust_set_zval ca api alloc (RSome v) hz e = rust_set_zval ca api alloc v hz e"
| "rust_set_zval ca api alloc (ROk v) hz e = rust_set_zval ca api alloc v hz e"
| "rust_set_zval ca api alloc (RErr ex) hz e = (case exception_throw ca ex e of (r, e) \<Rightarrow> (r, hz, e))"

text \<open>\<open>into_zval\<close>, and \<open>as_zval\<close> of the same types through \<open>IntoZvalDyn\<close>, which clones the value first.\<close>

definition rust_into_zval ::
    "ce_api \<Rightarrow> ('h, 'o) zend_api \<Rightarrow> (string \<Rightarrow> ('h, 'o) zheap \<Rightarrow> u64 \<times> ('h, 'o) zheap) \<Rightarrow> rval \<Rightarrow> ('h, 'o) zheap \<Rightarrow> 'w eng \<Rightarrow>
     (error + zval) \<times> ('h, 'o) zheap \<times> 'w eng" where
  "rust_into_zval ca api alloc v h e =
     (case rust_set_zval ca api alloc v (h, zval_new) e of
        (Inl err, (h, z), e) \<Rightarrow> (Inl err, zval_drop api h z, e)
      | (Inr _, (h, z), e) \<Rightarrow> (Inr z, h, e))"

definition zval_as_zval :: "('h, 'o) zheap \<Rightarrow> zval \<Rightarrow> ('h, 'o) zheap \<times> zval" where
  "zval_as_zval h z = shallow_clone h z"

section \<open>Reading a value from a zval\<close>

fun rust_from_zval :: "rty \<Rightarrow> ('h, 'o) zheap \<Rightarrow> zval \<Rightarrow> rval option" where
  "rust_from_zval TBool h z = map_option RBool (zv_bool h z)"
| "rust_from_zval (TInt lo hi) h z = map_option RInt (int_from_zval lo hi h z)"
| "rust_from_zval TF64 h z = map_option RF64 (zv_double h z)"
| "rust_from_zval TStr h z = map_option RStr (zv_string h z)"
| "rust_from_zval TZval h z = Some (RZval z)"
| "rust_from_zval (TOption t) h z = Some (case rust_from_zval t h z of None \<Rightarrow> RNone | Some v \<Rightarrow> RSome v)"
| "rust_from_zval _ h z = None"

text \<open>Types that can be read, and in which \<open>None\<close> is the only value written as null.\<close>

fun readable :: "rty \<Rightarrow> bool" where
  "readable TUnit = False" | "readable (TResult _) = False" | "readable (TOption t) = readable t" | "readable _ = True"

fun flat :: "rty \<Rightarrow> bool" where
  "flat (TOption t) = (case t of TOption _ \<Rightarrow> False | TZval \<Rightarrow> False | _ \<Rightarrow> True)" | "flat _ = True"

section \<open>Other accessors\<close>

text \<open>\<open>dereference_mut\<close>, \<open>object_mut\<close>, \<open>reference_mut\<close> and \<open>indirect_mut\<close> as the places they return: the address of an object, of the target of a
  reference, or of an indirect zval.\<close>

datatype place = Here | RefTarget u64 | IndirectTarget u64

definition dereference_mut :: "zval \<Rightarrow> place" where
  "dereference_mut z = (if is_reference z then RefTarget (zv_value z) else if is_indirect z then IndirectTarget (zv_value z) else Here)"

definition place_read :: "('h, 'o) zheap \<Rightarrow> zval \<Rightarrow> place \<Rightarrow> zval option" where
  "place_read h z p = (case p of Here \<Rightarrow> Some z | RefTarget a \<Rightarrow> h_ref h a | IndirectTarget a \<Rightarrow> h_zv h a)"

definition object_mut :: "('h, 'o) zheap \<Rightarrow> zval \<Rightarrow> u64 option" where
  "object_mut h z =
     (if is_object z then (if zv_value z = 0 then None else Some (zv_value z))
      else case place_read h z (dereference_mut z) of
             Some t \<Rightarrow> if is_object t \<and> zv_value t \<noteq> 0 then Some (zv_value t) else None
           | None \<Rightarrow> None)"

definition reference_mut :: "zval \<Rightarrow> u64 option" where
  "reference_mut z = (if is_reference z \<and> zv_value z \<noteq> 0 then Some (zv_value z) else None)"

definition indirect_mut :: "zval \<Rightarrow> u64 option" where
  "indirect_mut z = (if is_indirect z then Some (zv_value z) else None)"

section \<open>Exported enums\<close>

text \<open>\<open>get_case\<close> is the engine finding the object of a case in a class. The object of the enum's trait has its name in a property that an
  indirect zval leads to; \<open>read_name\<close> is what reading that property gives.\<close>

definition enum_into_zend_object ::
    "(nat \<Rightarrow> string \<Rightarrow> ('h, 'o) zheap \<Rightarrow> u64 \<times> ('h, 'o) zheap) \<Rightarrow> nat \<Rightarrow> string \<Rightarrow> ('h, 'o) zheap \<Rightarrow> u64 \<times> ('h, 'o) zheap" where
  "enum_into_zend_object get_case ce to_name h = get_case ce to_name h"

definition enum_object_set_zval ::
    "('h, 'o) zend_api \<Rightarrow> (nat \<Rightarrow> string \<Rightarrow> ('h, 'o) zheap \<Rightarrow> u64 \<times> ('h, 'o) zheap) \<Rightarrow> nat \<Rightarrow> string \<Rightarrow> ('h, 'o) zheap \<times> zval \<Rightarrow>
     ('h, 'o) zheap \<times> zval" where
  "enum_object_set_zval api get_case ce to_name hz =
     (case enum_into_zend_object get_case ce to_name (fst hz) of (a, h) \<Rightarrow> set_object api a (dec_count a h, snd hz))"

definition enum_from_zend_object ::
    "(nat \<Rightarrow> u32) \<Rightarrow> ('o \<Rightarrow> nat) \<Rightarrow> ('o \<Rightarrow> error + string option) \<Rightarrow> (string \<Rightarrow> error + 't) \<Rightarrow> 'o \<Rightarrow> error + 't" where
  "enum_from_zend_object ce_flags ce_of read_name from_name obj =
     (if \<not> flags_contain (ce_flags (ce_of obj)) ZEND_ACC_ENUM then Inl InvalidProperty
      else case read_name obj of Inl err \<Rightarrow> Inl err | Inr None \<Rightarrow> Inl InvalidProperty | Inr (Some n) \<Rightarrow> from_name n)"

definition enum_object_from_zval ::
    "(nat \<Rightarrow> u32) \<Rightarrow> ('o \<Rightarrow> nat) \<Rightarrow> ('o \<Rightarrow> error + string option) \<Rightarrow> (string \<Rightarrow> error + 't) \<Rightarrow> ('h, 'o) zheap \<Rightarrow> zval \<Rightarrow> 't option" where
  "enum_object_from_zval ce_flags ce_of read_name from_name h z =
     (case zv_object h z of
        None \<Rightarrow> None
      | Some obj \<Rightarrow> (case enum_from_zend_object ce_flags ce_of read_name from_name obj of Inl _ \<Rightarrow> None | Inr v \<Rightarrow> Some v))"

section \<open>Properties\<close>

text \<open>When a zval is of a declared type.\<close>

fun type_holds :: "data_type \<Rightarrow> zval \<Rightarrow> bool" where
  "type_holds DtVoid z = is_null z"
| "type_holds DtBool z = is_bool z"
| "type_holds DtMixed z = True"
| "type_holds d z = (get_type z = d)"

lemma exception_throw_logged: "exception_throw ca ex e = (Inr u, e') \<Longrightarrow> en_thrown e' \<noteq> en_thrown e"
  by (auto simp: exception_throw_def throw_object_def throw_with_code_def log_thrown_def Let_def split: option.splits if_splits)

lemma set_string_type: "get_type (snd (set_string api alloc s hz)) = DtString"
proof -
  have "get_type (z\<lparr>zv_type_info := ZF_StringEx\<rparr>) = DtString" "get_type (z\<lparr>zv_type_info := ZF_InternedStringEx\<rparr>) = DtString" for z
    by (simp_all add: get_type_def) code_simp+
  then show ?thesis by (simp add: set_string_def set_zend_string_def Let_def split: prod.splits)
qed

text \<open>C14. What a conversion declares is what it delivers: a value of a type whose conversion succeeds leaves a zval of the declared type, or
  null where the type declares that it may, or it has thrown. So the return type a function is registered with holds of what
  it returns.\<close>

theorem into_zval_typed:
  assumes "has_ty v t" and "rust_set_zval ca api alloc v hz e = (Inr u, (h', z'), e')"
  shows "type_holds (into_type t) z' \<or> (into_nullable t \<and> is_null z') \<or> en_thrown e' \<noteq> en_thrown e"
  using assms
proof (induction v t rule: has_ty.induct)
  case (5 s)
  then show ?case using set_string_type [of api alloc s hz] by simp
next
  case (10 ex t)
  then show ?case using exception_throw_logged [of ca ex e] by (auto split: prod.splits)
qed (auto simp: set_null_def set_bool_def set_double_def set_long_def int_set_zval_def is_null_def is_bool_def is_true_def is_false_def
    prod_eq_iff split: if_splits)

text \<open>An engine that allocates a string at a fixed address.\<close>

definition fixed_alloc :: "string \<Rightarrow> ('h, 'o) zheap \<Rightarrow> u64 \<times> ('h, 'o) zheap" where
  "fixed_alloc s h = (64, h\<lparr>h_str := (h_str h)(64 \<mapsto> zs_new False s False)\<rparr>)"

definition quiet_engine :: "unit eng" where
  "quiet_engine = \<lparr>en_execute_data = None, en_thrown = [], en_other = ()\<rparr>"

theorem into_zval_typed_witness:
  "\<exists>h' z' e'. rust_set_zval demo_ca counting_api fixed_alloc (RSome (RInt 5)) (heap_with_ref zval_new, zval_new) quiet_engine = (Inr (), (h', z'), e') \<and>
     (type_holds DtLong z' \<or> is_null z' \<or> en_thrown e' \<noteq> en_thrown quiet_engine)"
proof -
  have "in_i64 5" by (simp add: i64_defs)
  then obtain h' z' where r: "rust_set_zval demo_ca counting_api fixed_alloc (RSome (RInt 5)) (heap_with_ref zval_new, zval_new) quiet_engine = (Inr (), (h', z'), quiet_engine)"
    by (auto simp: int_set_zval_def) (metis surj_pair)
  have "has_ty (RSome (RInt 5)) (TOption (TInt 0 9))" by simp
  from into_zval_typed [OF this r] r show ?thesis by auto
qed

text \<open>What reading a new zval gives after a value that is no option was written to it.\<close>

definition alloc_ok :: "(string \<Rightarrow> ('h, 'o) zheap \<Rightarrow> u64 \<times> ('h, 'o) zheap) \<Rightarrow> bool" where
  "alloc_ok alloc \<longleftrightarrow> (\<forall>s h. fst (alloc s h) \<noteq> 0 \<and> (\<exists>zs. h_str (snd (alloc s h)) (fst (alloc s h)) = Some zs \<and> zs_bytes zs = s))"

lemma set_string_read:
  assumes "alloc_ok alloc" and "utf8_valid s" and "set_string api alloc s (h, zval_new) = (h', z)"
  shows "zv_string h' z = Some s"
proof -
  obtain a h1 where a: "alloc s h = (a, h1)" by (metis surj_pair)
  from assms(1) obtain zs where zs: "a \<noteq> 0" "h_str h1 a = Some zs" "zs_bytes zs = s"
    using a by (auto simp: alloc_ok_def dest!: spec [of _ s] spec [of _ h])
  have ty: "get_type z = DtString" using set_string_type [of api alloc s "(h, zval_new)"] assms(3) by simp
  have "h' = h1" "zv_value z = a"
    using assms(3) by (auto simp: set_string_def a set_zend_string_def change_type_new Let_def set_value_def)
  with zs ty assms(2) show ?thesis
    by (simp add: zv_string_def zv_str_def zv_zend_str_def ptr_ref_def zs_as_str_def)
qed

lemma null_zval_unread:
  assumes "get_type z = DtNull"
  shows "zv_bool h z = None" "zv_long h z = None" "zv_double h z = None" "zv_string h z = None"
  using assms by (simp_all add: zv_bool_def zv_long_def zv_double_def zv_string_def zv_str_def zv_zend_str_def dereference_def
      is_reference_def is_indirect_def Let_def)

lemma long_read: "in_i64 v \<Longrightarrow> zv_long h' (snd (set_long api v hz)) = Some v"
  by (simp add: zv_long_def set_long_def i64_defs signed_of_int signed_take_bit_int_eq_self)

lemma into_from_base:
  assumes "alloc_ok alloc" and "has_ty v t" and "readable t" and "\<And>u. t \<noteq> TOption u"
    and "rust_set_zval ca api alloc v (h, zval_new) e = (Inr (), (h', z), e')"
  shows "rust_from_zval t h' z = Some v"
  using assms(2-5)
proof (cases "(v, t)" rule: has_ty.cases)
  case (3 x lo hi)
  with assms(2,5) have "in_i64 x" "z = snd (set_long api x (h, zval_new))" by (auto simp: int_set_zval_def prod_eq_iff split: if_splits)
  with 3 assms(2) long_read [of x h' api "(h, zval_new)"] show ?thesis by (simp add: int_from_zval_def)
next
  case (5 s)
  with assms(2,5) set_string_read [OF assms(1), of s api h h' z] show ?thesis by simp
qed (auto simp: set_bool_def set_double_def zv_bool_def zv_double_def prod_eq_iff split: if_splits)

text \<open>C13. Reading a zval back as the type it was written from gives the value, for the types that can be read and in which \<open>None\<close> is the
  only value written as null: not for an option of an option, where \<open>None\<close> comes back as \<open>Some None\<close>.\<close>

theorem into_from_roundtrip:
  assumes "alloc_ok alloc" and "has_ty v t" and "readable t" and "flat t"
    and "rust_into_zval ca api alloc v h e = (Inr z, h', e')"
  shows "rust_from_zval t h' z = Some v"
proof -
  from assms(5) have set: "rust_set_zval ca api alloc v (h, zval_new) e = (Inr (), (h', z), e')"
    by (auto simp: rust_into_zval_def split: prod.splits sum.splits)
  show ?thesis
  proof (cases t)
    case (TOption u)
    with assms(4) have u: "\<And>w. u \<noteq> TOption w" "u \<noteq> TZval" by auto
    show ?thesis
    proof (cases v)
      case RNone
      with set have "get_type z = DtNull" by (auto simp: set_null_def prod_eq_iff)
      with null_zval_unread [OF this, of h'] TOption RNone u assms(3) show ?thesis by (cases u) (auto simp: int_from_zval_def)
    next
      case (RSome w)
      with TOption assms(2,3) set into_from_base [OF assms(1), of w u ca api h e h' z e'] u show ?thesis by simp
    qed (use TOption assms(2) in auto)
  qed (use into_from_base [OF assms(1-3) _ set] in auto)
qed

theorem into_from_roundtrip_witness:
  "rust_from_zval (TOption TStr) (snd (fixed_alloc ''ab'' (heap_with_ref zval_new)))
     (snd (set_string counting_api fixed_alloc ''ab'' (heap_with_ref zval_new, zval_new))) = Some (RSome (RStr ''ab''))"
proof -
  let ?e = quiet_engine
  have ok: "alloc_ok fixed_alloc" by (simp add: alloc_ok_def fixed_alloc_def zs_new_def)
  have ty: "has_ty (RSome (RStr ''ab'')) (TOption TStr)" "readable (TOption TStr)" "flat (TOption TStr)" by (simp_all, code_simp)
  have "rust_into_zval demo_ca counting_api fixed_alloc (RSome (RStr ''ab'')) (heap_with_ref zval_new) ?e =
      (Inr (snd (set_string counting_api fixed_alloc ''ab'' (heap_with_ref zval_new, zval_new))), snd (fixed_alloc ''ab'' (heap_with_ref zval_new)), ?e)"
    by (simp add: rust_into_zval_def set_string_def fixed_alloc_def set_zend_string_def change_type_new set_value_def Let_def)
  from into_from_roundtrip [OF ok ty this] show ?thesis .
qed

text \<open>An option is never refused: an argument of another type is read as \<open>None\<close>.\<close>

theorem option_never_refused: "rust_from_zval (TOption t) h z \<noteq> None"
  by simp

text \<open>The zval of an enum case holds a reference of its own only when the engine returned one: converting leaves the count as the
  lookup left it.\<close>

theorem enum_case_count:
  assumes "get_case ce n h = (a, h1)" and "enum_object_set_zval api get_case ce n (h, zval_new) = (h', z)"
  shows "zv_value z = a \<and> rc h' a = rc h1 a"
  using assms by (cases "h_gc h1 a")
    (auto simp: enum_object_set_zval_def enum_into_zend_object_def set_object_def change_type_new dec_count_def inc_count_def rc_def)

text \<open>The case of any other enum is accepted when it has a name the expected enum has: the class of the object is only tested to be an
  enum.\<close>

theorem enum_of_other_class:
  assumes "flags_contain (ce_flags (ce_of obj)) ZEND_ACC_ENUM" and "read_name obj = Inr (Some n)"
  shows "enum_from_zend_object ce_flags ce_of read_name from_name obj = from_name n"
  using assms by (simp add: enum_from_zend_object_def)

end
