(* ===== verification/Boxes.thy ===== *)
theory Boxes
  imports ZendString
begin

text \<open>
  \<open>src/alloc.rs\<close>, \<open>src/boxed.rs\<close> and \<open>src/describe/abi.rs\<close>: memory of the engine's allocator, boxes that own a value in it, and the vectors, strings and
  options with a fixed layout that an extension hands to the command line tool.
\<close>

section \<open>The allocator\<close>

text \<open>The engine's heap: which addresses are allocated, with the size asked for. The engine chooses the address; \<open>None\<close> stands for a block that
  is freed although it is not allocated.\<close>

type_synonym zmm = "nat \<rightharpoonup> nat"

definition emalloc :: "(nat \<Rightarrow> zmm \<Rightarrow> nat) \<Rightarrow> nat \<Rightarrow> zmm \<Rightarrow> nat \<times> zmm" where
  "emalloc pick sz m = (let a = pick sz m in (a, m(a \<mapsto> sz)))"

definition efree :: "nat \<Rightarrow> zmm \<Rightarrow> zmm option" where
  "efree a m = (if m a = None then None else Some (m(a := None)))"

text \<open>\<open>estrdup\<close>: the text is put behind a NUL in a block of Rust's allocator, the engine copies it up to the first NUL byte, and the block is
  taken back, with the size its text then has. The result is the copy, and the two sizes.\<close>

definition c_text :: "string \<Rightarrow> string" where
  "c_text s = takeWhile (\<lambda>c. c \<noteq> CHR 0x00) s"

definition estrdup :: "string \<Rightarrow> string \<times> nat \<times> nat" where
  "estrdup s = (let block = s @ [CHR 0x00] in (c_text block, length block, length (c_text block) + 1))"

text \<open>Duplicating a string with a NUL byte in it cuts it there and gives the block back with a size that is not its own; any other
  string is copied whole.\<close>

theorem estrdup_whole:
  "estrdup s = (c_text s, length s + 1, length (c_text s) + 1) \<and>
   (c_text s = s \<longleftrightarrow> CHR 0x00 \<notin> set s) \<and> (length (c_text s) + 1 = length s + 1 \<longleftrightarrow> CHR 0x00 \<notin> set s)"
proof -
  have "c_text (s @ [CHR 0x00]) = c_text s" by (induction s) (auto simp: c_text_def)
  moreover have "c_text s = s \<longleftrightarrow> CHR 0x00 \<notin> set s" by (auto simp: c_text_def takeWhile_eq_all_conv)
  moreover have "length (c_text s) = length s \<longleftrightarrow> c_text s = s"
    by (metis c_text_def takeWhile_eq_take take_all order_refl)
  ultimately show ?thesis by (simp add: estrdup_def)
qed

section \<open>Boxes\<close>

text \<open>The boxes alive, by the address they own, the addresses that were released from their box, and those that were freed. Which
  function frees depends on the type of the value.\<close>

record zbox_state =
  zb_boxes :: "nat list"
  zb_raw :: "nat list"
  zb_freed :: "nat list"

definition zbox_from_raw :: "nat \<Rightarrow> zbox_state \<Rightarrow> zbox_state" where
  "zbox_from_raw a s = s\<lparr>zb_boxes := a # zb_boxes s, zb_raw := remove1 a (zb_raw s)\<rparr>"

definition zbox_into_raw :: "nat \<Rightarrow> zbox_state \<Rightarrow> zbox_state" where
  "zbox_into_raw a s = s\<lparr>zb_boxes := remove1 a (zb_boxes s), zb_raw := a # zb_raw s\<rparr>"

definition zbox_drop :: "nat \<Rightarrow> zbox_state \<Rightarrow> zbox_state" where
  "zbox_drop a s = s\<lparr>zb_boxes := remove1 a (zb_boxes s), zb_freed := a # zb_freed s\<rparr>"

text \<open>What safe code does with boxes, and unsafe code that keeps the contract of \<open>from_raw\<close>: the engine returns a new block, or a
  pointer that came out of a box goes back into one.\<close>

inductive zbox_step :: "zbox_state \<Rightarrow> zbox_state \<Rightarrow> bool" where
  zb_new: "a \<notin> set (zb_boxes s) \<union> set (zb_raw s) \<union> set (zb_freed s) \<Longrightarrow> zbox_step s (zbox_from_raw a s)"
| zb_back: "a \<in> set (zb_raw s) \<Longrightarrow> zbox_step s (zbox_from_raw a s)"
| zb_out: "a \<in> set (zb_boxes s) \<Longrightarrow> zbox_step s (zbox_into_raw a s)"
| zb_drop: "a \<in> set (zb_boxes s) \<Longrightarrow> zbox_step s (zbox_drop a s)"

definition zbox_inv :: "zbox_state \<Rightarrow> bool" where
  "zbox_inv s \<longleftrightarrow> distinct (zb_boxes s @ zb_raw s @ zb_freed s)"

lemma zbox_inv_step: "zbox_step s s' \<Longrightarrow> zbox_inv s \<Longrightarrow> zbox_inv s'"
  by (induction rule: zbox_step.induct)
    (auto simp: zbox_inv_def zbox_from_raw_def zbox_into_raw_def zbox_drop_def remove1_idem)

text \<open>However boxes are made, taken apart, put together again and dropped, no block has two owners, and none is freed twice or while
  something owns it.\<close>

theorem zbox_single_owner:
  assumes "zbox_step\<^sup>*\<^sup>* \<lparr>zb_boxes = [], zb_raw = [], zb_freed = []\<rparr> s"
  shows "distinct (zb_boxes s) \<and> distinct (zb_freed s) \<and> set (zb_freed s) \<inter> (set (zb_boxes s) \<union> set (zb_raw s)) = {} \<and>
    set (zb_boxes s) \<inter> set (zb_raw s) = {}"
proof -
  from assms have "zbox_inv s"
  proof (induction rule: rtranclp_induct)
    case base
    then show ?case by (simp add: zbox_inv_def)
  next
    case (step y z)
    then show ?case using zbox_inv_step by blast
  qed
  then show ?thesis by (auto simp: zbox_inv_def)
qed

section \<open>Types with a fixed layout\<close>

text \<open>A vector is a pointer to its elements and their number; the memory maps an address to the slice that was leaked there. \<open>None\<close> stands for a
  slice that is freed twice or read after it.\<close>

record abi_vec =
  av_ptr :: nat
  av_len :: nat

type_synonym 't abi_mem = "nat \<rightharpoonup> 't list"

definition abi_vec_from :: "nat \<Rightarrow> 't list \<Rightarrow> 't abi_mem \<Rightarrow> abi_vec \<times> 't abi_mem" where
  "abi_vec_from a xs m = (\<lparr>av_ptr = a, av_len = length xs\<rparr>, m(a \<mapsto> xs))"

definition abi_vec_deref :: "'t abi_mem \<Rightarrow> abi_vec \<Rightarrow> 't list option" where
  "abi_vec_deref m v = map_option (take (av_len v)) (m (av_ptr v))"

definition abi_vec_drop :: "abi_vec \<Rightarrow> 't abi_mem \<Rightarrow> 't abi_mem option" where
  "abi_vec_drop v m = (case m (av_ptr v) of None \<Rightarrow> None | Some xs \<Rightarrow> if length xs = av_len v then Some (m(av_ptr v := None)) else None)"

definition abi_vec_eq :: "'t abi_mem \<Rightarrow> abi_vec \<Rightarrow> abi_vec \<Rightarrow> bool" where
  "abi_vec_eq m v w \<longleftrightarrow> av_len v = av_len w \<and> abi_vec_deref m v = abi_vec_deref m w"

text \<open>\<open>Str\<close> and \<open>RString\<close> are such vectors of bytes; \<open>as_str\<close> panics (\<open>None\<close>) on bytes that are not UTF-8.\<close>

definition rstring_from :: "nat \<Rightarrow> string \<Rightarrow> char abi_mem \<Rightarrow> abi_vec \<times> char abi_mem" where
  "rstring_from a s m = abi_vec_from a s m"

definition rstring_as_str :: "char abi_mem \<Rightarrow> abi_vec \<Rightarrow> string option" where
  "rstring_as_str m v = (case abi_vec_deref m v of None \<Rightarrow> None | Some s \<Rightarrow> if utf8_valid s then Some s else None)"

datatype 't abi_option = AbiSome 't | AbiNone

definition abi_option_from :: "'t option \<Rightarrow> 't abi_option" where
  "abi_option_from x = (case x of Some v \<Rightarrow> AbiSome v | None \<Rightarrow> AbiNone)"

definition abi_option_eq :: "('t \<Rightarrow> 't \<Rightarrow> bool) \<Rightarrow> 't abi_option \<Rightarrow> 't abi_option \<Rightarrow> bool" where
  "abi_option_eq eq x y = (case (x, y) of (AbiSome a, AbiSome b) \<Rightarrow> eq a b | (AbiNone, AbiNone) \<Rightarrow> True | _ \<Rightarrow> False)"

text \<open>What an extension puts into a vector or a string is what the tool reads from it, as long as it is not dropped; dropping it
  once is possible, and a second time is not.\<close>

theorem abi_roundtrip:
  assumes "abi_vec_from a xs m = (v, m')"
  shows "abi_vec_deref m' v = Some xs \<and> (\<exists>m2. abi_vec_drop v m' = Some m2 \<and> abi_vec_drop v m2 = None)"
  using assms by (auto simp: abi_vec_from_def abi_vec_deref_def abi_vec_drop_def)

theorem rstring_roundtrip: "utf8_valid s \<Longrightarrow> rstring_as_str (snd (rstring_from a s m)) (fst (rstring_from a s m)) = Some s"
  by (simp add: rstring_from_def rstring_as_str_def abi_vec_from_def abi_vec_deref_def)

end
