(* ===== verification/MacroMisc.thy ===== *)
theory MacroMisc
  imports Callables Convert MacroNames
begin

text \<open>
  \<open>crates/macros/src/extern_.rs\<close>, \<open>constant.rs\<close>, \<open>helpers.rs\<close> and \<open>fastcall.rs\<close>, and \<open>wrap\<close> of \<open>function.rs\<close>: blocks of PHP functions declared in Rust and the
  functions generated for them, exported constants, documentation attributes. Items are given as the parser of Rust delivers
  them; an identifier is its text, with the prefix \<open>r#\<close> when it is raw.
\<close>

section \<open>Attributes\<close>

text \<open>A \<open>doc\<close> attribute is not of the form \<open>doc = ...\<close>, or its value is no literal, a literal that is no string, or a string.\<close>

datatype doc_meta = DocNotNameValue | DocNotLit | DocNotStr | DocText string

datatype attribute = AttrDoc doc_meta | AttrPhp | AttrOther string

definition doc_message :: string where
  "doc_message = ''Invalid format for `#[doc]` attribute.''"

fun doc_value :: "doc_meta \<Rightarrow> string + string" where
  "doc_value (DocText s) = Inr s"
| "doc_value _ = Inl doc_message"

fun doc_of :: "attribute \<Rightarrow> doc_meta option" where
  "doc_of (AttrDoc d) = Some d"
| "doc_of _ = None"

definition get_docs :: "attribute list \<Rightarrow> string + string list" where
  "get_docs attrs = result_collect (map doc_value (List.map_filter doc_of attrs))"

definition clean_php :: "attribute list \<Rightarrow> attribute list" where
  "clean_php attrs = filter (\<lambda>a. a \<noteq> AttrPhp) attrs"

section \<open>Functions of PHP\<close>

text \<open>A parameter is a pattern with a type, or \<open>self\<close>; the return type is given or not.\<close>

datatype fn_arg = ArgTyped string | ArgReceiver

datatype extern_ret = RetDefault | RetType

record extern_fn =
  xf_ident :: string
  xf_inputs :: "fn_arg list"
  xf_unsafe :: bool
  xf_output :: extern_ret

datatype foreign_item = ForeignFn extern_fn | ForeignOther

text \<open>The generated function: its signature, the name it calls and the parameters it passes on.\<close>

record extern_gen =
  xg_sig :: extern_fn
  xg_name :: string
  xg_params :: "string list"

definition receiver_message :: string where
  "receiver_message = ''`self` parameters are not permitted inside `#[php_extern]` blocks.''"

fun extern_param :: "fn_arg \<Rightarrow> string option" where
  "extern_param (ArgTyped pat) = Some pat"
| "extern_param ArgReceiver = None"

definition parse_function :: "extern_fn \<Rightarrow> string + extern_gen" where
  "parse_function f =
     (case those (map extern_param (xf_inputs f)) of
        None \<Rightarrow> Inl receiver_message
      | Some params \<Rightarrow>
          Inr \<lparr>xg_sig = f\<lparr>xf_unsafe := True\<rparr>, xg_name = ident_to_php_name (xf_ident f), xg_params = params\<rparr>)"

fun parse_foreign_item :: "foreign_item \<Rightarrow> string + extern_gen" where
  "parse_foreign_item (ForeignFn f) = parse_function f"
| "parse_foreign_item ForeignOther = Inl ''Only `extern` functions are supported by PHP.''"

definition extern_parser :: "foreign_item list \<Rightarrow> string + extern_gen list" where
  "extern_parser items = result_collect (map parse_foreign_item items)"

text \<open>\<open>ZendCallable::try_from_name\<close>: a string zval is made of the name; it is dropped when the engine does not know the name.\<close>

definition callable_try_from_name ::
    "('a, 'w) call_api \<Rightarrow> ('h, 'o) zend_api \<Rightarrow> (string \<Rightarrow> ('h, 'o) zheap \<Rightarrow> u64 \<times> ('h, 'o) zheap) \<Rightarrow> string \<Rightarrow> ('h, 'o) zheap \<Rightarrow> 'w \<Rightarrow>
     (error + owned_zval) \<times> ('h, 'o) zheap" where
  "callable_try_from_name cl api alloc name h w =
     (case set_string api alloc name (h, zval_new) of
        (h, z) \<Rightarrow> (case callable_new_owned cl z w of Inl e \<Rightarrow> (Inl e, zval_drop api h z) | Inr c \<Rightarrow> (Inr c, h)))"

definition not_found_message :: "(error \<Rightarrow> string) \<Rightarrow> string \<Rightarrow> error \<Rightarrow> string" where
  "not_found_message dbg name e = ''Unable to find callable function `'' @ name @ ''`.: '' @ dbg e"

definition call_failed_message :: "string \<Rightarrow> string" where
  "call_failed_message name = ''Failed to call function `'' @ name @ ''`.''"

text \<open>The end of the generated function: without a return type the result of the call is dropped, otherwise it has to convert.\<close>

definition build_return :: "(zval \<Rightarrow> 'r option) \<Rightarrow> string \<Rightarrow> extern_ret \<Rightarrow> error + zval \<Rightarrow> 'r option run" where
  "build_return conv name ret r =
     (case ret of
        RetDefault \<Rightarrow> Returns None
      | RetType \<Rightarrow>
          (case r of
             Inl _ \<Rightarrow> Panics (call_failed_message name)
           | Inr zv \<Rightarrow> (case conv zv of None \<Rightarrow> Panics (call_failed_message name) | Some v \<Rightarrow> Returns (Some v))))"

text \<open>The generated function. \<open>args\<close> are the results of \<open>as_zval\<close> of its parameters; the callable is dropped at the end, a panic included.\<close>

definition extern_run ::
    "('a, 'w) call_api \<Rightarrow> ('h, 'o) zend_api \<Rightarrow> (string \<Rightarrow> ('h, 'o) zheap \<Rightarrow> u64 \<times> ('h, 'o) zheap) \<Rightarrow> (error \<Rightarrow> string) \<Rightarrow>
     (zval \<Rightarrow> 'r option) \<Rightarrow> extern_gen \<Rightarrow> (error + zval) list \<Rightarrow> ('h, 'o) zheap \<times> 'w \<Rightarrow> 'r option run \<times> ('h, 'o) zheap \<times> 'w" where
  "extern_run cl api alloc dbg conv g args hw =
     (case callable_try_from_name cl api alloc (xg_name g) (fst hw) (snd hw) of
        (Inl e, h) \<Rightarrow> (Panics (not_found_message dbg (xg_name g) e), h, snd hw)
      | (Inr callable, h) \<Rightarrow>
          (case try_call cl callable args (snd hw) of
             (r, w) \<Rightarrow> (build_return conv (xg_name g) (xf_output (xg_sig g)) r, zval_drop api h (owned_as_ref callable), w)))"

section \<open>Exported constants\<close>

text \<open>\<open>format_ident!\<close> of the \<open>quote\<close> crate drops the raw prefix of an identifier and takes a string as it is; a result that is no
  identifier makes it panic (\<open>None\<close>). Behind a prefix of the macros, the text of an identifier is one unless it is raw.\<close>

definition valid_ident :: "string \<Rightarrow> bool" where
  "valid_ident s \<longleftrightarrow> s \<noteq> [] \<and> CHR ''#'' \<notin> set s"

definition format_ident :: "string \<Rightarrow> string \<Rightarrow> string option" where
  "format_ident pre arg = (if valid_ident (pre @ arg) then Some (pre @ arg) else None)"

definition fragment :: "string \<Rightarrow> string" where
  "fragment ident = (case strip_prefix ''r#'' ident of Some n \<Rightarrow> n | None \<Rightarrow> ident)"

definition INTERNAL_CONST_DOC_PREFIX :: string where "INTERNAL_CONST_DOC_PREFIX = ''_internal_const_docs_''"
definition INTERNAL_CONST_NAME_PREFIX :: string where "INTERNAL_CONST_NAME_PREFIX = ''_internal_const_name_''"

record const_item =
  ci_ident :: string
  ci_attrs :: "attribute list"
  ci_rename :: php_rename

record const_gen =
  cg_item :: const_item
  cg_docs_ident :: string
  cg_docs :: "string list"
  cg_name_ident :: string
  cg_name :: string

datatype 'a expansion = Expands 'a | CompileError string | MacroPanics

definition const_parser :: "(case_kind \<Rightarrow> string \<Rightarrow> string) \<Rightarrow> const_item \<Rightarrow> const_gen expansion" where
  "const_parser to_case item =
     (let name = php_rename_item to_case (ci_rename item) (ident_to_php_name (ci_ident item)) RuleScreamingSnake
      in case validate_php_name name CtxConstant of
           Inl e \<Rightarrow> CompileError e
         | Inr _ \<Rightarrow>
             (case format_ident INTERNAL_CONST_NAME_PREFIX (fragment (ci_ident item)) of
                None \<Rightarrow> MacroPanics
              | Some name_ident \<Rightarrow>
                  (case get_docs (ci_attrs item) of
                     Inl e \<Rightarrow> CompileError e
                   | Inr docs \<Rightarrow>
                       (case format_ident INTERNAL_CONST_DOC_PREFIX (fragment (ci_ident item)) of
                          None \<Rightarrow> MacroPanics
                        | Some docs_ident \<Rightarrow>
                            Expands \<lparr>cg_item = item\<lparr>ci_attrs := clean_php (ci_attrs item)\<rparr>, cg_docs_ident = docs_ident,
                              cg_docs = docs, cg_name_ident = name_ident, cg_name = name\<rparr>))))"

text \<open>A path, and \<open>get_ident\<close>: the only segment of a path without a leading colon and without arguments.\<close>

record rust_path =
  rp_leading :: bool
  rp_segments :: "(string \<times> bool) list"

definition path_ident :: "rust_path \<Rightarrow> string option" where
  "path_ident p =
     (case rp_segments p of [(i, has_args)] \<Rightarrow> if rp_leading p \<or> has_args then None else Some i | _ \<Rightarrow> None)"

text \<open>\<open>wrap\<close> of a constant: the names of its name, of itself and of its documentation.\<close>

definition const_wrap :: "rust_path \<Rightarrow> (string \<times> string \<times> string) expansion" where
  "const_wrap p =
     (case path_ident p of
        None \<Rightarrow> CompileError ''Pass a PHP const into `wrap_constant!()`.''
      | Some const_name \<Rightarrow>
          (case format_ident INTERNAL_CONST_DOC_PREFIX const_name of
             None \<Rightarrow> MacroPanics
           | Some doc_const \<Rightarrow>
               (case format_ident INTERNAL_CONST_NAME_PREFIX const_name of
                  None \<Rightarrow> MacroPanics
                | Some name_const \<Rightarrow> Expands (name_const, const_name, doc_const))))"

text \<open>\<open>wrap\<close> of a function: the name of its type, which \<open>internal_ident\<close> gives in the expansion of the function.\<close>

definition internal_ident :: "string \<Rightarrow> string option" where
  "internal_ident ident = format_ident ''_internal_'' (fragment ident)"

definition function_wrap :: "rust_path \<Rightarrow> string expansion" where
  "function_wrap p =
     (case path_ident p of
        None \<Rightarrow> CompileError ''Pass a PHP function name into `wrap_function!()`.''
      | Some func_name \<Rightarrow>
          (case format_ident ''_internal_'' (fragment func_name) of None \<Rightarrow> MacroPanics | Some i \<Rightarrow> Expands i))"

section \<open>Calling convention\<close>

text \<open>\<open>zend_fastcall\<close>: the name of the ABI of a function that has one is replaced.\<close>

definition fastcall_abi :: "bool \<Rightarrow> string" where
  "fastcall_abi windows = (if windows then ''vectorcall'' else ''C'')"

definition fastcall_parser :: "bool \<Rightarrow> string option option \<Rightarrow> string option option" where
  "fastcall_parser windows abi = map_option (\<lambda>_. Some (fastcall_abi windows)) abi"

section \<open>Properties\<close>

lemma callable_try_from_name_Inr:
  "callable_try_from_name cl api alloc name h w = (Inr c, h') \<Longrightarrow> cl_is_callable cl (owned_as_ref c) w"
  by (auto simp: callable_try_from_name_def callable_new_owned_def owned_as_ref_def split: prod.splits if_splits)

lemma try_call_Inr:
  "cl_is_callable cl (owned_as_ref c) w \<Longrightarrow>
   try_call cl c args w = (Inr z, w') \<longleftrightarrow>
     (\<exists>zs n w1. args = map Inr zs \<and> length zs < 2 ^ 32 \<and> cl_call cl (owned_as_ref c) zs None w = (n, z, w1) \<and> 0 \<le> n \<and>
        cl_take_exception cl w1 = (None, w'))"
  by (cases "result_collect args")
    (auto simp: try_call_def call_result_def u32_try_into_def result_collect_Inr_iff split: prod.splits sum.splits option.splits if_splits)

lemma extern_run_result:
  assumes "xf_output (xg_sig g) = RetType"
  shows "fst (extern_run cl api alloc dbg conv g args (h, w)) = Returns (Some v) \<longleftrightarrow>
      (\<exists>c h' zs n z w1 w'. callable_try_from_name cl api alloc (xg_name g) h w = (Inr c, h') \<and> args = map Inr zs \<and> length zs < 2 ^ 32 \<and>
         cl_call cl (owned_as_ref c) zs None w = (n, z, w1) \<and> 0 \<le> n \<and> cl_take_exception cl w1 = (None, w') \<and> conv z = Some v)"
proof (cases "callable_try_from_name cl api alloc (xg_name g) h w")
  case (Pair r h')
  show ?thesis
  proof (cases r)
    case (Inl e)
    then show ?thesis by (simp add: Pair extern_run_def)
  next
    case (Inr c)
    from Pair Inr have k: "cl_is_callable cl (owned_as_ref c) w" by (auto intro: callable_try_from_name_Inr)
    obtain q w' where q: "try_call cl c args w = (q, w')" by (metis surj_pair)
    have "fst (extern_run cl api alloc dbg conv g args (h, w)) = Returns (Some v) \<longleftrightarrow> (\<exists>z. q = Inr z \<and> conv z = Some v)"
      by (auto simp: Pair Inr extern_run_def q build_return_def assms split: sum.splits option.splits)
    also have "\<dots> \<longleftrightarrow> (\<exists>z w'. try_call cl c args w = (Inr z, w') \<and> conv z = Some v)" by (auto simp: q)
    finally show ?thesis by (auto simp: try_call_Inr [OF k] Pair Inr)
  qed
qed

lemma extern_run_ends:
  assumes "xf_output (xg_sig g) = RetType"
  shows "(\<exists>v. fst (extern_run cl api alloc dbg conv g args hw) = Returns (Some v)) \<or>
     (\<exists>m. fst (extern_run cl api alloc dbg conv g args hw) = Panics m \<and>
        (m = call_failed_message (xg_name g) \<or> (\<exists>e. m = not_found_message dbg (xg_name g) e)))"
proof (cases "callable_try_from_name cl api alloc (xg_name g) (fst hw) (snd hw)")
  case (Pair r h')
  then show ?thesis
    by (cases r) (auto simp: extern_run_def build_return_def assms split: prod.split sum.split option.split)
qed

text \<open>A function declared for PHP with a return type returns a value exactly when PHP knows its name, the arguments convert, the call
  succeeds without an exception and what it returns converts to that value; in every other case it panics, naming the function.\<close>

theorem extern_typed_result:
  assumes "xf_output (xg_sig g) = RetType"
  shows "(fst (extern_run cl api alloc dbg conv g args (h, w)) = Returns (Some v) \<longleftrightarrow>
      (\<exists>c h' zs n z w1 w'. callable_try_from_name cl api alloc (xg_name g) h w = (Inr c, h') \<and> args = map Inr zs \<and> length zs < 2 ^ 32 \<and>
         cl_call cl (owned_as_ref c) zs None w = (n, z, w1) \<and> 0 \<le> n \<and> cl_take_exception cl w1 = (None, w') \<and> conv z = Some v)) \<and>
    ((\<exists>v. fst (extern_run cl api alloc dbg conv g args (h, w)) = Returns (Some v)) \<or>
     (\<exists>m. fst (extern_run cl api alloc dbg conv g args (h, w)) = Panics m \<and>
        (m = call_failed_message (xg_name g) \<or> (\<exists>e. m = not_found_message dbg (xg_name g) e))))"
proof
  show "fst (extern_run cl api alloc dbg conv g args (h, w)) = Returns (Some v) \<longleftrightarrow>
      (\<exists>c h' zs n z w1 w'. callable_try_from_name cl api alloc (xg_name g) h w = (Inr c, h') \<and> args = map Inr zs \<and> length zs < 2 ^ 32 \<and>
         cl_call cl (owned_as_ref c) zs None w = (n, z, w1) \<and> 0 \<le> n \<and> cl_take_exception cl w1 = (None, w') \<and> conv z = Some v)"
    by (rule extern_run_result [OF assms])
qed (rule extern_run_ends [OF assms])

text \<open>A function declared for PHP without a return type returns even when the PHP function throws: the exception is taken from the
  engine and dropped with the result, so nobody learns of it.\<close>

theorem extern_exception_lost:
  assumes "xf_output (xg_sig g) = RetDefault"
    and "callable_try_from_name cl api alloc (xg_name g) h w = (Inr c, h')" and "length zs < 2 ^ 32"
    and "cl_call cl (owned_as_ref c) zs None w = (0, z, w1)" and "cl_take_exception cl w1 = (Some x, w2)"
  shows "extern_run cl api alloc dbg conv g (map Inr zs) (h, w) = (Returns None, zval_drop api h' (owned_as_ref c), w2)"
  using assms callable_try_from_name_Inr [OF assms(2)]
  by (simp add: extern_run_def build_return_def try_call_def call_result_def u32_try_into_def)

text \<open>The block is accepted exactly when it has only functions, none with a \<open>self\<close> parameter; then every function is generated, in order,
  unsafe, and passes on all its parameters.\<close>

lemma those_extern_param: "those (map extern_param as) = Some ps \<longleftrightarrow> as = map ArgTyped ps"
proof (induction as arbitrary: ps)
  case (Cons a as)
  then show ?case by (cases a) (auto simp: Cons_eq_map_conv)
qed auto

theorem extern_block_accepted:
  "extern_parser items = Inr gs \<longleftrightarrow>
   list_all2 (\<lambda>item g. \<exists>f. item = ForeignFn f \<and> xf_inputs f = map ArgTyped (xg_params g) \<and> xg_sig g = f\<lparr>xf_unsafe := True\<rparr> \<and>
     xg_name g = ident_to_php_name (xf_ident f)) items gs"
proof -
  have typed: "those (map (extern_param \<circ> ArgTyped) ps) = Some ps" for ps by (induction ps) auto
  have inj: "inj ArgTyped" by (simp add: inj_def)
  have item: "parse_foreign_item i = Inr g \<longleftrightarrow>
      (\<exists>f. i = ForeignFn f \<and> xf_inputs f = map ArgTyped (xg_params g) \<and> xg_sig g = f\<lparr>xf_unsafe := True\<rparr> \<and>
        xg_name g = ident_to_php_name (xf_ident f))" for i g
    by (cases i; cases g) (auto simp: parse_function_def those_extern_param typed inj_map_eq_map [OF inj] split: option.splits)
  have "map parse_foreign_item items = map Inr gs \<longleftrightarrow> list_all2 (\<lambda>i g. parse_foreign_item i = Inr g) items gs"
    by (auto simp: list_all2_conv_all_nth list_eq_iff_nth_eq)
  then show ?thesis by (simp add: extern_parser_def result_collect_Inr_iff item)
qed

text \<open>The names that the expansion of a constant declares are those that \<open>wrap\<close> refers to, except for a raw identifier: there \<open>wrap\<close> of the
  constant panics, which \<open>wrap\<close> of a function of that name does not.\<close>

lemma fragment_plain: "CHR ''#'' \<notin> set i \<Longrightarrow> fragment i = i"
  by (auto simp: fragment_def strip_prefix_Some_iff split: option.splits)

lemma format_ident_Some: "format_ident pre arg = Some i \<Longrightarrow> i = pre @ arg"
  by (simp add: format_ident_def split: if_splits)

theorem wrapped_constant_found:
  assumes "const_parser to_case item = Expands g" and "p = \<lparr>rp_leading = False, rp_segments = [(ci_ident item, False)]\<rparr>"
  shows "(CHR ''#'' \<notin> set (ci_ident item) \<longrightarrow> const_wrap p = Expands (cg_name_ident g, ci_ident item, cg_docs_ident g)) \<and>
    (CHR ''#'' \<in> set (ci_ident item) \<longrightarrow> const_wrap p = MacroPanics \<and> (\<exists>i. function_wrap p = Expands i \<and> internal_ident (ci_ident item) = Some i))"
  using assms
  by (auto simp: const_parser_def const_wrap_def function_wrap_def internal_ident_def path_ident_def fragment_plain Let_def
      format_ident_def valid_ident_def INTERNAL_CONST_DOC_PREFIX_def INTERNAL_CONST_NAME_PREFIX_def split: sum.splits option.splits if_splits)

text \<open>The identifiers declared for different constants are different, and so are the two declared for one.\<close>

theorem const_idents_distinct:
  assumes "const_parser to_case a = Expands g" and "const_parser to_case b = Expands k"
  shows "cg_name_ident g \<noteq> cg_docs_ident k \<and> (cg_name_ident g = cg_name_ident k \<longleftrightarrow> fragment (ci_ident a) = fragment (ci_ident b)) \<and>
    (cg_docs_ident g = cg_docs_ident k \<longleftrightarrow> fragment (ci_ident a) = fragment (ci_ident b))"
  using assms
  by (auto simp: const_parser_def Let_def INTERNAL_CONST_DOC_PREFIX_def INTERNAL_CONST_NAME_PREFIX_def dest!: format_ident_Some
      split: sum.splits option.splits if_splits)

text \<open>The documentation of an item is its documentation attributes in order, unless one of them is no text.\<close>

theorem get_docs_complete:
  "get_docs attrs = Inr ds \<longleftrightarrow> List.map_filter doc_of attrs = map DocText ds"
proof -
  have "map doc_value ms = map Inr ds \<longleftrightarrow> ms = map DocText ds" for ms
  proof (induction ms arbitrary: ds)
    case (Cons m ms)
    then show ?case by (cases m) (auto simp: Cons_eq_map_conv)
  qed simp
  then show ?thesis by (simp add: get_docs_def result_collect_Inr_iff)
qed

end
