(* ===== verification/EngineApi.thy ===== *)
theory EngineApi
  imports Convert Callables
begin

text \<open>
  \<open>src/zend/class.rs\<close>, \<open>src/zend/function.rs\<close>, the output functions of \<open>src/zend/mod.rs\<close>, \<open>src/constant.rs\<close> and the conversions of
  \<open>src/types/class_object.rs\<close>: what the crate asks of the engine on behalf of Rust code. Class entries are addresses, 0 being null; the
  engine's functions are parameters.
\<close>

unbundle bit_operations_syntax

section \<open>Class entries\<close>

definition ZEND_ACC_RESOLVED_PARENT :: u32 where "ZEND_ACC_RESOLVED_PARENT = 131072"
definition ZEND_ACC_RESOLVED_INTERFACES :: u32 where "ZEND_ACC_RESOLVED_INTERFACES = 262144"

text \<open>A class entry: its name, null or a Zend string, the union of the parent and its name, the interfaces with their number.\<close>

datatype ce_parent = ParentCe nat | ParentName "zend_str option"

record class_entry =
  en_ce_name :: "zend_str option"
  en_ce_flags :: u32
  en_ce_parent :: ce_parent
  en_ce_interfaces :: "nat list"

definition try_find :: "bool \<Rightarrow> (string \<Rightarrow> nat) \<Rightarrow> string \<Rightarrow> nat option" where
  "try_find has_class_table lookup name =
     (if \<not> has_class_table then None else if lookup name = 0 then None else Some (lookup name))"

definition ce_is_interface :: "class_entry \<Rightarrow> bool" where
  "ce_is_interface c = flags_contain (en_ce_flags c) ZEND_ACC_INTERFACE"

definition ce_interfaces :: "class_entry \<Rightarrow> nat list option" where
  "ce_interfaces c =
     (if flags_contain (en_ce_flags c) ZEND_ACC_RESOLVED_INTERFACES then Some (filter (\<lambda>p. p \<noteq> 0) (en_ce_interfaces c)) else None)"

text \<open>A name that is not UTF-8 is no name. The union is read as the flags say; \<open>None\<close> of the outer option stands for a read of the
  wrong member.\<close>

definition str_name :: "zend_str option \<Rightarrow> string option" where
  "str_name s = (case s of None \<Rightarrow> None | Some z \<Rightarrow> if utf8_valid (zs_bytes z) then Some (zs_bytes z) else None)"

definition ce_parent_of :: "bool \<Rightarrow> (string \<Rightarrow> nat) \<Rightarrow> class_entry \<Rightarrow> nat option option" where
  "ce_parent_of has_class_table lookup c =
     (if flags_contain (en_ce_flags c) ZEND_ACC_RESOLVED_PARENT
      then (case en_ce_parent c of ParentCe p \<Rightarrow> Some (if p = 0 then None else Some p) | ParentName _ \<Rightarrow> None)
      else case en_ce_parent c of
             ParentName s \<Rightarrow> Some (case str_name s of None \<Rightarrow> None | Some n \<Rightarrow> try_find has_class_table lookup n)
           | ParentCe _ \<Rightarrow> None)"

definition ce_name :: "class_entry \<Rightarrow> string option" where
  "ce_name c = str_name (en_ce_name c)"

section \<open>Static properties\<close>

record 'w static_api =
  sp_read :: "nat \<Rightarrow> string \<Rightarrow> 'w \<Rightarrow> zval option"
  sp_update :: "nat \<Rightarrow> string \<Rightarrow> zval \<Rightarrow> 'w \<Rightarrow> bool \<times> 'w"

definition get_static_property :: "'w static_api \<Rightarrow> (zval \<Rightarrow> 'v option) \<Rightarrow> nat \<Rightarrow> string \<Rightarrow> 'w \<Rightarrow> 'v option" where
  "get_static_property sa from_zval ce name w =
     (case cstring_new name of
        None \<Rightarrow> None
      | Some name \<Rightarrow> (case sp_read sa ce name w of None \<Rightarrow> None | Some z \<Rightarrow> from_zval z))"

text \<open>\<open>value\<close> is the result of \<open>into_zval\<close>.\<close>

definition set_static_property :: "'w static_api \<Rightarrow> nat \<Rightarrow> string \<Rightarrow> error + zval \<Rightarrow> 'w \<Rightarrow> (error + unit) \<times> 'w" where
  "set_static_property sa ce name value w =
     (case cstring_new name of
        None \<Rightarrow> (Inl InvalidCString, w)
      | Some name \<Rightarrow>
          (case value of
             Inl e \<Rightarrow> (Inl e, w)
           | Inr z \<Rightarrow> (case sp_update sa ce name z w of (ok, w) \<Rightarrow> (if ok then Inr () else Inl InvalidProperty, w))))"

section \<open>Functions of the engine\<close>

definition try_from_function :: "(string \<Rightarrow> 'f option) \<Rightarrow> string \<Rightarrow> 'f option" where
  "try_from_function fetch name = fetch name"

text \<open>The method table of a class is searched by the name in lower case, which is the engine's work.\<close>

definition try_from_method ::
    "bool \<Rightarrow> (string \<Rightarrow> nat) \<Rightarrow> (nat \<Rightarrow> string \<Rightarrow> 'f option) \<Rightarrow> string \<Rightarrow> string \<Rightarrow> 'f option" where
  "try_from_method has_class_table lookup find_lc cls name =
     (case try_find has_class_table lookup cls of None \<Rightarrow> None | Some ce \<Rightarrow> find_lc ce name)"

text \<open>\<open>Function::try_call\<close>: the engine writes the return value and leaves an exception pending.\<close>

definition function_try_call ::
    "('f \<Rightarrow> zval list \<Rightarrow> 'w \<Rightarrow> zval \<times> 'w) \<Rightarrow> 'f \<Rightarrow> (error + zval) list \<Rightarrow> 'w \<Rightarrow> (error + zval) \<times> 'w" where
  "function_try_call call_known f params w =
     (case result_collect params of
        Inl e \<Rightarrow> (Inl e, w)
      | Inr packed \<Rightarrow>
          (case u32_try_into (length params) of
             Inl e \<Rightarrow> (Inl e, w)
           | Inr _ \<Rightarrow> (case call_known f packed w of (retval, w) \<Rightarrow> (Inr retval, w))))"

section \<open>Output\<close>

text \<open>\<open>php_printf\<close> with a format for one C string writes that string; \<open>ub_write\<close> and \<open>php_output_write\<close> take the bytes with their number and
  answer how many were written. The output of the engine is what its buffers hold, and what went past them.\<close>

record 'w output_api =
  oa_printf :: "string \<Rightarrow> 'w \<Rightarrow> 'w"
  oa_ub_write :: "(string \<Rightarrow> 'w \<Rightarrow> nat \<times> 'w) option"
  oa_output_write :: "string \<Rightarrow> 'w \<Rightarrow> nat \<times> 'w"

definition zend_printf :: "'w output_api \<Rightarrow> string \<Rightarrow> 'w \<Rightarrow> (error + unit) \<times> 'w" where
  "zend_printf oa message w =
     (case cstring_new message of None \<Rightarrow> (Inl InvalidCString, w) | Some m \<Rightarrow> (Inr (), oa_printf oa m w))"

definition zend_write :: "'w output_api \<Rightarrow> string \<Rightarrow> 'w \<Rightarrow> (error + nat) \<times> 'w" where
  "zend_write oa bytes w =
     (case oa_ub_write oa of
        Some ub_write \<Rightarrow> (case ub_write bytes w of (n, w) \<Rightarrow> (Inr n, w))
      | None \<Rightarrow> (Inl SapiWriteUnavailable, w))"

definition output_write :: "'w output_api \<Rightarrow> string \<Rightarrow> 'w \<Rightarrow> nat \<times> 'w" where
  "output_write oa bytes w = oa_output_write oa bytes w"

definition php_sapi_name :: "string \<Rightarrow> string outcome" where
  "php_sapi_name name = (if utf8_valid name then Done name else Crash)"

text \<open>The print macros: a single token is printed as it is, more are formatted first; \<open>args\<close> is that token or the formatted text. \<open>dbg\<close> is the
  \<open>Debug\<close> text of the error, which \<open>expect\<close> appends.\<close>

definition php_print :: "(error \<Rightarrow> string) \<Rightarrow> 'w output_api \<Rightarrow> string \<Rightarrow> 'w \<Rightarrow> unit run \<times> 'w" where
  "php_print dbg oa args w =
     (case zend_printf oa args w of
        (Inl e, w) \<Rightarrow> (Panics (''Failed to print to PHP stdout: '' @ dbg e), w)
      | (Inr _, w) \<Rightarrow> (Returns (), w))"

definition php_println :: "(error \<Rightarrow> string) \<Rightarrow> 'w output_api \<Rightarrow> string \<Rightarrow> 'w \<Rightarrow> unit run \<times> 'w" where
  "php_println dbg oa args w = php_print dbg oa (args @ [CHR 0x0A]) w"

section \<open>Constants\<close>

text \<open>The values a constant can have; a number is given with its text.\<close>

datatype const_value = CvStr string | CvBool bool | CvLong int string | CvDouble u64 string

fun const_stub_value :: "const_value \<Rightarrow> string" where
  "const_stub_value (CvStr s) = quote (escape_stub s)"
| "const_stub_value (CvBool b) = (if b then ''true'' else ''false'')"
| "const_stub_value (CvLong _ t) = t"
| "const_stub_value (CvDouble _ t) = t"

datatype const_event =
    RegStr string nat string u32 int | RegBool string nat bool u32 int | RegLong string nat int u32 int | RegDouble string nat u64 u32 int

definition GLOBAL_CONST_PERSISTENT :: u32 where "GLOBAL_CONST_PERSISTENT = 1"

text \<open>\<open>register_constant_flags\<close>: the name is checked before the value, the flags have to fit the type the engine expects.\<close>

fun register_constant_flags :: "const_value \<Rightarrow> string \<Rightarrow> int \<Rightarrow> u32 \<Rightarrow> error + const_event" where
  "register_constant_flags (CvStr s) name module_number flags =
     (case cstring_new name of
        None \<Rightarrow> Inl InvalidCString
      | Some n \<Rightarrow>
          (case cstring_new s of
             None \<Rightarrow> Inl InvalidCString
           | Some s \<Rightarrow> if unat flags < 2 ^ 31 then Inr (RegStr n (length name) s flags module_number) else Inl IntegerOverflow))"
| "register_constant_flags (CvBool b) name module_number flags =
     (case cstring_new name of
        None \<Rightarrow> Inl InvalidCString
      | Some n \<Rightarrow> if unat flags < 2 ^ 31 then Inr (RegBool n (length name) b flags module_number) else Inl IntegerOverflow)"
| "register_constant_flags (CvLong v t) name module_number flags =
     (case cstring_new name of
        None \<Rightarrow> Inl InvalidCString
      | Some n \<Rightarrow> if unat flags < 2 ^ 31 then Inr (RegLong n (length name) v flags module_number) else Inl IntegerOverflow)"
| "register_constant_flags (CvDouble v t) name module_number flags =
     (case cstring_new name of
        None \<Rightarrow> Inl InvalidCString
      | Some n \<Rightarrow> if unat flags < 2 ^ 31 then Inr (RegDouble n (length name) v flags module_number) else Inl IntegerOverflow)"

definition register_constant_default :: "const_value \<Rightarrow> string \<Rightarrow> int \<Rightarrow> error + const_event" where
  "register_constant_default v name module_number = register_constant_flags v name module_number GLOBAL_CONST_PERSISTENT"

section \<open>Objects of a Rust class in zvals\<close>

text \<open>Reading one: of an object of another class, or one that is not initialised, nothing.\<close>

definition class_object_from_zval ::
    "ce_api \<Rightarrow> ('t, 'w) registered \<Rightarrow> ('h, 't class_object) zheap \<Rightarrow> zval \<Rightarrow> 't class_object option outcome" where
  "class_object_from_zval ca rg h z =
     (case zv_object h z of None \<Rightarrow> Done None | Some obj \<Rightarrow> from_zend_obj ca rg obj)"

definition class_object_from_zend_object ::
    "ce_api \<Rightarrow> ('t, 'w) registered \<Rightarrow> 't class_object \<Rightarrow> (error + 't class_object) outcome" where
  "class_object_from_zend_object ca rg obj =
     (case from_zend_obj ca rg obj of Crash \<Rightarrow> Crash | Done None \<Rightarrow> Done (Inl InvalidScope) | Done (Some c) \<Rightarrow> Done (Inr c))"

text \<open>\<open>Deref\<close> panics on an object that is not initialised.\<close>

definition class_object_deref :: "'t class_object \<Rightarrow> 't outcome" where
  "class_object_deref c = (case co_obj c of None \<Rightarrow> Crash | Some v \<Rightarrow> Done v)"

text \<open>The conversions the macro \<open>class_derives\<close> generates for a reference to the Rust value itself.\<close>

definition class_value_from_zend_object ::
    "ce_api \<Rightarrow> ('t, 'w) registered \<Rightarrow> 't class_object \<Rightarrow> (error + 't) outcome" where
  "class_value_from_zend_object ca rg obj =
     (case from_zend_obj ca rg obj of
        Crash \<Rightarrow> Crash
      | Done None \<Rightarrow> Done (Inl InvalidScope)
      | Done (Some c) \<Rightarrow> (case class_object_deref c of Crash \<Rightarrow> Crash | Done v \<Rightarrow> Done (Inr v)))"

definition class_value_from_zval ::
    "ce_api \<Rightarrow> ('t, 'w) registered \<Rightarrow> ('h, 't class_object) zheap \<Rightarrow> zval \<Rightarrow> 't option outcome" where
  "class_value_from_zval ca rg h z =
     (case zv_object h z of
        None \<Rightarrow> Done None
      | Some obj \<Rightarrow>
          (case class_value_from_zend_object ca rg obj of Crash \<Rightarrow> Crash | Done (Inl _) \<Rightarrow> Done None | Done (Inr v) \<Rightarrow> Done (Some v)))"

text \<open>Writing a box gives its reference to the zval; writing a borrowed object adds one.\<close>

definition class_box_set_zval ::
    "('h, 'o) zend_api \<Rightarrow> u64 \<Rightarrow> ('h, 'o) zheap \<times> zval \<Rightarrow> ('h, 'o) zheap \<times> zval" where
  "class_box_set_zval api a hz = set_object api a (dec_count a (fst hz), snd hz)"

definition class_ref_set_zval ::
    "('h, 'o) zend_api \<Rightarrow> u64 \<Rightarrow> ('h, 'o) zheap \<times> zval \<Rightarrow> ('h, 'o) zheap \<times> zval" where
  "class_ref_set_zval api a hz = set_object api a hz"

section \<open>Properties\<close>

text \<open>A function fetched from the engine answers a call with a value whenever the arguments convert, an exception or not: the
  exception stays pending. The same call through a callable takes the exception and answers with it.\<close>

theorem function_call_ignores_exception:
  assumes "length zs < 2 ^ 32" and "cl_is_callable cl (owned_as_ref c) w" and "cl_call cl (owned_as_ref c) zs None w = (0, z, w1)"
    and "call_known f zs w = (z, w1)" and "cl_take_exception cl w1 = (Some x, w2)"
  shows "function_try_call call_known f (map Inr zs) w = (Inr z, w1) \<and> try_call cl c (map Inr zs) w = (Inl (ErrException x), w2)"
  using assms by (simp add: function_try_call_def try_call_def call_result_def u32_try_into_def)

text \<open>A static property that was set is read back, given that the engine reads what it stored.\<close>

theorem static_property_roundtrip:
  assumes "\<And>ce n z w w'. sp_update sa ce n z w = (True, w') \<Longrightarrow> sp_read sa ce n w' = Some z"
    and "set_static_property sa ce name (Inr z) w = (Inr u, w')"
  shows "get_static_property sa from_zval ce name w' = from_zval z"
  using assms by (auto simp: set_static_property_def get_static_property_def split: option.splits prod.splits if_splits)

text \<open>The parent of a class and its interfaces are classes, never null.\<close>

theorem class_links_not_null:
  "ce_parent_of t lookup c \<noteq> Some (Some 0) \<and> list_all (\<lambda>p. p \<noteq> 0) (case ce_interfaces c of None \<Rightarrow> [] | Some is \<Rightarrow> is)"
  by (auto simp: ce_parent_of_def ce_interfaces_def try_find_def list_all_iff split: ce_parent.splits option.splits)

text \<open>A constant is registered with its own name and value exactly when neither has a NUL byte.\<close>

theorem constant_registered:
  "(\<exists>ev. register_constant_default v name m = Inr ev) \<longleftrightarrow>
     CHR 0x00 \<notin> set name \<and> (case v of CvStr s \<Rightarrow> CHR 0x00 \<notin> set s | _ \<Rightarrow> True)"
  by (cases v) (auto simp: register_constant_default_def GLOBAL_CONST_PERSISTENT_def cstring_new_def)

text \<open>A box of a class object that is written to a new zval hands over its own reference: no count changes. A borrowed object gains
  one.\<close>

lemma set_object_new: "set_object api a (h, zval_new) = (inc_count a h, zval_new\<lparr>zv_type_info := ZF_ObjectEx, zv_value := a\<rparr>)"
  by (simp add: set_object_def change_type_new)

theorem class_box_hands_over:
  "rc (fst (class_box_set_zval api a (h, zval_new))) = rc h \<and>
   rc (fst (class_ref_set_zval api a (h, zval_new))) = (rc h)(a := map_option (\<lambda>n. n + 1) (rc h a))"
  by (auto simp: class_box_set_zval_def class_ref_set_zval_def set_object_new rc_inc rc_dec option.map_comp comp_def fun_eq_iff option.map_ident
      split: option.splits)

text \<open>An object read from a zval is initialised, so using it does not panic; the value of a registered class is read without a
  panic from any zval, and exactly from the initialised objects of the class and its subclasses.\<close>

theorem class_object_read_usable:
  assumes "meta_ce rg = Some ce"
  shows "\<exists>r. class_value_from_zval ca rg h z = Done r \<and>
    (r = (case zv_object h z of
            None \<Rightarrow> None
          | Some obj \<Rightarrow> if co_handlers obj = rg_handlers rg \<and> instance_of ca (co_ce obj) ce then co_obj obj else None)) \<and>
    (class_object_from_zval ca rg h z = Done None \<longleftrightarrow> r = None)"
  using assms
  by (auto simp: class_value_from_zval_def class_value_from_zend_object_def class_object_from_zval_def from_zend_obj_def
      internal_from_zend_obj_def class_object_deref_def split: option.splits if_splits)

text \<open>Printing succeeds exactly when the text has no NUL byte, and then the engine prints it whole; otherwise nothing is printed and
  the macro panics. The binary functions pass any bytes on.\<close>

theorem print_whole_or_panic:
  "php_print dbg oa args w =
     (if CHR 0x00 \<in> set args then (Panics (''Failed to print to PHP stdout: '' @ dbg InvalidCString), w) else (Returns (), oa_printf oa args w)) \<and>
   output_write oa args w = oa_output_write oa args w"
  by (simp add: php_print_def zend_printf_def cstring_new_def output_write_def)

end
