(* ===== verification/ClosureClass.thy ===== *)
theory ClosureClass
  imports Register Callables
begin

text \<open>
  The class of Rust closures (\<open>Closure::build\<close> and \<open>invoke\<close> of \<open>src/closure.rs\<close>) and the class entries PHP brings itself (\<open>src/zend/ce.rs\<close>).
\<close>

section \<open>Class entries of PHP\<close>

datatype stock_class =
    Ce_stdclass | Ce_throwable | Ce_exception | Ce_error_exception | Ce_compile_error | Ce_parse_error | Ce_type_error
  | Ce_argument_count_error | Ce_value_error | Ce_arithmetic_error | Ce_division_by_zero_error | Ce_unhandled_match_error
  | Ce_traversable | Ce_aggregate | Ce_iterator | Ce_arrayaccess | Ce_serializable | Ce_countable | Ce_stringable

text \<open>The variable of the engine each function reads.\<close>

fun stock_variable :: "stock_class \<Rightarrow> string" where
  "stock_variable Ce_stdclass = ''zend_standard_class_def''"
| "stock_variable Ce_throwable = ''zend_ce_throwable''"
| "stock_variable Ce_exception = ''zend_ce_exception''"
| "stock_variable Ce_error_exception = ''zend_ce_error_exception''"
| "stock_variable Ce_compile_error = ''zend_ce_compile_error''"
| "stock_variable Ce_parse_error = ''zend_ce_parse_error''"
| "stock_variable Ce_type_error = ''zend_ce_type_error''"
| "stock_variable Ce_argument_count_error = ''zend_ce_argument_count_error''"
| "stock_variable Ce_value_error = ''zend_ce_value_error''"
| "stock_variable Ce_arithmetic_error = ''zend_ce_arithmetic_error''"
| "stock_variable Ce_division_by_zero_error = ''zend_ce_division_by_zero_error''"
| "stock_variable Ce_unhandled_match_error = ''zend_ce_unhandled_match_error''"
| "stock_variable Ce_traversable = ''zend_ce_traversable''"
| "stock_variable Ce_aggregate = ''zend_ce_aggregate''"
| "stock_variable Ce_iterator = ''zend_ce_iterator''"
| "stock_variable Ce_arrayaccess = ''zend_ce_arrayaccess''"
| "stock_variable Ce_serializable = ''zend_ce_serializable''"
| "stock_variable Ce_countable = ''zend_ce_countable''"
| "stock_variable Ce_stringable = ''zend_ce_stringable''"

text \<open>A null pointer panics.\<close>

definition stock_ce :: "(string \<Rightarrow> nat) \<Rightarrow> stock_class \<Rightarrow> nat outcome" where
  "stock_ce vars c = (if vars (stock_variable c) = 0 then Crash else Done (vars (stock_variable c)))"

text \<open>Each function reads a variable of its own.\<close>

theorem stock_variables_distinct: "stock_variable c = stock_variable d \<longleftrightarrow> c = d"
  by (cases c; cases d) simp_all

section \<open>The closure class\<close>





text \<open>\<open>invoke\<close>: the handler of \<open>__invoke\<close>, on an object that is no closure a panic.\<close>

definition closure_handler ::
    "ce_api \<Rightarrow> (nat \<Rightarrow> nat \<Rightarrow> 'w eng \<Rightarrow> 'w eng) \<Rightarrow> ('r option \<Rightarrow> zval \<Rightarrow> error + zval) \<Rightarrow> 'v closure_param list \<Rightarrow>
     zval option list \<Rightarrow> zval \<Rightarrow> ('v, 'r, 'w) closure_body option \<times> 'w eng \<Rightarrow>
     ('v list option \<times> zval \<times> ('v, 'r, 'w) closure_body \<times> 'w eng) run" where
  "closure_handler ca wrong_count set_ret ps zs ret ce =
     (case ce of
        (None, e) \<Rightarrow> Panics ''Internal closure function called on non-closure class''
      | (Some c, e) \<Rightarrow> Returns (closure_invoke ca wrong_count set_ret ps zs ret (c, e)))"

section \<open>Properties\<close>








end
