(* ===== verification/Spec2Isabelle.thy ===== *)
theory Spec2Isabelle
  imports MacroImpl MacroEnum PhpEval PhpBuild HashIter ObjHandlers Observers ModuleLife Iterators Callables Derive Embed Cli Binary
    Globals IniStreams ModGlobals Convert Boxes MacroMisc EngineApi ClosureClass
begin

text \<open>
  A verification library for \<open>ext-php-rs\<close>, the Rust crate that lets PHP extensions be written in Rust:
  the runtime library (\<open>src/\<close>), the procedural macros (\<open>crates/macros\<close>), the build script (\<open>build.rs\<close>,
  \<open>unix_build.rs\<close>, \<open>crates/php-build\<close>) and the command line tool (\<open>crates/cli\<close>).

  \<^bold>\<open>How the parts interact.\<close> The macros read a Rust function and emit a function builder and a handler.
  When the extension starts, the builders are registered with the Zend engine; the same builders are
  described and printed as PHP stubs. When PHP calls the function, the engine runs the handler: it reads
  the zvals of the call (directly, or through the argument parser), converts them to Rust values, calls
  the function and converts the result, under \<open>try_catch\<close>, so that a PHP fatal error (a bailout, a
  \<open>longjmp\<close>) still drops guarded Rust values. Classes written in Rust are objects that carry a Rust
  value in front of the engine's object, with their own property handlers. Arrays are the engine's hash
  tables behind a typed interface.

  \<^bold>\<open>Theories and sources.\<close>

  \<^item> \<open>Prelude\<close>: machine integers, results, and the functions of the Rust standard library the sources use
    on strings. \<open>ZendConst\<close>: constants of \<open>docsrs_bindings.rs\<close>.
  \<^item> \<open>Flags\<close>: \<open>src/flags.rs\<close> (data types and their integers) and \<open>src/error.rs\<close>.
  \<^item> \<open>Args\<close>: \<open>src/zend/_type.rs\<close>, \<open>src/args.rs\<close> and \<open>src/builders/function.rs\<close>: type masks, declared
    arguments, the parser of a call, the function entry. The locale \<open>arg_sink\<close> is what the parser and the
    function builder share as collectors of arguments; both interpret it.
  \<^item> \<open>MacroArgs\<close>, \<open>MacroFn\<close>, \<open>MacroNames\<close>: \<open>crates/macros/src/function.rs\<close>, \<open>syn_ext.rs\<close> and \<open>parsing.rs\<close>: parameters,
    the two generated handler bodies, the emitted builders, and PHP names.
  \<^item> \<open>MacroImpl\<close>, \<open>MacroEnum\<close>: \<open>crates/macros/src/impl_.rs\<close>, \<open>class.rs\<close>, \<open>interface.rs\<close>, \<open>impl_interface.rs\<close> and \<open>enum_.rs\<close>: the
    parsing of implementation blocks, class fields, interfaces, their implementations and enums, the checks the
    macros make, and the builders, property tables and conversions they emit. \<open>MacroMisc\<close>: \<open>extern_.rs\<close>, \<open>constant.rs\<close>, \<open>helpers.rs\<close>,
    \<open>fastcall.rs\<close>: PHP functions declared in Rust with the functions generated for them, and exported constants.
  \<^item> \<open>ZendString\<close>: \<open>src/types/string/mod.rs\<close>, with Rust's UTF-8 decoder. \<open>ArrayKey\<close>:
    \<open>src/types/array/array_key.rs\<close>, with the locale \<open>text_key\<close> for the three textual forms of a key.
  \<^item> \<open>Zval\<close>, \<open>Coerce\<close>: \<open>src/types/zval.rs\<close>, \<open>src/convert.rs\<close>, \<open>src/types/long.rs\<close>, \<open>src/macros.rs\<close>: the zval over an
    explicit heap with reference counts, getters (locales \<open>value_getter\<close> and \<open>converted_getter\<close>), setters, clone, drop,
    separation, and the coercions. \<open>Convert\<close>: the conversion traits with their type constants, also for exported enums
    (\<open>src/types/mod.rs\<close>, \<open>src/enum_.rs\<close>). \<open>Boxes\<close>: \<open>src/alloc.rs\<close>, \<open>src/boxed.rs\<close>, \<open>src/describe/abi.rs\<close>. \<open>Binary\<close>: \<open>src/binary.rs\<close>, \<open>src/binary_slice.rs\<close>.
  \<^item> \<open>HashTable\<close>, \<open>HashIter\<close>: \<open>src/types/array/mod.rs\<close>, \<open>entry.rs\<close>, \<open>iterators.rs\<close> and \<open>conversions/\<close>: the operations,
    the entry API, both iterators and the conversions from and to Rust collections. The engine's table and
    its cursors are records of functions (\<open>hash_api\<close>, \<open>iter_api\<close>); what the engine documents of them is
    \<open>hash_api_ok\<close> and \<open>iter_api_ok\<close>, which \<open>list_api\<close> and \<open>slots_api\<close> satisfy.
  \<^item> \<open>ClassObject\<close>, \<open>ObjHandlers\<close>: \<open>src/class.rs\<close>, \<open>src/types/class_object.rs\<close>, \<open>src/exception.rs\<close>, the object creation of
    \<open>src/builders/class.rs\<close> and \<open>src/zend/handlers.rs\<close>: class metadata, exceptions, objects with a Rust value, their
    life cycle as a step relation, and the property handlers with their cache and visibility checks.
  \<^item> \<open>ZendObj\<close>: \<open>src/types/object.rs\<close>: an object of any class through its handlers - properties, method calls, identity, lazy
    objects. \<open>Derive\<close>: \<open>crates/macros/src/zval.rs\<close>: what \<open>derive(ZvalConvert)\<close> accepts and the conversions it generates.
  \<^item> \<open>Callables\<close>: \<open>src/types/callable.rs\<close>, \<open>src/closure.rs\<close>, \<open>src/zend/ex.rs\<close>: calls from Rust into PHP, Rust closures as PHP
    objects, and the arguments in a call frame. \<open>Iterators\<close>: \<open>src/types/iterator.rs\<close>, \<open>iterable.rs\<close>, \<open>src/zend/linked_list.rs\<close>;
    the locale \<open>rust_iterator\<close> is a \<open>for\<close> loop over any \<open>Iterator\<close>, interpreted for the three of them.
    \<open>ClosureClass\<close>: the class of closures, and \<open>src/zend/ce.rs\<close>. \<open>EngineApi\<close>: \<open>src/zend/class.rs\<close>, \<open>function.rs\<close>, the output functions of
    \<open>src/zend/mod.rs\<close>, \<open>src/constant.rs\<close>, and class objects in zvals.
  \<^item> \<open>Globals\<close>: \<open>src/zend/globals.rs\<close>: guards of the engine's globals over their locks, the pending exception, and what is read through
    them. \<open>ModGlobals\<close>: \<open>src/zend/module_globals.rs\<close>. \<open>IniStreams\<close>: \<open>src/builders/ini.rs\<close>, \<open>src/util/cstring_scope.rs\<close>, \<open>src/zend/streams.rs\<close>.
  \<^item> \<open>Describe\<close>, \<open>Stub\<close>: \<open>src/describe/mod.rs\<close>, \<open>src/describe/stub.rs\<close> and the collecting parts of \<open>src/builders/class.rs\<close>,
    \<open>enum_builder.rs\<close>, \<open>module.rs\<close>, \<open>src/enum_.rs\<close>: descriptions of a module and its stub text.
  \<^item> \<open>Register\<close>: the registering parts of the same builders and \<open>src/constant.rs\<close>: what a loaded extension tells the
    engine, as a log of the calls in order. \<open>ModuleLife\<close>: \<open>src/zend/module.rs\<close> and \<open>crates/macros/src/module.rs\<close>: the generated
    \<open>get_module\<close>, startup and shutdown functions over their statics, and the release of what the builders allocated.
  \<^item> \<open>Observers\<close>: \<open>src/zend/observer.rs\<close>, \<open>error_observer.rs\<close>, \<open>exception_observer.rs\<close>, \<open>zend_extension.rs\<close>: registration of observers,
    their start-up, the callbacks of the engine, backtraces, and the hooks of a Zend extension.
  \<^item> \<open>Bailout\<close>, \<open>PhpEval\<close>: \<open>src/zend/bailout_guard.rs\<close>, \<open>src/zend/try_catch.rs\<close>, \<open>src/php_eval.rs\<close>: guards and bailouts as a step
    relation over a stack of handler frames, and the execution of embedded PHP code.
  \<^item> \<open>Embed\<close>: \<open>src/builders/sapi.rs\<close>, \<open>src/embed/mod.rs\<close>, \<open>sapi_trait.rs\<close>, \<open>server_vars.rs\<close>, \<open>src/zend/ini_entry_def.rs\<close>: the builder of a
    server interface, the functions through which PHP calls a server written in Rust, PHP run inside a Rust program, INI entries.
  \<^item> \<open>PhpBuild\<close>: the build script. \<open>Cli\<close>: installing and removing an extension over a file system.

  \<^bold>\<open>What is shown.\<close> Calls: no argument is lost or misplaced, calls with the wrong number of arguments are
  rejected exactly, the two handler bodies agree, the function entry agrees with the parser, integers
  reach the Rust function unchanged or are refused. Values: setters and getters agree, references are
  transparent, cloning and dropping balance, separation gives a single owner. Arrays: the operations
  refine an insertion-ordered finite map, iteration is complete, vectors and maps survive the round trip.
  Objects: every Rust value is dropped exactly once, the property cache is transparent, forbidden access
  runs no user code. Bailouts: without a surviving frame nothing is lost or dropped twice. Stubs: every
  export appears once, and what is registered is what is described. Macros: which enums are accepted and what
  their discriminants become, that no member of an implementation block is lost, and how far an interface and its implementation
  agree. Modules: whatever PHP calls, nothing is freed twice and a shared shutdown frees everything. Observers: a throw
  notifies the observer once and calls the previous hook. Closures run exactly for the calls that are accepted, a \<open>FnOnce\<close> once;
  loops over PHP iterables end and see everything; structs and enums with derived conversions survive the round trip;
  lazy objects settle; a mutable view of the engine's globals is exclusive in every interleaving, an exception is taken once, each
  thread has its own module globals; a conversion delivers the type it declares and comes back; an embedded run always releases the engine. Installation and removal restore the configuration. Where the code does
  something its comments or PHP's rules do not say, the theorem states what it does.

  \<^bold>\<open>Modelling choices.\<close> A Rust string is its UTF-8 bytes. A zval's union is a 64-bit word, its type word 32
  bits; floats are bit patterns. \<open>Result\<close> is a sum with the error on the left; a panic is \<open>None\<close>, \<open>Crash\<close> or an
  error value of its own. Code outside the repository (the engine, \<open>syn\<close>, \<open>convert_case\<close>, processes) is an argument of
  the definitions that use it; a contract on it is a hypothesis, and a witness instantiates it. Definitions
  are total: loops are structural recursions or carry termination proofs (the iterators
  terminate because each step brings the counters together), so no fuel is used. The walk over the engine's frames in
  \<open>Observers\<close> and the \<open>for\<close> loop over an iterator in \<open>Iterators\<close> are partial functions into \<open>option\<close>, and theorems say when they return.

  \<^bold>\<open>Not modelled.\<close> Token emission of the macros apart from the behaviour of what is emitted; attribute
  parsing, done by a library. Plain reads of fields of the engine's structs in \<open>src/zend/globals.rs\<close>; the thread guard and worker calls of
  embedding, single foreign calls; formatting traits. The Windows build (\<open>windows_build.rs\<close>: downloads) and the list \<open>allowed_bindings.rs\<close>.
  The generated bindings apart from the constants used.
\<close>

section \<open>A call from the engine to the Rust function\<close>

text \<open>C1. A function whose parameters are required integers, called with integer zvals: whichever body
  was generated, it calls the Rust function with exactly the integers passed when each lies in the
  range of its parameter's type, and otherwise throws for the first parameter whose integer does
  not fit, without calling it.\<close>

theorem handler_passes_integers:
  assumes "list_all plain_param typed" and "length vs = length typed" and "list_all in_i64 vs"
    and "length typed < 2 ^ 32"
  shows "let zs = map (\<lambda>v. Some (snd (set_long api v (h, zval_new)))) vs;
             conv = (\<lambda>a. int_from_zval (lo a) (hi a) h');
             outcome = (case find (\<lambda>(a, v). \<not> (lo a \<le> v \<and> v \<le> hi a)) (zip typed vs) of
                          None \<Rightarrow> Called (map Plain vs)
                        | Some (a, v) \<Rightarrow> Thrown (ThrowInvalid (ta_name a)))
         in fast_handler conv null_test ev typed None zs = outcome \<and>
            slow_handler ty_of stub_of conv null_test ev typed None zs = outcome"
proof -
  have "is_fast_path_eligible typed" "\<forall>(a, z) \<in> set (zip (fst (split_args typed None)) zs).
      ta_default a \<noteq> None \<and> \<not> ta_nullable a \<longrightarrow> \<not> null_test (the z)" for zs :: "zval option list"
    using assms(1) split_args_plain [OF assms(1)]
    by (auto simp: is_fast_path_eligible_def list_ex_iff list_all_iff plain_param_def is_optional_def dest!: set_zip_leftD)
  then have "fast_handler conv null_test ev typed None zs = slow_handler ty_of stub_of conv null_test ev typed None zs"
    if "\<forall>z \<in> set zs. z \<noteq> None" for conv and zs :: "zval option list"
    using assms(4) that by (intro fast_slow_agree) auto
  from this [of "map (\<lambda>v. Some (snd (set_long api v (h, zval_new)))) vs" "\<lambda>a. int_from_zval (lo a) (hi a) h'"]
  show ?thesis
    using fast_handler_integers [OF assms(1-3), of lo hi h' null_test ev api h] unfolding Let_def by simp
qed

text \<open>Two parameters, an \<open>i64\<close> and a \<open>u8\<close>.\<close>

definition int_params :: "unit typed_arg list" where
  "int_params = map (\<lambda>n. \<lparr>ta_name = n, ta_ty = RPath [(''i64'', None)], ta_nullable = False, ta_default = None,
     ta_as_ref = False, ta_variadic = False\<rparr>) [''a'', ''b'']"

theorem handler_passes_integers_witness:
  "slow_handler (\<lambda>_. DtLong) (\<lambda>_. '''')
     (\<lambda>a. int_from_zval (if ta_name a = ''b'' then 0 else i64_min) (if ta_name a = ''b'' then 255 else i64_max) (heap_with_ref zval_new))
     is_null (\<lambda>_. Opt None) int_params None
     (map (\<lambda>v. Some (snd (set_long counting_api v (heap_with_ref zval_new, zval_new)))) [-3, 300]) =
   Thrown (ThrowInvalid ''b'')"
proof -
  have "list_all plain_param int_params" "list_all in_i64 [-3, 300]" "length int_params < 2 ^ 32"
    "length [-3, 300 :: int] = length int_params"
    by (simp_all add: int_params_def plain_param_def is_optional_def i64_defs)
  note handler_passes_integers [OF this(1,4,2,3), of counting_api "heap_with_ref zval_new"
    "\<lambda>a. if ta_name a = ''b'' then 0 else i64_min" "\<lambda>a. if ta_name a = ''b'' then 255 else i64_max"
    "heap_with_ref zval_new" is_null "\<lambda>_. Opt None" "\<lambda>_. DtLong" "\<lambda>_. ''''"]
  from conjunct2 [OF this [unfolded Let_def]] show ?thesis
    by (simp add: int_params_def i64_defs)
qed

section \<open>A function as registered and as described\<close>

text \<open>The parameters of the builder and the counts of its function entry.\<close>

lemma function_builder_of_fields:
  fixes b :: "'z function_builder"
  assumes "function_builder_of ty_of stub_of info addr f ct = Some b"
  shows "fb_args b = map (arg_builder ty_of stub_of) (fa_typed (mf_args f))"
    and "fb_n_req b = Some (length (fst (split_args (fa_typed (mf_args f)) (mf_optional f))))"
    and "fb_name b = mf_name f"
    and "fb_retval b = None \<longleftrightarrow> mf_output f = None \<and> is_method (Some ct) \<and> (mf_name f = ''__destruct'' \<or> mf_name f = ''__clone'')"
proof -
  from assms have b: "b = declare_function ty_of stub_of info f (Some ct) (fb_new (mf_name f) addr)"
    by (simp add: function_builder_of_def split: if_splits)
  let ?new = "fb_new (mf_name f) addr :: 'z function_builder"
  have new: "fb_args ?new = []" "fb_retval ?new = None" "fb_name ?new = mf_name f" by (simp_all add: fb_new_def fb_with_def)
  note fields = declare_function_fields [OF new(1,2), of ty_of stub_of info f "Some ct", folded b]
  show "fb_args b = map (arg_builder ty_of stub_of) (fa_typed (mf_args f))"
    "fb_n_req b = Some (length (fst (split_args (fa_typed (mf_args f)) (mf_optional f))))" "fb_name b = mf_name f"
    "fb_retval b = None \<longleftrightarrow> mf_output f = None \<and> is_method (Some ct) \<and> (mf_name f = ''__destruct'' \<or> mf_name f = ''__clone'')"
    using fields new(3) by simp_all
qed

lemma fb_build_counts:
  assumes "fb_build php83 b = Inr fe"
  shows "ai_name (hd (fe_arg_info fe)) = RequiredArgs (fb_required b)" and "fe_num_args fe = length (fb_args b)"
    and "length (fb_args b) < 2 ^ 32"
proof -
  from assms obtain t infos where fe: "result_collect (map (as_arg_info php83) (fb_args b)) = Inr infos"
      "fe_arg_info fe = \<lparr>ai_name = RequiredArgs (fb_required b), ai_type = t, ai_default = None\<rparr> # infos" "fe_num_args fe = length infos"
    by (rule fb_build_Inr)
  then have len: "length infos = length (fb_args b)" by (metis length_map result_collect_Inr_iff)
  with fe show "ai_name (hd (fe_arg_info fe)) = RequiredArgs (fb_required b)" "fe_num_args fe = length (fb_args b)" by simp_all
  show "length (fb_args b) < 2 ^ 32"
    using assms len fe(1) by (auto simp: fb_build_def Let_def u32_try_into_def split: option.splits sum.splits if_splits)
qed

text \<open>C5. The handler generated for a function or method and the entry registered for it agree on how many arguments a call
  may have: on an object of the class (where one is needed), the handler reports a wrong count for exactly the
  calls with fewer arguments than the entry requires, or with more than it has where the last parameter is
  not variadic, and it reports the two numbers of the entry. This holds for both kinds of generated body, and for
  variadic parameters and the \<open>optional\<close> attribute too.\<close>

theorem handler_counts_as_registered:
  fixes b :: "'z function_builder" and zs :: "'z option list"
  assumes "function_builder_of ty_of stub_of info addr f ct = Some b" and "fb_build php83 b = Inr fe"
    and "this \<or> \<not> needs_this ct"
  shows "handler_body ty_of stub_of conv null_test ev ct this (fa_typed (mf_args f)) (mf_optional f) zs =
           Handled (WrongCount lo hi) \<longleftrightarrow>
         ai_name (hd (fe_arg_info fe)) = RequiredArgs lo \<and> fe_num_args fe = hi \<and>
         (length zs < lo \<or> hi < length zs \<and> \<not> has_variadic (fb_args b))"
proof -
  note fields = function_builder_of_fields [OF assms(1)] and counts = fb_build_counts [OF assms(2)]
  have len: "length (fa_typed (mf_args f)) < 2 ^ 32" using counts(3) by (simp add: fields(1))
  show ?thesis
    unfolding handler_body_count [OF len assms(3)] counts fb_required_declared [OF fields(1,2)]
    by (auto simp: fields(1) has_variadic_map Let_def)
qed

text \<open>C36. The stub of a generated function lists its parameters in order: each with its type (the declared data type, marked nullable
  where the parameter is, or the documented type where the declared one is \<open>mixed\<close>), the dots of a variadic one, its
  PHP name, and a default exactly when it is nullable or has one, even where the engine requires it because a
  parameter without default follows. Where no \<open>optional\<close> attribute is given and no variadic parameter has a default,
  each parameter that the registered entry lets a call leave out is shown with a default or as
  variadic. A return type is missing only for \<open>__destruct\<close> and \<open>__clone\<close>.\<close>

theorem described_function_params:
  fixes b :: "'z function_builder"
  assumes "function_builder_of ty_of stub_of info addr f ct = Some b"
  shows "let d = function_from_builder b; typed = fa_typed (mf_args f)
         in f_name d = mf_name f \<and>
            map (param_to_stub ov) (f_params d) =
              map (\<lambda>a. stub_type_text ov ty_of a @ '' '' @ (if ta_variadic a then ''...'' else []) @ ''$'' @ php_param_name a @
                (case (ta_default a, ta_nullable a) of
                   (Some e, _) \<Rightarrow> '' = '' @ stub_of e | (None, True) \<Rightarrow> '' = null'' | (None, False) \<Rightarrow> [])) typed \<and>
            (mf_optional f = None \<and> (\<forall>a \<in> set typed. ta_variadic a \<longrightarrow> ta_default a = None \<and> \<not> ta_nullable a) \<longrightarrow>
               (\<forall>i < length typed. fb_required b \<le> i \<longrightarrow>
                  ta_default (typed ! i) \<noteq> None \<or> ta_nullable (typed ! i) \<or> ta_variadic (typed ! i))) \<and>
            (f_ret d = None \<longleftrightarrow> mf_output f = None \<and> is_method (Some ct) \<and>
               (mf_name f = ''__destruct'' \<or> mf_name f = ''__clone''))"
proof -
  let ?typed = "fa_typed (mf_args f)"
  note fields = function_builder_of_fields [OF assms]
  have clause: "stub_default_clause stub_of a = (case (ta_default a, ta_nullable a) of
      (Some e, _) \<Rightarrow> '' = '' @ stub_of e | (None, True) \<Rightarrow> '' = null'' | (None, False) \<Rightarrow> [])" for a
    by (auto simp: stub_default_clause_def is_optional_def split: option.splits bool.splits)
  have "is_optional (?typed ! i) \<or> ta_variadic (?typed ! i)"
    if "mf_optional f = None" "\<forall>a \<in> set ?typed. ta_variadic a \<longrightarrow> ta_default a = None \<and> \<not> ta_nullable a"
      "i < length ?typed" "fb_required b \<le> i" for i
  proof (cases "ta_variadic (last ?typed)")
    case True
    have ne: "?typed \<noteq> []" using that(3) by auto
    then have "fst (split_args ?typed None) = ?typed"
      using that(2) True last_in_set [OF ne] by (intro variadic_last_required) (auto simp: is_optional_def)
    then have "i = length ?typed - 1"
      using that(1,3,4) True ne by (simp add: fb_required_declared [OF fields(1,2)])
    with True ne show ?thesis by (simp add: last_conv_nth)
  next
    case False
    with that(1,4) have "length (fst (split_args ?typed None)) \<le> i" by (simp add: fb_required_declared [OF fields(1,2)])
    from optional_part_optional [OF this that(3)] show ?thesis ..
  qed
  moreover have "map (param_to_stub ov) (f_params (function_from_builder b)) =
      map (\<lambda>a. stub_type_text ov ty_of a @ '' '' @ (if ta_variadic a then ''...'' else []) @ ''$'' @ php_param_name a @
        stub_default_clause stub_of a) ?typed"
    by (simp add: function_from_builder_def fields(1) comp_def param_to_stub_described)
  moreover have "f_name (function_from_builder b) = mf_name f" "f_ret (function_from_builder b) = None \<longleftrightarrow> fb_retval b = None"
    by (simp_all add: function_from_builder_def retval_from_def fields(3))
  ultimately show ?thesis
    using fields(4) unfolding Let_def clause is_optional_def by (intro conjI allI impI) (blast | simp only:)+
qed

text \<open>An \<open>Option<i64>\<close> parameter followed by an \<open>i64\<close>: both are required, the first is shown with a default.\<close>

definition nullable_then_plain :: "unit macro_function" where
  "nullable_then_plain =
     \<lparr>mf_name = ''f'',
      mf_args = \<lparr>fa_receiver = None,
        fa_typed = map (\<lambda>(n, nullable). \<lparr>ta_name = n, ta_ty = RPath [(''i64'', None)], ta_nullable = nullable,
          ta_default = None, ta_as_ref = False, ta_variadic = False\<rparr>) [(''a'', True), (''b'', False)]\<rparr>,
      mf_output = None, mf_optional = None, mf_docs = []\<rparr>"

lemma nullable_then_plain_builder:
  obtains b :: "nat function_builder" where
    "function_builder_of (\<lambda>_. DtLong) (\<lambda>_. '''') (\<lambda>_. (DtVoid, False)) 1 nullable_then_plain CallFunction = Some b"
  by (simp add: function_builder_of_def)

theorem described_function_params_witness:
  "\<exists>b. function_builder_of (\<lambda>_. DtLong) (\<lambda>_. '''') (\<lambda>_. (DtVoid, False)) 1 nullable_then_plain CallFunction =
       Some (b :: nat function_builder) \<and>
     map (param_to_stub Map.empty) (f_params (function_from_builder b)) = [''?int $a = null'', ''int $b'']"
proof -
  obtain b :: "nat function_builder" where
    b: "function_builder_of (\<lambda>_. DtLong) (\<lambda>_. '''') (\<lambda>_. (DtVoid, False)) 1 nullable_then_plain CallFunction = Some b"
    by (rule nullable_then_plain_builder)
  from described_function_params [OF b, of Map.empty] b show ?thesis
    by (auto simp: Let_def nullable_then_plain_def php_param_name_def stub_type_text_def never_nullable_def datatype_stub_def strip_prefix_def)
qed

theorem handler_counts_as_registered_witness:
  "\<exists>b fe. function_builder_of (\<lambda>_. DtLong) (\<lambda>_. '''') (\<lambda>_. (DtVoid, False)) 1 nullable_then_plain CallFunction =
       Some (b :: nat function_builder) \<and> fb_build True b = Inr fe \<and>
     handler_body (\<lambda>_. DtLong) (\<lambda>_. '''') (\<lambda>_ z. Some z) (\<lambda>_. False) (\<lambda>_. Opt None) CallFunction False
       (fa_typed (mf_args nullable_then_plain)) None [Some (7 :: nat)] = Handled (WrongCount 2 2)"
proof -
  obtain b :: "nat function_builder" where
    b: "function_builder_of (\<lambda>_. DtLong) (\<lambda>_. '''') (\<lambda>_. (DtVoid, False)) 1 nullable_then_plain CallFunction = Some b"
    by (rule nullable_then_plain_builder)
  then have "\<exists>fe. fb_build True b = Inr fe"
    by (auto simp: function_builder_of_def nullable_then_plain_def returns_self_ref_def declare_function_def split_args_def is_optional_def
      build_returns_def is_method_def fb_build_def Let_def fb_returns_def fb_arg_def fb_not_required_def fb_new_def fb_with_def
      as_arg_info_def arg_builder_def arg_new_def arg_set_allow_null_def strip_prefix_def cstring_new_def empty_from_type_def
      empty_from_primitive_type_def u32_try_into_def)
  then obtain fe where fe: "fb_build True b = Inr fe" by blast
  have "fb_required b = 2" "length (fb_args b) = 2"
    using fb_required_declared [OF function_builder_of_fields(1,2) [OF b]] function_builder_of_fields(1) [OF b]
    by (simp_all add: nullable_then_plain_def split_args_def is_optional_def)
  with handler_counts_as_registered [OF b fe, of False "\<lambda>_ z. Some z" "\<lambda>_. False" "\<lambda>_. Opt None" "[Some 7]" 2 2] b fe
    fb_build_counts [OF fe]
  show ?thesis by (auto simp: needs_this_def nullable_then_plain_def)
qed

end
